(* ===== verification/PyText.thy ===== *)
theory PyText
  imports Prelude
begin

text \<open>
  Python's \<open>str\<close> as the program uses it. A string is a \<open>char list\<close>, one \<open>char\<close> for each code
  point below 256: the model covers the text of the Latin-1 range exactly (its white space, letters,
  case mapping and line ends) and leaves code points from 256 on out. Slices \<open>s[:n]\<close> and \<open>s[n:]\<close>
  are \<open>take\<close> and \<open>drop\<close>, \<open>startswith\<close> and \<open>endswith\<close> are \<open>prefix\<close> and \<open>suffix\<close> of the library.
\<close>

type_synonym str = "char list"

definition ord :: "char \<Rightarrow> nat" where
  "ord c = of_char c"

definition chr :: "nat \<Rightarrow> char" where
  "chr n = char_of n"

lemma ord_less [simp]: "ord c < 256"
  by (simp add: ord_def)

lemma chr_ord [simp]: "chr (ord c) = c"
  by (simp add: ord_def chr_def)

lemma ord_chr: "n < 256 \<Longrightarrow> ord (chr n) = n"
  by (simp add: ord_def chr_def)

lemma ord_inject [simp]: "ord a = ord b \<longleftrightarrow> a = b"
  by (simp add: ord_def)

subsection \<open>Character classes\<close>

definition is_digit :: "char \<Rightarrow> bool" where
  "is_digit c = (48 \<le> ord c \<and> ord c \<le> 57)"

definition is_upper :: "char \<Rightarrow> bool" where
  "is_upper c = (65 \<le> ord c \<and> ord c \<le> 90)"

definition is_lower :: "char \<Rightarrow> bool" where
  "is_lower c = (97 \<le> ord c \<and> ord c \<le> 122)"

definition is_alpha :: "char \<Rightarrow> bool" where
  "is_alpha c = (is_upper c \<or> is_lower c)"

definition is_alnum :: "char \<Rightarrow> bool" where
  "is_alnum c = (is_alpha c \<or> is_digit c)"

definition is_hex :: "char \<Rightarrow> bool" where
  "is_hex c = (is_digit c \<or> 65 \<le> ord c \<and> ord c \<le> 70 \<or> 97 \<le> ord c \<and> ord c \<le> 102)"

text \<open>\<open>str.isspace\<close>, the regular expression class \<open>\\s\<close>, and what \<open>strip()\<close> removes.\<close>

definition is_space :: "char \<Rightarrow> bool" where
  "is_space c = (let n = ord c in
     9 \<le> n \<and> n \<le> 13 \<or> 28 \<le> n \<and> n \<le> 32 \<or> n = 133 \<or> n = 160)"

text \<open>The class \<open>\\w\<close>: the underscore and the characters for which \<open>isalnum\<close> holds, which above
  127 are the letters, the superscript digits and the fractions.\<close>

definition is_word :: "char \<Rightarrow> bool" where
  "is_word c = (let n = ord c in
     97 \<le> n \<and> n \<le> 122 \<or> 65 \<le> n \<and> n \<le> 90 \<or> 48 \<le> n \<and> n \<le> 57 \<or> n = 95 \<or>
     n = 170 \<or> n = 178 \<or> n = 179 \<or> n = 181 \<or> n = 185 \<or> n = 186 \<or> 188 \<le> n \<and> n \<le> 190 \<or>
     192 \<le> n \<and> n \<noteq> 215 \<and> n \<noteq> 247)"

text \<open>\<open>str.isdigit\<close>, which also holds of the superscript digits.\<close>

definition isdigit_str :: "str \<Rightarrow> bool" where
  "isdigit_str s = (s \<noteq> [] \<and>
     list_all (\<lambda>c. is_digit c \<or> ord c = 178 \<or> ord c = 179 \<or> ord c = 185) s)"

subsection \<open>Case mapping\<close>

definition lower_char :: "char \<Rightarrow> char" where
  "lower_char c = (let n = ord c in
     if 65 \<le> n \<and> n \<le> 90 \<or> 192 \<le> n \<and> n \<le> 222 \<and> n \<noteq> 215 then chr (n + 32) else c)"

definition lower :: "str \<Rightarrow> str" where
  "lower s = map lower_char s"

text \<open>\<open>upper()\<close>: the micro sign and the small y with diaeresis map outside the range of the model
  and are left unchanged; the sharp s becomes two letters.\<close>

definition upper_char :: "char \<Rightarrow> str" where
  "upper_char c = (let n = ord c in
     if n = 223 then ''SS''
     else if 97 \<le> n \<and> n \<le> 122 \<or> 224 \<le> n \<and> n \<le> 254 \<and> n \<noteq> 247 then [chr (n - 32)]
     else [c])"

definition upper :: "str \<Rightarrow> str" where
  "upper s = concat (map upper_char s)"

lemma lower_char_idem [simp]: "lower_char (lower_char c) = lower_char c"
  by (auto simp: lower_char_def Let_def ord_chr)

lemma lower_idem [simp]: "lower (lower s) = lower s"
  by (simp add: lower_def)

lemma length_lower [simp]: "length (lower s) = length s"
  by (simp add: lower_def)

lemma lower_append [simp]: "lower (s @ t) = lower s @ lower t"
  by (simp add: lower_def)

subsection \<open>Stripping, splitting and joining\<close>

definition lstrip_by :: "(char \<Rightarrow> bool) \<Rightarrow> str \<Rightarrow> str" where
  "lstrip_by p s = dropWhile p s"

definition rstrip_by :: "(char \<Rightarrow> bool) \<Rightarrow> str \<Rightarrow> str" where
  "rstrip_by p s = rev (dropWhile p (rev s))"

definition strip :: "str \<Rightarrow> str" where
  "strip s = rstrip_by is_space (lstrip_by is_space s)"

lemma strip_by_id:
  assumes "\<And>c. c \<in> set s \<Longrightarrow> \<not> p c"
  shows "rstrip_by p (lstrip_by p s) = s"
proof -
  have l: "lstrip_by p s = s" using assms by (cases s) (auto simp: lstrip_by_def)
  show ?thesis unfolding l using assms by (cases s rule: rev_cases) (auto simp: rstrip_by_def)
qed

lemma length_rstrip_by: "length (rstrip_by p s) \<le> length s"
  by (simp add: rstrip_by_def length_dropWhile_le[of p "rev s", simplified])

lemma length_strip: "length (strip s) \<le> length s"
  unfolding strip_def lstrip_by_def
  by (meson length_dropWhile_le length_rstrip_by order_trans)

fun join :: "str \<Rightarrow> str list \<Rightarrow> str" where
  "join d [] = []"
| "join d [s] = s"
| "join d (s # t # ss) = s @ d @ join d (t # ss)"

lemma length_join: "length (join d ss) = sum_list (map length ss) + (length ss - 1) * length d"
  by (induction d ss rule: join.induct) auto

text \<open>The substring test \<open>p in s\<close>.\<close>

fun contains :: "str \<Rightarrow> str \<Rightarrow> bool" where
  "contains p [] = (p = [])"
| "contains p (c # s) = (prefix p (c # s) \<or> contains p s)"

lemma contains_iff_sublist: "contains p s \<longleftrightarrow> sublist p s"
  by (induction s) (auto simp: sublist_Cons_right)

text \<open>\<open>splitlines()\<close>: the line ends of the Latin-1 range are LF, VT, FF, CR, CR LF, FS, GS, RS and
  NEL; a final line end does not open another line.\<close>

definition is_eol :: "char \<Rightarrow> bool" where
  "is_eol c = (let n = ord c in 10 \<le> n \<and> n \<le> 13 \<or> 28 \<le> n \<and> n \<le> 30 \<or> n = 133)"

fun split_lines :: "str \<Rightarrow> str \<Rightarrow> str list" where
  "split_lines acc [] = (if acc = [] then [] else [rev acc])"
| "split_lines acc (c # s) =
     (if is_eol c then
        rev acc # split_lines [] (if ord c = 13 \<and> s \<noteq> [] \<and> ord (hd s) = 10 then tl s else s)
      else split_lines (c # acc) s)"

definition splitlines :: "str \<Rightarrow> str list" where
  "splitlines s = split_lines [] s"

lemma split_lines_no_eol:
  assumes "list_all (\<lambda>c. \<not> is_eol c) acc"
  shows "\<forall>l \<in> set (split_lines acc s). list_all (\<lambda>c. \<not> is_eol c) l"
  using assms
proof (induction acc s rule: split_lines.induct)
  case (1 acc)
  then show ?case by simp
next
  case (2 acc c s)
  let ?rest = "if ord c = 13 \<and> s \<noteq> [] \<and> ord (hd s) = 10 then tl s else s"
  show ?case
  proof (cases "is_eol c")
    case True
    then have "split_lines acc (c # s) = rev acc # split_lines [] ?rest" by simp
    moreover have "\<forall>l \<in> set (split_lines [] ?rest). list_all (\<lambda>c. \<not> is_eol c) l"
      using "2.IH"(1)[OF True] by simp
    ultimately show ?thesis using "2.prems" by simp
  next
    case False
    with 2 show ?thesis by simp
  qed
qed

lemma splitlines_no_eol: "l \<in> set (splitlines s) \<Longrightarrow> c \<in> set l \<Longrightarrow> \<not> is_eol c"
  using split_lines_no_eol[of "[]" s] by (auto simp: splitlines_def list_all_iff)

text \<open>\<open>s.partition(d)\<close> and \<open>s.rpartition(d)\<close> for a one character separator: the parts around the
  first, or last, separator, \<open>None\<close> where there is none.\<close>

definition partition1 :: "char \<Rightarrow> str \<Rightarrow> (str \<times> str) option" where
  "partition1 d s = (if d \<in> set s
     then Some (takeWhile (\<lambda>c. c \<noteq> d) s, tl (dropWhile (\<lambda>c. c \<noteq> d) s)) else None)"

definition rpartition1 :: "char \<Rightarrow> str \<Rightarrow> (str \<times> str) option" where
  "rpartition1 d s = (case partition1 d (rev s) of
     None \<Rightarrow> None | Some (a, b) \<Rightarrow> Some (rev b, rev a))"

text \<open>\<open>s.replace(c, t)\<close> for a one character pattern.\<close>

definition replace_char :: "char \<Rightarrow> str \<Rightarrow> str \<Rightarrow> str" where
  "replace_char c t s = concat (map (\<lambda>x. if x = c then t else [x]) s)"

subsection \<open>Numerals\<close>

fun nat_text :: "nat \<Rightarrow> str" where
  "nat_text n = (if n < 10 then [chr (48 + n)] else nat_text (n div 10) @ [chr (48 + n mod 10)])"

declare nat_text.simps [simp del]

definition int_text :: "int \<Rightarrow> str" where
  "int_text i = (if i < 0 then ''-'' @ nat_text (nat (- i)) else nat_text (nat i))"

lemma nat_text_nonempty [simp]: "nat_text n \<noteq> []"
  by (subst nat_text.simps) simp

lemma int_text_nonempty [simp]: "int_text i \<noteq> []"
  by (simp add: int_text_def)

lemma nat_text_digits: "c \<in> set (nat_text n) \<Longrightarrow> is_digit c"
proof (induction n rule: nat_text.induct)
  case (1 n)
  then show ?case
    by (subst (asm) (2) nat_text.simps) (auto simp: is_digit_def ord_chr split: if_splits)
qed

definition digits_value :: "str \<Rightarrow> nat" where
  "digits_value s = fold (\<lambda>c n. n * 10 + (ord c - 48)) s 0"

lemma digits_value_nat_text [simp]: "digits_value (nat_text n) = n"
proof (induction n rule: nat_text.induct)
  case (1 n)
  then show ?case
    by (subst nat_text.simps) (auto simp: digits_value_def ord_chr)
qed

text \<open>\<open>int(s)\<close>: blanks around, a sign, and digits with single underscores between them; \<open>None\<close> is the
  \<open>ValueError\<close>.\<close>

fun digit_groups :: "str \<Rightarrow> bool" where
  "digit_groups [] = False"
| "digit_groups [c] = is_digit c"
| "digit_groups (c # d # s) = (is_digit c \<and>
     (if d = CHR ''_'' then digit_groups s else digit_groups (d # s)))"

definition parse_int :: "str \<Rightarrow> int option" where
  "parse_int s =
     (let t = strip s;
          neg = (t \<noteq> [] \<and> hd t = CHR ''-'');
          u = (if t \<noteq> [] \<and> (hd t = CHR ''-'' \<or> hd t = CHR ''+'') then tl t else t)
      in if digit_groups u
         then Some ((if neg then - 1 else 1) * int (digits_value (filter is_digit u)))
         else None)"

subsection \<open>UTF-8\<close>

text \<open>\<open>s.encode()\<close>, as byte values: one byte below 128, two for the rest of the range.\<close>

definition utf8 :: "str \<Rightarrow> nat list" where
  "utf8 s = concat (map (\<lambda>c. let n = ord c in
     if n < 128 then [n] else [192 + n div 64, 128 + n mod 64]) s)"

lemma utf8_bytes: "b \<in> set (utf8 s) \<Longrightarrow> b < 256"
proof -
  have "192 + ord c div 64 < 256" for c
    using ord_less[of c] by linarith
  moreover have "128 + ord c mod 64 < 256" for c
    using mod_less_divisor[of 64 "ord c"] by linarith
  ultimately show "b \<in> set (utf8 s) \<Longrightarrow> b < 256"
    by (auto simp: utf8_def Let_def split: if_splits)
qed

lemma length_utf8: "length s \<le> length (utf8 s) \<and> length (utf8 s) \<le> 2 * length s"
  by (induction s) (auto simp: utf8_def Let_def)

lemma utf8_inject: "utf8 s = utf8 t \<Longrightarrow> s = t"
proof (induction s arbitrary: t)
  case Nil
  then show ?case by (cases t) (auto simp: utf8_def Let_def split: if_splits)
next
  case (Cons c s)
  then obtain d u where t: "t = d # u"
    by (cases t) (auto simp: utf8_def Let_def split: if_splits)
  have div_mod: "ord c div 64 = ord d div 64 \<Longrightarrow> ord c mod 64 = ord d mod 64 \<Longrightarrow> c = d"
    by (metis div_mult_mod_eq ord_inject)
  have "c = d \<and> utf8 s = utf8 u"
    using Cons.prems div_mod unfolding t by (auto simp: utf8_def Let_def split: if_splits)
  with Cons.IH t show ?case by simp
qed

end
