(* ===== verification/Regex.thy ===== *)
theory Regex
  imports PyText
begin

text \<open>
  Python's \<open>re\<close>, for the constructs the program's patterns use: character sets, sequence,
  alternation, greedy repetition with bounds, lazy repetition, capture groups, and zero-width tests
  on the text around the position (\<open>\\b\<close>, \<open>^\<close>, \<open>$\<close>, lookbehind, lookahead).

  \<open>mt\<close> is the backtracking matcher, in continuation style: alternatives are tried in the engine's
  order and the first one whose continuation succeeds wins. \<open>rmatch\<close> says declaratively what a
  pattern matches. For a pattern whose repeated parts consume text (\<open>rx_ok\<close>, true of all patterns
  of the program) the matcher finds a match exactly when there is one, and the fuel of its loops is
  always enough. \<open>sub\<close> is \<open>Pattern.sub\<close>, \<open>fullmatch\<close> and \<open>findall_set\<close> are the other entry points.
\<close>

datatype rx =
    REps
  | RSet "char \<Rightarrow> bool"
  | RSeq rx rx
  | RAlt rx rx
  | RRep nat "nat option" rx
  | RLazy rx
  | RGrp nat rx
  | RLook "char option \<Rightarrow> str \<Rightarrow> bool"

text \<open>A position: the character before it, the text after it, and the captures so far.\<close>

type_synonym caps = "(nat \<times> str) list"
type_synonym rstate = "char option \<times> str \<times> caps"

definition rest :: "rstate \<Rightarrow> str" where
  "rest st = fst (snd st)"

lemma rest_simp [simp]: "rest (pv, s, cs) = s"
  by (simp add: rest_def)

definition capture :: "nat \<Rightarrow> rstate \<Rightarrow> rstate \<Rightarrow> rstate" where
  "capture n st st' = (case st' of (pv, s', cs) \<Rightarrow>
     (pv, s', (n, take (length (rest st) - length s') (rest st)) # cs))"

lemma rest_capture [simp]: "rest (capture n st st') = rest st'"
  by (cases st') (simp add: capture_def)

definition group :: "nat \<Rightarrow> caps \<Rightarrow> str" where
  "group n cs = (case map_of cs n of None \<Rightarrow> [] | Some w \<Rightarrow> w)"

definition dec_hi :: "nat option \<Rightarrow> nat option" where
  "dec_hi hi = map_option (\<lambda>m. m - 1) hi"

subsection \<open>The backtracking matcher\<close>

fun rep_greedy :: "(rstate \<Rightarrow> (rstate \<Rightarrow> 'r option) \<Rightarrow> 'r option) \<Rightarrow> nat \<Rightarrow> nat \<Rightarrow> nat option \<Rightarrow>
    rstate \<Rightarrow> (rstate \<Rightarrow> 'r option) \<Rightarrow> 'r option" where
  "rep_greedy f 0 lo hi st k = None"
| "rep_greedy f (Suc n) lo hi st k =
     (if hi = Some 0 then (if lo = 0 then k st else None)
      else (case f st (\<lambda>st'. rep_greedy f n (lo - 1) (dec_hi hi) st' k) of
              Some x \<Rightarrow> Some x
            | None \<Rightarrow> if lo = 0 then k st else None))"

fun rep_lazy :: "(rstate \<Rightarrow> (rstate \<Rightarrow> 'r option) \<Rightarrow> 'r option) \<Rightarrow> nat \<Rightarrow>
    rstate \<Rightarrow> (rstate \<Rightarrow> 'r option) \<Rightarrow> 'r option" where
  "rep_lazy f 0 st k = None"
| "rep_lazy f (Suc n) st k =
     (case k st of Some x \<Rightarrow> Some x | None \<Rightarrow> f st (\<lambda>st'. rep_lazy f n st' k))"

primrec mt :: "rx \<Rightarrow> rstate \<Rightarrow> (rstate \<Rightarrow> 'r option) \<Rightarrow> 'r option" where
  "mt REps = (\<lambda>st k. k st)"
| "mt (RSet p) = (\<lambda>(pv, s, cs) k. case s of
     [] \<Rightarrow> None | c # s' \<Rightarrow> if p c then k (Some c, s', cs) else None)"
| "mt (RSeq a b) = (\<lambda>st k. mt a st (\<lambda>st'. mt b st' k))"
| "mt (RAlt a b) = (\<lambda>st k. case mt a st k of Some x \<Rightarrow> Some x | None \<Rightarrow> mt b st k)"
| "mt (RRep lo hi r) = (\<lambda>st k. rep_greedy (mt r) (Suc (length (rest st))) lo hi st k)"
| "mt (RLazy r) = (\<lambda>st k. rep_lazy (mt r) (Suc (length (rest st))) st k)"
| "mt (RGrp n r) = (\<lambda>st k. mt r st (\<lambda>st'. k (capture n st st')))"
| "mt (RLook t) = (\<lambda>st k. if t (fst st) (rest st) then k st else None)"

subsection \<open>What a pattern matches\<close>

inductive rmatch :: "rx \<Rightarrow> rstate \<Rightarrow> rstate \<Rightarrow> bool" where
  eps: "rmatch REps st st"
| set: "p c \<Longrightarrow> rmatch (RSet p) (pv, c # s, cs) (Some c, s, cs)"
| seq: "rmatch a st st1 \<Longrightarrow> rmatch b st1 st2 \<Longrightarrow> rmatch (RSeq a b) st st2"
| alt1: "rmatch a st st' \<Longrightarrow> rmatch (RAlt a b) st st'"
| alt2: "rmatch b st st' \<Longrightarrow> rmatch (RAlt a b) st st'"
| rep_done: "rmatch (RRep 0 hi r) st st"
| rep_step: "hi \<noteq> Some 0 \<Longrightarrow> rmatch r st st1 \<Longrightarrow> rmatch (RRep (lo - 1) (dec_hi hi) r) st1 st2 \<Longrightarrow>
    rmatch (RRep lo hi r) st st2"
| lazy_done: "rmatch (RLazy r) st st"
| lazy_step: "rmatch r st st1 \<Longrightarrow> rmatch (RLazy r) st1 st2 \<Longrightarrow> rmatch (RLazy r) st st2"
| grp: "rmatch r st st' \<Longrightarrow> rmatch (RGrp n r) st (capture n st st')"
| look: "t (fst st) (rest st) \<Longrightarrow> rmatch (RLook t) st st"

inductive_cases rmatch_SetE: "rmatch (RSet p) st st'"
inductive_cases rmatch_SeqE: "rmatch (RSeq a b) st st'"
inductive_cases rmatch_AltE: "rmatch (RAlt a b) st st'"
inductive_cases rmatch_GrpE: "rmatch (RGrp n r) st st'"

primrec minlen :: "rx \<Rightarrow> nat" where
  "minlen REps = 0"
| "minlen (RSet p) = 1"
| "minlen (RSeq a b) = minlen a + minlen b"
| "minlen (RAlt a b) = min (minlen a) (minlen b)"
| "minlen (RRep lo hi r) = lo * minlen r"
| "minlen (RLazy r) = 0"
| "minlen (RGrp n r) = minlen r"
| "minlen (RLook t) = 0"

primrec rx_ok :: "rx \<Rightarrow> bool" where
  "rx_ok REps = True"
| "rx_ok (RSet p) = True"
| "rx_ok (RSeq a b) = (rx_ok a \<and> rx_ok b)"
| "rx_ok (RAlt a b) = (rx_ok a \<and> rx_ok b)"
| "rx_ok (RRep lo hi r) = (rx_ok r \<and> 0 < minlen r)"
| "rx_ok (RLazy r) = (rx_ok r \<and> 0 < minlen r)"
| "rx_ok (RGrp n r) = rx_ok r"
| "rx_ok (RLook t) = True"

lemma rmatch_suffix: "rmatch r st st' \<Longrightarrow> \<exists>w. rest st = w @ rest st' \<and> minlen r \<le> length w"
proof (induction rule: rmatch.induct)
  case (seq a st st1 b st2)
  then obtain v w where "rest st = (v @ w) @ rest st2" "minlen a + minlen b \<le> length (v @ w)"
    by fastforce
  then show ?case by (metis minlen.simps(3))
next
  case (alt1 a st st' b)
  then show ?case by (auto intro: min.coboundedI1)
next
  case (alt2 b st st' a)
  then show ?case by (auto intro: min.coboundedI2)
next
  case (rep_step hi r st st1 lo st2)
  then obtain v w where vw: "rest st = (v @ w) @ rest st2" "minlen r \<le> length v"
    "(lo - 1) * minlen r \<le> length w"
    by fastforce
  have "lo * minlen r \<le> length (v @ w)"
    using vw(2,3) by (cases lo) auto
  with vw(1) show ?case by (metis minlen.simps(5))
next
  case (lazy_step r st st1 st2)
  then show ?case by (metis append.assoc minlen.simps(6) zero_le)
qed auto

lemma rmatch_length: "rmatch r st st' \<Longrightarrow> length (rest st') + minlen r \<le> length (rest st)"
  by (drule rmatch_suffix) auto

subsection \<open>Soundness and completeness of the matcher\<close>

lemma rep_greedy_sound:
  assumes "\<And>st k x. f st k = Some x \<Longrightarrow> \<exists>st'. rmatch r st st' \<and> k st' = Some x"
    and "rep_greedy f n lo hi st k = Some x"
  shows "\<exists>st'. rmatch (RRep lo hi r) st st' \<and> k st' = Some x"
  using assms(2)
proof (induction n arbitrary: lo hi st)
  case (Suc n)
  show ?case
  proof (cases "f st (\<lambda>st'. rep_greedy f n (lo - 1) (dec_hi hi) st' k)")
    case None
    with Suc.prems have "lo = 0" and "k st = Some x" by (auto split: if_splits)
    then show ?thesis using rmatch.rep_done by blast
  next
    case (Some y)
    show ?thesis
    proof (cases "hi = Some 0")
      case True
      with Suc.prems have "lo = 0" and "k st = Some x" by (auto split: if_splits)
      then show ?thesis using rmatch.rep_done by blast
    next
      case False
      with Suc.prems Some have "y = x" by simp
      with assms(1)[OF Some] obtain st1 where "rmatch r st st1"
        and "rep_greedy f n (lo - 1) (dec_hi hi) st1 k = Some x" by auto
      with Suc.IH False show ?thesis by (meson rmatch.rep_step)
    qed
  qed
qed simp

lemma rep_lazy_sound:
  assumes "\<And>st k x. f st k = Some x \<Longrightarrow> \<exists>st'. rmatch r st st' \<and> k st' = Some x"
    and "rep_lazy f n st k = Some x"
  shows "\<exists>st'. rmatch (RLazy r) st st' \<and> k st' = Some x"
  using assms(2)
proof (induction n arbitrary: st)
  case (Suc n)
  show ?case
  proof (cases "k st")
    case None
    with Suc.prems have "f st (\<lambda>st'. rep_lazy f n st' k) = Some x" by simp
    with assms(1) Suc.IH show ?thesis by (meson rmatch.lazy_step)
  next
    case (Some y)
    with Suc.prems have "k st = Some x" by simp
    then show ?thesis using rmatch.lazy_done by blast
  qed
qed simp

lemma mt_sound:
  "mt r st k = Some x \<Longrightarrow> \<exists>st'. rmatch r st st' \<and> k st' = Some x"
proof (induction r arbitrary: st k x)
  case (RSet p)
  then show ?case
    by (cases st) (auto split: list.splits if_splits intro: rmatch.set)
next
  case (RSeq a b)
  then show ?case by (metis (no_types, lifting) mt.simps(3) rmatch.seq)
next
  case (RAlt a b)
  then show ?case
    by (cases "mt a st k") (metis mt.simps(4) option.simps(4) rmatch.alt2,
        metis mt.simps(4) option.simps(5) rmatch.alt1)
next
  case (RRep lo hi r)
  from RRep.prems have "rep_greedy (mt r) (Suc (length (rest st))) lo hi st k = Some x"
    by (simp only: mt.simps)
  then show ?case by (rule rep_greedy_sound[rotated]) (rule RRep.IH)
next
  case (RLazy r)
  from RLazy.prems have "rep_lazy (mt r) (Suc (length (rest st))) st k = Some x"
    by (simp only: mt.simps)
  then show ?case by (rule rep_lazy_sound[rotated]) (rule RLazy.IH)
next
  case (RGrp n r)
  then show ?case by (metis (no_types, lifting) mt.simps(7) rmatch.grp)
qed (auto intro: rmatch.intros split: if_splits)

text \<open>
  Completeness is by rule induction on the match. For the two loops the statement also covers every
  amount of fuel above the length of the remaining text.
\<close>

definition found :: "rx \<Rightarrow> rstate \<Rightarrow> (rstate \<Rightarrow> 'r option) \<Rightarrow> bool" where
  "found R st k = (mt R st k \<noteq> None \<and>
     (\<forall>lo hi r n. R = RRep lo hi r \<longrightarrow> length (rest st) < n \<longrightarrow>
        rep_greedy (mt r) n lo hi st k \<noteq> None) \<and>
     (\<forall>r n. R = RLazy r \<longrightarrow> length (rest st) < n \<longrightarrow> rep_lazy (mt r) n st k \<noteq> None))"

lemma found_repI:
  assumes "\<And>n. length (rest st) < n \<Longrightarrow> rep_greedy (mt r) n lo hi st k \<noteq> None"
  shows "found (RRep lo hi r) st k"
  using assms[of "Suc (length (rest st))"] assms by (auto simp: found_def simp del: rep_greedy.simps)

lemma found_lazyI:
  assumes "\<And>n. length (rest st) < n \<Longrightarrow> rep_lazy (mt r) n st k \<noteq> None"
  shows "found (RLazy r) st k"
  using assms[of "Suc (length (rest st))"] assms by (auto simp: found_def simp del: rep_lazy.simps)

lemma mt_found:
  "rmatch R st st' \<Longrightarrow> rx_ok R \<Longrightarrow> k st' \<noteq> None \<Longrightarrow> found R st k"
proof (induction arbitrary: k rule: rmatch.induct)
  case (seq a st st1 b st2)
  then have "found b st1 k" by simp
  then have "found a st (\<lambda>st'. mt b st' k)" using seq by (auto simp: found_def)
  then show ?case by (auto simp: found_def)
next
  case (alt1 a st st' b)
  then have "found a st k" by simp
  then show ?case by (auto simp: found_def split: option.splits)
next
  case (alt2 b st st' a)
  then have "found b st k" by simp
  then show ?case by (auto simp: found_def split: option.splits)
next
  case (rep_done hi r st)
  show ?case
  proof (rule found_repI)
    fix n assume "length (rest st) < n"
    with rep_done show "rep_greedy (mt r) n 0 hi st k \<noteq> None"
      by (cases n) (auto split: option.splits)
  qed
next
  case (rep_step hi r st st1 lo st2)
  show ?case
  proof (rule found_repI)
    fix n assume n: "length (rest st) < n"
    then obtain m where m: "n = Suc m" by (cases n) auto
    have "length (rest st1) < m"
      using rmatch_length[OF rep_step.hyps(2)] rep_step.prems n m by simp
    with rep_step.IH(2) rep_step.prems
    have "rep_greedy (mt r) m (lo - 1) (dec_hi hi) st1 k \<noteq> None"
      by (auto simp: found_def)
    with rep_step.IH(1) rep_step.prems
    have "found r st (\<lambda>st'. rep_greedy (mt r) m (lo - 1) (dec_hi hi) st' k)" by simp
    with rep_step.hyps(1) m show "rep_greedy (mt r) n lo hi st k \<noteq> None"
      by (auto simp: found_def split: option.splits)
  qed
next
  case (lazy_done r st)
  show ?case
  proof (rule found_lazyI)
    fix n assume "length (rest st) < n"
    with lazy_done show "rep_lazy (mt r) n st k \<noteq> None" by (cases n) auto
  qed
next
  case (lazy_step r st st1 st2)
  show ?case
  proof (rule found_lazyI)
    fix n assume n: "length (rest st) < n"
    then obtain m where m: "n = Suc m" by (cases n) auto
    have "length (rest st1) < m"
      using rmatch_length[OF lazy_step.hyps(1)] lazy_step.prems n m by simp
    with lazy_step.IH(2) lazy_step.prems have "rep_lazy (mt r) m st1 k \<noteq> None"
      by (auto simp: found_def)
    with lazy_step.IH(1) lazy_step.prems
    have "found r st (\<lambda>st'. rep_lazy (mt r) m st' k)" by simp
    with m show "rep_lazy (mt r) n st k \<noteq> None"
      by (auto simp: found_def split: option.splits)
  qed
next
  case (grp r st st' n)
  then have "found r st (\<lambda>st'. k (capture n st st'))" by simp
  then show ?case by (auto simp: found_def)
qed (auto simp: found_def)

lemma mt_complete:
  assumes "rmatch r st st'" and "rx_ok r" and "k st' \<noteq> None"
  shows "mt r st k \<noteq> None"
  using mt_found[of r st st' k] assms by (simp add: found_def)

theorem mt_None_iff:
  assumes "rx_ok r"
  shows "mt r st k = None \<longleftrightarrow> (\<forall>st'. rmatch r st st' \<longrightarrow> k st' = None)"
proof
  assume "mt r st k = None"
  then show "\<forall>st'. rmatch r st st' \<longrightarrow> k st' = None" using mt_complete[OF _ assms] by blast
next
  assume "\<forall>st'. rmatch r st st' \<longrightarrow> k st' = None"
  then show "mt r st k = None" using mt_sound by (metis option.exhaust option.simps(3))
qed

subsection \<open>Entry points\<close>

definition match_at :: "rx \<Rightarrow> char option \<Rightarrow> str \<Rightarrow> rstate option" where
  "match_at r pv s = mt r (pv, s, []) Some"

text \<open>\<open>Pattern.match\<close> looks at the start of the text only, \<open>Pattern.fullmatch\<close> also wants the end.\<close>

definition match_start :: "rx \<Rightarrow> str \<Rightarrow> caps option" where
  "match_start r s = map_option (\<lambda>st. snd (snd st)) (match_at r None s)"

definition fullmatch :: "rx \<Rightarrow> str \<Rightarrow> bool" where
  "fullmatch r s = (mt r (None, s, []) (\<lambda>st. if rest st = [] then Some () else None) = Some ())"

text \<open>
  \<open>Pattern.sub\<close>: the leftmost match is replaced by what the template makes of its captures and the
  search goes on behind it; a position with no match is copied. (A match of the empty text is
  replaced and the search moves one character on; no pattern of the program matches it.)
\<close>

function sub :: "rx \<Rightarrow> (caps \<Rightarrow> str) \<Rightarrow> char option \<Rightarrow> str \<Rightarrow> str" where
  "sub r t pv s = (case match_at r pv s of
     None \<Rightarrow> (case s of [] \<Rightarrow> [] | c # u \<Rightarrow> c # sub r t (Some c) u)
   | Some (pv', s', cs) \<Rightarrow>
       if length s' < length s then t cs @ sub r t pv' s'
       else t cs @ (case s of [] \<Rightarrow> [] | c # u \<Rightarrow> c # sub r t (Some c) u))"
  by pat_completeness auto
termination
  by (relation "measure (\<lambda>(r, t, pv, s). length s)") auto

declare sub.simps [simp del]

text \<open>\<open>findall\<close> of a pattern of the form \<open>[..]+\<close>: the maximal runs of the set.\<close>

fun findall_set :: "(char \<Rightarrow> bool) \<Rightarrow> str \<Rightarrow> str \<Rightarrow> str list" where
  "findall_set p acc [] = (if acc = [] then [] else [rev acc])"
| "findall_set p acc (c # s) =
     (if p c then findall_set p (c # acc) s
      else (if acc = [] then [] else [rev acc]) @ findall_set p [] s)"

lemma findall_set_sound:
  assumes "list_all p acc"
  shows "\<forall>w \<in> set (findall_set p acc s). w \<noteq> [] \<and> list_all p w"
  using assms
proof (induction s arbitrary: acc)
  case Nil
  then show ?case by (simp add: list_all_iff)
next
  case (Cons c s)
  show ?case
  proof (cases "p c")
    case True
    with Cons.IH[of "c # acc"] Cons.prems show ?thesis by simp
  next
    case False
    with Cons.IH[of "[]"] Cons.prems show ?thesis by (auto simp: list_all_iff)
  qed
qed

subsection \<open>Substitution touches nothing but matches\<close>

text \<open>A pattern all of whose matches contain a character of a set finds nothing without one.\<close>

primrec needs :: "(char \<Rightarrow> bool) \<Rightarrow> rx \<Rightarrow> bool" where
  "needs p REps = False"
| "needs p (RSet q) = (\<forall>c. q c \<longrightarrow> p c)"
| "needs p (RSeq a b) = (needs p a \<or> needs p b)"
| "needs p (RAlt a b) = (needs p a \<and> needs p b)"
| "needs p (RRep lo hi r) = (0 < lo \<and> needs p r)"
| "needs p (RLazy r) = False"
| "needs p (RGrp n r) = needs p r"
| "needs p (RLook t) = False"

lemma rmatch_needs:
  "rmatch r st st' \<Longrightarrow> needs p r \<Longrightarrow> \<exists>c \<in> set (rest st). p c"
proof (induction rule: rmatch.induct)
  case (seq a st st1 b st2)
  then show ?case
    using rmatch_suffix[OF seq.hyps(1)] by auto
next
  case (rep_step hi r st st1 lo st2)
  then show ?case by simp
qed simp_all

lemma match_at_None_needs:
  assumes "needs p r" and "\<forall>c \<in> set s. \<not> p c"
  shows "match_at r pv s = None"
proof (rule ccontr)
  assume "match_at r pv s \<noteq> None"
  then obtain x where "mt r (pv, s, []) Some = Some x" by (auto simp: match_at_def)
  from mt_sound[OF this] obtain st' where "rmatch r (pv, s, []) st'" by blast
  with rmatch_needs[OF this assms(1)] assms(2) show False by simp
qed

lemma sub_id_needs:
  assumes "needs p r" and "\<forall>c \<in> set s. \<not> p c"
  shows "sub r t pv s = s"
  using assms(2)
proof (induction s arbitrary: pv)
  case Nil
  then show ?case by (subst sub.simps) (simp add: match_at_None_needs[OF assms(1)])
next
  case (Cons c s)
  then show ?case
    by (subst sub.simps) (simp add: match_at_None_needs[OF assms(1)])
qed

text \<open>
  The text is a sequence of copied characters and of replaced matches; \<open>pieces r pv s ps\<close> says so,
  with \<open>Inl c\<close> a copied character and \<open>Inr (w, cs)\<close> a match of \<open>w\<close> with captures \<open>cs\<close>.
\<close>

inductive pieces :: "rx \<Rightarrow> char option \<Rightarrow> str \<Rightarrow> (char + str \<times> caps) list \<Rightarrow> bool" for r where
  pieces_Nil: "pieces r pv [] []"
| pieces_keep: "(\<nexists>st'. rmatch r (pv, c # s, []) st') \<Longrightarrow> pieces r (Some c) s ps \<Longrightarrow>
    pieces r pv (c # s) (Inl c # ps)"
| pieces_match: "rmatch r (pv, w @ s, []) (pv', s, cs) \<Longrightarrow> w \<noteq> [] \<Longrightarrow> pieces r pv' s ps \<Longrightarrow>
    pieces r pv (w @ s) (Inr (w, cs) # ps)"

definition piece_src :: "char + str \<times> caps \<Rightarrow> str" where
  "piece_src x = (case x of Inl c \<Rightarrow> [c] | Inr (w, cs) \<Rightarrow> w)"

definition piece_out :: "(caps \<Rightarrow> str) \<Rightarrow> char + str \<times> caps \<Rightarrow> str" where
  "piece_out t x = (case x of Inl c \<Rightarrow> [c] | Inr (w, cs) \<Rightarrow> t cs)"

lemma piece_simps [simp]:
  "piece_src (Inl c) = [c]" "piece_src (Inr (w, cs)) = w"
  "piece_out t (Inl c) = [c]" "piece_out t (Inr (w, cs)) = t cs"
  by (simp_all add: piece_src_def piece_out_def)

lemma pieces_src: "pieces r pv s ps \<Longrightarrow> concat (map piece_src ps) = s"
  by (induction rule: pieces.induct) auto

lemma match_at_Some:
  assumes "match_at r pv s = Some (pv', s', cs)"
  obtains w where "rmatch r (pv, s, []) (pv', s', cs)" and "s = w @ s'" and "minlen r \<le> length w"
proof -
  from mt_sound[OF assms[unfolded match_at_def]] have "rmatch r (pv, s, []) (pv', s', cs)"
    by auto
  with rmatch_suffix[OF this] that show thesis by auto
qed

theorem sub_pieces:
  assumes "rx_ok r" and "0 < minlen r"
  shows "\<exists>ps. pieces r pv s ps \<and> sub r t pv s = concat (map (piece_out t) ps)"
  using assms
proof (induction r t pv s rule: sub.induct)
  case (1 r t pv s)
  show ?case
  proof (cases "match_at r pv s")
    case None
    then have no: "\<nexists>st'. rmatch r (pv, s, []) st'"
      unfolding match_at_def mt_None_iff[OF "1.prems"(1)] by simp
    show ?thesis
    proof (cases s)
      case Nil
      with None show ?thesis
        by (intro exI[of _ "[]"]) (simp add: sub.simps[of r t pv "[]"] pieces_Nil)
    next
      case (Cons c u)
      with "1.IH"(1)[OF None Cons] "1.prems" obtain ps where "pieces r (Some c) u ps"
        and "sub r t (Some c) u = concat (map (piece_out t) ps)" by blast
      with no None Cons show ?thesis
        by (intro exI[of _ "Inl c # ps"])
          (auto simp: sub.simps[of r t pv "c # u"] intro!: pieces_keep)
    qed
  next
    case (Some st)
    obtain pv' s' cs where st: "st = (pv', s', cs)" by (cases st)
    from Some st obtain w where w: "rmatch r (pv, s, []) (pv', s', cs)" "s = w @ s'"
      "minlen r \<le> length w" by (auto elim: match_at_Some)
    with "1.prems" have less: "length s' < length s" and "w \<noteq> []" by auto
    with "1.IH"(2)[OF Some] st "1.prems" obtain ps where "pieces r pv' s' ps"
      and "sub r t pv' s' = concat (map (piece_out t) ps)" by blast
    with w less Some st \<open>w \<noteq> []\<close> show ?thesis
      by (intro exI[of _ "Inr (w, cs) # ps"])
        (auto simp: sub.simps[of r t pv "w @ s'"] intro!: pieces_match)
  qed
qed

lemma match_at_Nil: "0 < minlen r \<Longrightarrow> match_at r pv [] = None"
  by (cases "match_at r pv []") (auto elim!: match_at_Some)

lemma sub_Nil: "0 < minlen r \<Longrightarrow> sub r t pv [] = []"
  by (simp add: sub.simps[of r t pv "[]"] match_at_Nil)

text \<open>A greedy repetition of a set takes a whole run of it.\<close>

lemma greedy_set_all:
  assumes "\<forall>c \<in> set v. p c" and "lo \<le> length v" and "length v < n"
  shows "rep_greedy (mt (RSet p)) n lo None (pv, v, cs) Some
    = Some (if v = [] then pv else Some (last v), [], cs)"
  using assms
proof (induction v arbitrary: n lo pv)
  case Nil then show ?case by (cases n) (auto)
next
  case (Cons c v) 
  then obtain m where m: "n = Suc m" by (cases n) auto
  with Cons have "rep_greedy (mt (RSet p)) m (lo - 1) None (Some c, v, cs) Some = Some (if v = [] then Some c else Some (last v), [], cs)" by auto
  with m Cons.prems show ?case by (auto simp: dec_hi_def)
qed

text \<open>A bounded repetition of a set, matched in full: the length and the characters decide.\<close>

lemma rep_set_full:
  assumes "lo \<le> hi" and "length s < n"
  shows "rep_greedy (mt (RSet p)) n lo (Some hi) (pv, s, cs)
      (\<lambda>st. if rest st = [] then Some () else None) = Some ()
    \<longleftrightarrow> lo \<le> length s \<and> length s \<le> hi \<and> (\<forall>c \<in> set s. p c)"
  using assms
proof (induction s arbitrary: n lo hi pv)
  case Nil
  then show ?case by (cases n) auto
next
  case (Cons c s)
  then obtain m where m: "n = Suc m" by (cases n) auto
  show ?case
  proof (cases hi)
    case 0
    with m Cons.prems show ?thesis by simp
  next
    case (Suc h)
    have "lo - 1 \<le> h" and "length s < m" using Cons.prems Suc m by auto
    note IH = Cons.IH[OF this, of "Some c"]
    show ?thesis
    proof (cases "rep_greedy (mt (RSet p)) m (lo - 1) (Some h) (Some c, s, cs)
        (\<lambda>st. if rest st = [] then Some () else None)")
      case None
      with IH m Suc show ?thesis by (auto simp: dec_hi_def)
    next
      case (Some u)
      with IH m Suc show ?thesis by (auto simp: dec_hi_def)
    qed
  qed
qed

lemma fullmatch_set:
  "lo \<le> hi \<Longrightarrow> fullmatch (RRep lo (Some hi) (RSet p)) s
    \<longleftrightarrow> lo \<le> length s \<and> length s \<le> hi \<and> (\<forall>c \<in> set s. p c)"
  using rep_set_full[of lo hi s "Suc (length s)" p None "[]"]
  by (simp add: fullmatch_def del: rep_greedy.simps)

subsection \<open>The characters of a match\<close>

text \<open>What a pattern consumes consists of characters of its sets.\<close>

primrec only :: "(char \<Rightarrow> bool) \<Rightarrow> rx \<Rightarrow> bool" where
  "only P REps = True"
| "only P (RSet p) = (\<forall>c. p c \<longrightarrow> P c)"
| "only P (RSeq a b) = (only P a \<and> only P b)"
| "only P (RAlt a b) = (only P a \<and> only P b)"
| "only P (RRep lo hi r) = only P r"
| "only P (RLazy r) = only P r"
| "only P (RGrp n r) = only P r"
| "only P (RLook t) = True"

lemma rmatch_only:
  "rmatch r st st' \<Longrightarrow> only P r \<Longrightarrow> \<exists>w. rest st = w @ rest st' \<and> (\<forall>c \<in> set w. P c)"
proof (induction rule: rmatch.induct)
  case (set p c pv s cs)
  then show ?case by (intro exI[of _ "[c]"]) simp
next
  case (seq a st st1 b st2)
  then obtain u v where "rest st = u @ rest st1" "rest st1 = v @ rest st2"
      "\<forall>c \<in> set u. P c" "\<forall>c \<in> set v. P c" by auto
  then show ?case by (intro exI[of _ "u @ v"]) auto
next
  case (rep_step hi r st st1 lo st2)
  then obtain u v where "rest st = u @ rest st1" "rest st1 = v @ rest st2"
      "\<forall>c \<in> set u. P c" "\<forall>c \<in> set v. P c" by auto
  then show ?case by (intro exI[of _ "u @ v"]) auto
next
  case (lazy_step r st st1 st2)
  then obtain u v where "rest st = u @ rest st1" "rest st1 = v @ rest st2"
      "\<forall>c \<in> set u. P c" "\<forall>c \<in> set v. P c" by auto
  then show ?case by (intro exI[of _ "u @ v"]) auto
qed auto

lemma fullmatch_only:
  assumes "fullmatch r s" and "only P r"
  shows "\<forall>c \<in> set s. P c"
proof -
  obtain st' where "rmatch r (None, s, []) st'" "rest st' = []"
    using assms(1) mt_sound[of r "(None, s, [])" "\<lambda>st. if rest st = [] then Some () else None" "()"]
    by (auto simp: fullmatch_def split: if_splits)
  with rmatch_only[OF _ assms(2)] show ?thesis by fastforce
qed

lemma fullmatch_minlen:
  assumes "fullmatch r s"
  shows "minlen r \<le> length s"
proof -
  obtain st' where "rmatch r (None, s, []) st'" "rest st' = []"
    using assms mt_sound[of r "(None, s, [])" "\<lambda>st. if rest st = [] then Some () else None" "()"]
    by (auto simp: fullmatch_def split: if_splits)
  with rmatch_length[of r "(None, s, [])" st'] show ?thesis by simp
qed

end
