(* ===== verification/Redaction.thy ===== *)
theory Redaction
  imports Regex "HOL-Library.AList"
begin

text \<open>
  \<open>app/ai/redaction.py\<close>: the twelve patterns of \<open>_PATTERNS\<close> with their replacements, the pattern of
  secret keys, \<open>redact\<close> and \<open>redact_value\<close>, over the values that \<open>json.loads\<close> can build. The lemmas
  say what is hidden (the value of a secret key, whatever it is and at every depth), what is kept,
  and that nesting is cut.
\<close>

subsection \<open>Python values\<close>

text \<open>
  What the program's \<open>Any\<close> ranges over: the values of JSON documents. A dictionary is a list of
  pairs in insertion order. A float is kept as its \<open>repr\<close> text, since the code never computes with
  the floats of such a document: it only prints them and tests them for zero and finiteness.
\<close>

datatype pyval =
    VNone
  | VBool bool
  | VInt int
  | VFloat str
  | VStr str
  | VList "pyval list"
  | VDict "(str \<times> pyval) list"

text \<open>\<open>{k: v for ...}\<close>: a repeated key keeps its place and takes the later value.\<close>

definition dict_of :: "(str \<times> 'v) list \<Rightarrow> (str \<times> 'v) list" where
  "dict_of kvs = fold (\<lambda>(k, v) d. AList.update k v d) kvs []"

lemma distinct_dict_of: "distinct (map fst (dict_of kvs))"
proof -
  have "distinct (map fst (fold (\<lambda>(k, v) d. AList.update k v d) kvs d))"
    if "distinct (map fst d)" for d
    using that by (induction kvs arbitrary: d) (auto simp: AList.distinct_update)
  then show ?thesis by (simp add: dict_of_def)
qed

lemma set_update_subset: "set (AList.update k v d) \<subseteq> insert (k, v) (set d)"
  by (induction d) auto

lemma set_dict_of: "set (dict_of kvs) \<subseteq> set kvs"
proof -
  have "set (fold (\<lambda>(k, v) d. AList.update k v d) kvs d) \<subseteq> set kvs \<union> set d" for d
  proof (induction kvs arbitrary: d)
    case (Cons kv kvs)
    obtain k v where "kv = (k, v)" by (cases kv)
    with Cons[of "AList.update k v d"] set_update_subset[of k v d] show ?case by auto
  qed simp
  from this[of "[]"] show ?thesis by (simp add: dict_of_def)
qed

lemma dict_of_mem: "x \<in> set (dict_of kvs) \<Longrightarrow> x \<in> set kvs"
  using set_dict_of by fast

subsection \<open>Notation for patterns\<close>

definition ch :: "char \<Rightarrow> rx" where
  "ch c = RSet (\<lambda>x. x = c)"

definition chi :: "char \<Rightarrow> rx" where
  "chi c = RSet (\<lambda>x. lower_char x = c)"

fun lit :: "str \<Rightarrow> rx" where
  "lit [] = REps"
| "lit [c] = ch c"
| "lit (c # d # s) = RSeq (ch c) (lit (d # s))"

text \<open>A literal under \<open>(?i)\<close>, written in lower case.\<close>

fun liti :: "str \<Rightarrow> rx" where
  "liti [] = REps"
| "liti [c] = chi c"
| "liti (c # d # s) = RSeq (chi c) (liti (d # s))"

fun seqs :: "rx list \<Rightarrow> rx" where
  "seqs [] = REps"
| "seqs [r] = r"
| "seqs (r # q # rs) = RSeq r (seqs (q # rs))"

fun alts :: "rx list \<Rightarrow> rx" where
  "alts [] = RSet (\<lambda>c. False)"
| "alts [r] = r"
| "alts (r # q # rs) = RAlt r (alts (q # rs))"

definition opt :: "rx \<Rightarrow> rx" where
  "opt r = RRep 0 (Some 1) r"

definition star :: "rx \<Rightarrow> rx" where
  "star r = RRep 0 None r"

definition plus_rx :: "rx \<Rightarrow> rx" where
  "plus_rx r = RRep 1 None r"

definition word_before :: "char option \<Rightarrow> bool" where
  "word_before pv = (case pv of None \<Rightarrow> False | Some c \<Rightarrow> is_word c)"

definition word_after :: "str \<Rightarrow> bool" where
  "word_after s = (case s of [] \<Rightarrow> False | c # u \<Rightarrow> is_word c)"

definition wordb :: rx where
  "wordb = RLook (\<lambda>pv s. word_before pv \<noteq> word_after s)"

abbreviation (input) dq :: char where "dq \<equiv> CHR 0x22"
abbreviation (input) sq :: char where "sq \<equiv> CHR 0x27"
abbreviation (input) nl :: char where "nl \<equiv> CHR 0x0A"

lemmas rx_defs = ch_def chi_def opt_def star_def plus_rx_def wordb_def

subsection \<open>The patterns\<close>

text \<open>The keywords shared by the two secret patterns, as the sources spell them.\<close>

definition us_or_dash :: rx where
  "us_or_dash = opt (RSet (\<lambda>c. c = CHR ''_'' \<or> c = CHR ''-''))"

definition secret_words :: rx where
  "secret_words = alts
     [liti ''password'', liti ''passwd'', liti ''pwd'', liti ''secret'',
      seqs [liti ''api'', us_or_dash, liti ''key''],
      seqs [liti ''api'', us_or_dash, liti ''token''],
      seqs [liti ''access'', us_or_dash, liti ''token''],
      seqs [liti ''refresh'', us_or_dash, liti ''token''],
      liti ''token'', liti ''authorization'', liti ''cookie'',
      seqs [liti ''client'', us_or_dash, liti ''secret''],
      seqs [liti ''aws'', us_or_dash, liti ''secret'', us_or_dash, liti ''access'', us_or_dash,
        liti ''key''],
      liti ''sig'', liti ''signature'', liti ''x-amz-signature'']"

definition secret_key_rx :: rx where
  "secret_key_rx = seqs [RLook (\<lambda>pv s. pv = None), alts
     [liti ''password'', liti ''passwd'', liti ''pwd'', liti ''secret'',
      seqs [opt (seqs [liti ''api'', us_or_dash]), liti ''key''],
      seqs [liti ''api'', us_or_dash, liti ''token''],
      seqs [liti ''access'', us_or_dash, liti ''token''],
      seqs [liti ''refresh'', us_or_dash, liti ''token''],
      liti ''token'', liti ''authorization'', liti ''cookie'',
      seqs [liti ''client'', us_or_dash, liti ''secret''],
      seqs [liti ''private'', us_or_dash, liti ''key''],
      liti ''sig'', liti ''signature'', liti ''x-amz-signature'',
      seqs [liti ''aws'', us_or_dash, liti ''secret'', us_or_dash, liti ''access'', us_or_dash,
        liti ''key'']],
     RLook (\<lambda>pv s. s = [] \<or> s = [nl])]"

definition is_secret_key :: "str \<Rightarrow> bool" where
  "is_secret_key k = fullmatch secret_key_rx k"

definition private_key_rx :: rx where
  "private_key_rx = seqs
     [lit ''-----BEGIN '', star (RSet (\<lambda>c. is_word c \<or> c = CHR '' '')), lit ''PRIVATE KEY-----'',
      RLazy (RSet (\<lambda>c. True)),
      lit ''-----END '', star (RSet (\<lambda>c. is_word c \<or> c = CHR '' '')), lit ''PRIVATE KEY-----'']"

definition bearer_rx :: rx where
  "bearer_rx = seqs
     [wordb, RGrp 1 (alts [liti ''bearer'', liti ''basic'']), plus_rx (RSet is_space),
      plus_rx (RSet (\<lambda>c. is_alnum c \<or> c \<in> set ''._~+/=-''))]"

text \<open>The assignment pattern is verbose: the blank before \<open>[A-Z ]\<close> in its source is not part of it.\<close>

definition assignment_value_rx :: rx where
  "assignment_value_rx = alts
        [seqs [liti ''[redacted'', opt (plus_rx (RSet (\<lambda>c. is_alpha c \<or> c = CHR '' ''))), ch (CHR '']'')],
         seqs [ch dq, star (RSet (\<lambda>c. c \<noteq> dq \<and> c \<noteq> nl)), ch dq],
         seqs [ch sq, star (RSet (\<lambda>c. c \<noteq> sq \<and> c \<noteq> nl)), ch sq],
         plus_rx (RSet (\<lambda>c. \<not> is_space c \<and> c \<notin> set '',;&}]''))]"

definition assignment_rx :: rx where
  "assignment_rx = seqs
     [RGrp 1 (seqs
        [opt (RSet (\<lambda>c. c = dq \<or> c = sq)), wordb, secret_words, opt (RSet (\<lambda>c. c = dq \<or> c = sq)),
         star (RSet is_space), RSet (\<lambda>c. c = CHR '':'' \<or> c = CHR ''=''), star (RSet is_space)]),
      assignment_value_rx]"

definition url_userinfo_rx :: rx where
  "url_userinfo_rx = seqs
     [RGrp 1 (seqs [liti ''http'', opt (chi (CHR ''s'')), lit ''://'']),
      plus_rx (RSet (\<lambda>c. c \<notin> set ''/@:'' \<and> \<not> is_space c)), ch (CHR '':''),
      plus_rx (RSet (\<lambda>c. c \<notin> set ''/@'' \<and> \<not> is_space c)), ch (CHR ''@'')]"

definition slack_rx :: rx where
  "slack_rx = seqs
     [RGrp 1 (seqs [liti ''https://hooks.'', alts [liti ''slack.com'', liti ''slack-gov.com''],
        liti ''/services/'']),
      plus_rx (RSet (\<lambda>c. \<not> is_space c \<and> c \<noteq> dq \<and> c \<noteq> sq))]"

definition device_rx :: rx where
  "device_rx = seqs [RGrp 1 (liti ''/3/device/''), RRep 64 (Some 200) (RSet is_hex), wordb]"

definition aws_key_rx :: rx where
  "aws_key_rx = seqs
     [wordb, alts [lit ''AKIA'', lit ''ASIA''],
      RRep 16 (Some 16) (RSet (\<lambda>c. is_upper c \<or> is_digit c)), wordb]"

definition api_key_rx :: rx where
  "api_key_rx = seqs
     [wordb, alts
       [seqs [lit ''sk-'', RRep 16 None (RSet (\<lambda>c. is_alnum c \<or> c = CHR ''_'' \<or> c = CHR ''-''))],
        seqs [lit ''gh'', RSet (\<lambda>c. c \<in> set ''pousr''), lit ''_'', RRep 20 None (RSet is_alnum)]],
      wordb]"

definition jwt_part :: rx where
  "jwt_part = plus_rx (RSet (\<lambda>c. is_alnum c \<or> c = CHR ''_'' \<or> c = CHR ''-''))"

definition jwt_rx :: rx where
  "jwt_rx = seqs
     [wordb, lit ''eyJ'', jwt_part, ch (CHR ''.''), jwt_part, ch (CHR ''.''), jwt_part, wordb]"

definition email_local :: "char \<Rightarrow> bool" where
  "email_local c = (is_alnum c \<or> c = sq \<or> c \<in> set ''.!#$%&*+/=?^_`{|}~-'')"

definition email_rx :: rx where
  "email_rx = seqs
     [wordb, plus_rx (RSet email_local), ch (CHR ''@''),
      plus_rx (RSet (\<lambda>c. is_alnum c \<or> c = CHR ''.'' \<or> c = CHR ''-'')), ch (CHR ''.''),
      RRep 2 None (RSet is_alpha), wordb]"

definition octet_rx :: rx where
  "octet_rx = alts
     [seqs [lit ''25'', RSet (\<lambda>c. c \<in> set ''012345'')],
      seqs [lit ''2'', RSet (\<lambda>c. c \<in> set ''01234''), RSet is_digit],
      seqs [lit ''1'', RSet is_digit, RSet is_digit],
      seqs [opt (RSet (\<lambda>c. is_digit c \<and> c \<noteq> CHR ''0'')), RSet is_digit]]"

definition ip_rx :: rx where
  "ip_rx = seqs [wordb, RRep 3 (Some 3) (seqs [octet_rx, ch (CHR ''.'')]), octet_rx, wordb]"

definition phone_rx :: rx where
  "phone_rx = seqs
     [RLook (\<lambda>pv s. \<not> word_before pv), ch (CHR ''+''),
      RRep 9 (Some 14) (seqs [RSet is_digit, opt (RSet (\<lambda>c. c = CHR '' '' \<or> c = CHR ''-''))]),
      RSet is_digit, RLook (\<lambda>pv s. \<not> word_after s)]"

definition redaction_patterns :: "(rx \<times> (caps \<Rightarrow> str)) list" where
  "redaction_patterns =
     [(private_key_rx, \<lambda>cs. ''[REDACTED PRIVATE KEY]''),
      (bearer_rx, \<lambda>cs. group 1 cs @ '' [REDACTED]''),
      (assignment_rx, \<lambda>cs. group 1 cs @ ''[REDACTED]''),
      (url_userinfo_rx, \<lambda>cs. group 1 cs @ ''[REDACTED]@''),
      (slack_rx, \<lambda>cs. group 1 cs @ ''[REDACTED]''),
      (device_rx, \<lambda>cs. group 1 cs @ ''[REDACTED]''),
      (aws_key_rx, \<lambda>cs. ''[REDACTED AWS KEY]''),
      (api_key_rx, \<lambda>cs. ''[REDACTED KEY]''),
      (jwt_rx, \<lambda>cs. ''[REDACTED JWT]''),
      (email_rx, \<lambda>cs. ''[REDACTED EMAIL]''),
      (ip_rx, \<lambda>cs. ''[REDACTED IP]''),
      (phone_rx, \<lambda>cs. ''[REDACTED PHONE]'')]"

subsection \<open>\<open>redact\<close> and \<open>redact_value\<close>\<close>

definition redact :: "str \<Rightarrow> str" where
  "redact text = fold (\<lambda>(r, t) s. sub r t None s) redaction_patterns text"

function redact_at :: "nat \<Rightarrow> pyval \<Rightarrow> pyval" where
  "redact_at depth v =
     (if depth > 12 then VStr ''[TRUNCATED NESTING]''
      else case v of
        VStr s \<Rightarrow> VStr (redact s)
      | VDict kvs \<Rightarrow> VDict (dict_of (map (\<lambda>(k, x).
          (redact k, if is_secret_key k then VStr ''[REDACTED]'' else redact_at (Suc depth) x)) kvs))
      | VList xs \<Rightarrow> VList (map (redact_at (Suc depth)) xs)
      | _ \<Rightarrow> v)"
  by pat_completeness auto
termination
  by (relation "measure (\<lambda>(depth, v). 13 - depth)") auto

declare redact_at.simps [simp del]

text \<open>The equations of \<open>redact_at\<close>, one for each kind of value.\<close>

lemma redact_at_simps [simp]:
  "12 < d \<Longrightarrow> redact_at d v = VStr ''[TRUNCATED NESTING]''"
  "d \<le> 12 \<Longrightarrow> redact_at d VNone = VNone"
  "d \<le> 12 \<Longrightarrow> redact_at d (VBool b) = VBool b"
  "d \<le> 12 \<Longrightarrow> redact_at d (VInt i) = VInt i"
  "d \<le> 12 \<Longrightarrow> redact_at d (VFloat f) = VFloat f"
  "d \<le> 12 \<Longrightarrow> redact_at d (VStr s) = VStr (redact s)"
  "d \<le> 12 \<Longrightarrow> redact_at d (VList xs) = VList (map (redact_at (Suc d)) xs)"
  "d \<le> 12 \<Longrightarrow> redact_at d (VDict kvs) = VDict (dict_of (map (\<lambda>(k, x).
     (redact k, if is_secret_key k then VStr ''[REDACTED]'' else redact_at (Suc d) x)) kvs))"
  by (simp_all add: redact_at.simps[of d])

definition redact_value :: "pyval \<Rightarrow> pyval" where
  "redact_value v = redact_at 0 v"

lemma size_dict_item [termination_simp]:
  "(k, x) \<in> set kvs \<Longrightarrow> size x < Suc (size_list (size_prod (\<lambda>_. 0) size) kvs)"
  by (induction kvs) auto

subsection \<open>Values under secret keys do not reach the output\<close>

text \<open>\<open>mask\<close> forgets every value stored under a secret key. What \<open>redact_value\<close> returns depends on
  the masked value only, so two documents that differ in their secrets alone come out equal.\<close>

fun mask :: "pyval \<Rightarrow> pyval" where
  "mask (VDict kvs) = VDict (map (\<lambda>(k, x). (k, if is_secret_key k then VNone else mask x)) kvs)"
| "mask (VList xs) = VList (map mask xs)"
| "mask VNone = VNone"
| "mask (VBool b) = VBool b"
| "mask (VInt i) = VInt i"
| "mask (VFloat f) = VFloat f"
| "mask (VStr s) = VStr s"

lemma redact_at_mask: "redact_at d (mask v) = redact_at d v"
proof (induction d v rule: redact_at.induct)
  case (1 d v)
  show ?case
  proof (cases "12 < d")
    case False
    then show ?thesis
      using "1.IH" by (cases v) (auto intro!: arg_cong[where f = dict_of] split: prod.splits)
  qed simp
qed

lemma redact_value_mask: "redact_value (mask v) = redact_value v"
  by (simp add: redact_value_def redact_at_mask)

subsection \<open>Nesting, keys and texts of the output\<close>

fun vdepth :: "pyval \<Rightarrow> nat" where
  "vdepth (VDict kvs) = Suc (fold max (map (\<lambda>(k, x). vdepth x) kvs) 0)"
| "vdepth (VList xs) = Suc (fold max (map vdepth xs) 0)"
| "vdepth VNone = 0"
| "vdepth (VBool b) = 0"
| "vdepth (VInt i) = 0"
| "vdepth (VFloat f) = 0"
| "vdepth (VStr s) = 0"

lemma fold_max_le: "fold max ns m \<le> b \<longleftrightarrow> m \<le> b \<and> (\<forall>n \<in> set ns. n \<le> (b::nat))"
  by (induction ns arbitrary: m) auto

lemma vdepth_redact_at: "d \<le> 13 \<Longrightarrow> vdepth (redact_at d v) \<le> 13 - d"
proof (induction d v rule: redact_at.induct)
  case (1 d v)
  show ?case
  proof (cases "12 < d")
    case False
    then have "Suc (12 - d) = 13 - d" by simp
    with False "1.IH" show ?thesis
      by (cases v) (fastforce simp: fold_max_le simp flip: \<open>Suc (12 - d) = 13 - d\<close>
          dest!: dict_of_mem split: if_splits)+
  qed simp
qed

text \<open>\<open>texts\<close> collects the strings of a value, keys and leaves alike.\<close>

fun texts :: "pyval \<Rightarrow> str list" where
  "texts (VDict kvs) = concat (map (\<lambda>(k, x). k # texts x) kvs)"
| "texts (VList xs) = concat (map texts xs)"
| "texts VNone = []"
| "texts (VBool b) = []"
| "texts (VInt i) = []"
| "texts (VFloat f) = []"
| "texts (VStr s) = [s]"

definition markers :: "str set" where
  "markers = {''[REDACTED]'', ''[TRUNCATED NESTING]''}"

lemma texts_redact_at: "set (texts (redact_at d v)) \<subseteq> redact ` set (texts v) \<union> markers"
proof (induction d v rule: redact_at.induct)
  case (1 d v)
  show ?case
  proof (cases "12 < d")
    case True
    then show ?thesis by (simp add: markers_def)
  next
    case False
    show ?thesis
    proof (cases v)
      case (VDict kvs)
      show ?thesis
      proof
        fix t assume "t \<in> set (texts (redact_at d v))"
        with False VDict obtain k x where kx: "(k, x) \<in> set kvs" and
          t: "t = redact k \<or> t \<in> set (texts (if is_secret_key k then VStr ''[REDACTED]''
             else redact_at (Suc d) x))"
          by (fastforce dest!: dict_of_mem)
        show "t \<in> redact ` set (texts v) \<union> markers"
        proof (cases "is_secret_key k")
          case True
          with t kx VDict show ?thesis by (force simp: markers_def)
        next
          case no: False
          with t have "t = redact k \<or> t \<in> redact ` set (texts x) \<union> markers"
            using "1.IH"(2)[OF False VDict kx refl no] by auto
          with kx VDict show ?thesis by force
        qed
      qed
    next
      case (VList xs)
      with False "1.IH"(1)[OF False VList] show ?thesis by fastforce
    qed (use False in simp_all)
  qed
qed

subsection \<open>Substitution by the patterns\<close>

lemma patterns_ok: "(r, t) \<in> set redaction_patterns \<Longrightarrow> rx_ok r \<and> 0 < minlen r"
  by (auto simp: redaction_patterns_def private_key_rx_def bearer_rx_def assignment_rx_def assignment_value_rx_def
      url_userinfo_rx_def slack_rx_def device_rx_def aws_key_rx_def api_key_rx_def jwt_rx_def
      jwt_part_def email_rx_def octet_rx_def ip_rx_def phone_rx_def secret_words_def
      us_or_dash_def rx_defs)

text \<open>A text is unchanged by the patterns that need a character it does not have.\<close>

lemma fold_sub_id:
  assumes "\<forall>(r, t) \<in> set ps. needs p r" and "\<forall>c \<in> set s. \<not> p c"
  shows "fold (\<lambda>(r, t) s. sub r t None s) ps s = s"
  using assms(1) by (induction ps) (auto simp: sub_id_needs[OF _ assms(2)])

lemma needs_lit: "needs p (lit s) \<longleftrightarrow> (\<exists>c \<in> set s. p c)"
  by (induction s rule: lit.induct) (auto simp: ch_def)

lemma needs_liti: "needs p (liti s) \<longleftrightarrow> (\<exists>c \<in> set s. \<forall>x. lower_char x = c \<longrightarrow> p x)"
  by (induction s rule: liti.induct) (auto simp: chi_def)

lemma needs_seqs: "needs p (seqs rs) \<longleftrightarrow> (\<exists>r \<in> set rs. needs p r)"
  by (induction rs rule: seqs.induct) auto

lemma needs_alts: "needs p (alts rs) \<longleftrightarrow> (\<forall>r \<in> set rs. needs p r)"
  by (induction rs rule: alts.induct) auto

lemmas needs_simps = needs_lit needs_liti needs_seqs needs_alts

lemmas [simp del] = lit.simps liti.simps seqs.simps alts.simps

text \<open>Identifiers (lower case hexadecimal digits and dashes, as \<open>uuid4\<close> prints them) are never
  altered.\<close>

definition id_char :: "char \<Rightarrow> bool" where
  "id_char c = (is_digit c \<or> 97 \<le> ord c \<and> ord c \<le> 102 \<or> c = CHR ''-'')"

lemma id_char_lower: "id_char x \<Longrightarrow> lower_char x = x"
  by (auto simp: id_char_def is_digit_def lower_char_def Let_def ord_def)

lemma not_id_chars [simp]:
  "\<not> id_char (CHR ''B'')" "\<not> id_char (CHR ''s'')" "\<not> id_char (CHR ''r'')" "\<not> id_char (CHR '':'')"
  "\<not> id_char (CHR ''='')" "\<not> id_char (CHR ''/'')" "\<not> id_char (CHR ''K'')" "\<not> id_char (CHR ''S'')"
  "\<not> id_char (CHR ''h'')" "\<not> id_char (CHR ''y'')" "\<not> id_char (CHR ''@'')" "\<not> id_char (CHR ''.'')"
  "\<not> id_char (CHR ''+'')"
  by (simp_all add: id_char_def is_digit_def ord_def)

lemma lower_needs [simp]:
  "\<not> id_char c \<Longrightarrow> (\<forall>x. lower_char x = c \<longrightarrow> \<not> id_char x) \<longleftrightarrow> True"
  using id_char_lower by auto

lemma redact_identifier:
  assumes "\<forall>c \<in> set s. id_char c"
  shows "redact s = s"
  unfolding redact_def
proof (rule fold_sub_id)
  show "\<forall>c \<in> set s. \<not> \<not> id_char c" using assms by simp
  let ?n = "needs (\<lambda>c. \<not> id_char c)"
  have "?n private_key_rx" by (simp add: private_key_rx_def needs_simps)
  moreover have "?n bearer_rx" by (simp add: bearer_rx_def needs_simps)
  moreover have "?n assignment_rx" by (auto simp add: assignment_rx_def needs_simps)
  moreover have "?n url_userinfo_rx" "?n slack_rx" "?n device_rx"
    by (simp_all add: url_userinfo_rx_def slack_rx_def device_rx_def needs_simps)
  moreover have "?n aws_key_rx" "?n api_key_rx" "?n jwt_rx"
    by (simp_all add: aws_key_rx_def api_key_rx_def jwt_rx_def needs_simps)
  moreover have "?n email_rx" "?n phone_rx"
    by (simp_all add: email_rx_def phone_rx_def needs_simps ch_def)
  moreover have "?n ip_rx" by (simp add: ip_rx_def needs_simps ch_def)
  ultimately show "\<forall>(r, t) \<in> set redaction_patterns. ?n r"
    by (simp add: redaction_patterns_def)
qed

text \<open>Neither are words of lower case letters, which the texts of statuses and severities are.\<close>

lemma redact_lower_word:
  assumes "\<forall>c \<in> set s. is_lower c"
  shows "redact s = s"
  unfolding redact_def
proof (rule fold_sub_id)
  show "\<forall>c \<in> set s. \<not> \<not> is_lower c" using assms by simp
  let ?n = "needs (\<lambda>c. \<not> is_lower c)"
  have np: "\<not> is_lower (CHR ''-'')" "\<not> is_lower (CHR '':'')" "\<not> is_lower (CHR ''='')"
    "\<not> is_lower (CHR ''/'')" "\<not> is_lower (CHR ''A'')" "\<not> is_lower (CHR ''_'')" "\<not> is_lower (CHR ''.'')"
    "\<not> is_lower (CHR ''@'')" "\<not> is_lower (CHR ''+'')"
    by (simp_all add: is_lower_def ord_def)
  have slash: "\<forall>x. lower_char x = CHR ''/'' \<longrightarrow> \<not> is_lower x"
  proof (intro allI impI)
    fix x assume "lower_char x = CHR ''/''"
    then have "ord (lower_char x) = 47" by (simp add: ord_def)
    then show "\<not> is_lower x"
      by (auto simp: lower_char_def Let_def is_lower_def ord_chr split: if_splits)
  qed
  have "?n private_key_rx" by (simp add: private_key_rx_def needs_simps np)
  moreover have "?n bearer_rx"
    by (auto simp: bearer_rx_def needs_simps plus_rx_def is_space_def is_lower_def Let_def)
  moreover have "?n assignment_rx" by (auto simp add: assignment_rx_def needs_simps np)
  moreover have "?n url_userinfo_rx" "?n slack_rx" "?n device_rx"
    using slash by (simp_all add: url_userinfo_rx_def slack_rx_def device_rx_def needs_simps np)
  moreover have "?n aws_key_rx" "?n api_key_rx" "?n jwt_rx"
    by (simp_all add: aws_key_rx_def api_key_rx_def jwt_rx_def needs_simps ch_def np)
  moreover have "?n email_rx" "?n phone_rx" "?n ip_rx"
    by (simp_all add: email_rx_def phone_rx_def ip_rx_def needs_simps ch_def np)
  ultimately show "\<forall>(r, t) \<in> set redaction_patterns. ?n r"
    by (simp add: redaction_patterns_def)
qed

subsection \<open>The value of an assignment does not reach the output\<close>

text \<open>Steps of the matcher on the combinators of the patterns.\<close>

lemma mt_star_skip:
  "s = [] \<or> \<not> p (hd s) \<Longrightarrow> mt (star (RSet p)) (pv, s, cs) k = k (pv, s, cs)"
  by (cases s) (auto simp: star_def)

lemma mt_opt_skip:
  "s = [] \<or> \<not> p (hd s) \<Longrightarrow> mt (opt (RSet p)) (pv, s, cs) k = k (pv, s, cs)"
  by (cases s) (auto simp: opt_def)

lemma mt_seqs_Cons: "rs \<noteq> [] \<Longrightarrow> mt (seqs (r # rs)) st k = mt r st (\<lambda>st'. mt (seqs rs) st' k)"
  by (cases rs) (auto simp: seqs.simps)
lemma mt_seqs_single: "mt (seqs [r]) st k = mt r st k" by (simp add: seqs.simps)

lemma mt_alts_Cons: "rs \<noteq> [] \<Longrightarrow> mt (alts (r # rs)) st k = (case mt r st k of Some x \<Rightarrow> Some x | None \<Rightarrow> mt (alts rs) st k)"
  by (cases rs) (auto simp: alts.simps)
lemma mt_alts_single: "mt (alts [r]) st k = mt r st k" by (simp add: alts.simps)

lemma mt_lit: "w \<noteq> [] \<Longrightarrow> mt (lit w) (pv, s, cs) k = (if prefix w s then k (Some (last w), drop (length w) s, cs) else None)"
proof (induction w arbitrary: pv s rule: lit.induct)
  case (2 c) then show ?case by (cases s) (auto simp: lit.simps ch_def)
next
  case (3 c d w) then show ?case by (cases s) (auto simp: lit.simps ch_def)
qed simp

lemma mt_liti: "w \<noteq> [] \<Longrightarrow> mt (liti w) (pv, s, cs) k = (if prefix w (lower s) then k (Some (last (take (length w) s)), drop (length w) s, cs) else None)"
proof (induction w arbitrary: pv s rule: liti.induct)
  case (2 c) then show ?case by (cases s) (auto simp: liti.simps chi_def lower_def)
next
  case (3 c d w) then show ?case by (cases s) (auto simp: liti.simps chi_def lower_def)
qed simp

lemmas rx_steps = mt_seqs_Cons mt_seqs_single mt_alts_Cons mt_alts_single mt_lit mt_liti mt_star_skip mt_opt_skip


text \<open>Keywords of the assignment pattern that are one lower case word.\<close>

definition plain_words :: "str list" where
  "plain_words = [''password'', ''passwd'', ''pwd'', ''secret'', ''token'', ''authorization'', ''cookie'', ''sig'']"

lemma lower_simps: "lower [] = []" "lower (c # s) = lower_char c # lower s"
  by (simp_all add: lower_def)


lemma case_option_id: "(case x of None \<Rightarrow> None | Some y \<Rightarrow> Some y) = x"
  by (cases x) auto

lemma lower_char_other: "\<not> (65 \<le> ord c \<and> ord c \<le> 90 \<or> 192 \<le> ord c \<and> ord c \<le> 222 \<and> ord c \<noteq> 215) \<Longrightarrow> lower_char c = c"
  by (auto simp add: lower_char_def Let_def)

lemma mt_secret_words:
  assumes "k \<in> set plain_words"
  shows "mt secret_words (pv, k @ CHR ''='' # v, cs) K = K (Some (last k), CHR ''='' # v, cs)"
proof -
  have "k = ''password'' \<or> k = ''passwd'' \<or> k = ''pwd'' \<or> k = ''secret'' \<or> k = ''token'' \<or>
    k = ''authorization'' \<or> k = ''cookie'' \<or> k = ''sig''"
    using assms by (simp add: plain_words_def)
  then show ?thesis
    unfolding secret_words_def us_or_dash_def
    by (elim disjE) (simp_all add: rx_steps lower_simps lower_char_other ord_def case_option_id del: mt.simps cong: option.case_cong)
qed

lemma match_assignment:
  assumes k: "k \<in> set plain_words" and v: "v \<noteq> []" "\<forall>c \<in> set v. is_alnum c"
  shows "match_at assignment_rx None (k @ CHR ''='' # v) = Some (Some (last v), [], [(1, k @ ''='')])"
proof -
  have sp: "\<not> is_space c" if "is_alnum c" for c
    using that by (auto simp: is_alnum_def is_alpha_def is_upper_def is_lower_def is_digit_def is_space_def Let_def)
  have q: "c \<notin> set '',;&}]'' \<and> c \<noteq> CHR ''['' \<and> c \<noteq> dq \<and> c \<noteq> sq" if "is_alnum c" for c
    using that by (auto simp: is_alnum_def is_alpha_def is_upper_def is_lower_def is_digit_def ord_def)
  have hv: "is_alnum (hd v)" using v by simp
  have kw: "k \<noteq> []" "word_after (k @ x)" "hd k \<noteq> dq" "hd k \<noteq> sq" for x
    using k by (auto simp: plain_words_def word_after_def is_word_def ord_def)
  have value_part: "mt assignment_value_rx (pv, v, cs) Some
     = Some (Some (last v), [], cs)" for pv cs
  proof -
    obtain a w where a: "v = a # w" using v(1) by (cases v) auto
    have "lower_char a \<noteq> CHR ''[''"
    proof
      assume "lower_char a = CHR ''[''"
      then have "ord (lower_char a) = 91" by (simp add: ord_def)
      moreover have "is_alnum a" using hv a by simp
      ultimately show False
        by (auto simp: lower_char_def Let_def ord_chr is_alnum_def is_alpha_def is_upper_def is_lower_def is_digit_def split: if_splits)
    qed
    then have "\<not> prefix ''[redacted'' (lower v)" by (simp add: a lower_simps)
    moreover have "mt (ch c) (pv, v, cs) K = None" if "c = dq \<or> c = sq" for c and K :: "rstate \<Rightarrow> rstate option"
      using v(1) q[OF hv] that by (cases v) (auto simp: ch_def)
    moreover have "mt (plus_rx (RSet (\<lambda>c. \<not> is_space c \<and> c \<notin> set '',;&}]''))) (pv, v, cs) Some
      = Some (Some (last v), [], cs)"
      using v sp q by (auto simp: plus_rx_def Suc_le_eq simp del: rep_greedy.simps mt.simps(2) intro!: greedy_set_all[THEN trans])
    ultimately show ?thesis
      by (simp add: assignment_value_rx_def mt_alts_Cons mt_alts_single mt_seqs_Cons mt_liti del: mt.simps rep_greedy.simps cong: option.case_cong)
  qed
  show ?thesis
    unfolding match_at_def assignment_rx_def
    by (simp add: mt_seqs_Cons mt_seqs_single mt_opt_skip wordb_def word_before_def kw mt_secret_words[OF k])
      (simp add: mt_opt_skip mt_star_skip[of v is_space] mt_star_skip[of "CHR ''='' # v" is_space] sp hv capture_def value_part is_space_def[of "CHR ''=''"] ord_def del: mt.simps(5))
qed

lemma plain_word_lower: "k \<in> set plain_words \<Longrightarrow> c \<in> set k \<Longrightarrow> is_lower c"
  by (auto simp: plain_words_def is_lower_def ord_def)

lemma lower_char_slash: "lower_char x = CHR ''/'' \<longleftrightarrow> x = CHR ''/''"
proof
  assume "lower_char x = CHR ''/''"
  then have "ord (lower_char x) = 47" by (simp add: ord_def)
  then have "ord x = 47" by (auto simp: lower_char_def Let_def ord_chr split: if_splits)
  then have "ord x = ord (CHR ''/'')" by (simp add: ord_def)
  then show "x = CHR ''/''" by (simp only: ord_inject)
qed (simp add: lower_char_other ord_def)

lemma assignment_rx_minlen: "0 < minlen assignment_rx"
  using patterns_ok[of assignment_rx] by (auto simp: redaction_patterns_def)

theorem redact_hides_assignment:
  assumes k: "k \<in> set plain_words" and v: "v \<noteq> []" "\<forall>c \<in> set v. is_alnum c"
  shows "redact (k @ ''='' @ v) = k @ ''=[REDACTED]''"
proof -
  let ?s = "k @ CHR ''='' # v" and ?t = "k @ ''=[REDACTED]''"
  have alnum: "\<not> is_space c" if "is_alnum c" for c
    using that by (auto simp: is_alnum_def is_alpha_def is_upper_def is_lower_def is_digit_def is_space_def Let_def)
  have lower: "is_alnum c" if "c \<in> set k" for c
    using plain_word_lower[OF k that] by (simp add: is_alnum_def is_alpha_def)
  have no_space: "\<forall>c \<in> set ?s. \<not> is_space c"
    using v alnum lower by (auto simp: is_space_def[of "CHR ''=''"] ord_def)
  have 1: "sub private_key_rx t None ?s = ?s" for t
    by (rule sub_id_needs[OF _ no_space])
      (simp add: private_key_rx_def needs_simps is_space_def[of "CHR '' ''"] ord_def)
  have 2: "sub bearer_rx t None ?s = ?s" for t
    by (rule sub_id_needs[OF _ no_space]) (simp add: bearer_rx_def needs_simps plus_rx_def)
  have 3: "sub assignment_rx (\<lambda>cs. group 1 cs @ ''[REDACTED]'') None ?s = ?t"
    by (simp add: sub.simps[of _ _ _ ?s] match_assignment[OF k v] sub_Nil group_def assignment_rx_minlen)
  have 4: "fold (\<lambda>(r, t) s. sub r t None s) (drop 3 redaction_patterns) ?t = ?t"
  proof (rule fold_sub_id[of _ "\<lambda>c. c \<in> set ''/KS-_yJ@.+''"])
    show "\<forall>c \<in> set ?t. c \<notin> set ''/KS-_yJ@.+''"
      using k by (auto simp: plain_words_def)
    show "\<forall>(r, t) \<in> set (drop 3 redaction_patterns). needs (\<lambda>c. c \<in> set ''/KS-_yJ@.+'') r"
      by (simp add: redaction_patterns_def url_userinfo_rx_def slack_rx_def device_rx_def
          aws_key_rx_def api_key_rx_def jwt_rx_def email_rx_def ip_rx_def phone_rx_def
          needs_simps ch_def lower_char_slash)
  qed
  have "redact (k @ ''='' @ v) = fold (\<lambda>(r, t) s. sub r t None s) (drop 3 redaction_patterns)
      (sub assignment_rx (\<lambda>cs. group 1 cs @ ''[REDACTED]'') None ?s)"
    by (simp only: redact_def redaction_patterns_def) (simp add: 1 2)
  with 3 4 show ?thesis by (simp only:)
qed

end
