(* ===== verification/PyValues.thy ===== *)
theory PyValues
  imports Redaction "HOL-Library.List_Lexorder" "HOL-Library.Char_ord"
begin

text \<open>
  What the program does with values of unknown shape: dictionary access, truth, \<open>str()\<close> and
  \<open>json.dumps\<close> with the options used in the sources.
\<close>

subsection \<open>Access and truth\<close>

type_synonym dict = "(str \<times> pyval) list"

text \<open>\<open>d.get(k)\<close>, \<open>d.get(k, default)\<close> and \<open>k in d\<close>.\<close>

definition get :: "dict \<Rightarrow> str \<Rightarrow> pyval" where
  "get d k = (case map_of d k of None \<Rightarrow> VNone | Some v \<Rightarrow> v)"

definition get_or :: "dict \<Rightarrow> str \<Rightarrow> pyval \<Rightarrow> pyval" where
  "get_or d k x = (case map_of d k of None \<Rightarrow> x | Some v \<Rightarrow> v)"

definition has_key :: "dict \<Rightarrow> str \<Rightarrow> bool" where
  "has_key d k = (map_of d k \<noteq> None)"

fun truthy :: "pyval \<Rightarrow> bool" where
  "truthy VNone = False"
| "truthy (VBool b) = b"
| "truthy (VInt i) = (i \<noteq> 0)"
| "truthy (VFloat f) = (f \<noteq> ''0.0'' \<and> f \<noteq> ''-0.0'')"
| "truthy (VStr s) = (s \<noteq> [])"
| "truthy (VList xs) = (xs \<noteq> [])"
| "truthy (VDict d) = (d \<noteq> [])"

text \<open>The value of \<open>a or b\<close>.\<close>

definition or_else :: "pyval \<Rightarrow> pyval \<Rightarrow> pyval" where
  "or_else a b = (if truthy a then a else b)"

fun is_str :: "pyval \<Rightarrow> bool" where
  "is_str (VStr s) = True"
| "is_str _ = False"

fun is_list :: "pyval \<Rightarrow> bool" where
  "is_list (VList xs) = True"
| "is_list _ = False"

subsection \<open>\<open>repr\<close> and \<open>str\<close>\<close>

definition hex_digit :: "nat \<Rightarrow> char" where
  "hex_digit n = (if n < 10 then chr (48 + n) else chr (87 + n))"

lemma id_char_hex_digit: "n < 16 \<Longrightarrow> id_char (hex_digit n)"
  by (auto simp: hex_digit_def id_char_def is_digit_def ord_chr)

definition hex2 :: "nat \<Rightarrow> str" where
  "hex2 n = [hex_digit (n div 16), hex_digit (n mod 16)]"

text \<open>The quote is single unless the text has single and no double quotes. Not printable in the
  Latin-1 range are the control characters, the no-break space and the soft hyphen.\<close>

definition repr_char :: "char \<Rightarrow> char \<Rightarrow> str" where
  "repr_char q c = (let n = ord c in
     if c = q \<or> n = 92 then [chr 92, c]
     else if n = 9 then [chr 92, CHR ''t''] else if n = 10 then [chr 92, CHR ''n'']
     else if n = 13 then [chr 92, CHR ''r'']
     else if n < 32 \<or> 127 \<le> n \<and> n \<le> 160 \<or> n = 173 then [chr 92, CHR ''x''] @ hex2 n
     else [c])"

definition repr_str :: "str \<Rightarrow> str" where
  "repr_str s = (let q = (if sq \<in> set s \<and> dq \<notin> set s then dq else sq)
     in q # concat (map (repr_char q) s) @ [q])"

fun py_repr :: "pyval \<Rightarrow> str" where
  "py_repr VNone = ''None''"
| "py_repr (VBool b) = (if b then ''True'' else ''False'')"
| "py_repr (VInt i) = int_text i"
| "py_repr (VFloat f) = f"
| "py_repr (VStr s) = repr_str s"
| "py_repr (VList xs) = ''['' @ join '', '' (map py_repr xs) @ '']''"
| "py_repr (VDict d) =
     ''{'' @ join '', '' (map (\<lambda>(k, v). repr_str k @ '': '' @ py_repr v) d) @ ''}''"

definition py_str :: "pyval \<Rightarrow> str" where
  "py_str v = (case v of VStr s \<Rightarrow> s | _ \<Rightarrow> py_repr v)"

lemma py_str_VStr [simp]: "py_str (VStr s) = s"
  by (simp add: py_str_def)

subsection \<open>\<open>json.dumps\<close>\<close>

definition json_escape :: "bool \<Rightarrow> char \<Rightarrow> str" where
  "json_escape ascii c = (let n = ord c in
     if n = 34 \<or> n = 92 then [chr 92, c]
     else if n = 10 then [chr 92, CHR ''n''] else if n = 13 then [chr 92, CHR ''r'']
     else if n = 9 then [chr 92, CHR ''t''] else if n = 12 then [chr 92, CHR ''f'']
     else if n = 8 then [chr 92, CHR ''b'']
     else if n < 32 \<or> ascii \<and> 126 < n then [chr 92, CHR ''u'', CHR ''0'', CHR ''0''] @ hex2 n
     else [c])"

definition json_string :: "bool \<Rightarrow> str \<Rightarrow> str" where
  "json_string ascii s = dq # concat (map (json_escape ascii) s) @ [dq]"

definition json_float :: "str \<Rightarrow> str" where
  "json_float f = (if f = ''nan'' then ''NaN'' else if f = ''inf'' then ''Infinity''
     else if f = ''-inf'' then ''-Infinity'' else f)"

record dump_opts =
  ascii :: bool
  sort_keys :: bool
  item_sep :: str
  key_sep :: str

definition dict_items :: "bool \<Rightarrow> (str \<times> 'v) list \<Rightarrow> (str \<times> 'v) list" where
  "dict_items srt d = (if srt then sort_key fst d else d)"

lemma set_dict_items [simp]: "set (dict_items b d) = set d"
  by (simp add: dict_items_def)

lemma size_dict_items [termination_simp]:
  "(k, v) \<in> set (dict_items b d) \<Longrightarrow> size v < Suc (size_list (size_prod (\<lambda>_. 0) size) d)"
  by (simp add: size_dict_item)

fun dumps :: "dump_opts \<Rightarrow> pyval \<Rightarrow> str" where
  "dumps opts VNone = ''null''"
| "dumps opts (VBool b) = (if b then ''true'' else ''false'')"
| "dumps opts (VInt i) = int_text i"
| "dumps opts (VFloat f) = json_float f"
| "dumps opts (VStr s) = json_string (ascii opts) s"
| "dumps opts (VList xs) = ''['' @ join (item_sep opts) (map (dumps opts) xs) @ '']''"
| "dumps opts (VDict d) = ''{'' @ join (item_sep opts)
     (map (\<lambda>(k, v). json_string (ascii opts) k @ key_sep opts @ dumps opts v)
       (dict_items (sort_keys opts) d)) @ ''}''"

text \<open>The options of the call sites: the default, \<open>ensure_ascii=False\<close>, the canonical form of
  identifiers, and the sorted form of archives.\<close>

definition dump_default :: dump_opts where
  "dump_default = \<lparr>ascii = True, sort_keys = False, item_sep = '', '', key_sep = '': ''\<rparr>"

definition dump_unicode :: dump_opts where
  "dump_unicode = dump_default\<lparr>ascii := False\<rparr>"

definition dump_canonical :: dump_opts where
  "dump_canonical = \<lparr>ascii = True, sort_keys = True, item_sep = '','', key_sep = '':''\<rparr>"

definition dump_sorted :: dump_opts where
  "dump_sorted = dump_default\<lparr>ascii := False, sort_keys := True\<rparr>"

lemma json_escape_length: "1 \<le> length (json_escape a c) \<and> length (json_escape a c) \<le> 6"
  by (auto simp: json_escape_def Let_def hex2_def)

lemma json_string_length: "length (json_string a s) \<le> 6 * length s + 2"
proof -
  have "length (concat (map (json_escape a) s)) \<le> 6 * length s"
  proof (induction s)
    case (Cons c s)
    with json_escape_length[of a c] show ?case by simp
  qed simp
  then show ?thesis by (simp add: json_string_def)
qed

text \<open>A quoted string has no line break in it, so a dumped value is one line.\<close>

lemma json_escape_no_nl: "nl \<notin> set (json_escape a c)"
proof -
  have "nl \<notin> set (hex2 n)" if "n < 256" for n
  proof -
    have "hex_digit m \<noteq> nl" if "m < 16" for m
    proof
      assume "hex_digit m = nl"
      with id_char_hex_digit[OF that] have "id_char nl" by simp
      then show False by (simp add: id_char_def is_digit_def ord_def)
    qed
    then have "hex_digit (n div 16) \<noteq> nl" and "hex_digit (n mod 16) \<noteq> nl"
      using that by simp_all
    then show ?thesis by (auto simp: hex2_def)
  qed
  moreover have "chr 92 \<noteq> nl" by code_simp
  moreover have "ord c \<noteq> 10 \<Longrightarrow> c \<noteq> nl" by (auto simp: ord_def)
  ultimately show ?thesis by (auto simp: json_escape_def Let_def)
qed

end
