(* ===== verification/Sha256.thy ===== *)
theory Sha256
  imports PyValues "HOL-Library.Word"
begin

unbundle bit_operations_syntax

text \<open>
  \<open>hashlib.sha256(..).hexdigest()\<close>, which the program uses for deterministic identifiers and for
  content addresses. Bytes are numbers below 256, words have 32 bits and wrap around.
\<close>

type_synonym u32 = "32 word"

definition round_constants :: "u32 list" where
  "round_constants =
     [1116352408, 1899447441, 3049323471, 3921009573, 961987163, 1508970993, 2453635748,
      2870763221, 3624381080, 310598401, 607225278, 1426881987, 1925078388, 2162078206,
      2614888103, 3248222580, 3835390401, 4022224774, 264347078, 604807628, 770255983,
      1249150122, 1555081692, 1996064986, 2554220882, 2821834349, 2952996808, 3210313671,
      3336571891, 3584528711, 113926993, 338241895, 666307205, 773529912, 1294757372,
      1396182291, 1695183700, 1986661051, 2177026350, 2456956037, 2730485921, 2820302411,
      3259730800, 3345764771, 3516065817, 3600352804, 4094571909, 275423344, 430227734,
      506948616, 659060556, 883997877, 958139571, 1322822218, 1537002063, 1747873779,
      1955562222, 2024104815, 2227730452, 2361852424, 2428436474, 2756734187, 3204031479,
      3329325298]"

definition initial_hash :: "u32 list" where
  "initial_hash =
     [1779033703, 3144134277, 1013904242, 2773480762, 1359893119, 2600822924, 528734635,
      1541459225]"

definition choose_bits :: "u32 \<Rightarrow> u32 \<Rightarrow> u32 \<Rightarrow> u32" where
  "choose_bits e f g = (e AND f) XOR (NOT e AND g)"

definition majority_bits :: "u32 \<Rightarrow> u32 \<Rightarrow> u32 \<Rightarrow> u32" where
  "majority_bits a b c = (a AND b) XOR (a AND c) XOR (b AND c)"

definition big_sigma0 :: "u32 \<Rightarrow> u32" where
  "big_sigma0 a = word_rotr 2 a XOR word_rotr 13 a XOR word_rotr 22 a"

definition big_sigma1 :: "u32 \<Rightarrow> u32" where
  "big_sigma1 e = word_rotr 6 e XOR word_rotr 11 e XOR word_rotr 25 e"

definition small_sigma0 :: "u32 \<Rightarrow> u32" where
  "small_sigma0 w = word_rotr 7 w XOR word_rotr 18 w XOR drop_bit 3 w"

definition small_sigma1 :: "u32 \<Rightarrow> u32" where
  "small_sigma1 w = word_rotr 17 w XOR word_rotr 19 w XOR drop_bit 10 w"

text \<open>Padding: the bit 1, zeros up to 56 modulo 64 bytes, and the length in bits as eight bytes.\<close>

definition be_bytes :: "nat \<Rightarrow> nat \<Rightarrow> nat list" where
  "be_bytes k n = map (\<lambda>i. n div 256 ^ (k - 1 - i) mod 256) [0..<k]"

definition pad_message :: "nat list \<Rightarrow> nat list" where
  "pad_message m = m @ [128] @ replicate ((119 - length m mod 64) mod 64) 0
     @ be_bytes 8 (8 * length m)"

fun words_of :: "nat list \<Rightarrow> u32 list" where
  "words_of (a # b # c # d # bs) =
     of_nat (((a * 256 + b) * 256 + c) * 256 + d) # words_of bs"
| "words_of _ = []"

text \<open>The schedule is kept newest word first.\<close>

fun extend_schedule :: "nat \<Rightarrow> u32 list \<Rightarrow> u32 list" where
  "extend_schedule 0 ws = ws"
| "extend_schedule (Suc n) ws = extend_schedule n
     ((small_sigma1 (ws ! 1) + ws ! 6 + small_sigma0 (ws ! 14) + ws ! 15) # ws)"

fun sha_round :: "u32 \<times> u32 \<Rightarrow> u32 list \<Rightarrow> u32 list" where
  "sha_round (k, w) [a, b, c, d, e, f, g, h] =
     (let t1 = h + big_sigma1 e + choose_bits e f g + k + w;
          t2 = big_sigma0 a + majority_bits a b c
      in [t1 + t2, a, b, c, d + t1, e, f, g])"
| "sha_round _ s = s"

definition sha_block :: "u32 list \<Rightarrow> u32 list \<Rightarrow> u32 list" where
  "sha_block block hs =
     map2 (+) hs (fold sha_round (zip round_constants (rev (extend_schedule 48 (rev block)))) hs)"

fun sha_blocks :: "nat \<Rightarrow> u32 list \<Rightarrow> u32 list \<Rightarrow> u32 list" where
  "sha_blocks 0 ws hs = hs"
| "sha_blocks (Suc n) ws hs = sha_blocks n (drop 16 ws) (sha_block (take 16 ws) hs)"

definition sha256 :: "nat list \<Rightarrow> u32 list" where
  "sha256 m = (let ws = words_of (pad_message m) in sha_blocks (length ws div 16) ws initial_hash)"

definition hex_word :: "u32 \<Rightarrow> str" where
  "hex_word w = map (\<lambda>i. hex_digit (unat w div 16 ^ (7 - i) mod 16)) [0..<8]"

definition sha256_hex :: "str \<Rightarrow> str" where
  "sha256_hex s = concat (map hex_word (sha256 (utf8 s)))"

subsection \<open>The digest is 64 hexadecimal digits\<close>

lemma length_sha_round: "length s = 8 \<Longrightarrow> length (sha_round kw s) = 8"
  by (cases "(kw, s)" rule: sha_round.cases) (auto simp: Let_def)

lemma length_sha_rounds: "length s = 8 \<Longrightarrow> length (fold sha_round kws s) = 8"
  by (induction kws arbitrary: s) (auto simp: length_sha_round)

lemma length_sha_block: "length hs = 8 \<Longrightarrow> length (sha_block block hs) = 8"
  by (simp add: sha_block_def length_sha_rounds)

lemma length_sha_blocks: "length hs = 8 \<Longrightarrow> length (sha_blocks n ws hs) = 8"
  by (induction n ws hs rule: sha_blocks.induct) (auto simp: length_sha_block)

lemma length_sha256: "length (sha256 m) = 8"
  by (simp add: sha256_def Let_def length_sha_blocks initial_hash_def)

lemma length_sha256_hex [simp]: "length (sha256_hex s) = 64"
proof -
  have "sum_list (map (\<lambda>w. length (hex_word w)) ws) = 8 * length ws" for ws
    by (induction ws) (auto simp: hex_word_def)
  then show ?thesis by (simp add: sha256_hex_def length_concat comp_def length_sha256)
qed

lemma sha256_hex_chars: "c \<in> set (sha256_hex s) \<Longrightarrow> id_char c"
  by (auto simp: sha256_hex_def hex_word_def intro: id_char_hex_digit)

lemma sha256_hex_nonempty [simp]: "sha256_hex s \<noteq> []"
  using length_sha256_hex[of s] by fastforce

end
