(* ===== verification/Errors.thy ===== *)
theory Errors
  imports PyValues
begin

text \<open>
  \<open>app/core/errors.py\<close> and \<open>app/integrations/errors.py\<close>: the exceptions of the program as values,
  the error envelope, and the exception handlers that \<open>create_app\<close> registers.
\<close>

text \<open>The exceptions the modelled code raises or catches. \<open>ValueError\<close> covers pydantic's
  \<open>ValidationError\<close>, which is a subclass of it.\<close>

datatype exc =
    AppError str str int
  | IntegrationError str str int
  | HTTPException int str "(str \<times> str) list"
  | RequestValidationError "str list list"
  | ValueError str
  | KeyError
  | IndexError
  | TypeError
  | AttributeError
  | TimeoutError
  | HTTPError
  | IntegrityError
  | RedisError
  | OtherError

record response =
  resp_status :: int
  resp_body :: pyval
  resp_headers :: "(str \<times> str) list"

definition integration_error :: "str \<Rightarrow> exc" where
  "integration_error msg = IntegrationError msg ''integration_unavailable'' 503"

definition error_response :: "str \<Rightarrow> str \<Rightarrow> str \<Rightarrow> int \<Rightarrow> (str \<times> str) list \<Rightarrow> response" where
  "error_response cid code message status hdrs =
     \<lparr>resp_status = status,
      resp_body = VDict [(''error'', VDict [(''code'', VStr code), (''message'', VStr message)]),
                         (''correlation_id'', VStr cid)],
      resp_headers = hdrs\<rparr>"

definition app_error_handler :: "str \<Rightarrow> str \<Rightarrow> str \<Rightarrow> int \<Rightarrow> response" where
  "app_error_handler cid code message status = error_response cid code message status []"

definition http_error_code :: "int \<Rightarrow> str" where
  "http_error_code status =
     (if status = 401 then ''unauthorized'' else if status = 403 then ''forbidden''
      else if status = 404 then ''not_found'' else if status = 405 then ''method_not_allowed''
      else if status = 429 then ''rate_limited'' else if status = 503 then ''unavailable''
      else ''request_error'')"

definition http_error_handler :: "str \<Rightarrow> int \<Rightarrow> str \<Rightarrow> (str \<times> str) list \<Rightarrow> response" where
  "http_error_handler cid status detail hdrs =
     error_response cid (http_error_code status) detail status hdrs"

text \<open>Only the locations of at most five errors are named, never the rejected input.\<close>

definition validation_error_handler :: "str \<Rightarrow> str list list \<Rightarrow> response" where
  "validation_error_handler cid locs =
     (let fields = join '', '' (map (join ''.'') (take 5 locs))
      in error_response cid ''validation_error'' (''Invalid request fields: '' @ fields) 422 [])"

text \<open>The handlers registered in \<open>create_app\<close>; an exception without one propagates.\<close>

fun exception_handler :: "str \<Rightarrow> exc \<Rightarrow> response option" where
  "exception_handler cid (AppError code msg st) = Some (app_error_handler cid code msg st)"
| "exception_handler cid (IntegrationError msg code st) = Some (app_error_handler cid code msg st)"
| "exception_handler cid (HTTPException st detail hdrs) =
     Some (http_error_handler cid st detail hdrs)"
| "exception_handler cid (RequestValidationError locs) = Some (validation_error_handler cid locs)"
| "exception_handler cid _ = None"

text \<open>The exceptions \<open>except ValueError\<close> catches.\<close>

fun is_value_error :: "exc \<Rightarrow> bool" where
  "is_value_error (ValueError m) = True"
| "is_value_error _ = False"

fun envelope_cid :: "pyval \<Rightarrow> str option" where
  "envelope_cid (VDict [(e, VDict [(c, VStr code), (m, VStr msg)]), (i, VStr cid)]) =
     (if e = ''error'' \<and> c = ''code'' \<and> m = ''message'' \<and> i = ''correlation_id''
      then Some cid else None)"
| "envelope_cid _ = None"

lemma error_response_envelope [simp]: "envelope_cid (resp_body (error_response cid code msg st hs)) = Some cid"
  by (simp add: error_response_def)

lemmas handler_defs = app_error_handler_def http_error_handler_def validation_error_handler_def

fun_cases exception_handler_SomeE: "exception_handler cid e = Some r"

lemma exception_handler_envelope:
  "exception_handler cid e = Some r \<Longrightarrow> envelope_cid (resp_body r) = Some cid"
  by (erule exception_handler_SomeE) (simp_all add: handler_defs Let_def)

end
