(* ===== verification/Config.thy ===== *)
theory Config
  imports Errors
begin

text \<open>
  \<open>app/core/config.py\<close>: the settings, the bounds their fields declare, and the validator
  \<open>production_security\<close>. A \<open>float\<close> setting is a rational number.
\<close>

record settings =
  app_name :: str
  database_url :: str
  demo_mode :: bool
  api_key :: str
  webhook_key :: str
  jwt_secret :: str
  jwt_issuer :: str
  jwt_audience :: str
  allowed_origins :: "str list"
  max_request_bytes :: int
  rate_limit_per_minute :: int
  sla_target_minutes :: rat
  redis_url :: str
  celery_enabled :: bool
  auto_analyze :: bool
  llm_provider :: str
  llm_model :: str
  openai_api_key :: str
  anthropic_api_key :: str
  embedding_model_name :: str
  embedding_dimensions :: int
  integration_timeout_seconds :: rat
  llm_timeout_seconds :: rat
  llm_max_retries :: int
  jira_base_url :: str
  jira_email :: str
  jira_api_token :: str
  jira_project_key :: str
  jira_issue_type :: str
  confluence_base_url :: str
  confluence_email :: str
  confluence_api_token :: str
  confluence_space_id :: str
  slack_webhook_url :: str
  teams_webhook_url :: str
  apns_key_id :: str
  apns_team_id :: str
  apns_private_key :: str
  apns_bundle_id :: str
  s3_bucket :: str
  s3_endpoint_url :: str
  s3_demo_directory :: str
  aws_region :: str
  aws_access_key_id :: str
  aws_secret_access_key :: str
  aws_session_token :: str
  otel_enabled :: bool
  otel_service_name :: str

definition default_settings :: settings where
  "default_settings =
     \<lparr>app_name = ''Incident AI'', database_url = ''sqlite+aiosqlite:///./var/incident-ai.db'',
      demo_mode = True, api_key = ''incident-ai-demo-key'', webhook_key = '''', jwt_secret = '''',
      jwt_issuer = ''incident-ai'', jwt_audience = ''incident-ai-api'',
      allowed_origins = [''http://localhost:8000'', ''http://127.0.0.1:8000''],
      max_request_bytes = 2097152, rate_limit_per_minute = 120, sla_target_minutes = 60,
      redis_url = '''', celery_enabled = False, auto_analyze = False, llm_provider = ''demo'',
      llm_model = '''', openai_api_key = '''', anthropic_api_key = '''',
      embedding_model_name = ''text-embedding-3-small'', embedding_dimensions = 1536,
      integration_timeout_seconds = 15, llm_timeout_seconds = 30, llm_max_retries = 2,
      jira_base_url = '''', jira_email = '''', jira_api_token = '''', jira_project_key = '''',
      jira_issue_type = ''Task'', confluence_base_url = '''', confluence_email = '''',
      confluence_api_token = '''', confluence_space_id = '''', slack_webhook_url = '''',
      teams_webhook_url = '''', apns_key_id = '''', apns_team_id = '''', apns_private_key = '''',
      apns_bundle_id = ''com.erykszczesniak.IncidentAI'', s3_bucket = '''', s3_endpoint_url = '''',
      s3_demo_directory = ''var/archives'', aws_region = ''eu-central-1'',
      aws_access_key_id = '''', aws_secret_access_key = '''', aws_session_token = '''',
      otel_enabled = False, otel_service_name = ''incident-ai''\<rparr>"

text \<open>The bounds given by \<open>Field\<close>.\<close>

definition field_bounds :: "settings \<Rightarrow> bool" where
  "field_bounds s =
     (1024 \<le> max_request_bytes s \<and> max_request_bytes s \<le> 20971520 \<and>
      1 \<le> rate_limit_per_minute s \<and> 0 < sla_target_minutes s \<and>
      1 \<le> embedding_dimensions s \<and> embedding_dimensions s \<le> 4096 \<and>
      0 < integration_timeout_seconds s \<and> integration_timeout_seconds s \<le> 120 \<and>
      0 < llm_timeout_seconds s \<and> llm_timeout_seconds s \<le> 180 \<and>
      0 \<le> llm_max_retries s \<and> llm_max_retries s \<le> 5)"

definition production_security :: "settings \<Rightarrow> (exc, settings) res" where
  "production_security s =
     (if \<not> demo_mode s \<and> (length (api_key s) < 32 \<or> api_key s = ''incident-ai-demo-key'')
      then Inl (ValueError ''Production API_KEY must contain at least 32 characters'')
      else if \<not> demo_mode s \<and> length (webhook_key s) < 32
      then Inl (ValueError ''Production WEBHOOK_KEY must contain at least 32 characters'')
      else if \<not> demo_mode s \<and> jwt_secret s \<noteq> [] \<and> length (jwt_secret s) < 32
      then Inl (ValueError ''JWT_SECRET must contain at least 32 characters'')
      else if \<not> demo_mode s \<and> redis_url s = []
      then Inl (ValueError ''Production requires REDIS_URL for distributed rate limits'')
      else if celery_enabled s \<and> redis_url s = []
      then Inl (ValueError ''CELERY_ENABLED requires REDIS_URL'')
      else Inr s)"

definition make_settings :: "settings \<Rightarrow> (exc, settings) res" where
  "make_settings s = (if field_bounds s then production_security s else Inl (ValueError ''bounds''))"

lemma make_settings_same: "make_settings s = Inr t \<Longrightarrow> t = s"
  by (auto simp: make_settings_def production_security_def split: if_splits)

lemma production_keys:
  assumes "make_settings s = Inr t" and "\<not> demo_mode t"
  shows "32 \<le> length (api_key t)" and "api_key t \<noteq> ''incident-ai-demo-key''"
    and "32 \<le> length (webhook_key t)" and "jwt_secret t = [] \<or> 32 \<le> length (jwt_secret t)"
    and "redis_url t \<noteq> []"
  using assms by (auto simp: make_settings_def production_security_def split: if_splits)

lemma make_settings_bounds: "make_settings s = Inr t \<Longrightarrow> field_bounds t"
  by (auto simp: make_settings_def production_security_def split: if_splits)

end
