(* ===== verification/Security.thy ===== *)
theory Security
  imports Config
begin

text \<open>
  \<open>app/core/security.py\<close>: the two request guards. \<open>jwt.decode\<close> belongs to PyJWT: a parameter says
  whether it accepts a token with a secret, an audience and an issuer, or raises \<open>PyJWTError\<close>.
  \<open>hmac.compare_digest\<close> compares the UTF-8 bytes of the two texts.
\<close>

type_synonym jwt_decode = "str \<Rightarrow> str \<Rightarrow> str \<Rightarrow> str \<Rightarrow> bool"

text \<open>The headers of a request, by lower case name.\<close>

type_synonym header_map = "str \<Rightarrow> str option"

definition header :: "header_map \<Rightarrow> str \<Rightarrow> str" where
  "header h name = (case h name of None \<Rightarrow> [] | Some v \<Rightarrow> v)"

definition compare_digest :: "nat list \<Rightarrow> nat list \<Rightarrow> bool" where
  "compare_digest a b = (a = b)"

definition require_auth :: "jwt_decode \<Rightarrow> settings \<Rightarrow> header_map \<Rightarrow> (exc, unit) res" where
  "require_auth jwt s h =
     (let supplied = header h ''x-api-key''; authorization = header h ''authorization''
      in if supplied \<noteq> [] \<and> compare_digest (utf8 supplied) (utf8 (api_key s)) then Inr ()
         else if jwt_secret s \<noteq> [] \<and> prefix ''Bearer '' authorization
           \<and> jwt (drop 7 authorization) (jwt_secret s) (jwt_audience s) (jwt_issuer s) then Inr ()
         else Inl (AppError ''unauthorized'' ''A valid API key or bearer token is required'' 401))"

definition require_webhook_auth ::
  "jwt_decode \<Rightarrow> settings \<Rightarrow> header_map \<Rightarrow> (exc, unit) res" where
  "require_webhook_auth jwt s h =
     (let key = header h ''x-webhook-key''
      in if key \<noteq> [] \<and> webhook_key s \<noteq> [] \<and> compare_digest (utf8 key) (utf8 (webhook_key s))
         then Inr ()
         else if demo_mode s then require_auth jwt s h
         else Inl (AppError ''unauthorized'' ''A valid webhook key is required'' 401))"

lemma compare_digest_utf8 [simp]: "compare_digest (utf8 s) (utf8 t) \<longleftrightarrow> s = t"
  using utf8_inject by (auto simp: compare_digest_def)

definition bearer_ok :: "jwt_decode \<Rightarrow> settings \<Rightarrow> header_map \<Rightarrow> bool" where
  "bearer_ok jwt s h = (jwt_secret s \<noteq> [] \<and> (\<exists>t. header h ''authorization'' = ''Bearer '' @ t \<and>
     jwt t (jwt_secret s) (jwt_audience s) (jwt_issuer s)))"

lemma require_auth_ok:
  "require_auth jwt s h = Inr u \<longleftrightarrow>
     header h ''x-api-key'' = api_key s \<and> api_key s \<noteq> [] \<or> bearer_ok jwt s h"
  by (auto simp: require_auth_def bearer_ok_def Let_def prefix_def split: if_splits)

lemma require_auth_error:
  "require_auth jwt s h = Inl e \<Longrightarrow>
     e = AppError ''unauthorized'' ''A valid API key or bearer token is required'' 401"
  by (auto simp: require_auth_def Let_def split: if_splits)

text \<open>In a production configuration accepted by the settings validator, a webhook delivery
  passes the guard exactly when it carries the configured webhook key, which has at least 32
  characters; neither the API key nor a bearer token replaces it, and the refusal is the 401.\<close>

lemma production_webhook_auth:
  assumes "make_settings s = Inr t" and "\<not> demo_mode t"
  shows "32 \<le> length (webhook_key t) \<and> require_webhook_auth jwt t h =
    (if header h ''x-webhook-key'' = webhook_key t then Inr ()
     else Inl (AppError ''unauthorized'' ''A valid webhook key is required'' 401))"
  using production_keys[OF assms] assms(2) by (auto simp: require_webhook_auth_def Let_def)

lemma production_webhook_auth_example:
  "require_webhook_auth (\<lambda>t s a i. True)
     (default_settings\<lparr>demo_mode := False, api_key := replicate 32 (CHR ''k''),
        webhook_key := replicate 32 (CHR ''w''), redis_url := ''redis://r''\<rparr>)
     [''x-api-key'' \<mapsto> replicate 32 (CHR ''k'')]
   = Inl (AppError ''unauthorized'' ''A valid webhook key is required'' 401)"
proof -
  let ?s = "default_settings\<lparr>demo_mode := False, api_key := replicate 32 (CHR ''k''),
        webhook_key := replicate 32 (CHR ''w''), redis_url := ''redis://r''\<rparr>"
  have "make_settings ?s = Inr ?s"
    by (simp add: make_settings_def field_bounds_def production_security_def default_settings_def
        numeral_eq_Suc)
  from production_webhook_auth[OF this, of "\<lambda>t s a i. True"
      "[''x-api-key'' \<mapsto> replicate 32 (CHR ''k'')]"]
  show ?thesis by (simp add: header_def)
qed

end
