(* ===== verification/Middleware.thy ===== *)
theory Middleware
  imports Security
begin

text \<open>
  \<open>app/core/middleware.py\<close>: the correlation identifier, the rate limiters, the body limit, and the
  wrapper that turns every outcome into a response with the security headers. Times are rational
  seconds of the monotonic clock, given by the caller.
\<close>

subsection \<open>The in-memory rate limiter\<close>

text \<open>\<open>windows\<close> maps a client to its deque of accepted times, oldest first; the \<open>defaultdict\<close> makes
  an entry on first use. \<open>last_cleanup\<close> is the time of the last sweep.\<close>

record limiter =
  windows :: "str \<Rightarrow> rat list option"
  last_cleanup :: rat

definition new_limiter :: "rat \<Rightarrow> limiter" where
  "new_limiter now = \<lparr>windows = Map.empty, last_cleanup = now\<rparr>"

definition window_of :: "limiter \<Rightarrow> str \<Rightarrow> rat list" where
  "window_of l k = (case windows l k of None \<Rightarrow> [] | Some es \<Rightarrow> es)"

definition sweep :: "rat \<Rightarrow> limiter \<Rightarrow> limiter" where
  "sweep now l =
     (if now - last_cleanup l > 60
      then \<lparr>windows = (\<lambda>k. case windows l k of None \<Rightarrow> None
              | Some es \<Rightarrow> if es \<noteq> [] \<and> last es > now - 60 then Some es else None),
            last_cleanup = now\<rparr>
      else l)"

definition exceeded :: "rat \<Rightarrow> str \<Rightarrow> int \<Rightarrow> limiter \<Rightarrow> bool \<times> limiter" where
  "exceeded now key limit l =
     (let l1 = sweep now l;
          window = dropWhile (\<lambda>t. t \<le> now - 60) (window_of l1 key)
      in if int (length window) \<ge> limit
         then (True, l1\<lparr>windows := (windows l1)(key \<mapsto> window)\<rparr>)
         else (False, l1\<lparr>windows := (windows l1)(key \<mapsto> window @ [now])\<rparr>))"

text \<open>The specification: remember every accepted time of every client and count the recent ones.\<close>

definition recent :: "rat \<Rightarrow> rat list \<Rightarrow> rat list" where
  "recent now ts = filter (\<lambda>t. t > now - 60) ts"

definition spec_exceeded :: "rat \<Rightarrow> str \<Rightarrow> int \<Rightarrow> (str \<Rightarrow> rat list) \<Rightarrow> bool \<times> (str \<Rightarrow> rat list)" where
  "spec_exceeded now key limit hist =
     (if int (length (recent now (hist key))) \<ge> limit then (True, hist)
      else (False, hist(key := hist key @ [now])))"

text \<open>The simulation: each window is sorted, lies in the past, and agrees with the history on
  everything that can still count.\<close>

definition limiter_sim :: "rat \<Rightarrow> limiter \<Rightarrow> (str \<Rightarrow> rat list) \<Rightarrow> bool" where
  "limiter_sim now l hist = (\<forall>k.
     sorted (window_of l k) \<and> (\<forall>t \<in> set (window_of l k). t \<le> now) \<and>
     recent now (window_of l k) = recent now (hist k))"

lemma recent_recent: "now \<le> later \<Longrightarrow> recent later (recent now ts) = recent later ts"
  by (induction ts) (auto simp: recent_def)

lemma limiter_sim_later:
  assumes "limiter_sim now l hist" and "now \<le> later"
  shows "limiter_sim later l hist"
  unfolding limiter_sim_def
proof (intro allI conjI)
  fix k
  have "recent now (window_of l k) = recent now (hist k)"
    and s: "sorted (window_of l k)" and b: "\<forall>t \<in> set (window_of l k). t \<le> now"
    using assms(1) by (auto simp: limiter_sim_def)
  then have "recent later (recent now (window_of l k)) = recent later (recent now (hist k))" by simp
  then show "recent later (window_of l k) = recent later (hist k)"
    using assms(2) by (simp add: recent_recent)
  show "sorted (window_of l k)" by (rule s)
  show "\<forall>t \<in> set (window_of l k). t \<le> later" using b assms(2) by auto
qed

lemma sorted_le_last: "sorted (es :: rat list) \<Longrightarrow> t \<in> set es \<Longrightarrow> t \<le> last es"
  by (induction es) auto

lemma recent_none:
  assumes "sorted es" and "es \<noteq> [] \<longrightarrow> last es \<le> now - 60"
  shows "recent now es = []"
proof (cases "es = []")
  case False
  with assms have "\<forall>t \<in> set es. t \<le> now - 60"
    by (meson sorted_le_last order_trans)
  then show ?thesis by (auto simp: recent_def filter_empty_conv not_less)
qed (simp add: recent_def)

lemma sweep_sim:
  assumes "limiter_sim now l hist"
  shows "limiter_sim now (sweep now l) hist"
proof (cases "now - last_cleanup l > 60")
  case True
  have w: "window_of (sweep now l) k =
      (if window_of l k \<noteq> [] \<and> last (window_of l k) > now - 60 then window_of l k else [])" for k
    using True by (auto simp: sweep_def window_of_def split: option.splits)
  show ?thesis
    unfolding limiter_sim_def
  proof (intro allI conjI)
    fix k
    have k: "sorted (window_of l k)" "\<forall>t \<in> set (window_of l k). t \<le> now"
      "recent now (window_of l k) = recent now (hist k)"
      using assms by (auto simp: limiter_sim_def)
    then show "sorted (window_of (sweep now l) k)" "\<forall>t \<in> set (window_of (sweep now l) k). t \<le> now"
      by (auto simp: w)
    show "recent now (window_of (sweep now l) k) = recent now (hist k)"
    proof (cases "window_of l k \<noteq> [] \<and> last (window_of l k) > now - 60")
      case False
      then have "recent now (window_of l k) = []" using k(1) by (intro recent_none) auto
      with False k(3) show ?thesis by (simp add: w recent_def)
    qed (simp add: w k)
  qed
qed (use assms in \<open>simp add: sweep_def\<close>)

lemma dropWhile_recent:
  "sorted es \<Longrightarrow> dropWhile (\<lambda>t. t \<le> now - 60) es = recent now es"
proof (induction es)
  case (Cons e es)
  show ?case
  proof (cases "e \<le> now - 60")
    case False
    with Cons.prems have "\<forall>t \<in> set (e # es). t > now - 60" by auto
    then have "recent now (e # es) = e # es" unfolding recent_def by (rule filter_True)
    with False show ?thesis by simp
  qed (use Cons in \<open>simp add: recent_def\<close>)
qed (simp add: recent_def)

lemma exceeded_refines:
  assumes "limiter_sim now l hist"
  shows "fst (exceeded now key limit l) = fst (spec_exceeded now key limit hist)
    \<and> limiter_sim now (snd (exceeded now key limit l)) (snd (spec_exceeded now key limit hist))"
proof -
  have sim: "limiter_sim now (sweep now l) hist" using assms by (rule sweep_sim)
  let ?w = "dropWhile (\<lambda>t. t \<le> now - 60) (window_of (sweep now l) key)"
  have s: "sorted (window_of (sweep now l) key)" using sim by (simp add: limiter_sim_def)
  have w: "?w = recent now (hist key)"
    using dropWhile_recent[OF s] sim by (simp add: limiter_sim_def)
  have past: "\<forall>t \<in> set ?w. t \<le> now"
    using sim by (auto simp: limiter_sim_def dest: set_dropWhileD)
  have sw: "sorted ?w" using s by (rule sorted_dropWhile)
  have self: "recent now ?w = recent now (hist key)"
    by (simp add: w recent_def)
  show ?thesis
  proof (cases "int (length ?w) \<ge> limit")
    case True
    with w sim sw past self show ?thesis
      by (auto simp: exceeded_def spec_exceeded_def Let_def limiter_sim_def window_of_def
          simp del: w)
  next
    case False
    have app: "sorted (?w @ [now])" using sw past by (simp add: sorted_append)
    have "recent now (?w @ [now]) = recent now (hist key @ [now])"
      using self by (simp add: recent_def)
    with False w sim app past show ?thesis
      by (auto simp: exceeded_def spec_exceeded_def Let_def limiter_sim_def window_of_def)
  qed
qed

text \<open>A run of requests \<open>(time, client)\<close>: the decisions of the limiter, in order.\<close>

fun limiter_run :: "int \<Rightarrow> limiter \<Rightarrow> (rat \<times> str) list \<Rightarrow> bool list" where
  "limiter_run limit l [] = []"
| "limiter_run limit l ((now, key) # rs) =
     (let (limited, l') = exceeded now key limit l in limited # limiter_run limit l' rs)"

fun spec_run :: "int \<Rightarrow> (str \<Rightarrow> rat list) \<Rightarrow> (rat \<times> str) list \<Rightarrow> bool list" where
  "spec_run limit hist [] = []"
| "spec_run limit hist ((now, key) # rs) =
     (let (limited, hist') = spec_exceeded now key limit hist in limited # spec_run limit hist' rs)"

definition times_ok :: "rat \<Rightarrow> (rat \<times> str) list \<Rightarrow> bool" where
  "times_ok start rs = sorted (start # map fst rs)"

lemma limiter_run_refines:
  "limiter_sim start l hist \<Longrightarrow> times_ok start rs \<Longrightarrow>
     limiter_run limit l rs = spec_run limit hist rs"
proof (induction rs arbitrary: start l hist)
  case (Cons r rs)
  obtain now key where r: "r = (now, key)" by (cases r)
  with Cons.prems have sim: "limiter_sim now l hist"
    by (auto simp: times_ok_def intro: limiter_sim_later)
  have "times_ok now rs" using Cons.prems r by (simp add: times_ok_def)
  with exceeded_refines[OF sim, of key limit] Cons.IH r show ?case
    by (auto simp: Let_def split: prod.splits)
qed simp

lemma limiter_sim_new: "limiter_sim now (new_limiter now) (\<lambda>k. [])"
  by (simp add: limiter_sim_def new_limiter_def window_of_def recent_def)

text \<open>The accepted requests of a client inside one window of sixty seconds.\<close>

definition accepted_in :: "rat \<Rightarrow> str \<Rightarrow> (rat \<times> str) list \<Rightarrow> bool list \<Rightarrow> nat" where
  "accepted_in T key rs ds = length (filter (\<lambda>((t, k), limited).
     \<not> limited \<and> k = key \<and> T - 60 < t \<and> t \<le> T) (zip rs ds))"

definition hist_in :: "rat \<Rightarrow> rat list \<Rightarrow> nat" where
  "hist_in T ts = length (filter (\<lambda>t. T - 60 < t \<and> t \<le> T) ts)"

lemma spec_run_window:
  assumes "times_ok start rs" and "\<forall>t \<in> set (hist key). t \<le> start"
    and "int (hist_in T (hist key)) \<le> limit" and "0 \<le> limit"
  shows "int (hist_in T (hist key) + accepted_in T key rs (spec_run limit hist rs)) \<le> limit"
  using assms
proof (induction rs arbitrary: start hist)
  case Nil
  then show ?case by (simp add: accepted_in_def)
next
  case (Cons r rs)
  obtain now k where r: "r = (now, k)" by (cases r)
  obtain limited hist' where step: "spec_exceeded now k limit hist = (limited, hist')"
    by (cases "spec_exceeded now k limit hist")
  have start: "start \<le> now" and ok: "times_ok now rs"
    using Cons.prems(1) r by (auto simp: times_ok_def)
  have past: "\<forall>t \<in> set (hist key). t \<le> now" using Cons.prems(2) start by auto
  have cons: "accepted_in T key (r # rs) (spec_run limit hist (r # rs)) =
      (if \<not> limited \<and> k = key \<and> T - 60 < now \<and> now \<le> T then 1 else 0)
      + accepted_in T key rs (spec_run limit hist' rs)"
    by (simp add: r step accepted_in_def)
  show ?case
  proof (cases "limited \<or> k \<noteq> key")
    case True
    then have same: "hist' key = hist key"
      using step by (auto simp: spec_exceeded_def split: if_splits)
    then have "int (hist_in T (hist' key) + accepted_in T key rs (spec_run limit hist' rs)) \<le> limit"
      using Cons.IH[OF ok, of hist'] Cons.prems past by simp
    with same cons True show ?thesis by auto
  next
    case False
    then have acc: "int (length (recent now (hist key))) < limit" and
      hist': "hist' key = hist key @ [now]"
      using step by (auto simp: spec_exceeded_def split: if_splits)
    have bound: "int (hist_in T (hist' key)) \<le> limit"
    proof (cases "T - 60 < now \<and> now \<le> T")
      case True
      then have "length (filter (\<lambda>t. T - 60 < t \<and> t \<le> T) (hist key)) \<le> length (recent now (hist key))"
        unfolding recent_def by (intro length_filter_mono) auto
      with acc True hist' show ?thesis by (simp add: hist_in_def)
    qed (use Cons.prems(3) hist' in \<open>auto simp: hist_in_def\<close>)
    have "int (hist_in T (hist' key) + accepted_in T key rs (spec_run limit hist' rs)) \<le> limit"
      using Cons.IH[OF ok, of hist'] bound past hist' Cons.prems(4) by simp
    with cons False hist' show ?thesis by (auto simp: hist_in_def)
  qed
qed

text \<open>In any sixty second window, whatever its end, the in-memory limiter accepts at most
  \<open>limit\<close> requests of one client, for every interleaving of clients and every sweep of old
  windows, as long as the clock does not run backwards.\<close>

lemma memory_limiter_window:
  assumes "times_ok start rs" and "0 \<le> limit"
  shows "int (accepted_in T key rs (limiter_run limit (new_limiter start) rs)) \<le> limit"
  using spec_run_window[of start rs "\<lambda>k. []" key T limit] assms
    limiter_run_refines[OF limiter_sim_new assms(1)]
  by (simp add: hist_in_def)

lemma memory_limiter_window_example:
  "limiter_run 2 (new_limiter 0) [(0, ''a''), (10, ''b''), (20, ''a''), (59, ''a''), (61, ''a'')]
     = [False, False, False, True, False]
   \<and> int (accepted_in 61 ''a'' [(0, ''a''), (10, ''b''), (20, ''a''), (59, ''a''), (61, ''a'')]
        (limiter_run 2 (new_limiter 0)
          [(0, ''a''), (10, ''b''), (20, ''a''), (59, ''a''), (61, ''a'')])) \<le> 2"
proof -
  have "times_ok 0 [(0, ''a''), (10, ''b''), (20, ''a''), (59, ''a''), (61, ''a'')]"
    by (simp add: times_ok_def)
  from memory_limiter_window[OF this, of 2 61 "''a''"]
  show ?thesis
    by (simp add: exceeded_def sweep_def new_limiter_def window_of_def)
qed

text \<open>C36. The limiter with its pruning and its sweeps decides every request as the specification
  does that never forgets an accepted request.\<close>

theorem memory_limiter_refines_history:
  assumes "times_ok start rs"
  shows "limiter_run limit (new_limiter start) rs = spec_run limit (\<lambda>k. []) rs"
  by (rule limiter_run_refines[OF limiter_sim_new assms])

theorem memory_limiter_refines_history_witness:
  "limiter_run 1 (new_limiter 0) [(5, ''a''), (70, ''b''), (71, ''a'')]
     = spec_run 1 (\<lambda>k. []) [(5, ''a''), (70, ''b''), (71, ''a'')]"
  by (rule memory_limiter_refines_history) (simp add: times_ok_def)

subsection \<open>Requests\<close>

record request =
  req_path :: str
  req_method :: str
  req_client :: "str option"
  req_headers :: header_map
  req_chunks :: "nat list list"
  req_route :: "str option"

text \<open>Reading the body: \<open>None\<close> as soon as the size passes the limit.\<close>

fun read_body :: "int \<Rightarrow> int \<Rightarrow> nat list list \<Rightarrow> nat list list \<Rightarrow> nat list option" where
  "read_body limit sz acc [] = Some (concat (rev acc))"
| "read_body limit sz acc (chunk # chunks) =
     (let sz' = sz + int (length chunk)
      in if sz' > limit then None else read_body limit sz' (chunk # acc) chunks)"

definition too_large :: "str \<Rightarrow> response" where
  "too_large cid = error_response cid ''payload_too_large''
     ''Request body exceeds the configured limit'' 413 []"

text \<open>The answer of the rate limit check: \<open>Inr None\<close> lets the request through. \<open>redis\<close> is
  what the counter script returned for this request when Redis is configured; an exception other
  than \<open>RedisError\<close> propagates.\<close>

definition rate_check :: "settings \<Rightarrow> (exc, int) res option \<Rightarrow> rat \<Rightarrow> str \<Rightarrow> request \<Rightarrow> limiter
    \<Rightarrow> (exc, response option) res \<times> limiter" where
  "rate_check s redis now cid r l =
     (if prefix ''/api/'' (req_path r)
      then (let host = (case req_client r of None \<Rightarrow> ''unknown'' | Some h \<Rightarrow> h);
                limited = error_response cid ''rate_limited''
                  ''Too many requests. Retry in 60 seconds.'' 429 [(''Retry-After'', ''60'')]
            in case redis of
                 Some (Inr used) \<Rightarrow>
                   (Inr (if used > rate_limit_per_minute s then Some limited else None), l)
               | Some (Inl RedisError) \<Rightarrow>
                   (Inr (Some (error_response cid ''rate_limiter_unavailable''
                      ''Rate limiting is temporarily unavailable'' 503 [])), l)
               | Some (Inl e) \<Rightarrow> (Inl e, l)
               | None \<Rightarrow> (let (over, l') = exceeded now host (rate_limit_per_minute s) l
                         in (Inr (if over then Some limited else None), l')))
      else (Inr None, l))"

text \<open>The body as \<open>call_next\<close> sees it, or the refusal.\<close>

definition body_check :: "settings \<Rightarrow> str \<Rightarrow> request \<Rightarrow> response + nat list" where
  "body_check s cid r =
     (if req_method r \<in> {''POST'', ''PATCH'', ''PUT''}
      then (let declared = header (req_headers r) ''content-length'';
                by_body = (case read_body (max_request_bytes s) 0 [] (req_chunks r) of
                  None \<Rightarrow> Inl (too_large cid) | Some body \<Rightarrow> Inr body)
            in if declared = [] then by_body
               else case parse_int declared of
                 None \<Rightarrow> Inl (error_response cid ''invalid_content_length''
                   ''Invalid Content-Length header'' 400 [])
               | Some n \<Rightarrow> if n > max_request_bytes s \<or> n < 0 then Inl (too_large cid) else by_body)
      else Inr (concat (req_chunks r)))"

definition handle_request :: "settings \<Rightarrow> (exc, int) res option \<Rightarrow> rat \<Rightarrow> str \<Rightarrow> request \<Rightarrow> limiter
    \<Rightarrow> (nat list \<Rightarrow> (exc, response) res) \<Rightarrow> (exc, response) res \<times> limiter" where
  "handle_request s redis now cid r l call_next =
     (case rate_check s redis now cid r l of
        (Inl e, l') \<Rightarrow> (Inl e, l')
      | (Inr (Some resp), l') \<Rightarrow> (Inr resp, l')
      | (Inr None, l') \<Rightarrow> (case body_check s cid r of
          Inl resp \<Rightarrow> (Inr resp, l') | Inr body \<Rightarrow> (call_next body, l')))"

text \<open>Did the request get as far as the router, which records the route it matched?\<close>

definition routed :: "settings \<Rightarrow> (exc, int) res option \<Rightarrow> rat \<Rightarrow> str \<Rightarrow> request \<Rightarrow> limiter \<Rightarrow> bool" where
  "routed s redis now cid r l =
     (fst (rate_check s redis now cid r l) = Inr None \<and> is_ok (body_check s cid r))"

lemma read_body_Some:
  "read_body limit sz acc chunks = Some body \<Longrightarrow> sz \<le> limit \<Longrightarrow>
     body = concat (rev acc) @ concat chunks \<and> sz + int (length (concat chunks)) \<le> limit"
proof (induction chunks arbitrary: sz acc)
  case (Cons c cs)
  then have step: "sz + int (length c) \<le> limit"
      "read_body limit (sz + int (length c)) (c # acc) cs = Some body"
    by (simp_all add: Let_def split: if_splits)
  from Cons.IH[OF step(2,1)] show ?case by simp
qed simp

lemma read_body_small:
  "sz + int (length (concat chunks)) \<le> limit \<Longrightarrow>
     read_body limit sz acc chunks = Some (concat (rev acc) @ concat chunks)"
  by (induction chunks arbitrary: sz acc) (auto simp: Let_def)

subsection \<open>The wrapper\<close>

definition correlation_rx :: rx where
  "correlation_rx = RRep 1 (Some 64)
     (RSet (\<lambda>c. is_alnum c \<or> c = CHR ''.'' \<or> c = CHR ''_'' \<or> c = CHR ''-''))"

definition correlation_id :: "str \<Rightarrow> header_map \<Rightarrow> str" where
  "correlation_id uuid h = (let supplied = header h ''x-correlation-id''
     in if fullmatch correlation_rx supplied then supplied else uuid)"

fun set_header :: "str \<Rightarrow> str \<Rightarrow> (str \<times> str) list \<Rightarrow> (str \<times> str) list" where
  "set_header name v [] = [(name, v)]"
| "set_header name v ((n, x) # hs) =
     (if lower n = lower name then (name, v) # filter (\<lambda>(n', x'). lower n' \<noteq> lower name) hs
      else (n, x) # set_header name v hs)"

lemma set_header_in: "(name, v) \<in> set (set_header name v hs)"
  by (induction name v hs rule: set_header.induct) auto

lemma set_header_keeps:
  "(n, x) \<in> set hs \<Longrightarrow> lower n \<noteq> lower name \<Longrightarrow> (n, x) \<in> set (set_header name v hs)"
  by (induction name v hs rule: set_header.induct) auto

text \<open>The metrics: a counter per method, route and status, and the observed durations.\<close>

record mw_state =
  mw_limiter :: limiter
  mw_requests :: "str \<times> str \<times> str \<Rightarrow> nat"
  mw_durations :: "(str \<times> str \<times> rat) list"

definition finish_response :: "str \<Rightarrow> response \<Rightarrow> response" where
  "finish_response cid resp = resp\<lparr>resp_headers :=
     set_header ''Referrer-Policy'' ''no-referrer''
      (set_header ''Cache-Control'' ''no-store''
       (set_header ''X-Content-Type-Options'' ''nosniff''
        (set_header ''X-Correlation-ID'' cid (resp_headers resp))))\<rparr>"

definition matched_route :: "settings \<Rightarrow> (exc, int) res option \<Rightarrow> str \<Rightarrow> rat \<Rightarrow> request \<Rightarrow> mw_state \<Rightarrow> str" where
  "matched_route s redis cid now r m =
     (if routed s redis now cid r (mw_limiter m)
      then case req_route r of None \<Rightarrow> ''unmatched'' | Some p \<Rightarrow> p else ''unmatched'')"

definition dispatch :: "settings \<Rightarrow> (exc, int) res option \<Rightarrow> str \<Rightarrow> rat \<Rightarrow> rat \<Rightarrow> request \<Rightarrow> mw_state
    \<Rightarrow> (str \<Rightarrow> nat list \<Rightarrow> (exc, response) res) \<Rightarrow> response \<times> mw_state" where
  "dispatch s redis uuid started ended r m call_next =
     (let cid = correlation_id uuid (req_headers r);
          (outcome, l') = handle_request s redis started cid r (mw_limiter m) (call_next cid);
          resp0 = (case outcome of
             Inr resp \<Rightarrow> resp
           | Inl e \<Rightarrow> error_response cid ''internal_error''
               ''The request could not be completed. Retry using the correlation ID for support.''
               500 []);
          resp = finish_response cid resp0;
          route = matched_route s redis cid started r m;
          label = (req_method r, route, int_text (resp_status resp))
      in (resp, \<lparr>mw_limiter = l',
                 mw_requests = (mw_requests m)(label := Suc (mw_requests m label)),
                 mw_durations = mw_durations m @ [(req_method r, route, ended - started)]\<rparr>))"

text \<open>For the methods with a body, what the check lets through is the whole body, within the limit; a refusal
  does not depend on the application behind the middleware.\<close>

lemma body_check_limit:
  assumes "req_method r \<in> {''POST'', ''PATCH'', ''PUT''}" and "0 \<le> max_request_bytes s"
  shows "case body_check s cid r of
      Inr body \<Rightarrow> body = concat (req_chunks r) \<and> int (length body) \<le> max_request_bytes s
    | Inl resp \<Rightarrow> resp_status resp \<in> {400, 413} \<and>
        (\<forall>f g. handle_request s redis now cid r l f = handle_request s redis now cid r l g)"
proof (cases "body_check s cid r")
  case (Inl resp)
  then have "resp_status resp \<in> {400, 413}"
    by (auto simp: body_check_def Let_def too_large_def error_response_def
        split: if_splits option.splits)
  moreover have "handle_request s redis now cid r l f = handle_request s redis now cid r l g" for f g
    using Inl unfolding handle_request_def by (simp split: prod.splits sum.splits option.splits)
  ultimately show ?thesis using Inl by simp
next
  case (Inr body)
  then have "read_body (max_request_bytes s) 0 [] (req_chunks r) = Some body"
    using assms(1) by (auto simp: body_check_def Let_def split: if_splits option.splits)
  from read_body_Some[OF this] assms(2) Inr show ?thesis by auto
qed

definition safe_id :: "str \<Rightarrow> bool" where
  "safe_id s = (1 \<le> length s \<and> length s \<le> 64 \<and>
     (\<forall>c \<in> set s. is_alnum c \<or> c = CHR ''.'' \<or> c = CHR ''_'' \<or> c = CHR ''-''))"

lemma fullmatch_correlation: "fullmatch correlation_rx s \<longleftrightarrow> safe_id s"
  by (simp add: correlation_rx_def fullmatch_set safe_id_def)

lemma finish_response_headers:
  "{(''X-Correlation-ID'', cid), (''X-Content-Type-Options'', ''nosniff''),
    (''Cache-Control'', ''no-store''), (''Referrer-Policy'', ''no-referrer'')}
   \<subseteq> set (resp_headers (finish_response cid resp))"
  by (auto simp: finish_response_def lower_def intro!: set_header_keeps set_header_in)

text \<open>Whatever the application does, exceptions included, the client gets a response that
  carries the security headers and a correlation identifier of one to 64 safe characters: its own
  when that is well formed, the generated one otherwise.\<close>

lemma dispatch_response:
  assumes "safe_id uuid"
  shows "let (resp, m') = dispatch s redis uuid t0 t1 r m call_next;
             cid = (if safe_id (header (req_headers r) ''x-correlation-id'')
                    then header (req_headers r) ''x-correlation-id'' else uuid);
             label = (req_method r, matched_route s redis cid t0 r m, int_text (resp_status resp))
         in safe_id cid \<and>
            {(''X-Correlation-ID'', cid), (''X-Content-Type-Options'', ''nosniff''),
             (''Cache-Control'', ''no-store''), (''Referrer-Policy'', ''no-referrer'')}
              \<subseteq> set (resp_headers resp) \<and>
            mw_requests m' = (mw_requests m)(label := Suc (mw_requests m label)) \<and>
            (\<forall>e. fst (handle_request s redis t0 cid r (mw_limiter m) (call_next cid)) = Inl e
               \<longrightarrow> resp_status resp = 500)"
proof -
  define cid where "cid = correlation_id uuid (req_headers r)"
  have cid: "cid = (if safe_id (header (req_headers r) ''x-correlation-id'')
      then header (req_headers r) ''x-correlation-id'' else uuid)"
    by (simp add: cid_def correlation_id_def fullmatch_correlation)
  have "safe_id cid" using assms by (simp add: cid)
  then show ?thesis
    using finish_response_headers[of cid]
    by (simp add: dispatch_def cid_def[symmetric] cid[symmetric] Let_def split: prod.splits)
       (auto simp: finish_response_def error_response_def)
qed

lemma dispatch_response_example:
  "let (resp, m') = dispatch default_settings None ''id-1'' 5 6
       \<lparr>req_path = ''/health'', req_method = ''GET'', req_client = None, req_headers = (\<lambda>_. None),
        req_chunks = [], req_route = Some ''/health''\<rparr>
       \<lparr>mw_limiter = new_limiter 0, mw_requests = (\<lambda>_. 0), mw_durations = []\<rparr>
       (\<lambda>cid body. Inl (OtherError))
   in (''X-Correlation-ID'', ''id-1'') \<in> set (resp_headers resp)"
proof -
  have "safe_id ''id-1''" by code_simp
  from dispatch_response[OF this, of default_settings None 5 6
      "\<lparr>req_path = ''/health'', req_method = ''GET'', req_client = None, req_headers = (\<lambda>_. None),
        req_chunks = [], req_route = Some ''/health''\<rparr>"
      "\<lparr>mw_limiter = new_limiter 0, mw_requests = (\<lambda>_. 0), mw_durations = []\<rparr>"
      "\<lambda>cid body. Inl (OtherError)"]
  show ?thesis by (simp add: header_def safe_id_def Let_def split: prod.splits)
qed

end
