(* ===== verification/PyTime.thy ===== *)
theory PyTime
  imports PyText
begin

text \<open>
  Points in time. An aware \<open>datetime\<close> in UTC is its number of microseconds since the epoch; the
  texts the program makes of it (\<open>date().isoformat()\<close>, \<open>isoformat()\<close> and pydantic's JSON form) are
  computed with the calendar of the standard library's \<open>_ord2ymd\<close>.
\<close>

type_synonym time = int

definition us_per_minute :: int where "us_per_minute = 60000000"
definition us_per_day :: int where "us_per_day = 86400000000"

text \<open>The proleptic Gregorian ordinal of the day, 1 for the first of January of year 1.\<close>

definition day_ordinal :: "time \<Rightarrow> int" where
  "day_ordinal t = t div us_per_day + 719163"

definition midnight :: "time \<Rightarrow> time" where
  "midnight t = t - t mod us_per_day"

subsection \<open>The calendar\<close>

definition is_leap :: "int \<Rightarrow> bool" where
  "is_leap y = (y mod 4 = 0 \<and> (y mod 100 \<noteq> 0 \<or> y mod 400 = 0))"

definition month_start :: "int \<Rightarrow> int" where
  "month_start m =
     (if m = 1 then 0 else if m = 2 then 31 else if m = 3 then 59 else if m = 4 then 90
      else if m = 5 then 120 else if m = 6 then 151 else if m = 7 then 181 else if m = 8 then 212
      else if m = 9 then 243 else if m = 10 then 273 else if m = 11 then 304 else 334)"

definition days_before :: "bool \<Rightarrow> int \<Rightarrow> int" where
  "days_before leap m = month_start m + (if 2 < m \<and> leap then 1 else 0)"

definition days_before_year :: "int \<Rightarrow> int" where
  "days_before_year y = 365 * (y - 1) + (y - 1) div 4 - (y - 1) div 100 + (y - 1) div 400"

definition ymd_ordinal :: "int \<times> int \<times> int \<Rightarrow> int" where
  "ymd_ordinal = (\<lambda>(y, m, d). days_before_year y + days_before (is_leap y) m + d)"

text \<open>Month and day from the zero based day of the year.\<close>

definition month_day :: "bool \<Rightarrow> int \<Rightarrow> int \<times> int" where
  "month_day leap n =
     (let m = (n + 50) div 32
      in if days_before leap m > n then (m - 1, n - days_before leap (m - 1) + 1)
         else (m, n - days_before leap m + 1))"

definition ordinal_ymd :: "int \<Rightarrow> int \<times> int \<times> int" where
  "ordinal_ymd ordinal =
     (let n = ordinal - 1;
          n400 = n div 146097; a = n mod 146097;
          n100 = a div 36524; b = a mod 36524;
          n4 = b div 1461; c = b mod 1461;
          n1 = c div 365; d = c mod 365;
          year = 400 * n400 + 100 * n100 + 4 * n4 + n1 + 1
      in if n1 = 4 \<or> n100 = 4 then (year - 1, 12, 31)
         else let (m, day) = month_day (n1 = 3 \<and> (n4 \<noteq> 24 \<or> n100 = 3)) d in (year, m, day))"

lemma month_day_inverse: "month_day leap n = (m, d) \<Longrightarrow> days_before leap m + d = n + 1"
  by (auto simp: month_day_def Let_def split: if_splits)

lemma days_before_year_split:
  assumes "0 \<le> q" "q < 4" "0 \<le> r" "r < 25" "0 \<le> s" "s < 4"
  shows "days_before_year (400 * p + 100 * q + 4 * r + s + 1)
    = 146097 * p + 36524 * q + 1461 * r + 365 * s"
    and "is_leap (400 * p + 100 * q + 4 * r + s + 1) \<longleftrightarrow> s = 3 \<and> (r \<noteq> 24 \<or> q = 3)"
proof -
  let ?y = "400 * p + 100 * q + 4 * r + s"
  have "?y div 4 = 100 * p + 25 * q + r"
    by (rule int_div_pos_eq[where r = s]) (use assms in simp_all)
  moreover have "?y div 100 = 4 * p + q"
    by (rule int_div_pos_eq[where r = "4 * r + s"]) (use assms in simp_all)
  moreover have "?y div 400 = p"
    by (rule int_div_pos_eq[where r = "100 * q + 4 * r + s"]) (use assms in simp_all)
  ultimately show "days_before_year (?y + 1) = 146097 * p + 36524 * q + 1461 * r + 365 * s"
    by (simp add: days_before_year_def)
  have wrap: "(b * k + u + 1) mod b = 0 \<longleftrightarrow> u = b - 1" if "0 \<le> u" "u < b" for b k u :: int
    using that mod_pos_pos_trivial[of "u + 1" b]
    by (cases "u = b - 1") (simp_all add: add.assoc)
  have "(?y + 1) mod 4 = 0 \<longleftrightarrow> s = 3"
    using wrap[of s 4 "100 * p + 25 * q + r"] assms by (simp add: algebra_simps)
  moreover have "(?y + 1) mod 100 = 0 \<longleftrightarrow> 4 * r + s = 99"
    using wrap[of "4 * r + s" 100 "4 * p + q"] assms by (simp add: algebra_simps)
  moreover have "(?y + 1) mod 400 = 0 \<longleftrightarrow> 100 * q + 4 * r + s = 399"
    using wrap[of "100 * q + 4 * r + s" 400 p] assms by (simp add: algebra_simps)
  moreover have "4 * r + s = 99 \<longleftrightarrow> r = 24 \<and> s = 3" using assms by linarith
  moreover have "100 * q + 4 * r + s = 399 \<longleftrightarrow> q = 3 \<and> r = 24 \<and> s = 3"
    using assms by linarith
  ultimately show "is_leap (?y + 1) \<longleftrightarrow> s = 3 \<and> (r \<noteq> 24 \<or> q = 3)"
    unfolding is_leap_def by metis
qed

lemma ordinal_ymd_inverse: "ymd_ordinal (ordinal_ymd ordinal) = ordinal"
proof -
  define n where "n = ordinal - 1"
  define p where "p = n div 146097"
  define a where "a = n mod 146097"
  define q where "q = a div 36524"
  define b where "b = a mod 36524"
  define r where "r = b div 1461"
  define c where "c = b mod 1461"
  define s where "s = c div 365"
  define d where "d = c mod 365"
  note defs = n_def p_def a_def q_def b_def r_def c_def s_def d_def
  have n: "n = 146097 * p + a" and a: "a = 36524 * q + b" and b: "b = 1461 * r + c"
    and c: "c = 365 * s + d"
    unfolding p_def a_def q_def b_def r_def c_def s_def d_def by simp_all
  have bounds: "0 \<le> a" "a < 146097" "0 \<le> b" "b < 36524" "0 \<le> c" "c < 1461" "0 \<le> d" "d < 365"
    unfolding a_def b_def c_def d_def by simp_all
  have q: "0 \<le> q" "q \<le> 4" and r: "0 \<le> r" "r < 25" and s: "0 \<le> s" "s \<le> 4"
    using a b c bounds by linarith+
  have ord: "ordinal = n + 1" by (simp add: n_def)
  have eq: "ordinal_ymd ordinal = (let year = 400 * p + 100 * q + 4 * r + s + 1
      in if s = 4 \<or> q = 4 then (year - 1, 12, 31)
         else let (m, day) = month_day (s = 3 \<and> (r \<noteq> 24 \<or> q = 3)) d in (year, m, day))"
    unfolding ordinal_ymd_def Let_def defs by (rule refl)
  show ?thesis
  proof (cases "s = 4 \<or> q = 4")
    case False
    obtain m day where md: "month_day (s = 3 \<and> (r \<noteq> 24 \<or> q = 3)) d = (m, day)"
      by (cases "month_day (s = 3 \<and> (r \<noteq> 24 \<or> q = 3)) d")
    have qs: "q < 4" "s < 4" using False q s by auto
    show ?thesis
      using month_day_inverse[OF md] days_before_year_split[OF q(1) qs(1) r s(1) qs(2), of p]
        False md n a b c ord
      unfolding ymd_ordinal_def eq Let_def by (simp del: minus_add_distrib)
  next
    case True
    then consider "q = 4" "r = 0" "s = 0" "d = 0" | "q < 4" "s = 4" "d = 0"
      using a b c bounds q r s by (cases "q = 4") force+
    then show ?thesis
    proof cases
      case 1
      then show ?thesis
        using days_before_year_split[of 3 24 3 p] n a b c ord
        unfolding ymd_ordinal_def eq Let_def by (simp add: days_before_def month_start_def)
    next
      case 2
      have "r \<noteq> 24" using 2 b c bounds a n q by linarith
      then show ?thesis
        using days_before_year_split[of q r 3 p] n a b c ord 2 q r
        unfolding ymd_ordinal_def eq Let_def by (simp add: days_before_def month_start_def)
    qed
  qed
qed


subsection \<open>Texts\<close>

text \<open>Decimal digits with leading zeros, as \<open>%0kd\<close> writes them.\<close>

definition padded :: "nat \<Rightarrow> int \<Rightarrow> str" where
  "padded k n = replicate (k - length (nat_text (nat n))) (CHR ''0'') @ nat_text (nat n)"

lemma digits_value_zeros: "digits_value (replicate k (CHR ''0'') @ s) = digits_value s"
  by (induction k) (simp_all add: digits_value_def ord_def)

lemma padded_value [simp]: "digits_value (padded k n) = nat n"
  by (simp add: padded_def digits_value_zeros)

lemma padded_digit: "c \<in> set (padded k n) \<Longrightarrow> is_digit c"
  by (auto simp: padded_def is_digit_def ord_def dest: nat_text_digits[unfolded is_digit_def])

lemma padded_nonempty [simp]: "padded k n \<noteq> []"
  by (simp add: padded_def)

definition iso_ymd :: "int \<times> int \<times> int \<Rightarrow> str" where
  "iso_ymd = (\<lambda>(y, m, d). padded 4 y @ ''-'' @ padded 2 m @ ''-'' @ padded 2 d)"

definition iso_date :: "time \<Rightarrow> str" where
  "iso_date t = iso_ymd (ordinal_ymd (day_ordinal t))"

text \<open>\<open>HH:MM:SS\<close>, with six digits of microseconds when there are any.\<close>

definition iso_clock :: "time \<Rightarrow> str" where
  "iso_clock t =
     (let u = t mod us_per_day; secs = u div 1000000; frac = u mod 1000000
      in padded 2 (secs div 3600) @ '':'' @ padded 2 (secs div 60 mod 60) @ '':''
         @ padded 2 (secs mod 60) @ (if frac = 0 then [] else ''.'' @ padded 6 frac))"

definition isoformat :: "time \<Rightarrow> str" where
  "isoformat t = iso_date t @ ''T'' @ iso_clock t @ ''+00:00''"

definition json_time :: "time \<Rightarrow> str" where
  "json_time t = iso_date t @ ''T'' @ iso_clock t @ ''Z''"

lemma split_unique:
  assumes "xs @ c # ys = xs' @ c # ys'" and "c \<notin> set xs" and "c \<notin> set xs'"
  shows "xs = xs' \<and> ys = ys'"
  using assms
proof (induction xs arbitrary: xs')
  case Nil
  then show ?case by (cases xs') auto
next
  case (Cons x xs)
  then show ?case by (cases xs') auto
qed

lemma padded_no_dash: "CHR ''-'' \<notin> set (padded k n)"
  using padded_digit[of "CHR ''-''" k n] by (auto simp: is_digit_def ord_def)

lemma iso_ymd_inject:
  assumes "iso_ymd (y, m, d) = iso_ymd (y', m', d')"
    and "0 \<le> y" "0 \<le> m" "0 \<le> d" "0 \<le> y'" "0 \<le> m'" "0 \<le> d'"
  shows "(y, m, d) = (y', m', d')"
proof -
  have "padded 4 y = padded 4 y'"
    and rest: "padded 2 m @ CHR ''-'' # padded 2 d = padded 2 m' @ CHR ''-'' # padded 2 d'"
    using split_unique[OF _ padded_no_dash padded_no_dash] assms(1) by (auto simp: iso_ymd_def)
  moreover from rest have "padded 2 m = padded 2 m'" and "padded 2 d = padded 2 d'"
    using split_unique[OF rest padded_no_dash padded_no_dash] by auto
  ultimately have "nat y = nat y'" "nat m = nat m'" "nat d = nat d'"
    by (metis padded_value)+
  with assms(2-) show ?thesis by (simp add: eq_nat_nat_iff)
qed

lemma days_before_le: "1 \<le> i \<Longrightarrow> days_before leap i \<le> 31 * (i - 1)"
  by (cases leap) (simp_all add: days_before_def month_start_def, presburger+)

lemma month_day_nonneg:
  assumes "month_day leap k = (i, j)" and "0 \<le> k"
  shows "0 \<le> i \<and> 0 \<le> j"
proof -
  define m where "m = (k + 50) div 32"
  have m: "32 * m \<le> k + 50" "1 \<le> m" using assms(2) by (simp_all add: m_def)
  have md: "month_day leap k = (if days_before leap m > k then (m - 1, k - days_before leap (m - 1) + 1)
      else (m, k - days_before leap m + 1))"
    by (simp add: month_day_def m_def Let_def)
  show ?thesis
  proof (cases "days_before leap m > k")
    case True
    then have "2 \<le> m" using assms(2) m(2)
      by (cases "m = 1") (simp_all add: days_before_def month_start_def)
    with days_before_le[of "m - 1" leap] have "days_before leap (m - 1) \<le> 31 * m - 62" by simp
    moreover have "i = m - 1" and "j = k - days_before leap (m - 1) + 1"
      using True assms(1) by (auto simp: md)
    ultimately show ?thesis using m by linarith
  next
    case False
    then show ?thesis using assms(1) m(2) by (auto simp: md)
  qed
qed

lemma ordinal_ymd_nonneg:
  assumes "1 \<le> n" and "ordinal_ymd n = (y, m, d)"
  shows "0 \<le> y" and "0 \<le> m" and "0 \<le> d"
proof -
  define a where "a = (n - 1) mod 146097"
  define b where "b = a mod 36524"
  define c where "c = b mod 1461"
  have "0 \<le> a" "0 \<le> b" "0 \<le> c" by (simp_all add: a_def b_def c_def)
  then have pos: "0 \<le> (n - 1) div 146097" "0 \<le> a div 36524" "0 \<le> b div 1461" "0 \<le> c div 365" "0 \<le> c mod 365"
    using assms(1) by (simp_all add: pos_imp_zdiv_nonneg_iff)
  have eq: "ordinal_ymd n = (let year = 400 * ((n - 1) div 146097) + 100 * (a div 36524)
        + 4 * (b div 1461) + c div 365 + 1
      in if c div 365 = 4 \<or> a div 36524 = 4 then (year - 1, 12, 31)
         else let (m, day) = month_day (c div 365 = 3 \<and> (b div 1461 \<noteq> 24 \<or> a div 36524 = 3))
                (c mod 365) in (year, m, day))"
    unfolding ordinal_ymd_def Let_def a_def b_def c_def by (rule refl)
  show "0 \<le> y" and "0 \<le> m" and "0 \<le> d"
  proof (atomize (full), cases "c div 365 = 4 \<or> a div 36524 = 4")
    case True
    then have "y = 400 * ((n - 1) div 146097) + 100 * (a div 36524) + 4 * (b div 1461) + c div 365"
      "m = 12" "d = 31"
      using assms(2) True unfolding eq Let_def by (simp_all only: if_True prod.inject) simp_all
    then show "0 \<le> y \<and> 0 \<le> m \<and> 0 \<le> d" using pos by linarith
  next
    case False
    obtain i j where ij: "month_day (c div 365 = 3 \<and> (b div 1461 \<noteq> 24 \<or> a div 36524 = 3)) (c mod 365) = (i, j)"
      by (cases "month_day (c div 365 = 3 \<and> (b div 1461 \<noteq> 24 \<or> a div 36524 = 3)) (c mod 365)")
    have "y = 400 * ((n - 1) div 146097) + 100 * (a div 36524) + 4 * (b div 1461) + c div 365 + 1"
      "m = i" "d = j"
      using assms(2) False unfolding eq Let_def ij by (simp_all only: if_False prod.case prod.inject)
    then show "0 \<le> y \<and> 0 \<le> m \<and> 0 \<le> d"
      using pos month_day_nonneg[OF ij pos(5)] by linarith
  qed
qed

text \<open>The date of a representable time identifies its day.\<close>

definition representable :: "time \<Rightarrow> bool" where
  "representable t = (1 \<le> day_ordinal t)"

lemma iso_date_inject:
  assumes "representable s" and "representable t"
  shows "iso_date s = iso_date t \<longleftrightarrow> day_ordinal s = day_ordinal t"
proof
  obtain y m d where s: "ordinal_ymd (day_ordinal s) = (y, m, d)"
    by (cases "ordinal_ymd (day_ordinal s)")
  obtain y' m' d' where t: "ordinal_ymd (day_ordinal t) = (y', m', d')"
    by (cases "ordinal_ymd (day_ordinal t)")
  assume "iso_date s = iso_date t"
  then have "(y, m, d) = (y', m', d')"
    using assms ordinal_ymd_nonneg[OF _ s] ordinal_ymd_nonneg[OF _ t]
    by (intro iso_ymd_inject) (simp_all add: iso_date_def s t representable_def)
  then show "day_ordinal s = day_ordinal t"
    using ordinal_ymd_inverse s t by metis
qed (simp add: iso_date_def)

lemma midnight_le: "midnight t \<le> t"
  by (simp add: midnight_def us_per_day_def)

lemma day_ordinal_midnight: "day_ordinal (midnight t + k * us_per_day) = day_ordinal t + k"
  by (simp add: day_ordinal_def midnight_def us_per_day_def minus_mod_eq_mult_div)

lemma day_ordinal_mono: "s \<le> t \<Longrightarrow> day_ordinal s \<le> day_ordinal t"
  by (simp add: day_ordinal_def us_per_day_def zdiv_mono1)

end
