(* ===== verification/Json.thy ===== *)
theory Json
  imports PyValues
begin

text \<open>
  \<open>json.loads\<close> on texts, which the program applies to nested messages, to the answers of external
  services and to its own output, and the round trip with \<open>json.dumps\<close>. \<open>fl\<close> is \<open>repr\<close> of
  \<open>float\<close> of a literal; \<open>None\<close> is the \<open>JSONDecodeError\<close>. An escape above the Latin-1 range has no
  counterpart in the alphabet of the model and is refused.
\<close>

subsection \<open>Strings\<close>

definition bsl :: char where "bsl = CHR 0x5C"

definition hex_value :: "char \<Rightarrow> nat" where
  "hex_value c = (if is_digit c then ord c - 48 else if ord c < 97 then ord c - 55 else ord c - 87)"

definition hex4 :: "str \<Rightarrow> nat option" where
  "hex4 s = (if length s = 4 \<and> list_all is_hex s
     then Some (fold (\<lambda>c n. n * 16 + hex_value c) s 0) else None)"

definition unescape :: "char \<Rightarrow> char option" where
  "unescape e =
     (if e = dq \<or> e = bsl \<or> e = CHR ''/'' then Some e
      else if e = CHR ''b'' then Some (chr 8) else if e = CHR ''f'' then Some (chr 12)
      else if e = CHR ''n'' then Some (chr 10) else if e = CHR ''r'' then Some (chr 13)
      else if e = CHR ''t'' then Some (chr 9) else None)"

text \<open>The text up to the closing quote, read backwards into the accumulator, and the rest.\<close>

fun parse_string :: "str \<Rightarrow> str \<Rightarrow> (str \<times> str) option" where
  "parse_string acc [] = None"
| "parse_string acc (c # s) =
     (if c = dq then Some (rev acc, s)
      else if c = bsl then
        (case s of [] \<Rightarrow> None
         | e # t \<Rightarrow>
             if e = CHR ''u'' then
               (case hex4 (take 4 t) of
                  Some n \<Rightarrow> (if n < 256 then parse_string (chr n # acc) (drop 4 t) else None)
                | None \<Rightarrow> None)
             else (case unescape e of Some x \<Rightarrow> parse_string (x # acc) t | None \<Rightarrow> None))
      else if ord c < 32 then None
      else parse_string (c # acc) s)"

declare parse_string.simps [simp del]

lemma hex_value_digit: "n < 16 \<Longrightarrow> hex_value (hex_digit n) = n \<and> is_hex (hex_digit n)"
  by (auto simp: hex_value_def hex_digit_def is_digit_def is_hex_def ord_chr)

lemma hex4_hex2: "n < 256 \<Longrightarrow> hex4 (''00'' @ hex2 n) = Some n"
proof -
  assume "n < 256"
  then have "n div 16 < 16" "n mod 16 < 16" by simp_all
  moreover have "hex_value (CHR ''0'') = 0" "is_hex (CHR ''0'')"
    by (simp_all add: hex_value_def is_hex_def is_digit_def ord_def)
  ultimately show ?thesis by (simp add: hex4_def hex2_def hex_value_digit)
qed

lemma parse_escaped: "parse_string acc (json_escape a c @ u) = parse_string (c # acc) u"
proof -
  let ?n = "ord c"
  have bsl: "chr 92 = bsl" "bsl \<noteq> dq" by code_simp+
  have c_of: "ord c = n \<Longrightarrow> c = chr n" for n by (metis chr_ord)
  have ords: "ord dq = 34" "ord bsl = 92" by (simp_all add: ord_def bsl_def)
  have esc: "parse_string acc (bsl # e # u) = parse_string (x # acc) u"
    if "unescape e = Some x" "e \<noteq> CHR ''u''" for e x
    using that bsl by (simp add: parse_string.simps)
  consider "?n = 34 \<or> ?n = 92" | "?n = 10" | "?n = 13" | "?n = 9" | "?n = 12" | "?n = 8"
    | "?n \<notin> {34, 92, 10, 13, 9, 12, 8}" "?n < 32 \<or> a \<and> 126 < ?n"
    | "?n \<notin> {34, 92, 10, 13, 9, 12, 8}" "\<not> (?n < 32 \<or> a \<and> 126 < ?n)" by blast
  then show ?thesis
  proof cases
    case 1
    then have "unescape c = Some c" "c \<noteq> CHR ''u''"
      using ords ord_inject[of c dq] ord_inject[of c bsl]
      by (auto simp: unescape_def ord_def bsl_def)
    then show ?thesis using 1 esc bsl by (auto simp: json_escape_def Let_def)
  next
    case 7
    have "parse_string acc (bsl # CHR ''u'' # ''00'' @ hex2 ?n @ u) = parse_string (chr ?n # acc) u"
      using hex4_hex2[OF ord_less, of c] bsl
      by (subst parse_string.simps) (simp add: hex2_def)
    moreover have "json_escape a c = bsl # CHR ''u'' # ''00'' @ hex2 ?n"
      using 7 bsl by (simp add: json_escape_def Let_def)
    ultimately show ?thesis by simp
  next
    case 8
    then have "c \<noteq> dq" "c \<noteq> bsl" "json_escape a c = [c]" "\<not> ord c < 32"
      using ords by (auto simp: json_escape_def Let_def)
    then show ?thesis by (simp add: parse_string.simps)
  qed (use esc bsl c_of in \<open>simp_all add: json_escape_def Let_def unescape_def ord_def bsl_def\<close>)
qed

lemma parse_json_string:
  "parse_string acc (concat (map (json_escape a) s) @ dq # r) = Some (rev acc @ s, r)"
  by (induction s arbitrary: acc) (simp_all add: parse_escaped parse_string.simps(2)[of _ dq])


subsection \<open>Numbers\<close>

definition scan_int :: "str \<Rightarrow> (str \<times> str) option" where
  "scan_int s = (case s of [] \<Rightarrow> None
     | c # t \<Rightarrow> if c = CHR ''0'' then Some (''0'', t)
         else if is_digit c then Some (takeWhile is_digit s, dropWhile is_digit s) else None)"

definition scan_frac :: "str \<Rightarrow> str \<times> str" where
  "scan_frac s =
     (if s \<noteq> [] \<and> hd s = CHR ''.'' \<and> takeWhile is_digit (tl s) \<noteq> []
      then (CHR ''.'' # takeWhile is_digit (tl s), dropWhile is_digit (tl s)) else ([], s))"

definition split_sign :: "str \<Rightarrow> str \<times> str" where
  "split_sign s = (case s of [] \<Rightarrow> ([], [])
     | c # t \<Rightarrow> if c = CHR ''-'' \<or> c = CHR ''+'' then ([c], t) else ([], s))"

definition scan_exp :: "str \<Rightarrow> str \<times> str" where
  "scan_exp s = (case s of [] \<Rightarrow> ([], [])
     | e # t \<Rightarrow> if e = CHR ''e'' \<or> e = CHR ''E''
         then (let (sg, u) = split_sign t
               in if takeWhile is_digit u = [] then ([], s)
                  else (e # sg @ takeWhile is_digit u, dropWhile is_digit u))
         else ([], s))"

definition scan_number :: "(str \<Rightarrow> str) \<Rightarrow> str \<Rightarrow> (pyval \<times> str) option" where
  "scan_number fl s =
     (let (neg, u) = (if s \<noteq> [] \<and> hd s = CHR ''-'' then (''-'', tl s) else ([], s))
      in case scan_int u of None \<Rightarrow> None
         | Some (i, r1) \<Rightarrow>
             (let (f, r2) = scan_frac r1; (e, r3) = scan_exp r2
              in Some (if f = [] \<and> e = []
                  then VInt (if neg = [] then int (digits_value i) else - int (digits_value i))
                  else VFloat (fl (neg @ i @ f @ e)), r3)))"

text \<open>What may follow a number without being read as part of it.\<close>

definition ends_number :: "str \<Rightarrow> bool" where
  "ends_number r = (case r of [] \<Rightarrow> True
     | c # _ \<Rightarrow> \<not> is_digit c \<and> c \<noteq> CHR ''.'' \<and> c \<noteq> CHR ''e'' \<and> c \<noteq> CHR ''E'')"

text \<open>The literals \<open>repr\<close> writes for finite floats.\<close>

definition float_parts :: "str \<Rightarrow> str \<Rightarrow> str \<Rightarrow> str \<Rightarrow> bool" where
  "float_parts neg i f e =
     ((neg = [] \<or> neg = ''-'') \<and>
      (i = ''0'' \<or> i \<noteq> [] \<and> list_all is_digit i \<and> hd i \<noteq> CHR ''0'') \<and>
      (f = [] \<or> (\<exists>ds. ds \<noteq> [] \<and> list_all is_digit ds \<and> f = CHR ''.'' # ds)) \<and>
      (e = [] \<or> (\<exists>sg ds. ds \<noteq> [] \<and> list_all is_digit ds \<and> sg \<in> {''-'', ''+''} \<and> e = CHR ''e'' # sg @ ds)) \<and>
      (f \<noteq> [] \<or> e \<noteq> []))"

definition float_literal :: "str \<Rightarrow> bool" where
  "float_literal s = (\<exists>neg i f e. float_parts neg i f e \<and> s = neg @ i @ f @ e)"

lemma takeWhile_digits:
  assumes "list_all is_digit ds" and "r = [] \<or> \<not> is_digit (hd r)"
  shows "takeWhile is_digit (ds @ r) = ds" and "dropWhile is_digit (ds @ r) = r"
proof -
  have "takeWhile is_digit r = []" "dropWhile is_digit r = r"
    using assms(2) by (cases r; simp)+
  then show "takeWhile is_digit (ds @ r) = ds" "dropWhile is_digit (ds @ r) = r"
    using assms(1) by (simp_all add: takeWhile_append2 dropWhile_append2 list_all_iff)
qed

lemma ends_number_hd:
  "ends_number r \<Longrightarrow> r = [] \<or> \<not> is_digit (hd r) \<and> hd r \<noteq> CHR ''.'' \<and> hd r \<noteq> CHR ''e'' \<and> hd r \<noteq> CHR ''E''"
  by (cases r) (auto simp: ends_number_def)

lemma char_facts: "\<not> is_digit (CHR ''.'')" "\<not> is_digit (CHR ''e'')" "\<not> is_digit (CHR ''-'')"
    "\<not> is_digit (CHR ''+'')" "is_digit (CHR ''0'')"
  by (simp_all add: is_digit_def ord_def)

lemma scan_int_digits:
  assumes "i = ''0'' \<or> i \<noteq> [] \<and> list_all is_digit i \<and> hd i \<noteq> CHR ''0''"
    and "r = [] \<or> \<not> is_digit (hd r)"
  shows "scan_int (i @ r) = Some (i, r)"
proof (cases "i = ''0''")
  case False
  then obtain c t where i: "i = c # t" "is_digit c" "c \<noteq> CHR ''0''"
    using assms(1) by (cases i) auto
  then have "list_all is_digit (c # t)" using assms(1) by auto
  from takeWhile_digits[OF this assms(2)] i show ?thesis by (simp add: scan_int_def)
qed (simp add: scan_int_def)

lemma scan_frac_end: "ends_number r \<Longrightarrow> scan_frac r = ([], r)"
  by (cases r) (auto simp: scan_frac_def ends_number_def)

lemma scan_exp_end: "ends_number r \<Longrightarrow> scan_exp r = ([], r)"
  by (cases r) (auto simp: scan_exp_def ends_number_def)

lemma nat_text_leading: "nat_text n = ''0'' \<or> hd (nat_text n) \<noteq> CHR ''0''"
proof (induction n rule: nat_text.induct)
  case (1 n)
  show ?case
  proof (cases "n < 10")
    case True
    then have "chr (48 + n) = CHR ''0'' \<longleftrightarrow> n = 0"
      using ord_chr[of "48 + n"] ord_inject[of "chr (48 + n)" "CHR ''0''"] by (simp add: ord_def)
    then show ?thesis using True by (subst (1 2) nat_text.simps) auto
  next
    case False
    then have "nat_text (n div 10) \<noteq> ''0''"
      using digits_value_nat_text[of "n div 10"] by (auto simp: digits_value_def ord_def)
    with 1 False show ?thesis by (subst (2) nat_text.simps) simp
  qed
qed

lemma scan_number_int:
  assumes "ends_number r"
  shows "scan_number fl (int_text i @ r) = Some (VInt i, r)"
proof -
  have r: "r = [] \<or> \<not> is_digit (hd r)" using ends_number_hd[OF assms] by auto
  have digits: "list_all is_digit (nat_text n)" for n
    using nat_text_digits by (auto simp: list_all_iff)
  have int: "scan_int (nat_text n @ r) = Some (nat_text n, r)" for n
    using nat_text_leading[of n] digits by (intro scan_int_digits r) auto
  have "hd (nat_text n) \<noteq> CHR ''-''" for n
    using digits[of n] char_facts by (cases "nat_text n") auto
  then show ?thesis
    by (simp add: scan_number_def int_text_def int scan_frac_end[OF assms] scan_exp_end[OF assms])
qed


text \<open>A float literal is read back as it stands.\<close>

lemma scan_number_float:
  assumes "float_parts neg i f e" and "ends_number r"
  shows "scan_number fl ((neg @ i @ f @ e) @ r) = Some (VFloat (fl (neg @ i @ f @ e)), r)"
proof -
  note parts = assms(1)[unfolded float_parts_def]
  note r = ends_number_hd[OF assms(2)]
  have e_nd: "e @ r = [] \<or> \<not> is_digit (hd (e @ r)) \<and> hd (e @ r) \<noteq> CHR ''.''"
    using parts r char_facts by auto
  then have fe_nd: "f @ e @ r = [] \<or> \<not> is_digit (hd (f @ e @ r))"
    using parts char_facts by auto
  have i: "scan_int (i @ f @ e @ r) = Some (i, f @ e @ r)"
    using parts fe_nd by (intro scan_int_digits) auto
  have f: "scan_frac (f @ e @ r) = (f, e @ r)"
  proof (cases "f = []")
    case True
    then show ?thesis using e_nd by (auto simp: scan_frac_def)
  next
    case False
    then obtain ds where ds: "ds \<noteq> []" "list_all is_digit ds" "f = CHR ''.'' # ds"
      using parts by auto
    have "takeWhile is_digit (ds @ e @ r) = ds" "dropWhile is_digit (ds @ e @ r) = e @ r"
      using takeWhile_digits[OF ds(2), of "e @ r"] e_nd by blast+
    with ds show ?thesis by (simp add: scan_frac_def)
  qed
  have e: "scan_exp (e @ r) = (e, r)"
  proof (cases "e = []")
    case True
    then show ?thesis using scan_exp_end[OF assms(2)] by simp
  next
    case False
    then obtain sg ds where ds: "ds \<noteq> []" "list_all is_digit ds" "sg \<in> {''-'', ''+''}"
        "e = CHR ''e'' # sg @ ds"
      using parts by auto
    then have "split_sign (sg @ ds @ r) = (sg, ds @ r)" by (auto simp: split_sign_def)
    moreover have "takeWhile is_digit (ds @ r) = ds" "dropWhile is_digit (ds @ r) = r"
      using takeWhile_digits[OF ds(2), of r] r by auto
    ultimately show ?thesis using ds by (simp add: scan_exp_def)
  qed
  have "i \<noteq> []" "hd i \<noteq> CHR ''-''"
  proof -
    show ne: "i \<noteq> []" using parts by blast
    have "is_digit (hd i)"
      using parts(1)[THEN conjunct2, THEN conjunct1]
    proof
      assume "i \<noteq> [] \<and> list_all is_digit i \<and> hd i \<noteq> CHR ''0''"
      then show ?thesis by (simp add: list_all_iff)
    qed (simp add: char_facts)
    then show "hd i \<noteq> CHR ''-''" using char_facts(3) by metis
  qed
  then have sign: "(if s \<noteq> [] \<and> hd s = CHR ''-'' then (''-'', tl s) else ([], s))
      = (neg, i @ f @ e @ r)" if "s = (neg @ i @ f @ e) @ r" for s
    using parts(1)[THEN conjunct1] that by (elim disjE) simp_all
  show ?thesis
    unfolding scan_number_def sign[OF refl] using parts by (simp add: i f e)
qed

subsection \<open>Values\<close>

definition is_json_ws :: "char \<Rightarrow> bool" where
  "is_json_ws c = (ord c \<in> {32, 9, 10, 13})"

definition skip_ws :: "str \<Rightarrow> str" where
  "skip_ws s = dropWhile is_json_ws s"

definition literals :: "(str \<times> pyval) list" where
  "literals = [(''null'', VNone), (''true'', VBool True), (''false'', VBool False),
     (''NaN'', VFloat ''nan''), (''Infinity'', VFloat ''inf''), (''-Infinity'', VFloat ''-inf'')]"

definition parse_scalar :: "(str \<Rightarrow> str) \<Rightarrow> str \<Rightarrow> (pyval \<times> str) option" where
  "parse_scalar fl s = (case find (\<lambda>(l, v). prefix l s) literals of
      Some (l, v) \<Rightarrow> Some (v, drop (length l) s) | None \<Rightarrow> scan_number fl s)"

text \<open>The fuel bounds the number of nested calls; twice the length of the text is enough.\<close>

fun parse_value :: "(str \<Rightarrow> str) \<Rightarrow> nat \<Rightarrow> str \<Rightarrow> (pyval \<times> str) option"
  and parse_items :: "(str \<Rightarrow> str) \<Rightarrow> nat \<Rightarrow> str \<Rightarrow> (pyval list \<times> str) option"
  and parse_members :: "(str \<Rightarrow> str) \<Rightarrow> nat \<Rightarrow> str \<Rightarrow> ((str \<times> pyval) list \<times> str) option" where
  "parse_value fl 0 s = None"
| "parse_value fl (Suc n) s = (case s of [] \<Rightarrow> None
     | c # t \<Rightarrow>
         if c = dq then map_option (\<lambda>(x, r). (VStr x, r)) (parse_string [] t)
         else if c = CHR ''['' then
           (let u = skip_ws t in if u \<noteq> [] \<and> hd u = CHR '']'' then Some (VList [], tl u)
            else map_option (\<lambda>(xs, r). (VList xs, r)) (parse_items fl n u))
         else if c = CHR 0x7B then
           (let u = skip_ws t in if u \<noteq> [] \<and> hd u = CHR 0x7D then Some (VDict [], tl u)
            else map_option (\<lambda>(d, r). (VDict (dict_of d), r)) (parse_members fl n u))
         else parse_scalar fl s)"
| "parse_items fl 0 s = None"
| "parse_items fl (Suc n) s = (case parse_value fl n s of None \<Rightarrow> None
     | Some (v, r) \<Rightarrow> (case skip_ws r of [] \<Rightarrow> None
        | c # t \<Rightarrow>
            if c = CHR '']'' then Some ([v], t)
            else if c = CHR '','' then
              map_option (\<lambda>(vs, r'). (v # vs, r')) (parse_items fl n (skip_ws t))
            else None))"
| "parse_members fl 0 s = None"
| "parse_members fl (Suc n) s = (case s of [] \<Rightarrow> None
     | q # t0 \<Rightarrow>
         if q \<noteq> dq then None
         else (case parse_string [] t0 of None \<Rightarrow> None
          | Some (k, r0) \<Rightarrow> (case skip_ws r0 of [] \<Rightarrow> None
             | col # t1 \<Rightarrow>
                 if col \<noteq> CHR '':'' then None
                 else (case parse_value fl n (skip_ws t1) of None \<Rightarrow> None
                  | Some (v, r) \<Rightarrow> (case skip_ws r of [] \<Rightarrow> None
                     | c # t \<Rightarrow>
                         if c = CHR 0x7D then Some ([(k, v)], t)
                         else if c = CHR '','' then
                           map_option (\<lambda>(d, r'). ((k, v) # d, r')) (parse_members fl n (skip_ws t))
                         else None)))))"

definition json_loads :: "(str \<Rightarrow> str) \<Rightarrow> str \<Rightarrow> pyval option" where
  "json_loads fl s = (case parse_value fl (Suc (2 * length s)) (skip_ws s) of
      None \<Rightarrow> None | Some (v, r) \<Rightarrow> if skip_ws r = [] then Some v else None)"


subsection \<open>Round trip\<close>

lemma dict_of_distinct: "distinct (map fst d) \<Longrightarrow> dict_of d = d"
proof -
  have "distinct (map fst (d0 @ d)) \<Longrightarrow>
      fold (\<lambda>(k, v) d. AList.update k v d) d d0 = d0 @ d" for d0
  proof (induction d arbitrary: d0)
    case (Cons kv d)
    obtain k v where kv: "kv = (k, v)" by (cases kv)
    have "k \<notin> fst ` set d0" using Cons.prems kv by auto
    then have "AList.update k v d0 = d0 @ [(k, v)]" by (induction d0) auto
    with Cons kv show ?case by simp
  qed simp
  then show "distinct (map fst d) \<Longrightarrow> dict_of d = d" by (simp add: dict_of_def)
qed

text \<open>The values \<open>json.dumps\<close> gives back: keys of an object are distinct, floats are texts
  of \<open>repr\<close>.\<close>

fun json_ok :: "(str \<Rightarrow> str) \<Rightarrow> pyval \<Rightarrow> bool" where
  "json_ok fl (VFloat f) = (f \<in> {''nan'', ''inf'', ''-inf''} \<or> float_literal f \<and> fl f = f)"
| "json_ok fl (VList xs) = (\<forall>x \<in> set xs. json_ok fl x)"
| "json_ok fl (VDict d) = (distinct (map fst d) \<and> (\<forall>(k, v) \<in> set d. json_ok fl v))"
| "json_ok fl _ = True"

fun json_fuel :: "pyval \<Rightarrow> nat" where
  "json_fuel (VList xs) = Suc (length xs + sum_list (map json_fuel xs))"
| "json_fuel (VDict d) = Suc (length d + sum_list (map (\<lambda>(k, v). json_fuel v) d))"
| "json_fuel _ = 1"

definition plain_opts :: "dump_opts \<Rightarrow> bool" where
  "plain_opts opts = (\<not> sort_keys opts \<and> item_sep opts \<in> {'','', '', ''} \<and> key_sep opts \<in> {'':'', '': ''})"

lemma skip_ws_simps [simp]:
  "skip_ws [] = []"
  "skip_ws (CHR '' '' # s) = skip_ws s"
  "skip_ws (CHR '','' # s) = CHR '','' # s" "skip_ws (CHR '']'' # s) = CHR '']'' # s"
  "skip_ws (CHR 0x7D # s) = CHR 0x7D # s" "skip_ws (CHR '':'' # s) = CHR '':'' # s"
  "skip_ws (dq # s) = dq # s"
  by (simp_all add: skip_ws_def is_json_ws_def ord_def)

definition number_start :: "str \<Rightarrow> bool" where
  "number_start s = (s \<noteq> [] \<and> (is_digit (hd s) \<or> hd s = CHR ''-'' \<and> tl s \<noteq> [] \<and> is_digit (hd (tl s))))"

lemma nat_text_hd: "is_digit (hd (nat_text n))"
  using nat_text_digits[of "hd (nat_text n)" n] by simp

lemma int_text_first: "number_start (int_text i @ r)"
  by (simp add: number_start_def int_text_def nat_text_hd)

lemma float_literal_first:
  assumes "float_literal f"
  shows "number_start (f @ r)"
proof -
  obtain neg i fr e where p: "float_parts neg i fr e" and f: "f = neg @ i @ fr @ e"
    using assms by (auto simp: float_literal_def)
  from p have i: "i = ''0'' \<or> i \<noteq> [] \<and> list_all is_digit i" and neg: "neg = [] \<or> neg = ''-''"
    unfolding float_parts_def by blast+
  have "i \<noteq> []" using i by blast
  moreover have "is_digit (hd i)"
    using i
  proof
    assume "i \<noteq> [] \<and> list_all is_digit i"
    then show ?thesis by (simp add: list_all_iff)
  qed (simp add: char_facts)
  ultimately have i: "i \<noteq> []" "is_digit (hd i)" by blast+
  show ?thesis using neg i by (elim disjE) (simp_all add: f number_start_def)
qed

lemma number_start_not_literal:
  assumes "number_start s"
  shows "parse_scalar fl s = scan_number fl s"
proof -
  obtain c t where s: "s = c # t" using assms by (cases s) (simp_all add: number_start_def)
  have nd: "\<not> is_digit (CHR ''n'')" "\<not> is_digit (CHR ''t'')" "\<not> is_digit (CHR ''f'')"
    "\<not> is_digit (CHR ''N'')" "\<not> is_digit (CHR ''I'')"
    by (simp_all add: is_digit_def ord_def)
  have "\<not> prefix l s" if "(l, v) \<in> set literals" for l v
  proof
    assume "prefix l s"
    moreover have "l \<noteq> []" "\<not> is_digit (hd l)" "hd l = CHR ''-'' \<Longrightarrow> \<not> is_digit (hd (tl l)) \<and> tl l \<noteq> []"
      using that nd char_facts(3) by (auto simp: literals_def)
    moreover from calculation(1,2) have "hd l = hd s" "prefix (tl l) (tl s)"
      unfolding s by (cases l, simp_all)+
    moreover from this(2) have "tl l \<noteq> [] \<Longrightarrow> hd (tl l) = hd (tl s)"
      by (cases "tl l"; cases "tl s") simp_all
    ultimately show False
      using assms unfolding number_start_def by metis
  qed
  then have "find (\<lambda>(l, v). prefix l s) literals = None"
    by (auto simp: find_None_iff)
  then show ?thesis by (simp add: parse_scalar_def)
qed

lemma parse_scalar_int: "ends_number r \<Longrightarrow> parse_scalar fl (int_text i @ r) = Some (VInt i, r)"
  by (simp add: number_start_not_literal[OF int_text_first] scan_number_int)

lemma parse_scalar_float:
  assumes "ends_number r" and "float_literal f"
  shows "parse_scalar fl (f @ r) = Some (VFloat (fl f), r)"
proof -
  obtain neg i fr e where p: "float_parts neg i fr e" and f: "f = neg @ i @ fr @ e"
    using assms(2) by (auto simp: float_literal_def)
  show ?thesis
    using scan_number_float[OF p assms(1)]
    by (simp add: number_start_not_literal[OF float_literal_first[OF assms(2)]]) (simp add: f)
qed

lemma parse_scalar_literal:
  "parse_scalar fl (''null'' @ r) = Some (VNone, r)"
  "parse_scalar fl (''true'' @ r) = Some (VBool True, r)"
  "parse_scalar fl (''false'' @ r) = Some (VBool False, r)"
  "parse_scalar fl (''NaN'' @ r) = Some (VFloat ''nan'', r)"
  "parse_scalar fl (''Infinity'' @ r) = Some (VFloat ''inf'', r)"
  "parse_scalar fl (''-Infinity'' @ r) = Some (VFloat ''-inf'', r)"
  by (simp_all add: parse_scalar_def literals_def)

text \<open>A value that is neither a string nor a container is read by \<open>parse_scalar\<close>.\<close>

definition scalar_start :: "char \<Rightarrow> bool" where
  "scalar_start c = (is_digit c \<or> c \<in> set ''-ntfNI'')"

lemma scalar_start_not: "scalar_start c \<Longrightarrow> c \<noteq> dq \<and> c \<noteq> CHR ''['' \<and> c \<noteq> CHR 0x7B \<and> c \<noteq> CHR '']''
    \<and> c \<noteq> CHR 0x7D \<and> \<not> is_json_ws c"
  by (auto simp: scalar_start_def is_digit_def is_json_ws_def ord_def)

lemma parse_value_scalar:
  assumes "s = c # t" and "scalar_start c"
  shows "parse_value fl (Suc n) s = parse_scalar fl s"
  using assms scalar_start_not by auto

lemma scalar_start_number: "number_start s \<Longrightarrow> s \<noteq> [] \<and> scalar_start (hd s)"
  unfolding number_start_def scalar_start_def by (elim conjE disjE) simp_all

lemma dumps_scalar:
  assumes "json_ok fl v" and "\<nexists>x. v = VStr x" and "\<nexists>xs. v = VList xs" and "\<nexists>d. v = VDict d"
  shows "dumps opts v \<noteq> [] \<and> scalar_start (hd (dumps opts v))" (is ?first)
    and "ends_number r \<Longrightarrow> parse_scalar fl (dumps opts v @ r) = Some (v, r)" (is "_ \<Longrightarrow> ?parsed")
proof -
  consider "v = VNone" | "v = VBool True" | "v = VBool False" | i where "v = VInt i"
    | "v = VFloat ''nan''" | "v = VFloat ''inf''" | "v = VFloat ''-inf''"
    | f where "v = VFloat f" "float_literal f" "fl f = f" "json_float f = f"
  proof (cases v)
    case (VBool b)
    then show ?thesis using that(2,3) by (cases b) simp_all
  next
    case (VFloat f)
    then consider "f = ''nan''" | "f = ''inf''" | "f = ''-inf''"
      | "f \<notin> {''nan'', ''inf'', ''-inf''}" "float_literal f" "fl f = f"
      using assms(1) by auto
    then show ?thesis
      using VFloat that(5-8) by cases (simp_all add: json_float_def)
  qed (use assms that in simp_all)
  note kinds = this
  show ?first
    using kinds
  proof cases
    case (4 i)
    then show ?thesis using scalar_start_number[OF int_text_first[of i "[]"]] by simp
  next
    case (8 f)
    then show ?thesis using scalar_start_number[OF float_literal_first[of f "[]"]] by simp
  qed (simp_all add: scalar_start_def json_float_def)
  assume r: "ends_number r"
  show ?parsed
    using kinds
  proof cases
    case 4
    then show ?thesis using parse_scalar_int[OF r] by simp
  next
    case 8
    then show ?thesis using parse_scalar_float[OF r] by simp
  qed (use parse_scalar_literal[of fl r] in \<open>simp_all add: json_float_def\<close>)
qed


lemma dumps_start:
  assumes "json_ok fl v"
  shows "dumps opts v \<noteq> [] \<and> \<not> is_json_ws (hd (dumps opts v)) \<and> hd (dumps opts v) \<noteq> CHR '']''"
proof -
  have brackets: "\<not> is_json_ws (CHR ''['')" "\<not> is_json_ws (CHR 0x7B)" "\<not> is_json_ws dq"
    by (simp_all add: is_json_ws_def ord_def)
  consider (str) s where "v = VStr s" | (list) xs where "v = VList xs" | (dict) d where "v = VDict d"
    | (scalar) "\<nexists>x. v = VStr x" "\<nexists>xs. v = VList xs" "\<nexists>d. v = VDict d"
    by blast
  then show ?thesis
  proof cases
    case scalar
    from dumps_scalar(1)[OF assms scalar] scalar_start_not show ?thesis by blast
  qed (use brackets in \<open>simp_all add: json_string_def\<close>)
qed

lemma skip_ws_start: "s \<noteq> [] \<Longrightarrow> \<not> is_json_ws (hd s) \<Longrightarrow> skip_ws (s @ r) = s @ r"
  by (cases s) (simp_all add: skip_ws_def)

lemma skip_sep: "sep \<in> {'','', '', ''} \<Longrightarrow> \<exists>u. sep = CHR '','' # u \<and> (\<forall>r. skip_ws (u @ r) = skip_ws r)"
  by auto

lemma ends_number_punct [simp]:
  "ends_number (CHR '','' # s)" "ends_number (CHR '']'' # s)" "ends_number (CHR 0x7D # s)"
  "ends_number []"
  by (simp_all add: ends_number_def is_digit_def ord_def)

lemma join_Cons_prefix: "\<exists>t. join sep (x # xs) = x @ t"
  by (cases xs) simp_all

lemma parse_items_join:
  assumes "sep \<in> {'','', '', ''}" and "xs \<noteq> []" and "\<forall>x \<in> set xs. json_ok fl x"
    and "length xs + sum_list (map json_fuel xs) \<le> n"
    and "\<And>x n r. x \<in> set xs \<Longrightarrow> json_fuel x \<le> n \<Longrightarrow> ends_number r \<Longrightarrow>
      parse_value fl n (dumps opts x @ r) = Some (x, r)"
  shows "parse_items fl n (join sep (map (dumps opts) xs) @ CHR '']'' # r) = Some (xs, r)"
  using assms(2-)
proof (induction xs arbitrary: n)
  case (Cons x xs)
  obtain m where n: "n = Suc m" using Cons.prems(3) by (cases n) auto
  then have m: "json_fuel x \<le> m" "length xs + sum_list (map json_fuel xs) \<le> m"
    using Cons.prems(3) by auto
  show ?case
  proof (cases "xs = []")
    case True
    then show ?thesis using Cons.prems(4)[of x m "CHR '']'' # r"] m n by simp
  next
    case False
    obtain u where u: "sep = CHR '','' # u" "\<And>r. skip_ws (u @ r) = skip_ws r"
      using skip_sep[OF assms(1)] by blast
    let ?more = "join sep (map (dumps opts) xs)"
    from False obtain y ys where ys: "xs = y # ys" by (cases xs) auto
    then have "?more \<noteq> []" "\<not> is_json_ws (hd ?more)"
      using dumps_start[of fl y opts] Cons.prems(2) by (cases ys; simp)+
    then have "skip_ws (u @ ?more @ CHR '']'' # r) = ?more @ CHR '']'' # r"
      using u(2) skip_ws_start by metis
    moreover have "parse_items fl m (?more @ CHR '']'' # r) = Some (xs, r)"
      using Cons.IH[OF False _ m(2)] Cons.prems(2,4) by simp
    moreover have "parse_value fl m (dumps opts x @ sep @ ?more @ CHR '']'' # r)
        = Some (x, sep @ ?more @ CHR '']'' # r)"
      using Cons.prems(4)[of x m] m u(1) by simp
    moreover have "join sep (map (dumps opts) (x # xs)) = dumps opts x @ sep @ ?more"
      by (simp add: ys)
    ultimately show ?thesis using u(1) by (simp add: n)
  qed
qed simp

abbreviation (input) dump_member :: "dump_opts \<Rightarrow> str \<times> pyval \<Rightarrow> str" where
  "dump_member opts \<equiv> (\<lambda>(k, v). json_string (ascii opts) k @ key_sep opts @ dumps opts v)"

lemma parse_members_join:
  assumes "sep \<in> {'','', '', ''}" and "key_sep opts \<in> {'':'', '': ''}" and "d \<noteq> []"
    and "\<forall>(k, v) \<in> set d. json_ok fl v"
    and "length d + sum_list (map (\<lambda>(k, v). json_fuel v) d) \<le> n"
    and "\<And>k v n r. (k, v) \<in> set d \<Longrightarrow> json_fuel v \<le> n \<Longrightarrow> ends_number r \<Longrightarrow>
      parse_value fl n (dumps opts v @ r) = Some (v, r)"
  shows "parse_members fl n (join sep (map (dump_member opts) d) @ CHR 0x7D # r) = Some (d, r)"
  using assms(3-)
proof (induction d arbitrary: n)
  case (Cons kv d)
  obtain k v where kv: "kv = (k, v)" by (cases kv)
  obtain m where n: "n = Suc m" using Cons.prems(3) by (cases n) auto
  then have m: "json_fuel v \<le> m" "length d + sum_list (map (\<lambda>(k, v). json_fuel v) d) \<le> m"
    using Cons.prems(3) kv by auto
  have key: "parse_string [] (concat (map (json_escape (ascii opts)) k) @ dq # s) = Some (k, s)" for s
    using parse_json_string[of "[]"] by simp
  obtain ks where ks: "key_sep opts = CHR '':'' # ks" "\<And>s. skip_ws (ks @ s) = skip_ws s"
    using assms(2) by auto
  have "json_ok fl v" using Cons.prems(2) kv by simp
  then have val: "skip_ws (ks @ dumps opts v @ s) = dumps opts v @ s" for s
    using dumps_start[of fl v opts] skip_ws_start[of "dumps opts v" s] ks(2) by simp
  have parsed: "parse_value fl m (dumps opts v @ s) = Some (v, s)" if "ends_number s" for s
    using Cons.prems(4)[of k v m s] that m kv by simp
  have member: "parse_members fl n (dump_member opts (k, v) @ s) =
      (case skip_ws s of [] \<Rightarrow> None
       | c # t \<Rightarrow> if c = CHR 0x7D then Some ([(k, v)], t)
           else if c = CHR '','' then map_option (\<lambda>(d, r'). ((k, v) # d, r')) (parse_members fl m (skip_ws t))
           else None)" if s: "ends_number s" for s
    using key parsed[OF s] val[of s] ks(1) by (simp add: n json_string_def)
  show ?case
  proof (cases "d = []")
    case True
    then show ?thesis using member[of "CHR 0x7D # r"] kv by simp
  next
    case False
    obtain u where u: "sep = CHR '','' # u" "\<And>r. skip_ws (u @ r) = skip_ws r"
      using skip_sep[OF assms(1)] by blast
    let ?more = "join sep (map (dump_member opts) d)"
    from False obtain y ys where ys: "d = y # ys" by (cases d) auto
    obtain t where "?more = dump_member opts y @ t"
      using join_Cons_prefix by (metis ys list.simps(9))
    then have "hd ?more = dq" "?more \<noteq> []"
      by (simp_all add: json_string_def split: prod.splits)
    moreover have "\<not> is_json_ws dq" by (simp add: is_json_ws_def ord_def)
    ultimately have "skip_ws (?more @ CHR 0x7D # r) = ?more @ CHR 0x7D # r"
      by (intro skip_ws_start) (simp_all only: not_False_eq_True)
    then have "skip_ws (u @ ?more @ CHR 0x7D # r) = ?more @ CHR 0x7D # r"
      by (simp only: u(2))
    moreover have "parse_members fl m (?more @ CHR 0x7D # r) = Some (d, r)"
      by (rule Cons.IH[OF False _ m(2)]) (use Cons.prems(2) in simp, erule Cons.prems(4)[OF list.set_intros(2)])
    moreover have "join sep (map (dump_member opts) (kv # d)) = dump_member opts (k, v) @ sep @ ?more"
      by (simp add: ys kv)
    ultimately show ?thesis
      using member[of "sep @ ?more @ CHR 0x7D # r"] u(1) kv by simp
  qed
qed simp

lemma parse_dumps:
  assumes "plain_opts opts"
  shows "json_ok fl v \<Longrightarrow> json_fuel v \<le> n \<Longrightarrow> ends_number r \<Longrightarrow>
    parse_value fl n (dumps opts v @ r) = Some (v, r)"
proof (induction v arbitrary: n r)
  case (VList xs)
  obtain m where n: "n = Suc m" "length xs + sum_list (map json_fuel xs) \<le> m"
    using VList.prems(2) by (cases n) auto
  show ?case
  proof (cases xs)
    case (Cons x ys)
    have items: "parse_items fl m (join (item_sep opts) (map (dumps opts) xs) @ CHR '']'' # r) = Some (xs, r)"
      using assms VList n(2) Cons by (intro parse_items_join) (auto simp: plain_opts_def)
    have "dumps opts x \<noteq> [] \<and> \<not> is_json_ws (hd (dumps opts x)) \<and> hd (dumps opts x) \<noteq> CHR '']''"
      using dumps_start[of fl x opts] VList.prems(1) Cons by simp
    then have "s \<noteq> [] \<and> \<not> is_json_ws (hd s) \<and> hd s \<noteq> CHR '']''"
      if "s = join (item_sep opts) (map (dumps opts) xs)" for s
      using that Cons by (cases ys) auto
    with items show ?thesis
      by (simp add: n(1) skip_ws_start)
  qed (simp add: n(1))
next
  case (VDict d)
  obtain m where n: "n = Suc m" "length d + sum_list (map (\<lambda>(k, v). json_fuel v) d) \<le> m"
    using VDict.prems(2) by (cases n) auto
  have items: "dict_items (sort_keys opts) d = d"
    using assms by (simp add: plain_opts_def dict_items_def)
  show ?case
  proof (cases d)
    case (Cons x ys)
    have vals: "parse_value fl n' (dumps opts v @ r') = Some (v, r')"
      if "(k, v) \<in> set d" "json_fuel v \<le> n'" "ends_number r'" for k v n' r'
      by (rule VDict.IH[of "(k, v)"]) (use VDict.prems(1) that in auto)
    have "d \<noteq> []" using Cons by simp
    moreover have "\<forall>(k, v) \<in> set d. json_ok fl v" using VDict.prems(1) by simp
    ultimately have members: "parse_members fl m
        (join (item_sep opts) (map (dump_member opts) d) @ CHR 0x7D # r) = Some (d, r)"
      using assms n(2) vals by (intro parse_members_join) (simp_all add: plain_opts_def)
    have "\<not> is_json_ws dq" by (simp add: is_json_ws_def ord_def)
    then have "s \<noteq> [] \<and> \<not> is_json_ws (hd s) \<and> hd s \<noteq> CHR 0x7D"
      if "s = join (item_sep opts) (map (dump_member opts) d)" for s
      using that Cons by (cases ys; cases x) (auto simp: json_string_def)
    with members show ?thesis
      using VDict.prems(1) by (simp add: n(1) items skip_ws_start dict_of_distinct)
  qed (simp add: n(1) dict_items_def)
next
  case (VStr s)
  then obtain m where "n = Suc m" by (cases n) auto
  then show ?case using parse_json_string[of "[]"] by (simp add: json_string_def)
next
  case (VInt i)
  then obtain m where "n = Suc m" by (cases n) auto
  with VInt show ?case
    using dumps_scalar(1)[of fl "VInt i" opts] dumps_scalar(2)[of fl "VInt i", where opts = opts and r = r] parse_value_scalar[of "dumps opts (VInt i) @ r"]
    by (cases "dumps opts (VInt i)") auto
next
  case (VFloat f)
  then obtain m where "n = Suc m" by (cases n) auto
  with VFloat show ?case
    using dumps_scalar(1)[of fl "VFloat f" opts] dumps_scalar(2)[of fl "VFloat f", where opts = opts and r = r] parse_value_scalar[of "dumps opts (VFloat f) @ r"]
    by (cases "dumps opts (VFloat f)") auto
next
  case VNone
  then obtain m where "n = Suc m" by (cases n) auto
  with VNone show ?case
    using dumps_scalar(1)[of fl "VNone" opts] dumps_scalar(2)[of fl "VNone", where opts = opts and r = r] parse_value_scalar[of "dumps opts VNone @ r"] by auto
next
  case (VBool b)
  then obtain m where "n = Suc m" by (cases n) auto
  with VBool show ?case
    using dumps_scalar(1)[of fl "VBool b" opts] dumps_scalar(2)[of fl "VBool b", where opts = opts and r = r] parse_value_scalar[of "dumps opts (VBool b) @ r"]
    by (cases "dumps opts (VBool b)") auto
qed


lemma sum_list_bound:
  "(\<And>x. x \<in> set xs \<Longrightarrow> f x \<le> 2 * length (g x)) \<Longrightarrow> length sep \<noteq> 0 \<Longrightarrow>
     length xs + sum_list (map f xs) \<le> 2 * length (join sep (map g xs)) + 1"
proof (induction xs)
  case (Cons x xs)
  have "f x \<le> 2 * length (g x)" using Cons.prems(1) by simp
  moreover have "length xs + sum_list (map f xs) \<le> 2 * length (join sep (map g xs)) + 1"
    using Cons by simp
  moreover have "1 \<le> length sep" using Cons.prems(2) by (cases sep) simp_all
  moreover have "xs \<noteq> [] \<Longrightarrow> join sep (map g (x # xs)) = g x @ sep @ join sep (map g xs)"
    by (cases xs) simp_all
  ultimately show ?case by (cases "xs = []") simp_all
qed simp

lemma json_fuel_bound:
  assumes "plain_opts opts"
  shows "json_ok fl v \<Longrightarrow> json_fuel v \<le> 2 * length (dumps opts v)"
proof (induction v)
  case (VList xs)
  have "length xs + sum_list (map json_fuel xs) \<le> 2 * length (join (item_sep opts) (map (dumps opts) xs)) + 1"
    using assms VList by (intro sum_list_bound) (auto simp: plain_opts_def)
  then show ?case by simp
next
  case (VDict d)
  have "json_fuel v \<le> 2 * length (dumps opts v)" if "(k, v) \<in> set d" for k v
    by (rule VDict.IH[of "(k, v)"]) (use VDict.prems that in auto)
  then have "(case kv of (k, v) \<Rightarrow> json_fuel v) \<le> 2 * length (dump_member opts kv)" if "kv \<in> set d" for kv
    using that by (cases kv) (auto simp: trans_le_add2 add_mult_distrib2)
  then have "length d + sum_list (map (\<lambda>(k, v). json_fuel v) d)
      \<le> 2 * length (join (item_sep opts) (map (dump_member opts) d)) + 1"
    using assms by (intro sum_list_bound) (auto simp: plain_opts_def)
  moreover have "dict_items (sort_keys opts) d = d"
    using assms by (simp add: plain_opts_def dict_items_def)
  ultimately show ?case by simp
next
  case (VInt i)
  have "int_text i \<noteq> []" by simp
  then show ?case by (cases "int_text i") auto
next
  case (VFloat f)
  have "dumps opts (VFloat f) \<noteq> []" using dumps_scalar(1)[OF VFloat] by simp
  then show ?case by (cases "json_float f") auto
qed (simp_all add: json_string_def)

text \<open>\<open>json.loads(json.dumps(v)) == v\<close>.\<close>

lemma json_loads_dumps:
  assumes "plain_opts opts" and "json_ok fl v"
  shows "json_loads fl (dumps opts v) = Some v"
proof -
  have "skip_ws (dumps opts v) = dumps opts v"
    using dumps_start[OF assms(2), of opts] skip_ws_start[of "dumps opts v" "[]"] by simp
  moreover have "parse_value fl (Suc (2 * length (dumps opts v))) (dumps opts v) = Some (v, [])"
    using parse_dumps[OF assms, of "Suc (2 * length (dumps opts v))" "[]"]
      json_fuel_bound[OF assms] by simp
  ultimately show ?thesis by (simp add: json_loads_def del: parse_value.simps)
qed

subsection \<open>A dumped value is one line\<close>

lemma no_nl_join: "nl \<notin> set sep \<Longrightarrow> \<forall>x \<in> set xs. nl \<notin> set x \<Longrightarrow> nl \<notin> set (join sep xs)"
  by (induction sep xs rule: join.induct) auto

lemma no_nl_digits: "list_all is_digit ds \<Longrightarrow> nl \<notin> set ds"
  by (auto simp: list_all_iff is_digit_def ord_def)

lemma no_nl_float: "f \<in> {''nan'', ''inf'', ''-inf''} \<or> float_literal f \<Longrightarrow> nl \<notin> set (json_float f)"
  using no_nl_digits by (auto simp: json_float_def float_literal_def float_parts_def)

lemma no_nl_int: "nl \<notin> set (int_text i)"
proof -
  have "nl \<notin> set (nat_text n)" for n
    using nat_text_digits[of nl n] by (auto simp: is_digit_def ord_def)
  then show ?thesis by (simp add: int_text_def)
qed

lemma no_nl_string: "nl \<notin> set (json_string a s)"
  using json_escape_no_nl by (auto simp: json_string_def)

lemma dumps_no_nl:
  assumes "plain_opts opts"
  shows "json_ok fl v \<Longrightarrow> nl \<notin> set (dumps opts v)"
proof (induction v)
  case (VFloat f)
  then show ?case using no_nl_float[of f] by (simp only: dumps.simps json_ok.simps) blast
next
  case (VList xs)
  have "nl \<notin> set (dumps opts x)" if "x \<in> set xs" for x
    by (rule VList.IH) (use VList.prems that in simp_all)
  moreover have "nl \<notin> set (item_sep opts)" using assms by (auto simp: plain_opts_def)
  ultimately have "nl \<notin> set (join (item_sep opts) (map (dumps opts) xs))"
    by (intro no_nl_join) simp_all
  then show ?case by (simp only: dumps.simps set_append) simp
next
  case (VDict d)
  have v: "nl \<notin> set (dumps opts v)" if "(k, v) \<in> set d" for k v
    by (rule VDict.IH[of "(k, v)"]) (use VDict.prems that in auto)
  have seps: "nl \<notin> set (item_sep opts)" "nl \<notin> set (key_sep opts)" "\<not> sort_keys opts"
    using assms by (auto simp: plain_opts_def)
  have "nl \<notin> set (json_string (ascii opts) k @ key_sep opts @ dumps opts v)" if "(k, v) \<in> set d" for k v
    using v[OF that] no_nl_string[of "ascii opts" k] seps(2) by simp
  then have "nl \<notin> set (join (item_sep opts) (map (\<lambda>(k, v). json_string (ascii opts) k @ key_sep opts @ dumps opts v) d))"
    using seps(1) by (intro no_nl_join) auto
  then show ?case using seps(3) by (simp only: dumps.simps dict_items_def if_False set_append) simp
qed (simp_all add: no_nl_int no_nl_string)

end
