(* ===== verification/Models.thy ===== *)
theory Models
  imports Errors PyTime
begin

text \<open>
  \<open>app/repository/models.py\<close> and the part of SQLAlchemy's session that the code relies on: one
  record per table, the database as the lists of its rows in insertion order, and actions that read
  and write it. A table's constraints (primary keys, unique keys, foreign keys with \<open>ON DELETE
  CASCADE\<close>) are checked where a row is inserted, and a violation is the \<open>IntegrityError\<close>.
\<close>

subsection \<open>Tables\<close>

type_synonym pyfloat = str

record Incident =
  inc_id :: str
  inc_title :: str
  inc_service :: str
  inc_severity :: str
  inc_status :: str
  inc_description :: str
  inc_created_at :: time
  inc_updated_at :: time
  inc_acknowledged_at :: "time option"
  inc_resolved_at :: "time option"
  inc_embedding :: "rat list option"
  inc_embedding_model :: "str option"

record Alert =
  al_id :: str
  al_incident_id :: str
  al_source :: str
  al_external_id :: str
  al_title :: str
  al_service :: str
  al_severity :: str
  al_description :: str
  al_received_at :: time

record LogEntry =
  lg_id :: str
  lg_incident_id :: str
  lg_timestamp :: time
  lg_level :: str
  lg_message :: str

record TimelineEvent =
  ev_id :: str
  ev_incident_id :: str
  ev_kind :: str
  ev_message :: str
  ev_created_at :: time

record Analysis =
  an_id :: str
  an_incident_id :: str
  an_summary :: str
  an_probable_cause :: str
  an_confidence :: pyfloat
  an_evidence :: "str list"
  an_remediation_steps :: "str list"
  an_caveats :: "str list"
  an_provider :: str
  an_is_fallback :: bool
  an_created_at :: time

record Postmortem =
  pm_id :: str
  pm_incident_id :: str
  pm_markdown :: str
  pm_version :: int
  pm_created_at :: time
  pm_updated_at :: time
  pm_jira_issue_key :: "str option"
  pm_jira_issue_url :: "str option"
  pm_confluence_url :: "str option"

record ExportRecord =
  ex_id :: str
  ex_incident_id :: str
  ex_destination :: str
  ex_external_id :: str
  ex_url :: str
  ex_is_demo :: bool
  ex_created_at :: time

record Device =
  dv_token :: str
  dv_platform :: str
  dv_environment :: str
  dv_created_at :: time

record Job =
  jb_id :: str
  jb_incident_id :: str
  jb_status :: str
  jb_result :: "pyval option"
  jb_error :: "str option"
  jb_created_at :: time
  jb_updated_at :: time

record db =
  incidents :: "Incident list"
  alerts :: "Alert list"
  log_entries :: "LogEntry list"
  timeline_events :: "TimelineEvent list"
  analyses :: "Analysis list"
  postmortems :: "Postmortem list"
  exports :: "ExportRecord list"
  devices :: "Device list"
  jobs :: "Job list"

definition empty_db :: db where
  "empty_db = \<lparr>incidents = [], alerts = [], log_entries = [], timeline_events = [], analyses = [],
     postmortems = [], exports = [], devices = [], jobs = []\<rparr>"

subsection \<open>Rows by key\<close>

text \<open>A row is found by a key; updating changes the rows with that key in place.\<close>

definition find_row :: "('r \<Rightarrow> 'k) \<Rightarrow> 'k \<Rightarrow> 'r list \<Rightarrow> 'r option" where
  "find_row key k rs = find (\<lambda>r. key r = k) rs"

definition update_row :: "('r \<Rightarrow> 'k) \<Rightarrow> 'k \<Rightarrow> ('r \<Rightarrow> 'r) \<Rightarrow> 'r list \<Rightarrow> 'r list" where
  "update_row key k f rs = map (\<lambda>r. if key r = k then f r else r) rs"

definition remove_row :: "('r \<Rightarrow> 'k) \<Rightarrow> 'k \<Rightarrow> 'r list \<Rightarrow> 'r list" where
  "remove_row key k rs = filter (\<lambda>r. key r \<noteq> k) rs"

text \<open>The interface of such a table. The laws are what the clients rely on: the row just inserted
  is found, updating touches only its key, and keys stay unique.\<close>

locale row_table =
  fixes key :: "'r \<Rightarrow> 'k" and look_up :: "'k \<Rightarrow> 't \<Rightarrow> 'r option" and add_row :: "'r \<Rightarrow> 't \<Rightarrow> 't"
    and change_row :: "'k \<Rightarrow> ('r \<Rightarrow> 'r) \<Rightarrow> 't \<Rightarrow> 't" and drop_row :: "'k \<Rightarrow> 't \<Rightarrow> 't"
    and unique :: "'t \<Rightarrow> bool"
  assumes look_up_add: "look_up k (add_row r t) =
      (case look_up k t of Some r' \<Rightarrow> Some r' | None \<Rightarrow> if key r = k then Some r else None)"
    and look_up_change: "(\<And>r. key r = k \<Longrightarrow> key (f r) = k) \<Longrightarrow>
      look_up k' (change_row k f t) = (if k' = k then map_option f (look_up k t) else look_up k' t)"
    and look_up_drop: "look_up k' (drop_row k t) = (if k' = k then None else look_up k' t)"
    and look_up_key: "look_up k t = Some r \<Longrightarrow> key r = k"
    and unique_add: "unique t \<Longrightarrow> look_up (key r) t = None \<Longrightarrow> unique (add_row r t)"
    and unique_change: "unique t \<Longrightarrow> (\<And>r. key r = k \<Longrightarrow> key (f r) = k) \<Longrightarrow> unique (change_row k f t)"
    and unique_drop: "unique t \<Longrightarrow> unique (drop_row k t)"
begin

text \<open>Insert or update, as \<open>INSERT ... ON CONFLICT DO UPDATE\<close>.\<close>

definition upsert :: "'r \<Rightarrow> ('r \<Rightarrow> 'r) \<Rightarrow> 't \<Rightarrow> 't" where
  "upsert r f t = (case look_up (key r) t of None \<Rightarrow> add_row r t | Some _ \<Rightarrow> change_row (key r) f t)"

lemma upsert_unique:
  "unique t \<Longrightarrow> (\<And>r'. key r' = key r \<Longrightarrow> key (f r') = key r) \<Longrightarrow> unique (upsert r f t)"
  by (auto simp: upsert_def unique_add intro: unique_change split: option.splits)

lemma upsert_other:
  "k \<noteq> key r \<Longrightarrow> (\<And>r'. key r' = key r \<Longrightarrow> key (f r') = key r) \<Longrightarrow>
     look_up k (upsert r f t) = look_up k t"
  by (auto simp: upsert_def look_up_add look_up_change split: option.splits)

lemma upsert_found:
  "(\<And>r'. key r' = key r \<Longrightarrow> key (f r') = key r) \<Longrightarrow>
     look_up (key r) (upsert r f t) =
       Some (case look_up (key r) t of None \<Rightarrow> r | Some r' \<Rightarrow> f r')"
  by (auto simp: upsert_def look_up_add look_up_change split: option.splits)

end

lemma find_row_Some: "find_row key k rs = Some r \<Longrightarrow> r \<in> set rs \<and> key r = k"
  by (auto simp: find_row_def find_Some_iff)

lemma find_row_None: "find_row key k rs = None \<longleftrightarrow> k \<notin> key ` set rs"
  by (auto simp: find_row_def find_None_iff)

lemma find_row_unique:
  "distinct (map key rs) \<Longrightarrow> r \<in> set rs \<Longrightarrow> find_row key (key r) rs = Some r"
proof (induction rs)
  case (Cons r' rs)
  then show ?case by (cases "r = r'") (auto simp: find_row_def image_iff)
qed simp

lemma find_row_append:
  "find_row key k (rs @ [r]) =
     (case find_row key k rs of Some r' \<Rightarrow> Some r' | None \<Rightarrow> if key r = k then Some r else None)"
  by (induction rs) (auto simp: find_row_def)

lemma find_row_update:
  assumes "\<And>r. key r = k \<Longrightarrow> key (f r) = k"
  shows "find_row key k' (update_row key k f rs) =
     (if k' = k then map_option f (find_row key k rs) else find_row key k' rs)"
  using assms by (induction rs) (auto simp: find_row_def update_row_def)

lemma find_row_remove:
  "find_row key k' (remove_row key k rs) = (if k' = k then None else find_row key k' rs)"
  by (induction rs) (auto simp: find_row_def remove_row_def)

lemma update_row_keys:
  "(\<And>r. key r = k \<Longrightarrow> g (f r) = g r) \<Longrightarrow> map g (update_row key k f rs) = map g rs"
  by (auto simp: update_row_def)

lemma update_row_set:
  "r \<in> set (update_row key k f rs) \<Longrightarrow> \<exists>r' \<in> set rs. r = (if key r' = k then f r' else r')"
  by (auto simp: update_row_def)

lemma distinct_remove_row: "distinct (map g rs) \<Longrightarrow> distinct (map g (remove_row key k rs))"
  by (simp add: remove_row_def distinct_map_filter)

interpretation device_table: row_table dv_token "find_row dv_token" "\<lambda>r rs. rs @ [r]"
  "update_row dv_token" "remove_row dv_token" "\<lambda>rs. distinct (map dv_token rs)"
  by unfold_locales
    (auto simp: find_row_append find_row_update find_row_remove find_row_None update_row_keys
      distinct_remove_row dest: find_row_Some)

end
