(* ===== verification/Session.thy ===== *)
theory Session
  imports Models
begin

text \<open>
  The database session of a request (\<open>app/repository/database.py\<close>): what it sees, what it has
  committed, the clock and the identifiers it draws; the actions the handlers are composed of; and
  the invariant of the stored data with a rule per action.
\<close>

subsection \<open>State and actions\<close>

text \<open>\<open>clock\<close> is what the successive calls of \<open>utcnow\<close> return, \<open>uuid\<close> the successive identifiers.\<close>

record env =
  clock :: "nat \<Rightarrow> time"
  uuid :: "nat \<Rightarrow> str"

record world =
  live :: db
  saved :: db
  ticks :: nat
  ids :: nat

definition new_world :: world where
  "new_world = \<lparr>live = empty_db, saved = empty_db, ticks = 0, ids = 0\<rparr>"

type_synonym 'a act = "world \<Rightarrow> (exc, 'a) res \<times> world"

definition ret :: "'a \<Rightarrow> 'a act" where
  "ret x = (\<lambda>w. (Inr x, w))"

definition raise :: "exc \<Rightarrow> 'a act" where
  "raise e = (\<lambda>w. (Inl e, w))"

definition andthen :: "'a act \<Rightarrow> ('a \<Rightarrow> 'b act) \<Rightarrow> 'b act" where
  "andthen m f = (\<lambda>w. case m w of (Inl e, w') \<Rightarrow> (Inl e, w') | (Inr x, w') \<Rightarrow> f x w')"

definition lift_res :: "(exc, 'a) res \<Rightarrow> 'a act" where
  "lift_res r = (\<lambda>w. (r, w))"

text \<open>\<open>except\<close>: the handler sees the exception and the state it left.\<close>

definition catch :: "'a act \<Rightarrow> (exc \<Rightarrow> 'a act) \<Rightarrow> 'a act" where
  "catch m h = (\<lambda>w. case m w of (Inl e, w') \<Rightarrow> h e w' | (Inr x, w') \<Rightarrow> (Inr x, w'))"

definition look :: "(db \<Rightarrow> 'a) \<Rightarrow> 'a act" where
  "look f = (\<lambda>w. (Inr (f (live w)), w))"

definition change :: "(db \<Rightarrow> db) \<Rightarrow> unit act" where
  "change f = (\<lambda>w. (Inr (), w\<lparr>live := f (live w)\<rparr>))"

definition utcnow :: "env \<Rightarrow> time act" where
  "utcnow E = (\<lambda>w. (Inr (clock E (ticks w)), w\<lparr>ticks := Suc (ticks w)\<rparr>))"

definition new_identifier :: "env \<Rightarrow> str act" where
  "new_identifier E = (\<lambda>w. (Inr (uuid E (ids w)), w\<lparr>ids := Suc (ids w)\<rparr>))"

definition session_commit :: "unit act" where
  "session_commit = (\<lambda>w. (Inr (), w\<lparr>saved := live w\<rparr>))"

definition session_rollback :: "unit act" where
  "session_rollback = (\<lambda>w. (Inr (), w\<lparr>live := saved w\<rparr>))"

text \<open>\<open>session.begin_nested()\<close>: an exception rolls back to the savepoint and propagates.\<close>

definition begin_nested :: "'a act \<Rightarrow> 'a act" where
  "begin_nested m = (\<lambda>w. case m w of (Inl e, w') \<Rightarrow> (Inl e, w'\<lparr>live := live w\<rparr>) | r \<Rightarrow> r)"

text \<open>A session per request: whatever it has not committed when it ends is rolled back.\<close>

definition get_session :: "'a act \<Rightarrow> 'a act" where
  "get_session m = (\<lambda>w. case m (w\<lparr>live := saved w\<rparr>) of (r, w') \<Rightarrow> (r, w'\<lparr>live := saved w'\<rparr>))"

fun map_act :: "('a \<Rightarrow> 'b act) \<Rightarrow> 'a list \<Rightarrow> 'b list act" where
  "map_act f [] = ret []"
| "map_act f (x # xs) = andthen (f x) (\<lambda>y. andthen (map_act f xs) (\<lambda>ys. ret (y # ys)))"

lemmas act_defs = ret_def raise_def andthen_def lift_res_def catch_def look_def change_def
  utcnow_def new_identifier_def session_commit_def session_rollback_def begin_nested_def get_session_def

lemma andthen_Inr:
  "andthen m f w = (Inr y, w') \<longleftrightarrow> (\<exists>x w1. m w = (Inr x, w1) \<and> f x w1 = (Inr y, w'))"
  by (auto simp: andthen_def split: prod.splits sum.splits)

lemma andthen_Inl:
  "andthen m f w = (Inl e, w') \<longleftrightarrow>
     m w = (Inl e, w') \<or> (\<exists>x w1. m w = (Inr x, w1) \<and> f x w1 = (Inl e, w'))"
  by (auto simp: andthen_def split: prod.splits sum.splits)

lemma basic_acts [simp]:
  "ret x w = (Inr x, w)" "raise e w = (Inl e, w)" "look f w = (Inr (f (live w)), w)"
  "change g w = (Inr (), w\<lparr>live := g (live w)\<rparr>)" "lift_res r w = (r, w)"
  "utcnow E w = (Inr (clock E (ticks w)), w\<lparr>ticks := Suc (ticks w)\<rparr>)"
  "new_identifier E w = (Inr (uuid E (ids w)), w\<lparr>ids := Suc (ids w)\<rparr>)"
  "session_commit w = (Inr (), w\<lparr>saved := live w\<rparr>)" "session_rollback w = (Inr (), w\<lparr>live := saved w\<rparr>)"
  by (simp_all add: act_defs)

lemma andthen_basic [simp]:
  "andthen (ret x) f1 = f1 x" "andthen (raise e) f2 = raise e"
  "andthen (look h) f3 w = f3 (h (live w)) w"
  "andthen (change g) f4 w = f4 () (w\<lparr>live := g (live w)\<rparr>)"
  "andthen (utcnow E) f5 w = f5 (clock E (ticks w)) (w\<lparr>ticks := Suc (ticks w)\<rparr>)"
  "andthen (new_identifier E) f6 w = f6 (uuid E (ids w)) (w\<lparr>ids := Suc (ids w)\<rparr>)"
  "andthen session_commit f7 w = f7 () (w\<lparr>saved := live w\<rparr>)"
  "andthen session_rollback f8 w = f8 () (w\<lparr>live := saved w\<rparr>)"
  by (simp_all add: act_defs fun_eq_iff)

lemma andthen_assoc: "andthen (andthen m f) g = andthen m (\<lambda>x. andthen (f x) g)"
  by (auto simp: andthen_def fun_eq_iff split: prod.splits sum.splits)

subsection \<open>Invariants of a session\<close>

text \<open>
  An invariant of the stored data that may speak of the number of identifiers drawn so far. What a
  client needs of it is that drawing more identifiers keeps it; every composition of actions then
  keeps it when its parts do.
\<close>

locale session_invariant =
  fixes inv :: "db \<Rightarrow> nat \<Rightarrow> bool"
  assumes inv_more_ids: "inv d n \<Longrightarrow> inv d (Suc n)"
begin

definition winv :: "world \<Rightarrow> bool" where
  "winv w = (inv (live w) (ids w) \<and> inv (saved w) (ids w))"

definition keeps :: "'a act \<Rightarrow> bool" where
  "keeps m = (\<forall>w. winv w \<longrightarrow> winv (snd (m w)) \<and> ids w \<le> ids (snd (m w)))"

lemma inv_ids_mono: "n \<le> m \<Longrightarrow> inv d n \<Longrightarrow> inv d m"
  by (induction rule: dec_induct) (auto intro: inv_more_ids)

lemma keeps_run: "keeps m \<Longrightarrow> winv w \<Longrightarrow> m w = (r, w') \<Longrightarrow> winv w' \<and> ids w \<le> ids w'"
  unfolding keeps_def by (metis snd_conv)

lemma keepsI: "(\<And>w r w'. winv w \<Longrightarrow> m w = (r, w') \<Longrightarrow> winv w' \<and> ids w \<le> ids w') \<Longrightarrow> keeps m"
  unfolding keeps_def by (metis prod.collapse)

lemma keepsD: "keeps m \<Longrightarrow> winv w \<Longrightarrow> winv (snd (m w))"
  by (simp add: keeps_def)

lemma keeps_pure: "keeps (ret x)" "keeps (raise e)" "keeps (look f)" "keeps (lift_res r)"
    "keeps (utcnow E)"
  by (simp_all add: keeps_def winv_def)

lemma keeps_identifier: "keeps (new_identifier E)"
  by (simp add: keeps_def winv_def inv_more_ids)

lemma keeps_commit: "keeps session_commit" "keeps session_rollback"
  by (simp_all add: keeps_def winv_def)

lemma keeps_change: "(\<And>d n. inv d n \<Longrightarrow> inv (g d) n) \<Longrightarrow> keeps (change g)"
  by (simp add: keeps_def winv_def)

text \<open>A continuation that needs a fact about the value it receives.\<close>

lemma keeps_andthen_fact:
  assumes "keeps m" and "\<And>w x w'. m w = (Inr x, w') \<Longrightarrow> P x" and "\<And>x. P x \<Longrightarrow> keeps (f x)"
  shows "keeps (andthen m f)"
proof (rule keepsI)
  fix w r w' assume w: "winv w" and run: "andthen m f w = (r, w')"
  obtain r1 w1 where m: "m w = (r1, w1)" by (cases "m w")
  note w1 = keeps_run[OF assms(1) w m]
  show "winv w' \<and> ids w \<le> ids w'"
  proof (cases r1)
    case (Inl e)
    then show ?thesis using run m w1 by (auto simp: andthen_def)
  next
    case (Inr x)
    then have "f x w1 = (r, w')" using run m by (simp add: andthen_def)
    with keeps_run[OF assms(3)[OF assms(2)[OF m[unfolded Inr]]]] w1 show ?thesis
      by (meson order_trans)
  qed
qed

lemma keeps_andthen: "keeps m \<Longrightarrow> (\<And>x. keeps (f x)) \<Longrightarrow> keeps (andthen m f)"
  by (rule keeps_andthen_fact[where P = "\<lambda>_. True"]) auto

lemma keeps_look_fact:
  assumes "\<And>d n. inv d n \<Longrightarrow> P (h d)" and "\<And>x. P x \<Longrightarrow> keeps (f x)"
  shows "keeps (andthen (look h) f)"
  using assms unfolding keeps_def winv_def by auto

lemma keeps_catch:
  assumes "keeps m" and "\<And>e. keeps (h e)"
  shows "keeps (catch m h)"
proof (rule keepsI)
  fix w r w' assume w: "winv w" and run: "catch m h w = (r, w')"
  obtain r1 w1 where m: "m w = (r1, w1)" by (cases "m w")
  note w1 = keeps_run[OF assms(1) w m]
  show "winv w' \<and> ids w \<le> ids w'"
  proof (cases r1)
    case (Inr x)
    then show ?thesis using run m w1 by (auto simp: catch_def)
  next
    case (Inl e)
    then have "h e w1 = (r, w')" using run m by (simp add: catch_def)
    with keeps_run[OF assms(2)] w1 show ?thesis by (meson order_trans)
  qed
qed

lemma keeps_if: "(b \<Longrightarrow> keeps m) \<Longrightarrow> (\<not> b \<Longrightarrow> keeps m') \<Longrightarrow> keeps (if b then m else m')"
  by simp

lemma keeps_case_option:
  "(v = None \<Longrightarrow> keeps m) \<Longrightarrow> (\<And>x. v = Some x \<Longrightarrow> keeps (f x)) \<Longrightarrow>
     keeps (case v of None \<Rightarrow> m | Some x \<Rightarrow> f x)"
  by (cases v) auto

lemma keeps_case_sum:
  "(\<And>x. v = Inl x \<Longrightarrow> keeps (f x)) \<Longrightarrow> (\<And>x. v = Inr x \<Longrightarrow> keeps (g x)) \<Longrightarrow>
     keeps (case v of Inl x \<Rightarrow> f x | Inr x \<Rightarrow> g x)"
  by (cases v) auto

lemma keeps_begin_nested:
  assumes "keeps m"
  shows "keeps (begin_nested m)"
  unfolding keeps_def
proof (intro allI impI)
  fix w assume w: "winv w"
  obtain r w' where m: "m w = (r, w')" by (cases "m w")
  with assms w have "winv w'" "ids w \<le> ids w'" unfolding keeps_def by force+
  then show "winv (snd (begin_nested m w)) \<and> ids w \<le> ids (snd (begin_nested m w))"
    using w m inv_ids_mono by (cases r) (auto simp: begin_nested_def winv_def)
qed

lemma keeps_get_session:
  assumes "keeps m"
  shows "keeps (get_session m)"
  unfolding keeps_def
proof (intro allI impI)
  fix w assume "winv w"
  then have w: "winv (w\<lparr>live := saved w\<rparr>)" by (simp add: winv_def)
  obtain r w' where m: "m (w\<lparr>live := saved w\<rparr>) = (r, w')" by (cases "m (w\<lparr>live := saved w\<rparr>)")
  with assms w have "winv w'" "ids w \<le> ids w'" unfolding keeps_def by force+
  then show "winv (snd (get_session m w)) \<and> ids w \<le> ids (snd (get_session m w))"
    using m by (simp add: get_session_def winv_def)
qed

lemma keeps_map_act: "(\<And>x. keeps (f x)) \<Longrightarrow> keeps (map_act f xs)"
  by (induction xs) (auto intro!: keeps_andthen keeps_pure)

lemmas keeps_rules = keeps_pure keeps_identifier keeps_commit keeps_andthen keeps_catch
  keeps_case_option keeps_case_sum keeps_begin_nested keeps_map_act keeps_if

end

subsection \<open>Actions that commit nothing\<close>

definition uncommitted :: "'a act \<Rightarrow> bool" where
  "uncommitted m = (\<forall>w. saved (snd (m w)) = saved w)"

lemma uncommittedD: "uncommitted m \<Longrightarrow> m w = (r, w') \<Longrightarrow> saved w' = saved w"
  unfolding uncommitted_def by (metis snd_conv)

lemma uncommitted_pure:
  "uncommitted (ret x)" "uncommitted (raise e)" "uncommitted (look f)" "uncommitted (change g)"
  "uncommitted (lift_res r)" "uncommitted (utcnow E)" "uncommitted (new_identifier E)"
  by (simp_all add: uncommitted_def)

lemma uncommitted_andthen:
  assumes "uncommitted m" and "\<And>x. uncommitted (f x)"
  shows "uncommitted (andthen m f)"
  unfolding uncommitted_def
proof
  fix w
  obtain r w1 where m: "m w = (r, w1)" by (cases "m w")
  then have "saved w1 = saved w" by (rule uncommittedD[OF assms(1)])
  with m assms(2) show "saved (snd (andthen m f w)) = saved w"
    by (cases r) (auto simp: andthen_def uncommitted_def)
qed

lemma uncommitted_catch:
  assumes "uncommitted m" and "\<And>e. uncommitted (h e)"
  shows "uncommitted (catch m h)"
  unfolding uncommitted_def
proof
  fix w
  obtain r w1 where m: "m w = (r, w1)" by (cases "m w")
  then have "saved w1 = saved w" by (rule uncommittedD[OF assms(1)])
  with m assms(2) show "saved (snd (catch m h w)) = saved w"
    by (cases r) (auto simp: catch_def uncommitted_def)
qed

lemma uncommitted_begin_nested:
  assumes "uncommitted m"
  shows "uncommitted (begin_nested m)"
  unfolding uncommitted_def
proof
  fix w
  obtain r w1 where m: "m w = (r, w1)" by (cases "m w")
  then have "saved w1 = saved w" by (rule uncommittedD[OF assms])
  with m show "saved (snd (begin_nested m w)) = saved w"
    by (cases r) (auto simp: begin_nested_def)
qed

lemma uncommitted_map_act: "(\<And>x. uncommitted (f x)) \<Longrightarrow> uncommitted (map_act f xs)"
  by (induction xs) (auto intro!: uncommitted_andthen uncommitted_pure)

lemma uncommitted_if: "(b \<Longrightarrow> uncommitted m) \<Longrightarrow> (\<not> b \<Longrightarrow> uncommitted m') \<Longrightarrow> uncommitted (if b then m else m')"
  by simp

lemma uncommitted_case_option:
  "(v = None \<Longrightarrow> uncommitted m) \<Longrightarrow> (\<And>x. v = Some x \<Longrightarrow> uncommitted (f x)) \<Longrightarrow>
     uncommitted (case v of None \<Rightarrow> m | Some x \<Rightarrow> f x)"
  by (cases v) auto

lemmas uncommitted_rules = uncommitted_pure uncommitted_andthen uncommitted_catch
  uncommitted_begin_nested uncommitted_map_act uncommitted_if uncommitted_case_option

lemma get_session_run:
  "get_session m w = (case m (w\<lparr>live := saved w\<rparr>) of (r, w') \<Rightarrow> (r, w'\<lparr>live := saved w'\<rparr>))"
  by (simp add: get_session_def)

text \<open>A session that commits nothing leaves what is stored, and what the next one sees, as it was.\<close>

lemma get_session_uncommitted:
  "uncommitted m \<Longrightarrow> get_session m w = (r, w') \<Longrightarrow> saved w' = saved w \<and> live w' = saved w"
  by (auto simp: get_session_run dest: uncommittedD split: prod.splits)

text \<open>An action that stores nothing when it raises.\<close>

definition atomic :: "'a act \<Rightarrow> bool" where
  "atomic m = (\<forall>w e w'. m w = (Inl e, w') \<longrightarrow> saved w' = saved w)"

lemma atomicD: "atomic m \<Longrightarrow> m w = (Inl e, w') \<Longrightarrow> saved w' = saved w"
  unfolding atomic_def by blast

lemma atomic_uncommitted: "uncommitted m \<Longrightarrow> atomic m"
  unfolding atomic_def using uncommittedD by blast

lemma atomic_andthen: "uncommitted m \<Longrightarrow> (\<And>x. atomic (f x)) \<Longrightarrow> atomic (andthen m f)"
  unfolding atomic_def by (auto simp: andthen_Inl dest: uncommittedD)

lemma atomic_commit: "atomic session_commit" "atomic (andthen session_commit (\<lambda>_. ret x))"
  by (simp_all add: atomic_def)

lemma atomic_if: "(b \<Longrightarrow> atomic m) \<Longrightarrow> (\<not> b \<Longrightarrow> atomic m') \<Longrightarrow> atomic (if b then m else m')"
  by simp

lemma atomic_case_option:
  "(v = None \<Longrightarrow> atomic m) \<Longrightarrow> (\<And>x. v = Some x \<Longrightarrow> atomic (f x)) \<Longrightarrow>
     atomic (case v of None \<Rightarrow> m | Some x \<Rightarrow> f x)"
  by (cases v) auto

lemma atomic_get_session:
  assumes "atomic m"
  shows "atomic (get_session m)"
  using assms by (fastforce simp: atomic_def get_session_run split: prod.splits)

end
