(* ===== verification/Store.thy ===== *)
theory Store
  imports Session
begin

text \<open>
  Reading and writing rows, with the constraints \<open>app/repository/models.py\<close> declares, and the
  invariant of the database: unique keys, existing parents, and well formed rows.
\<close>

subsection \<open>Inserting\<close>

definition has_incident :: "str \<Rightarrow> db \<Rightarrow> bool" where
  "has_incident i d = (find_row inc_id i (incidents d) \<noteq> None)"

text \<open>A row with a fresh identifier is inserted if the table's constraints allow it.\<close>

definition insert_new :: "env \<Rightarrow> (db \<Rightarrow> bool) \<Rightarrow> (str \<Rightarrow> 'r) \<Rightarrow> ('r \<Rightarrow> db \<Rightarrow> db) \<Rightarrow> 'r act" where
  "insert_new E ok mk add =
     andthen (new_identifier E) (\<lambda>i. andthen (look ok) (\<lambda>b.
       if b then andthen (change (add (mk i))) (\<lambda>_. ret (mk i)) else raise IntegrityError))"

definition insert_incident :: "env \<Rightarrow> str \<Rightarrow> str \<Rightarrow> str \<Rightarrow> str \<Rightarrow> Incident act" where
  "insert_incident E title service severity description =
     andthen (utcnow E) (\<lambda>created. andthen (utcnow E) (\<lambda>updated.
       insert_new E (\<lambda>d. True)
         (\<lambda>i. \<lparr>inc_id = i, inc_title = title, inc_service = service, inc_severity = severity,
            inc_status = ''open'', inc_description = description, inc_created_at = created,
            inc_updated_at = updated, inc_acknowledged_at = None, inc_resolved_at = None,
            inc_embedding = None, inc_embedding_model = None\<rparr>)
         (\<lambda>r d. d\<lparr>incidents := incidents d @ [r]\<rparr>)))"

definition insert_alert ::
  "env \<Rightarrow> str \<Rightarrow> str \<Rightarrow> str \<Rightarrow> str \<Rightarrow> str \<Rightarrow> str \<Rightarrow> str \<Rightarrow> Alert act" where
  "insert_alert E iid source external_id title service severity description =
     andthen (utcnow E) (\<lambda>t.
       insert_new E
         (\<lambda>d. has_incident iid d \<and>
            (\<forall>a \<in> set (alerts d). (al_source a, al_external_id a) \<noteq> (source, external_id)))
         (\<lambda>i. \<lparr>al_id = i, al_incident_id = iid, al_source = source, al_external_id = external_id,
            al_title = title, al_service = service, al_severity = severity,
            al_description = description, al_received_at = t\<rparr>)
         (\<lambda>r d. d\<lparr>alerts := alerts d @ [r]\<rparr>))"

definition insert_log :: "env \<Rightarrow> str \<Rightarrow> time \<Rightarrow> str \<Rightarrow> str \<Rightarrow> LogEntry act" where
  "insert_log E iid t level message =
     insert_new E (has_incident iid)
       (\<lambda>i. \<lparr>lg_id = i, lg_incident_id = iid, lg_timestamp = t, lg_level = level,
          lg_message = message\<rparr>)
       (\<lambda>r d. d\<lparr>log_entries := log_entries d @ [r]\<rparr>)"

definition insert_event :: "env \<Rightarrow> str \<Rightarrow> str \<Rightarrow> str \<Rightarrow> TimelineEvent act" where
  "insert_event E iid kind message =
     andthen (utcnow E) (\<lambda>t.
       insert_new E (has_incident iid)
         (\<lambda>i. \<lparr>ev_id = i, ev_incident_id = iid, ev_kind = kind, ev_message = message,
            ev_created_at = t\<rparr>)
         (\<lambda>r d. d\<lparr>timeline_events := timeline_events d @ [r]\<rparr>))"

definition insert_analysis :: "env \<Rightarrow> str \<Rightarrow> (str \<Rightarrow> time \<Rightarrow> Analysis) \<Rightarrow> Analysis act" where
  "insert_analysis E iid mk =
     andthen (utcnow E) (\<lambda>t.
       insert_new E (has_incident iid) (\<lambda>i. (mk i t)\<lparr>an_id := i, an_incident_id := iid\<rparr>)
         (\<lambda>r d. d\<lparr>analyses := analyses d @ [r]\<rparr>))"

definition insert_postmortem :: "env \<Rightarrow> str \<Rightarrow> str \<Rightarrow> Postmortem act" where
  "insert_postmortem E iid markdown =
     andthen (utcnow E) (\<lambda>created. andthen (utcnow E) (\<lambda>updated.
       insert_new E
         (\<lambda>d. has_incident iid d \<and> iid \<notin> pm_incident_id ` set (postmortems d))
         (\<lambda>i. \<lparr>pm_id = i, pm_incident_id = iid, pm_markdown = markdown, pm_version = 1,
            pm_created_at = created, pm_updated_at = updated, pm_jira_issue_key = None,
            pm_jira_issue_url = None, pm_confluence_url = None\<rparr>)
         (\<lambda>r d. d\<lparr>postmortems := postmortems d @ [r]\<rparr>)))"

definition insert_export :: "env \<Rightarrow> str \<Rightarrow> str \<Rightarrow> str \<Rightarrow> str \<Rightarrow> bool \<Rightarrow> ExportRecord act" where
  "insert_export E iid destination external_id url is_demo =
     andthen (utcnow E) (\<lambda>t.
       insert_new E
         (\<lambda>d. has_incident iid d \<and>
            (\<forall>x \<in> set (exports d). (ex_incident_id x, ex_destination x) \<noteq> (iid, destination)))
         (\<lambda>i. \<lparr>ex_id = i, ex_incident_id = iid, ex_destination = destination,
            ex_external_id = external_id, ex_url = url, ex_is_demo = is_demo, ex_created_at = t\<rparr>)
         (\<lambda>r d. d\<lparr>exports := exports d @ [r]\<rparr>))"

definition insert_job :: "env \<Rightarrow> str \<Rightarrow> Job act" where
  "insert_job E iid =
     andthen (utcnow E) (\<lambda>created. andthen (utcnow E) (\<lambda>updated.
       insert_new E (has_incident iid)
         (\<lambda>i. \<lparr>jb_id = i, jb_incident_id = iid, jb_status = ''queued'', jb_result = None,
            jb_error = None, jb_created_at = created, jb_updated_at = updated\<rparr>)
         (\<lambda>r d. d\<lparr>jobs := jobs d @ [r]\<rparr>)))"

subsection \<open>Updating and deleting\<close>

definition set_incident :: "str \<Rightarrow> (Incident \<Rightarrow> Incident) \<Rightarrow> unit act" where
  "set_incident i f = change (\<lambda>d. d\<lparr>incidents := update_row inc_id i f (incidents d)\<rparr>)"

definition set_postmortem :: "str \<Rightarrow> (Postmortem \<Rightarrow> Postmortem) \<Rightarrow> unit act" where
  "set_postmortem i f = change (\<lambda>d. d\<lparr>postmortems := update_row pm_id i f (postmortems d)\<rparr>)"

definition set_export :: "str \<Rightarrow> (ExportRecord \<Rightarrow> ExportRecord) \<Rightarrow> unit act" where
  "set_export i f = change (\<lambda>d. d\<lparr>exports := update_row ex_id i f (exports d)\<rparr>)"

definition set_job :: "str \<Rightarrow> (Job \<Rightarrow> Job) \<Rightarrow> unit act" where
  "set_job i f = change (\<lambda>d. d\<lparr>jobs := update_row jb_id i f (jobs d)\<rparr>)"

definition set_devices :: "(Device list \<Rightarrow> Device list) \<Rightarrow> unit act" where
  "set_devices f = change (\<lambda>d. d\<lparr>devices := f (devices d)\<rparr>)"

text \<open>Deleting an incident deletes what references it (\<open>ondelete="CASCADE"\<close>).\<close>

definition cascade :: "str \<Rightarrow> db \<Rightarrow> db" where
  "cascade i d = d\<lparr>
     incidents := remove_row inc_id i (incidents d),
     alerts := remove_row al_incident_id i (alerts d),
     log_entries := remove_row lg_incident_id i (log_entries d),
     timeline_events := remove_row ev_incident_id i (timeline_events d),
     analyses := remove_row an_incident_id i (analyses d),
     postmortems := remove_row pm_incident_id i (postmortems d),
     exports := remove_row ex_incident_id i (exports d),
     jobs := remove_row jb_incident_id i (jobs d)\<rparr>"

subsection \<open>The invariant of the database\<close>

definition primary_keys :: "db \<Rightarrow> bool" where
  "primary_keys d =
     (distinct (map inc_id (incidents d)) \<and> distinct (map al_id (alerts d)) \<and>
      distinct (map lg_id (log_entries d)) \<and> distinct (map ev_id (timeline_events d)) \<and>
      distinct (map an_id (analyses d)) \<and> distinct (map pm_id (postmortems d)) \<and>
      distinct (map ex_id (exports d)) \<and> distinct (map dv_token (devices d)) \<and>
      distinct (map jb_id (jobs d)))"

definition alert_key :: "Alert \<Rightarrow> str \<times> str" where
  "alert_key a = (al_source a, al_external_id a)"

definition export_key :: "ExportRecord \<Rightarrow> str \<times> str" where
  "export_key x = (ex_incident_id x, ex_destination x)"

definition unique_keys :: "db \<Rightarrow> bool" where
  "unique_keys d =
     (distinct (map alert_key (alerts d)) \<and> distinct (map pm_incident_id (postmortems d)) \<and>
      distinct (map export_key (exports d)))"

definition child_parents :: "db \<Rightarrow> str set" where
  "child_parents d =
     al_incident_id ` set (alerts d) \<union> lg_incident_id ` set (log_entries d) \<union>
     ev_incident_id ` set (timeline_events d) \<union> an_incident_id ` set (analyses d) \<union>
     pm_incident_id ` set (postmortems d) \<union> ex_incident_id ` set (exports d) \<union>
     jb_incident_id ` set (jobs d)"

definition foreign_keys :: "db \<Rightarrow> bool" where
  "foreign_keys d = (child_parents d \<subseteq> inc_id ` set (incidents d))"

definition severity_texts :: "str list" where
  "severity_texts = [''critical'', ''high'', ''medium'', ''low'']"

definition status_texts :: "str list" where
  "status_texts = [''open'', ''acknowledged'', ''investigating'', ''resolved'']"

text \<open>The lifecycle data of an incident is consistent with its status.\<close>

definition incident_ok :: "Incident \<Rightarrow> bool" where
  "incident_ok r =
     (inc_severity r \<in> set severity_texts \<and> inc_status r \<in> set status_texts \<and>
      (inc_status r = ''resolved'' \<longleftrightarrow> inc_resolved_at r \<noteq> None) \<and>
      (inc_status r \<in> {''acknowledged'', ''investigating''} \<longrightarrow> inc_acknowledged_at r \<noteq> None) \<and>
      (inc_embedding r = None \<longleftrightarrow> inc_embedding_model r = None))"

definition job_ok :: "Job \<Rightarrow> bool" where
  "job_ok j =
     (jb_status j \<in> {''queued'', ''running'', ''succeeded'', ''failed''} \<and>
      (jb_status j = ''succeeded'' \<longrightarrow> jb_result j \<noteq> None) \<and>
      (jb_status j = ''failed'' \<longrightarrow> jb_error j \<noteq> None))"

definition rows_ok :: "db \<Rightarrow> bool" where
  "rows_ok d =
     ((\<forall>r \<in> set (incidents d). incident_ok r) \<and> (\<forall>j \<in> set (jobs d). job_ok j) \<and>
      (\<forall>p \<in> set (postmortems d). 1 \<le> pm_version p))"

definition drawn_ids :: "env \<Rightarrow> db \<Rightarrow> nat \<Rightarrow> bool" where
  "drawn_ids E d n =
     (inc_id ` set (incidents d) \<union> al_id ` set (alerts d) \<union> lg_id ` set (log_entries d) \<union>
      ev_id ` set (timeline_events d) \<union> an_id ` set (analyses d) \<union> pm_id ` set (postmortems d) \<union>
      ex_id ` set (exports d) \<union> jb_id ` set (jobs d) \<subseteq> uuid E ` {..<n})"

definition db_inv :: "env \<Rightarrow> db \<Rightarrow> nat \<Rightarrow> bool" where
  "db_inv E d n =
     (primary_keys d \<and> unique_keys d \<and> foreign_keys d \<and> rows_ok d \<and> drawn_ids E d n)"

lemmas db_inv_parts = primary_keys_def unique_keys_def foreign_keys_def child_parents_def
  rows_ok_def drawn_ids_def

lemma db_inv_empty: "db_inv E empty_db n"
  by (simp add: db_inv_def db_inv_parts empty_db_def)

lemma drawn_ids_mono: "drawn_ids E d n \<Longrightarrow> drawn_ids E d (Suc n)"
  unfolding drawn_ids_def by (rule order_trans) auto

lemma drawn_fresh:
  assumes "inj (uuid E)" and "drawn_ids E d n"
  shows "uuid E n \<notin> inc_id ` set (incidents d)" and "uuid E n \<notin> al_id ` set (alerts d)"
    and "uuid E n \<notin> lg_id ` set (log_entries d)" and "uuid E n \<notin> ev_id ` set (timeline_events d)"
    and "uuid E n \<notin> an_id ` set (analyses d)" and "uuid E n \<notin> pm_id ` set (postmortems d)"
    and "uuid E n \<notin> ex_id ` set (exports d)" and "uuid E n \<notin> jb_id ` set (jobs d)"
proof -
  have fresh: "uuid E n \<notin> A" if "A \<subseteq> uuid E ` {..<n}" for A
    using that assms(1) by (auto dest: injD)
  note parts = assms(2)[unfolded drawn_ids_def Un_subset_iff]
  show "uuid E n \<notin> inc_id ` set (incidents d)" and "uuid E n \<notin> al_id ` set (alerts d)"
    and "uuid E n \<notin> lg_id ` set (log_entries d)" and "uuid E n \<notin> ev_id ` set (timeline_events d)"
    and "uuid E n \<notin> an_id ` set (analyses d)" and "uuid E n \<notin> pm_id ` set (postmortems d)"
    and "uuid E n \<notin> ex_id ` set (exports d)" and "uuid E n \<notin> jb_id ` set (jobs d)"
    by (rule fresh, simp only: parts)+
qed

interpretation store: session_invariant "db_inv E" for E :: env
  by unfold_locales (simp add: db_inv_def drawn_ids_mono)

text \<open>The invariant of a session: of what it sees and of what is stored.\<close>

definition world_ok :: "env \<Rightarrow> world \<Rightarrow> bool" where
  "world_ok E w = (db_inv E (live w) (ids w) \<and> db_inv E (saved w) (ids w))"

lemma winv_world_ok: "store.winv E w = world_ok E w"
  by (simp add: store.winv_def world_ok_def)

lemma keeps_world_ok: "store.keeps E m \<Longrightarrow> world_ok E w \<Longrightarrow> m w = (r, w') \<Longrightarrow> world_ok E w'"
  using store.keeps_run by (metis winv_world_ok)

lemma has_incident_iff: "has_incident i d \<longleftrightarrow> i \<in> inc_id ` set (incidents d)"
  by (simp add: has_incident_def find_row_None)


subsection \<open>Every action on rows keeps the invariant\<close>

lemma keeps_insert_new:
  assumes "\<And>d n. db_inv E d n \<Longrightarrow> ok d \<Longrightarrow> db_inv E (add (mk (uuid E n)) d) (Suc n)"
  shows "store.keeps E (insert_new E ok mk add)"
proof (rule store.keepsI)
  fix w r w' assume w: "store.winv E w" and run: "insert_new E ok mk add w = (r, w')"
  from w have "db_inv E (live w) (ids w)" "db_inv E (live w) (Suc (ids w))" "db_inv E (saved w) (Suc (ids w))"
    by (simp_all add: store.winv_def store.inv_more_ids)
  with run assms show "store.winv E w' \<and> ids w \<le> ids w'"
    by (cases "ok (live w)") (auto simp: insert_new_def store.winv_def)
qed

lemmas inv_unfold = db_inv_def primary_keys_def unique_keys_def foreign_keys_def
  child_parents_def rows_ok_def drawn_ids_def lessThan_Suc

lemma keeps_insert_incident:
  assumes "inj (uuid E)" and "severity \<in> set severity_texts"
  shows "store.keeps E (insert_incident E title service severity description)"
  unfolding insert_incident_def
proof (intro store.keeps_andthen store.keeps_pure keeps_insert_new)
  fix t u d n assume "db_inv E d n"
  then show "db_inv E (d\<lparr>incidents := incidents d @ [\<lparr>inc_id = uuid E n, inc_title = title,
      inc_service = service, inc_severity = severity, inc_status = ''open'',
      inc_description = description, inc_created_at = t, inc_updated_at = u,
      inc_acknowledged_at = None, inc_resolved_at = None, inc_embedding = None,
      inc_embedding_model = None\<rparr>]\<rparr>) (Suc n)"
    using drawn_fresh(1)[OF assms(1), of d n] assms(2)
    by (auto simp: inv_unfold incident_ok_def status_texts_def)
qed

lemma keeps_insert_alert:
  assumes "inj (uuid E)"
  shows "store.keeps E (insert_alert E iid source external_id title service severity description)"
  unfolding insert_alert_def
  by (intro store.keeps_andthen store.keeps_pure keeps_insert_new)
    (use drawn_fresh(2)[OF assms] in \<open>auto simp: inv_unfold has_incident_iff alert_key_def\<close>)

lemma keeps_insert_log:
  assumes "inj (uuid E)"
  shows "store.keeps E (insert_log E iid t level message)"
  unfolding insert_log_def
  by (intro keeps_insert_new)
    (use drawn_fresh(3)[OF assms] in \<open>auto simp: inv_unfold has_incident_iff\<close>)

lemma keeps_insert_event:
  assumes "inj (uuid E)"
  shows "store.keeps E (insert_event E iid kind message)"
  unfolding insert_event_def
  by (intro store.keeps_andthen store.keeps_pure keeps_insert_new)
    (use drawn_fresh(4)[OF assms] in \<open>auto simp: inv_unfold has_incident_iff\<close>)

lemma keeps_insert_analysis:
  assumes "inj (uuid E)"
  shows "store.keeps E (insert_analysis E iid mk)"
  unfolding insert_analysis_def
  by (intro store.keeps_andthen store.keeps_pure keeps_insert_new)
    (use drawn_fresh(5)[OF assms] in \<open>auto simp: inv_unfold has_incident_iff\<close>)

lemma keeps_insert_postmortem:
  assumes "inj (uuid E)"
  shows "store.keeps E (insert_postmortem E iid markdown)"
  unfolding insert_postmortem_def
  by (intro store.keeps_andthen store.keeps_pure keeps_insert_new)
    (use drawn_fresh(6)[OF assms] in \<open>auto simp: inv_unfold has_incident_iff\<close>)

lemma keeps_insert_export:
  assumes "inj (uuid E)"
  shows "store.keeps E (insert_export E iid destination external_id url is_demo)"
  unfolding insert_export_def
  by (intro store.keeps_andthen store.keeps_pure keeps_insert_new)
    (use drawn_fresh(7)[OF assms] in \<open>auto simp: inv_unfold has_incident_iff export_key_def\<close>)

lemma keeps_insert_job:
  assumes "inj (uuid E)"
  shows "store.keeps E (insert_job E iid)"
  unfolding insert_job_def
  by (intro store.keeps_andthen store.keeps_pure keeps_insert_new)
    (use drawn_fresh(8)[OF assms] in \<open>auto simp: inv_unfold has_incident_iff job_ok_def\<close>)

lemma update_row_image:
  "(\<And>r. key r = k \<Longrightarrow> g (f r) = g r) \<Longrightarrow> g ` set (update_row key k f rs) = g ` set rs"
  by (metis update_row_keys set_map)

lemma keeps_set_incident:
  assumes "\<And>r. inc_id (f r) = inc_id r" and "\<And>r. incident_ok r \<Longrightarrow> incident_ok (f r)"
  shows "store.keeps E (set_incident i f)"
  unfolding set_incident_def
proof (rule store.keeps_change)
  fix d n assume "db_inv E d n"
  then show "db_inv E (d\<lparr>incidents := update_row inc_id i f (incidents d)\<rparr>) n"
    using assms(2) update_row_set[of _ inc_id i f "incidents d"]
    by (simp add: db_inv_def db_inv_parts update_row_keys update_row_image assms(1)) (metis (full_types))
qed

lemma keeps_set_postmortem:
  assumes "\<And>p. pm_id (f p) = pm_id p" and "\<And>p. pm_incident_id (f p) = pm_incident_id p"
    and "\<And>p. pm_version p \<le> pm_version (f p)"
  shows "store.keeps E (set_postmortem i f)"
  unfolding set_postmortem_def
proof (rule store.keeps_change)
  fix d n assume "db_inv E d n"
  then show "db_inv E (d\<lparr>postmortems := update_row pm_id i f (postmortems d)\<rparr>) n"
    using assms(3) update_row_set[of _ pm_id i f "postmortems d"]
    by (simp add: db_inv_def db_inv_parts update_row_keys update_row_image assms(1,2))
      (metis (full_types) order_trans)
qed

lemma keeps_set_export:
  assumes "\<And>x. ex_id (f x) = ex_id x" and "\<And>x. ex_incident_id (f x) = ex_incident_id x"
    and "\<And>x. ex_destination (f x) = ex_destination x"
  shows "store.keeps E (set_export i f)"
  unfolding set_export_def
proof (rule store.keeps_change)
  fix d n assume "db_inv E d n"
  then show "db_inv E (d\<lparr>exports := update_row ex_id i f (exports d)\<rparr>) n"
    by (simp add: db_inv_def db_inv_parts update_row_keys update_row_image assms export_key_def)
qed

lemma keeps_set_job:
  assumes "\<And>j. jb_id (f j) = jb_id j" and "\<And>j. jb_incident_id (f j) = jb_incident_id j"
    and "\<And>j. job_ok j \<Longrightarrow> job_ok (f j)"
  shows "store.keeps E (set_job i f)"
  unfolding set_job_def
proof (rule store.keeps_change)
  fix d n assume "db_inv E d n"
  then show "db_inv E (d\<lparr>jobs := update_row jb_id i f (jobs d)\<rparr>) n"
    using assms(3) update_row_set[of _ jb_id i f "jobs d"]
    by (simp add: db_inv_def db_inv_parts update_row_keys update_row_image assms(1,2))
      (metis (full_types))
qed

lemma keeps_set_devices:
  assumes "\<And>ds. distinct (map dv_token ds) \<Longrightarrow> distinct (map dv_token (f ds))"
  shows "store.keeps E (set_devices f)"
  unfolding set_devices_def
  by (rule store.keeps_change) (simp add: db_inv_def db_inv_parts assms)

lemma remove_row_image: "g ` set (remove_row key k rs) \<subseteq> g ` set rs"
  by (auto simp: remove_row_def)

lemma remove_row_keys: "key ` set (remove_row key k rs) = key ` set rs - {k}"
  by (auto simp: remove_row_def)

lemma cascade_inv: "db_inv E d n \<Longrightarrow> db_inv E (cascade i d) n"
proof -
  assume d: "db_inv E d n"
  have "primary_keys (cascade i d)" "unique_keys (cascade i d)"
    using d by (auto simp: db_inv_def primary_keys_def unique_keys_def cascade_def distinct_remove_row)
  moreover have "foreign_keys (cascade i d)"
    using d by (auto simp: db_inv_def foreign_keys_def child_parents_def cascade_def remove_row_keys)
  moreover have "rows_ok (cascade i d)"
    using d by (auto simp: db_inv_def rows_ok_def cascade_def remove_row_def)
  moreover have "drawn_ids E (cascade i d) n"
    using d by (auto simp: db_inv_def drawn_ids_def cascade_def remove_row_def)
  ultimately show ?thesis by (simp add: db_inv_def)
qed

lemmas keeps_inserts = keeps_insert_incident keeps_insert_alert keeps_insert_log
  keeps_insert_event keeps_insert_analysis keeps_insert_postmortem keeps_insert_export
  keeps_insert_job

subsection \<open>None of them commits\<close>

lemma uncommitted_insert_new: "uncommitted (insert_new E ok mk add)"
  unfolding insert_new_def by (intro uncommitted_rules)

lemma uncommitted_inserts:
  "uncommitted (insert_incident E a b c x)" "uncommitted (insert_alert E i s e t v y z)"
  "uncommitted (insert_log E i u l m)" "uncommitted (insert_event E i k m)"
  "uncommitted (insert_analysis E i mk)" "uncommitted (insert_postmortem E i m)"
  "uncommitted (insert_export E i o1 o2 o3 o4)" "uncommitted (insert_job E i)"
  unfolding insert_incident_def insert_alert_def insert_log_def insert_event_def insert_analysis_def
    insert_postmortem_def insert_export_def insert_job_def
  by (intro uncommitted_rules uncommitted_insert_new)+

lemma uncommitted_sets:
  "uncommitted (set_incident i f1)" "uncommitted (set_postmortem i f2)" "uncommitted (set_export i f3)"
  "uncommitted (set_job i f4)" "uncommitted (set_devices f5)"
  unfolding set_incident_def set_postmortem_def set_export_def set_job_def set_devices_def
  by (intro uncommitted_rules)+

lemmas uncommitted_store = uncommitted_rules uncommitted_inserts uncommitted_sets

end
