(* ===== verification/Schemas.thy ===== *)
theory Schemas
  imports Store
begin

text \<open>
  \<open>app/schemas/api.py\<close>: the request and response models. A validator takes the decoded JSON and
  gives the locations of the rejected fields, in the order of the declarations, or the value. The
  constraints are those the fields declare: redaction before validation, blanks stripped, lengths,
  enumerations, no unknown keys.
\<close>

subsection \<open>Validation\<close>

type_synonym 'a check = "str list list + 'a"

definition at_field :: "str \<Rightarrow> 'a check \<Rightarrow> 'a check" where
  "at_field name r = (case r of Inl locs \<Rightarrow> Inl (map (Cons name) locs) | Inr x \<Rightarrow> Inr x)"

text \<open>The errors of all fields are collected.\<close>

definition both :: "'a check \<Rightarrow> 'b check \<Rightarrow> ('a \<times> 'b) check" where
  "both r s = (case (r, s) of
      (Inr x, Inr y) \<Rightarrow> Inr (x, y)
    | (Inl e, Inl e') \<Rightarrow> Inl (e @ e')
    | (Inl e, _) \<Rightarrow> Inl e
    | (_, Inl e) \<Rightarrow> Inl e)"

definition map_check :: "('a \<Rightarrow> 'b) \<Rightarrow> 'a check \<Rightarrow> 'b check" where
  "map_check f r = (case r of Inl e \<Rightarrow> Inl e | Inr x \<Rightarrow> Inr (f x))"

definition required :: "dict \<Rightarrow> str \<Rightarrow> (pyval \<Rightarrow> 'a check) \<Rightarrow> 'a check" where
  "required d name v = at_field name (case map_of d name of None \<Rightarrow> Inl [[]] | Some x \<Rightarrow> v x)"

definition with_default :: "dict \<Rightarrow> str \<Rightarrow> 'a \<Rightarrow> (pyval \<Rightarrow> 'a check) \<Rightarrow> 'a check" where
  "with_default d name x0 v = at_field name (case map_of d name of None \<Rightarrow> Inr x0 | Some x \<Rightarrow> v x)"

text \<open>A field that may be left out (\<open>None\<close>) or be null (\<open>Some None\<close>).\<close>

definition nullable :: "dict \<Rightarrow> str \<Rightarrow> (pyval \<Rightarrow> 'a check) \<Rightarrow> 'a option option check" where
  "nullable d name v = at_field name (case map_of d name of
      None \<Rightarrow> Inr None
    | Some VNone \<Rightarrow> Inr (Some None)
    | Some x \<Rightarrow> map_check (\<lambda>y. Some (Some y)) (v x))"

text \<open>\<open>extra="forbid"\<close>.\<close>

definition no_extra :: "str list \<Rightarrow> dict \<Rightarrow> unit check" where
  "no_extra names d =
     (let extra = filter (\<lambda>k. k \<notin> set names) (map fst d)
      in if extra = [] then Inr () else Inl (map (\<lambda>k. [k]) extra))"

definition model_fields :: "(dict \<Rightarrow> 'a check) \<Rightarrow> str list \<Rightarrow> pyval \<Rightarrow> 'a check" where
  "model_fields f names v = (case v of
      VDict d \<Rightarrow> map_check fst (both (f d) (no_extra names d))
    | _ \<Rightarrow> Inl [[]])"

lemmas check_defs = at_field_def both_def map_check_def required_def with_default_def nullable_def
  no_extra_def model_fields_def

lemma check_Inr [simp]:
  "at_field name r = Inr x \<longleftrightarrow> r = Inr x"
  "both r1 s1 = Inr (y, z) \<longleftrightarrow> r1 = Inr y \<and> s1 = Inr z"
  "map_check f r2 = Inr u \<longleftrightarrow> (\<exists>x. r2 = Inr x \<and> u = f x)"
  by (auto simp: at_field_def both_def map_check_def split: sum.splits)

lemma both_Inr_ex: "both r s = Inr p \<longleftrightarrow> r = Inr (fst p) \<and> s = Inr (snd p)"
  by (cases p) simp

text \<open>\<open>str_strip_whitespace\<close> strips the characters of the Unicode property \<open>White_Space\<close>.\<close>

definition is_white :: "char \<Rightarrow> bool" where
  "is_white c = (let n = ord c in 9 \<le> n \<and> n \<le> 13 \<or> n = 32 \<or> n = 133 \<or> n = 160)"

definition trim :: "str \<Rightarrow> str" where
  "trim s = rstrip_by is_white (lstrip_by is_white s)"

definition constrained_str :: "nat \<Rightarrow> nat \<Rightarrow> pyval \<Rightarrow> str check" where
  "constrained_str lo hi v = (case v of
      VStr s \<Rightarrow> (let t = trim s in if lo \<le> length t \<and> length t \<le> hi then Inr t else Inl [[]])
    | _ \<Rightarrow> Inl [[]])"

text \<open>The validators in \<open>mode="before"\<close> that filter strings and pass anything else on.\<close>

definition redact_strings :: "pyval \<Rightarrow> pyval" where
  "redact_strings v = (case v of VStr s \<Rightarrow> VStr (redact s) | _ \<Rightarrow> v)"

definition redacted_str :: "nat \<Rightarrow> nat \<Rightarrow> pyval \<Rightarrow> str check" where
  "redacted_str lo hi v = constrained_str lo hi (redact_strings v)"

lemma constrained_str_length:
  "constrained_str lo hi v = Inr s \<Longrightarrow> lo \<le> length s \<and> length s \<le> hi"
  by (auto simp: constrained_str_def Let_def split: pyval.splits if_splits)

lemma redacted_str_length: "redacted_str lo hi v = Inr s \<Longrightarrow> lo \<le> length s \<and> length s \<le> hi"
  unfolding redacted_str_def by (rule constrained_str_length)

lemma redacted_str_origin:
  "redacted_str lo hi v = Inr s \<Longrightarrow> \<exists>t. v = VStr t \<and> s = trim (redact t)"
  by (auto simp: redacted_str_def redact_strings_def constrained_str_def Let_def
      split: pyval.splits if_splits)

definition one_of :: "str list \<Rightarrow> pyval \<Rightarrow> str check" where
  "one_of choices v = (case v of
      VStr s \<Rightarrow> (if s \<in> set choices then Inr s else Inl [[]]) | _ \<Rightarrow> Inl [[]])"

lemma one_of_Inr [simp]: "one_of choices v = Inr s \<longleftrightarrow> v = VStr s \<and> s \<in> set choices"
  by (auto simp: one_of_def split: pyval.splits)

subsection \<open>Enumerations\<close>

datatype Severity = Critical | High | Medium | Low

datatype Status = Open | Acknowledged | Investigating | Resolved

fun severity_value :: "Severity \<Rightarrow> str" where
  "severity_value Critical = ''critical''"
| "severity_value High = ''high''"
| "severity_value Medium = ''medium''"
| "severity_value Low = ''low''"

fun status_value :: "Status \<Rightarrow> str" where
  "status_value Open = ''open''"
| "status_value Acknowledged = ''acknowledged''"
| "status_value Investigating = ''investigating''"
| "status_value Resolved = ''resolved''"

definition severities :: "Severity list" where
  "severities = [Critical, High, Medium, Low]"

definition to_severity :: "str \<Rightarrow> Severity option" where
  "to_severity s = find (\<lambda>x. severity_value x = s) severities"

definition to_status :: "str \<Rightarrow> Status option" where
  "to_status s = find (\<lambda>x. status_value x = s) [Open, Acknowledged, Investigating, Resolved]"

definition severity_check :: "pyval \<Rightarrow> Severity check" where
  "severity_check v = (case v of
      VStr s \<Rightarrow> (case to_severity s of Some x \<Rightarrow> Inr x | None \<Rightarrow> Inl [[]]) | _ \<Rightarrow> Inl [[]])"

definition status_check :: "pyval \<Rightarrow> Status check" where
  "status_check v = (case v of
      VStr s \<Rightarrow> (case to_status s of Some x \<Rightarrow> Inr x | None \<Rightarrow> Inl [[]]) | _ \<Rightarrow> Inl [[]])"

lemma to_severity_value [simp]: "to_severity (severity_value x) = Some x"
  by (cases x) (simp_all add: to_severity_def severities_def)

lemma to_status_value [simp]: "to_status (status_value x) = Some x"
  by (cases x) (simp_all add: to_status_def)

lemma to_severity_Some: "to_severity s = Some x \<longleftrightarrow> s = severity_value x"
proof
  assume "to_severity s = Some x"
  then show "s = severity_value x"
    unfolding to_severity_def severities_def by (simp split: if_splits)
qed simp

lemma to_status_Some: "to_status s = Some x \<longleftrightarrow> s = status_value x"
proof
  assume "to_status s = Some x"
  then show "s = status_value x" unfolding to_status_def by (simp split: if_splits)
qed simp

lemma severity_value_in [simp]: "severity_value x \<in> set severity_texts"
  by (cases x) (simp_all add: severity_texts_def)

lemma status_value_in [simp]: "status_value x \<in> set status_texts"
  by (cases x) (simp_all add: status_texts_def)

lemma severity_text_ex: "s \<in> set severity_texts \<Longrightarrow> \<exists>x. s = severity_value x"
  by (auto simp: severity_texts_def intro: severity_value.simps[symmetric])

lemma status_text_ex: "s \<in> set status_texts \<Longrightarrow> \<exists>x. s = status_value x"
  by (auto simp: status_texts_def intro: status_value.simps[symmetric])


subsection \<open>Requests\<close>

record IncidentCreate =
  ic_title :: str
  ic_service :: str
  ic_severity :: Severity
  ic_description :: str

definition incident_create_fields :: "dict \<Rightarrow> IncidentCreate check" where
  "incident_create_fields d =
     map_check (\<lambda>(t, s, v, x). \<lparr>ic_title = t, ic_service = s, ic_severity = v, ic_description = x\<rparr>)
       (both (required d ''title'' (redacted_str 1 240))
       (both (required d ''service'' (redacted_str 1 120))
       (both (with_default d ''severity'' Medium severity_check)
             (with_default d ''description'' [] (redacted_str 0 20000)))))"

definition check_incident_create :: "pyval \<Rightarrow> IncidentCreate check" where
  "check_incident_create = model_fields incident_create_fields
     [''title'', ''service'', ''severity'', ''description'']"

text \<open>Of an update the fields that were set remain; leaving all out, or a null, is rejected.\<close>

record IncidentUpdate =
  iu_title :: "str option"
  iu_severity :: "Severity option"
  iu_status :: "Status option"
  iu_description :: "str option"

definition join_option :: "'a option option \<Rightarrow> 'a option" where
  "join_option v = (case v of Some (Some x) \<Rightarrow> Some x | _ \<Rightarrow> None)"

definition prohibit_explicit_nulls ::
  "str option option \<times> Severity option option \<times> Status option option \<times> str option option
     \<Rightarrow> IncidentUpdate check" where
  "prohibit_explicit_nulls = (\<lambda>(t, v, s, x).
     if t = None \<and> v = None \<and> s = None \<and> x = None
        \<or> t = Some None \<or> v = Some None \<or> s = Some None \<or> x = Some None
     then Inl [[]]
     else Inr \<lparr>iu_title = join_option t, iu_severity = join_option v, iu_status = join_option s,
            iu_description = join_option x\<rparr>)"

definition check_incident_update :: "pyval \<Rightarrow> IncidentUpdate check" where
  "check_incident_update v =
     bind_res (model_fields (\<lambda>d.
         both (nullable d ''title'' (redacted_str 1 240))
         (both (nullable d ''severity'' severity_check)
         (both (nullable d ''status'' status_check)
               (nullable d ''description'' (redacted_str 0 20000)))))
       [''title'', ''severity'', ''status'', ''description''] v) prohibit_explicit_nulls"

text \<open>A timestamp as pydantic reads it from a JSON value: with an offset (then the instant in UTC)
  or without one (then the wall clock). Reading it is pydantic's, a parameter; theory \<open>Timestamps\<close> has the
  conversion itself and the values for which it overflows, which are outside of this model.\<close>

datatype stamp = Aware time | Naive time

type_synonym read_stamp = "pyval \<Rightarrow> stamp option"

definition timestamp_utc :: "stamp \<Rightarrow> time" where
  "timestamp_utc s = (case s of Aware t \<Rightarrow> t | Naive t \<Rightarrow> t)"

definition stamp_check :: "read_stamp \<Rightarrow> pyval \<Rightarrow> time option check" where
  "stamp_check rs v = (case v of
      VNone \<Rightarrow> Inr None
    | _ \<Rightarrow> (case rs v of Some s \<Rightarrow> Inr (Some (timestamp_utc s)) | None \<Rightarrow> Inl [[]]))"

record LogInput =
  li_timestamp :: "time option"
  li_level :: str
  li_message :: str

definition log_levels :: "str list" where
  "log_levels = [''DEBUG'', ''INFO'', ''WARNING'', ''ERROR'', ''CRITICAL'']"

definition normalize_level :: "pyval \<Rightarrow> pyval" where
  "normalize_level v = (case v of
      VStr s \<Rightarrow> VStr (let u = upper s in
        if u = ''WARN'' then ''WARNING'' else if u = ''FATAL'' then ''CRITICAL'' else u)
    | _ \<Rightarrow> v)"

definition log_input_fields :: "read_stamp \<Rightarrow> dict \<Rightarrow> LogInput check" where
  "log_input_fields rs d =
     map_check (\<lambda>(t, l, m). \<lparr>li_timestamp = t, li_level = l, li_message = m\<rparr>)
       (both (with_default d ''timestamp'' None (stamp_check rs))
       (both (with_default d ''level'' ''INFO'' (\<lambda>v. one_of log_levels (normalize_level v)))
             (required d ''message'' (redacted_str 1 32768))))"

definition check_log_input :: "read_stamp \<Rightarrow> pyval \<Rightarrow> LogInput check" where
  "check_log_input rs = model_fields (log_input_fields rs) [''timestamp'', ''level'', ''message'']"

text \<open>A list of models: the errors of the items carry their index.\<close>

fun check_items :: "(pyval \<Rightarrow> 'a check) \<Rightarrow> nat \<Rightarrow> pyval list \<Rightarrow> 'a list check" where
  "check_items f i [] = Inr []"
| "check_items f i (v # vs) =
     map_check (\<lambda>(x, xs). x # xs) (both (at_field (nat_text i) (f v)) (check_items f (Suc i) vs))"

definition bounded_list :: "nat \<Rightarrow> nat \<Rightarrow> (pyval \<Rightarrow> 'a check) \<Rightarrow> pyval \<Rightarrow> 'a list check" where
  "bounded_list lo hi f v = (case v of
      VList vs \<Rightarrow> (if hi < length vs then Inl [[]]
        else bind_res (check_items f 0 vs) (\<lambda>xs. if length xs < lo then Inl [[]] else Inr xs))
    | _ \<Rightarrow> Inl [[]])"

definition check_logs_create :: "read_stamp \<Rightarrow> pyval \<Rightarrow> LogInput list check" where
  "check_logs_create rs =
     model_fields (\<lambda>d. required d ''entries'' (bounded_list 1 1000 (check_log_input rs))) [''entries'']"

definition check_timeline_create :: "pyval \<Rightarrow> str check" where
  "check_timeline_create =
     model_fields (\<lambda>d. required d ''message'' (redacted_str 1 10000)) [''message'']"

definition check_postmortem_update :: "pyval \<Rightarrow> str check" where
  "check_postmortem_update =
     model_fields (\<lambda>d. required d ''markdown'' (redacted_str 1 250000)) [''markdown'']"

record DeviceCreate =
  dc_token :: str
  dc_platform :: str
  dc_environment :: str

definition token_check :: "pyval \<Rightarrow> str check" where
  "token_check v = bind_res (constrained_str 64 200 v)
     (\<lambda>s. if s \<noteq> [] \<and> list_all is_hex s then Inr (lower s) else Inl [[]])"

definition check_device_create :: "pyval \<Rightarrow> DeviceCreate check" where
  "check_device_create =
     model_fields (\<lambda>d. map_check
         (\<lambda>(t, p, e). \<lparr>dc_token = t, dc_platform = p, dc_environment = e\<rparr>)
         (both (required d ''token'' token_check)
         (both (with_default d ''platform'' ''ios'' (one_of [''ios'']))
               (with_default d ''environment'' ''sandbox'' (one_of [''sandbox'', ''production''])))))
       [''token'', ''platform'', ''environment'']"

lemma check_items_length: "check_items f i vs = Inr xs \<Longrightarrow> length xs = length vs"
  by (induction f i vs arbitrary: xs rule: check_items.induct) auto

lemma bounded_list_length:
  "bounded_list lo hi f v = Inr xs \<Longrightarrow> lo \<le> length xs \<and> length xs \<le> hi"
  by (auto simp: bounded_list_def split: pyval.splits if_splits dest!: check_items_length)

lemma model_fields_Inr [simp]:
  "model_fields f names v = Inr x \<longleftrightarrow>
     (\<exists>d. v = VDict d \<and> f d = Inr x \<and> (\<forall>k \<in> set (map fst d). k \<in> set names))"
proof -
  have "no_extra names d = Inr () \<longleftrightarrow> (\<forall>k \<in> set (map fst d). k \<in> set names)" for d
    by (auto simp: no_extra_def Let_def filter_empty_conv)
  then show ?thesis
    by (auto simp: model_fields_def both_Inr_ex split: pyval.splits)
qed

lemma required_Inr [simp]:
  "required d name v = Inr x \<longleftrightarrow> (\<exists>y. map_of d name = Some y \<and> v y = Inr x)"
  by (auto simp: required_def split: option.splits)

lemma with_default_Inr [simp]:
  "with_default d name x0 v = Inr x \<longleftrightarrow>
     (map_of d name = None \<and> x = x0 \<or> (\<exists>y. map_of d name = Some y \<and> v y = Inr x))"
  by (auto simp: with_default_def split: option.splits)

lemma log_input_valid:
  assumes "check_log_input rs v = Inr e"
  shows "li_level e \<in> set log_levels" and "1 \<le> length (li_message e)"
    and "length (li_message e) \<le> 32768"
  using assms constrained_str_length[of 1 32768]
  by (auto simp: check_log_input_def log_input_fields_def redacted_str_def log_levels_def)

subsection \<open>Responses\<close>

text \<open>A response model is validated again when it is read from a row; the failure is pydantic's
  \<open>ValidationError\<close>, a \<open>ValueError\<close>.\<close>

definition validation_error :: exc where
  "validation_error = ValueError ''validation''"

definition read_field :: "'a check \<Rightarrow> (exc, 'a) res" where
  "read_field r = (case r of Inl _ \<Rightarrow> Inl validation_error | Inr x \<Rightarrow> Inr x)"

lemma read_field_Inr [simp]: "read_field r = Inr x \<longleftrightarrow> r = Inr x"
  by (auto simp: read_field_def split: sum.splits)

record IncidentRead =
  ir_title :: str
  ir_service :: str
  ir_severity :: Severity
  ir_description :: str
  ir_id :: str
  ir_status :: Status
  ir_created_at :: time
  ir_updated_at :: time
  ir_acknowledged_at :: "time option"
  ir_resolved_at :: "time option"

definition read_incident_row :: "Incident \<Rightarrow> (exc, IncidentRead) res" where
  "read_incident_row r =
     read_field (map_check
       (\<lambda>(t, s, v, x, u). \<lparr>ir_title = t, ir_service = s, ir_severity = v, ir_description = x,
          ir_id = trim (inc_id r), ir_status = u, ir_created_at = inc_created_at r,
          ir_updated_at = inc_updated_at r, ir_acknowledged_at = inc_acknowledged_at r,
          ir_resolved_at = inc_resolved_at r\<rparr>)
       (both (redacted_str 1 240 (VStr (inc_title r)))
       (both (redacted_str 1 120 (VStr (inc_service r)))
       (both (severity_check (VStr (inc_severity r)))
       (both (redacted_str 0 20000 (VStr (inc_description r)))
             (status_check (VStr (inc_status r))))))))"

definition json_time_option :: "time option \<Rightarrow> pyval" where
  "json_time_option t = (case t of None \<Rightarrow> VNone | Some u \<Rightarrow> VStr (json_time u))"

text \<open>\<open>model_dump(mode="json")\<close>.\<close>

definition incident_json :: "IncidentRead \<Rightarrow> pyval" where
  "incident_json r = VDict
     [(''title'', VStr (ir_title r)), (''service'', VStr (ir_service r)),
      (''severity'', VStr (severity_value (ir_severity r))),
      (''description'', VStr (ir_description r)), (''id'', VStr (ir_id r)),
      (''status'', VStr (status_value (ir_status r))),
      (''created_at'', VStr (json_time (ir_created_at r))),
      (''updated_at'', VStr (json_time (ir_updated_at r))),
      (''acknowledged_at'', json_time_option (ir_acknowledged_at r)),
      (''resolved_at'', json_time_option (ir_resolved_at r))]"

definition incident_dict :: "Incident \<Rightarrow> (exc, pyval) res" where
  "incident_dict r = bind_res (read_incident_row r) (\<lambda>x. Inr (incident_json x))"


text \<open>The number a decimal literal denotes: digits with an optional fraction and exponent, as
  \<open>repr\<close> writes a finite float; \<open>None\<close> for \<open>nan\<close> and the infinities.\<close>

definition unsigned_value :: "str \<Rightarrow> rat option" where
  "unsigned_value s =
     (let (m, e) = (case partition1 (CHR ''e'') s of None \<Rightarrow> (s, ''0'') | Some (m, e) \<Rightarrow> (m, e));
          (i, f) = (case partition1 (CHR ''.'') m of None \<Rightarrow> (m, []) | Some (i, f) \<Rightarrow> (i, f))
      in case (list_all is_digit (i @ f) \<and> i @ f \<noteq> [], parse_int e) of
          (True, Some k) \<Rightarrow>
            Some (of_nat (digits_value (i @ f)) * (if 0 \<le> k then 10 ^ nat k else 1 / 10 ^ nat (- k))
                  / 10 ^ length f)
        | _ \<Rightarrow> None)"

definition decimal_value :: "str \<Rightarrow> rat option" where
  "decimal_value s =
     (if s \<noteq> [] \<and> hd s = CHR ''-'' then map_option uminus (unsigned_value (tl s))
      else unsigned_value s)"

definition confidence_ok :: "pyfloat \<Rightarrow> bool" where
  "confidence_ok f = (case decimal_value f of None \<Rightarrow> False | Some q \<Rightarrow> 0 \<le> q \<and> q \<le> 1)"

definition read_alert_row :: "Alert \<Rightarrow> (exc, Alert) res" where
  "read_alert_row a =
     bind_res (read_field (severity_check (VStr (al_severity a))))
       (\<lambda>v. Inr \<lparr>al_id = trim (al_id a), al_incident_id = trim (al_incident_id a),
          al_source = trim (al_source a), al_external_id = trim (al_external_id a),
          al_title = trim (al_title a), al_service = trim (al_service a),
          al_severity = severity_value v, al_description = trim (al_description a),
          al_received_at = al_received_at a\<rparr>)"

definition read_log_row :: "LogEntry \<Rightarrow> LogEntry" where
  "read_log_row r =
     \<lparr>lg_id = trim (lg_id r), lg_incident_id = trim (lg_incident_id r),
      lg_timestamp = lg_timestamp r, lg_level = trim (lg_level r), lg_message = trim (lg_message r)\<rparr>"

definition read_event_row :: "TimelineEvent \<Rightarrow> (exc, TimelineEvent) res" where
  "read_event_row r =
     bind_res (read_field (redacted_str 1 10000 (VStr (ev_message r))))
       (\<lambda>m. Inr \<lparr>ev_id = trim (ev_id r), ev_incident_id = trim (ev_incident_id r),
          ev_kind = trim (ev_kind r), ev_message = m, ev_created_at = ev_created_at r\<rparr>)"

definition read_analysis_row :: "Analysis \<Rightarrow> (exc, Analysis) res" where
  "read_analysis_row a =
     (if confidence_ok (an_confidence a)
      then Inr \<lparr>an_id = trim (an_id a), an_incident_id = trim (an_incident_id a),
        an_summary = trim (an_summary a), an_probable_cause = trim (an_probable_cause a),
        an_confidence = an_confidence a, an_evidence = map trim (an_evidence a),
        an_remediation_steps = map trim (an_remediation_steps a),
        an_caveats = map trim (an_caveats a), an_provider = trim (an_provider a),
        an_is_fallback = an_is_fallback a, an_created_at = an_created_at a\<rparr>
      else Inl validation_error)"

definition str_list_json :: "str list \<Rightarrow> pyval" where
  "str_list_json xs = VList (map VStr xs)"

definition analysis_json :: "Analysis \<Rightarrow> pyval" where
  "analysis_json a = VDict
     [(''id'', VStr (an_id a)), (''incident_id'', VStr (an_incident_id a)),
      (''summary'', VStr (an_summary a)), (''probable_cause'', VStr (an_probable_cause a)),
      (''confidence'', VFloat (an_confidence a)), (''evidence'', str_list_json (an_evidence a)),
      (''remediation_steps'', str_list_json (an_remediation_steps a)),
      (''caveats'', str_list_json (an_caveats a)), (''provider'', VStr (an_provider a)),
      (''is_fallback'', VBool (an_is_fallback a)),
      (''created_at'', VStr (json_time (an_created_at a)))]"

definition read_postmortem_row :: "Postmortem \<Rightarrow> (exc, Postmortem) res" where
  "read_postmortem_row p =
     bind_res (read_field (redacted_str 1 250000 (VStr (pm_markdown p))))
       (\<lambda>m. Inr \<lparr>pm_id = trim (pm_id p), pm_incident_id = trim (pm_incident_id p),
          pm_markdown = m, pm_version = pm_version p, pm_created_at = pm_created_at p,
          pm_updated_at = pm_updated_at p,
          pm_jira_issue_key = map_option trim (pm_jira_issue_key p),
          pm_jira_issue_url = map_option trim (pm_jira_issue_url p),
          pm_confluence_url = map_option trim (pm_confluence_url p)\<rparr>)"

record ExportRead =
  er_destination :: str
  er_external_id :: str
  er_url :: str
  er_is_demo :: bool

definition read_export_row :: "ExportRecord \<Rightarrow> ExportRead" where
  "read_export_row x =
     \<lparr>er_destination = trim (ex_destination x), er_external_id = trim (ex_external_id x),
      er_url = trim (ex_url x), er_is_demo = ex_is_demo x\<rparr>"

record JobRead =
  jr_id :: str
  jr_status :: str
  jr_result :: "pyval option"
  jr_error :: "str option"

definition read_job_row :: "Job \<Rightarrow> JobRead" where
  "read_job_row j =
     \<lparr>jr_id = trim (jb_id j), jr_status = trim (jb_status j), jr_result = jb_result j,
      jr_error = map_option trim (jb_error j)\<rparr>"

record IncidentPage =
  ip_items :: "IncidentRead list"
  ip_total :: nat
  ip_limit :: nat
  ip_offset :: nat

record IngestionItem =
  ii_incident :: IncidentRead
  ii_duplicate :: bool

record IngestionResponse =
  in_incident :: IncidentRead
  in_duplicate :: bool
  in_results :: "IngestionItem list"

record Dashboard =
  da_total :: nat
  da_active :: nat
  da_resolved :: nat
  da_mttr_minutes :: "rat option"
  da_acknowledgement_minutes :: "rat option"
  da_sla_compliance_percent :: "rat option"
  da_sla_target_minutes :: rat
  da_by_severity :: "(Severity \<times> nat) list"
  da_daily_counts :: "(str \<times> nat) list"
  da_services :: "(str \<times> nat) list"

record 'score SearchItem =
  si_incident :: IncidentRead
  si_score :: 'score

datatype search_mode = Semantic | Lexical

record 'score SearchResults =
  sr_items :: "'score SearchItem list"
  sr_mode :: search_mode

lemma read_incident_valid:
  assumes "read_incident_row r = Inr x"
  shows "1 \<le> length (ir_title x)" "length (ir_title x) \<le> 240" "1 \<le> length (ir_service x)"
    "length (ir_service x) \<le> 120" "length (ir_description x) \<le> 20000"
    "inc_severity r = severity_value (ir_severity x)" "inc_status r = status_value (ir_status x)"
    "ir_id x = trim (inc_id r)" "ir_created_at x = inc_created_at r"
    "ir_updated_at x = inc_updated_at r" "ir_acknowledged_at x = inc_acknowledged_at r"
    "ir_resolved_at x = inc_resolved_at r"
  using assms constrained_str_length[of 1 240] constrained_str_length[of 1 120]
    constrained_str_length[of 0 20000]
  by (auto simp: read_incident_row_def redacted_str_def severity_check_def status_check_def
      to_severity_Some to_status_Some split: option.splits)

end
