(* ===== verification/Sources.thy ===== *)
theory Sources
  imports Schemas Json Sha256
begin

text \<open>
  \<open>app/integrations/sources\<close>: the adapters that turn the payload of a monitoring system into
  normalized alerts. Every rejection is a \<open>ValueError\<close>. The protocol \<open>AlertSource\<close> is a locale with
  what ingestion relies on, interpreted by each adapter.
\<close>

subsection \<open>Normalized alerts\<close>

record NormalizedAlert =
  na_external_id :: str
  na_title :: str
  na_service :: str
  na_severity :: Severity
  na_description :: str
  na_logs :: "dict list"

fun dict_items_of :: "pyval list \<Rightarrow> dict list option" where
  "dict_items_of [] = Some []"
| "dict_items_of (VDict d # vs) = map_option (Cons d) (dict_items_of vs)"
| "dict_items_of (v # vs) = None"

text \<open>\<open>str_strip_whitespace\<close> reaches the keys of the entries as well; of keys that become equal the last value stays.\<close>

definition strip_keys :: "dict \<Rightarrow> dict" where
  "strip_keys d = dict_of (map (\<lambda>(k, v). (trim k, v)) d)"

text \<open>The checks of \<open>validate_logs\<close> on one entry.\<close>

definition log_entry_ok :: "dict \<Rightarrow> bool" where
  "log_entry_ok d =
     ((case get d ''message'' of VStr m \<Rightarrow> length m \<le> 20000 | _ \<Rightarrow> False) \<and>
      (has_key d ''level'' \<longrightarrow> is_str (get d ''level'')))"

definition redact_entry :: "dict \<Rightarrow> dict" where
  "redact_entry d = (case redact_at 1 (VDict d) of VDict e \<Rightarrow> e | _ \<Rightarrow> [])"

definition logs_check :: "pyval \<Rightarrow> dict list check" where
  "logs_check v = (case v of
      VList vs \<Rightarrow> (case dict_items_of vs of
          Some ds \<Rightarrow> (let es = map strip_keys ds
            in if length es \<le> 1000 \<and> list_all log_entry_ok es then Inr (map redact_entry es) else Inl [[]])
        | None \<Rightarrow> Inl [[]])
    | _ \<Rightarrow> Inl [[]])"

definition normalized_alert ::
  "str \<Rightarrow> pyval \<Rightarrow> pyval \<Rightarrow> Severity \<Rightarrow> pyval \<Rightarrow> pyval \<Rightarrow> (exc, NormalizedAlert) res" where
  "normalized_alert external_id title service severity description logs =
     read_field (map_check
       (\<lambda>(i, t, s, x, ls). \<lparr>na_external_id = i, na_title = t, na_service = s, na_severity = severity,
          na_description = x, na_logs = ls\<rparr>)
       (both (constrained_str 1 255 (VStr external_id))
       (both (redacted_str 1 240 title)
       (both (redacted_str 1 120 service)
       (both (redacted_str 0 20000 description) (logs_check logs))))))"

text \<open>A text that went through the privacy filter.\<close>

definition filtered :: "str \<Rightarrow> bool" where
  "filtered s = (s \<in> range (\<lambda>t. trim (redact t)))"

definition alert_ok :: "NormalizedAlert \<Rightarrow> bool" where
  "alert_ok a =
     (1 \<le> length (na_external_id a) \<and> length (na_external_id a) \<le> 255 \<and>
      1 \<le> length (na_title a) \<and> length (na_title a) \<le> 240 \<and>
      1 \<le> length (na_service a) \<and> length (na_service a) \<le> 120 \<and>
      length (na_description a) \<le> 20000 \<and>
      filtered (na_title a) \<and> filtered (na_service a) \<and> filtered (na_description a) \<and> length (na_logs a) \<le> 1000 \<and>
      set (na_logs a) \<subseteq> redact_entry ` {e. log_entry_ok e})"

lemma logs_check_Inr:
  "logs_check v = Inr ls \<Longrightarrow> length ls \<le> 1000 \<and> set ls \<subseteq> redact_entry ` {e. log_entry_ok e}"
  by (auto simp: logs_check_def list_all_iff Let_def split: pyval.splits option.splits if_splits)

lemma normalized_alert_ok:
  assumes "normalized_alert i t s v x ls = Inr a"
  shows "alert_ok a" and "na_severity a = v"
proof -
  obtain i' t' s' x' ls' where parts: "constrained_str 1 255 (VStr i) = Inr i'"
      "redacted_str 1 240 t = Inr t'" "redacted_str 1 120 s = Inr s'" "redacted_str 0 20000 x = Inr x'"
      "logs_check ls = Inr ls'"
    and a: "a = \<lparr>na_external_id = i', na_title = t', na_service = s', na_severity = v,
          na_description = x', na_logs = ls'\<rparr>"
    using assms by (auto simp: normalized_alert_def)
  show "alert_ok a"
    using constrained_str_length[OF parts(1)] redacted_str_length[OF parts(2)]
      redacted_str_length[OF parts(3)] redacted_str_length[OF parts(4)] logs_check_Inr[OF parts(5)]
      redacted_str_origin[OF parts(2)] redacted_str_origin[OF parts(3)] redacted_str_origin[OF parts(4)]
    by (auto simp: a alert_ok_def filtered_def)
  show "na_severity a = v" by (simp add: a)
qed

lemma normalized_alert_error: "normalized_alert i t s v x ls = Inl e \<Longrightarrow> e = validation_error"
  by (auto simp: normalized_alert_def read_field_def split: sum.splits)

subsection \<open>Helpers\<close>

definition to_mapping :: "str \<Rightarrow> pyval \<Rightarrow> (exc, dict) res" where
  "to_mapping name v = (case v of VDict d \<Rightarrow> Inr d | _ \<Rightarrow> Inl (ValueError (name @ '' must be an object'')))"

definition text_of :: "pyval \<Rightarrow> str \<Rightarrow> (exc, str) res" where
  "text_of v dflt = (case v of
      VNone \<Rightarrow> Inr dflt
    | VStr s \<Rightarrow> Inr (if s = [] then dflt else s)
    | VInt i \<Rightarrow> Inr (int_text i)
    | VFloat f \<Rightarrow> Inr f
    | _ \<Rightarrow> Inl (ValueError ''Expected a text or numeric identifier''))"

definition present :: "pyval \<Rightarrow> bool" where
  "present v = (v \<noteq> VNone \<and> v \<noteq> VStr [])"

definition make_id :: "str \<Rightarrow> dict \<Rightarrow> pyval list \<Rightarrow> str" where
  "make_id source payload parts =
     (let chosen = join '':'' (map py_str (filter present parts));
          v = (if chosen \<noteq> [] then chosen else dumps dump_canonical (VDict payload))
      in if chosen \<noteq> [] \<and> length chosen \<le> 255 then chosen
         else source @ ''-'' @ sha256_hex v)"

definition severity_aliases :: "(str \<times> Severity) list" where
  "severity_aliases =
     [(''critical'', Critical), (''fatal'', Critical), (''disaster'', Critical), (''p1'', Critical),
      (''5'', Critical), (''high'', High), (''error'', High), (''p2'', High), (''4'', High),
      (''medium'', Medium), (''warning'', Medium), (''warn'', Medium), (''average'', Medium),
      (''p3'', Medium), (''3'', Medium), (''2'', Medium), (''low'', Low), (''info'', Low),
      (''information'', Low), (''debug'', Low), (''not classified'', Low), (''p4'', Low),
      (''p5'', Low), (''1'', Low), (''0'', Low)]"

definition severity_of :: "pyval \<Rightarrow> bool \<Rightarrow> (exc, Severity) res" where
  "severity_of v strict =
     (let normalized = lower (strip (py_str v))
      in case map_of severity_aliases normalized of
           Some s \<Rightarrow> Inr s
         | None \<Rightarrow> if strict then Inl (ValueError ''Unsupported severity'') else Inr Medium)"

lemma make_id_length: "length source \<le> 190 \<Longrightarrow> 1 \<le> length (make_id source p parts) \<and> length (make_id source p parts) \<le> 255"
  by (auto simp: make_id_def Let_def Suc_le_eq)


subsection \<open>The adapters\<close>

definition generic_normalize :: "pyval \<Rightarrow> (exc, NormalizedAlert list) res" where
  "generic_normalize payload0 =
     bind_res (to_mapping ''Payload'' payload0) (\<lambda>payload.
       let title = get payload ''title''; service = get payload ''service''
       in if \<not> is_str title \<or> \<not> is_str service
          then Inl (ValueError ''Generic alerts require string title and service'')
          else if has_key payload ''external_id'' \<and> \<not> is_str (get payload ''external_id'')
          then Inl (ValueError ''Generic external_id must be a string'')
          else bind_res (severity_of (get_or payload ''severity'' (VStr ''medium'')) True) (\<lambda>sev.
            bind_res (normalized_alert (make_id ''generic'' payload [get payload ''external_id''])
                title service sev (get_or payload ''description'' (VStr []))
                (get_or payload ''logs'' (VList []))) (\<lambda>a. Inr [a])))"

text \<open>One alert of a Grafana batch: a resolved one gives nothing.\<close>

definition grafana_alert :: "dict \<Rightarrow> pyval \<Rightarrow> (exc, NormalizedAlert option) res" where
  "grafana_alert payload item =
     bind_res (to_mapping ''Grafana alert'' item) (\<lambda>alert.
       if get_or alert ''status'' (get_or payload ''status'' (VStr ''firing'')) = VStr ''resolved''
       then Inr None
       else bind_res (to_mapping ''labels'' (get_or alert ''labels'' (VDict []))) (\<lambda>labels.
         bind_res (to_mapping ''annotations'' (get_or alert ''annotations'' (VDict []))) (\<lambda>annotations.
         bind_res (text_of (or_else (get annotations ''summary'') (get labels ''alertname''))
             ''Grafana alert'') (\<lambda>title.
         bind_res (text_of (or_else (get labels ''service'') (get labels ''job'')) ''unknown'') (\<lambda>service.
         bind_res (severity_of (get_or labels ''severity'' (VStr ''medium'')) False) (\<lambda>sev.
         bind_res (text_of (or_else (get annotations ''description'') (get annotations ''summary'')) [])
           (\<lambda>description.
         bind_res (normalized_alert
             (make_id ''grafana'' alert [get alert ''fingerprint'', get alert ''startsAt''])
             (VStr title) (VStr service) sev (VStr description) (get_or alert ''logs'' (VList [])))
           (\<lambda>a. Inr (Some a)))))))))"

definition somes :: "'a option list \<Rightarrow> 'a list" where
  "somes xs = map the (filter (\<lambda>x. x \<noteq> None) xs)"

definition grafana_normalize :: "pyval \<Rightarrow> (exc, NormalizedAlert list) res" where
  "grafana_normalize payload0 =
     bind_res (to_mapping ''Payload'' payload0) (\<lambda>payload.
       case get payload ''alerts'' of
         VList batch \<Rightarrow>
           (if batch = [] \<or> length batch > 100
            then Inl (ValueError ''Grafana payload requires 1 to 100 alerts'')
            else bind_res (map_res (grafana_alert payload) batch) (\<lambda>output.
              if somes output = [] then Inl (ValueError
                ''No firing alerts. Resolve incidents through the incident status API.'')
              else Inr (somes output)))
       | _ \<Rightarrow> Inl (ValueError ''Grafana payload requires 1 to 100 alerts''))"

definition sentry_normalize :: "pyval \<Rightarrow> (exc, NormalizedAlert list) res" where
  "sentry_normalize payload0 =
     bind_res (to_mapping ''Payload'' payload0) (\<lambda>payload.
       if get payload ''action'' \<in> {VStr ''resolved'', VStr ''closed'', VStr ''ignored''}
       then Inl (ValueError ''Only active Sentry events are ingested; use the incident status API for resolution'')
       else bind_res (to_mapping ''Sentry data'' (get_or payload ''data'' (VDict payload))) (\<lambda>data.
       bind_res (to_mapping ''Sentry event'' (get_or data ''event'' (get_or data ''issue'' (VDict data)))) (\<lambda>event.
       if \<not> list_ex (\<lambda>key. truthy (get event key))
            [''event_id'', ''eventID'', ''id'', ''title'', ''message'']
       then Inl (ValueError ''Sentry payload has no event or issue'')
       else let project0 = get_or event ''project'' (get_or payload ''project'' (VStr ''unknown''));
                project = (case project0 of
                    VDict p \<Rightarrow> or_else (or_else (get p ''slug'') (get p ''name'')) (get p ''id'')
                  | p \<Rightarrow> p)
            in bind_res (to_mapping ''Sentry metadata'' (get_or event ''metadata'' (VDict []))) (\<lambda>metadata.
               let message0 = or_else (or_else (get event ''message'') (get metadata ''value''))
                     (get_or event ''culprit'' (VStr []));
                   message = (case message0 of
                       VDict m \<Rightarrow> or_else (get m ''formatted'') (get_or m ''message'' (VStr []))
                     | m \<Rightarrow> m)
               in bind_res (text_of (or_else (get event ''title'') message) ''Sentry exception'') (\<lambda>title.
                  bind_res (text_of project ''unknown'') (\<lambda>service.
                  bind_res (severity_of (get_or event ''level'' (VStr ''error'')) False) (\<lambda>sev.
                  bind_res (text_of message []) (\<lambda>description.
                  bind_res (normalized_alert
                      (make_id ''sentry'' event
                        [or_else (or_else (get event ''event_id'') (get event ''eventID'')) (get event ''id'')])
                      (VStr title) (VStr service) sev (VStr description)
                      (get_or event ''logs'' (VList []))) (\<lambda>a. Inr [a])))))))))"

text \<open>An SNS envelope carries the notification as a JSON text; a value that is no text is the
  \<open>TypeError\<close> of \<open>json.loads\<close>, caught as well.\<close>

definition sns_message :: "(str \<Rightarrow> str) \<Rightarrow> pyval \<Rightarrow> (exc, dict) res" where
  "sns_message fl v = (case v of
      VStr s \<Rightarrow> (case json_loads fl s of
          Some m \<Rightarrow> to_mapping ''SNS Message'' m
        | None \<Rightarrow> Inl (ValueError ''SNS Message must contain a JSON object''))
    | _ \<Rightarrow> Inl (ValueError ''SNS Message must contain a JSON object''))"

definition cloudwatch_event :: "dict \<Rightarrow> (exc, NormalizedAlert list) res" where
  "cloudwatch_event payload =
     bind_res (to_mapping ''CloudWatch detail'' (get payload ''detail'')) (\<lambda>detail.
     bind_res (to_mapping ''CloudWatch state'' (get_or detail ''state'' (VDict []))) (\<lambda>state.
       if get_or state ''value'' (VStr ''ALARM'') \<noteq> VStr ''ALARM''
       then Inl (ValueError ''Only CloudWatch ALARM transitions are ingested'')
       else if \<not> truthy (get detail ''alarmName'')
       then Inl (ValueError ''CloudWatch event requires alarmName'')
       else bind_res (text_of (get detail ''alarmName'') []) (\<lambda>title.
         bind_res (text_of (or_else (get detail ''service'') (get payload ''source'')) ''cloudwatch'') (\<lambda>service.
         bind_res (text_of (get state ''reason'') []) (\<lambda>description.
         bind_res (normalized_alert
             (make_id ''cloudwatch'' payload
               [or_else (get payload ''id'') (get detail ''alarmName''), get state ''timestamp'',
                get state ''value''])
             (VStr title) (VStr service)
             (if get state ''value'' = VStr ''ALARM'' then High else Low)
             (VStr description) (VList [])) (\<lambda>a. Inr [a]))))))"

definition dimension_service :: "pyval list \<Rightarrow> pyval" where
  "dimension_service dims =
     (case find (\<lambda>item. case item of
          VDict d \<Rightarrow> get_or d ''name'' (get d ''Name'') \<in> {VStr ''ServiceName'', VStr ''service''}
        | _ \<Rightarrow> False) dims of
        Some (VDict d) \<Rightarrow> get_or d ''value'' (get d ''Value'')
      | _ \<Rightarrow> VNone)"

definition cloudwatch_alarm :: "dict \<Rightarrow> (exc, NormalizedAlert list) res" where
  "cloudwatch_alarm payload =
     (if \<not> truthy (get payload ''AlarmName'')
      then Inl (ValueError ''CloudWatch notification requires AlarmName'')
      else if get_or payload ''NewStateValue'' (VStr ''ALARM'') \<noteq> VStr ''ALARM''
      then Inl (ValueError ''Only CloudWatch ALARM transitions are ingested'')
      else bind_res (to_mapping ''CloudWatch Trigger'' (get_or payload ''Trigger'' (VDict []))) (\<lambda>trigger.
        case get_or trigger ''Dimensions'' (VList []) of
          VList dims \<Rightarrow>
            bind_res (text_of (get payload ''AlarmName'') []) (\<lambda>title.
            bind_res (text_of (or_else (dimension_service dims) (get trigger ''Namespace'')) ''cloudwatch'')
              (\<lambda>service.
            bind_res (text_of (or_else (get payload ''NewStateReason'') (get payload ''AlarmDescription'')) [])
              (\<lambda>description.
            bind_res (normalized_alert
                (make_id ''cloudwatch'' payload
                  [or_else (get payload ''AlarmArn'') (get payload ''AlarmName''),
                   get payload ''StateChangeTime'', get payload ''NewStateValue''])
                (VStr title) (VStr service)
                (if get_or payload ''NewStateValue'' (VStr ''ALARM'') = VStr ''ALARM'' then High else Low)
                (VStr description) (VList [])) (\<lambda>a. Inr [a]))))
        | _ \<Rightarrow> Inl (ValueError ''CloudWatch Dimensions must be an array'')))"

definition cloudwatch_normalize :: "(str \<Rightarrow> str) \<Rightarrow> pyval \<Rightarrow> (exc, NormalizedAlert list) res" where
  "cloudwatch_normalize fl payload0 =
     bind_res (to_mapping ''Payload'' payload0) (\<lambda>payload1.
       if get payload1 ''Type'' = VStr ''SubscriptionConfirmation''
       then Inl (ValueError ''Confirm SNS subscriptions out of band before sending notifications'')
       else bind_res (if has_key payload1 ''Message'' then sns_message fl (get payload1 ''Message'')
           else Inr payload1) (\<lambda>payload.
         if has_key payload ''detail'' then cloudwatch_event payload else cloudwatch_alarm payload))"

definition zabbix_normalize :: "pyval \<Rightarrow> (exc, NormalizedAlert list) res" where
  "zabbix_normalize payload0 =
     bind_res (to_mapping ''Payload'' payload0) (\<lambda>payload.
       if py_str (get_or payload ''event_value'' (VStr ''1'')) = ''0''
       then Inl (ValueError ''Only Zabbix problem events are ingested; use the incident status API for recovery'')
       else let title = or_else (or_else (get payload ''event_name'') (get payload ''subject''))
                  (get payload ''name'');
                event_id = or_else (get payload ''event_id'') (get payload ''eventid'')
            in if \<not> truthy title \<or> \<not> truthy event_id
               then Inl (ValueError ''Zabbix payload requires event_id and event_name or subject'')
               else bind_res (text_of title []) (\<lambda>title_text.
                 bind_res (text_of (or_else (or_else (get payload ''service'') (get payload ''host''))
                     (get payload ''host_name'')) ''zabbix'') (\<lambda>service.
                 bind_res (severity_of (get_or payload ''severity'' (VStr ''medium'')) False) (\<lambda>sev.
                 bind_res (text_of (or_else (get payload ''message'') (get payload ''description'')) [])
                   (\<lambda>description.
                 bind_res (normalized_alert (make_id ''zabbix'' payload [event_id])
                     (VStr title_text) (VStr service) sev (VStr description)
                     (get_or payload ''logs'' (VList []))) (\<lambda>a. Inr [a]))))))"

definition source_table :: "(str \<Rightarrow> str) \<Rightarrow> (str \<times> (pyval \<Rightarrow> (exc, NormalizedAlert list) res)) list" where
  "source_table fl =
     [(''generic'', generic_normalize), (''grafana'', grafana_normalize),
      (''sentry'', sentry_normalize), (''cloudwatch'', cloudwatch_normalize fl),
      (''zabbix'', zabbix_normalize)]"

definition get_source :: "(str \<Rightarrow> str) \<Rightarrow> str \<Rightarrow> (exc, pyval \<Rightarrow> (exc, NormalizedAlert list) res) res" where
  "get_source fl name = (case map_of (source_table fl) (lower name) of
      Some s \<Rightarrow> Inr s | None \<Rightarrow> Inl (ValueError (''Unsupported alert source: '' @ name)))"


subsection \<open>What ingestion relies on\<close>

locale alert_source =
  fixes normalize :: "pyval \<Rightarrow> (exc, NormalizedAlert list) res"
  assumes batch_size: "normalize p = Inr as \<Longrightarrow> 1 \<le> length as \<and> length as \<le> 100"
    and batch_ok: "normalize p = Inr as \<Longrightarrow> a \<in> set as \<Longrightarrow> alert_ok a"
    and rejection: "normalize p = Inl e \<Longrightarrow> is_value_error e"
begin

lemma batch_guard: "normalize p = Inr as \<Longrightarrow> \<not> (as = [] \<or> length as > 100)"
  using batch_size by fastforce

lemma total_logs: "normalize p = Inr as \<Longrightarrow> sum_list (map (\<lambda>a. length (na_logs a)) as) \<le> 100000"
proof -
  assume as: "normalize p = Inr as"
  have "sum_list (map (\<lambda>a. length (na_logs a)) as) \<le> sum_list (map (\<lambda>a. 1000) as)"
    using batch_ok[OF as] by (intro sum_list_mono) (simp add: alert_ok_def)
  also have "\<dots> \<le> 100000" using batch_size[OF as] by (simp add: sum_list_triv)
  finally show ?thesis .
qed

end

lemma bind_res_eq_Inl:
  "bind_res r f = Inl e \<longleftrightarrow> r = Inl e \<or> (\<exists>x. r = Inr x \<and> f x = Inl e)"
  by (cases r) auto

lemma rejections:
  "to_mapping n v1 = Inl e \<Longrightarrow> is_value_error e"
  "text_of v2 x = Inl e \<Longrightarrow> is_value_error e"
  "severity_of v3 b = Inl e \<Longrightarrow> is_value_error e"
  "sns_message fl v4 = Inl e \<Longrightarrow> is_value_error e"
  "normalized_alert i t s w y ls = Inl e \<Longrightarrow> is_value_error e"
  by (auto simp: to_mapping_def text_of_def severity_of_def sns_message_def Let_def validation_error_def
      dest: normalized_alert_error split: pyval.splits option.splits if_splits)

lemmas source_defs = generic_normalize_def sentry_normalize_def cloudwatch_normalize_def
  cloudwatch_event_def cloudwatch_alarm_def zabbix_normalize_def Let_def

text \<open>The adapters that give one alert.\<close>

definition single_alert :: "(exc, NormalizedAlert list) res \<Rightarrow> bool" where
  "single_alert r = (case r of Inl e \<Rightarrow> is_value_error e | Inr as \<Rightarrow> \<exists>a. as = [a] \<and> alert_ok a)"

lemma single_alert_bind:
  "(\<And>e. r = Inl e \<Longrightarrow> is_value_error e) \<Longrightarrow> (\<And>x. r = Inr x \<Longrightarrow> single_alert (f x)) \<Longrightarrow>
     single_alert (bind_res r f)"
  by (cases r) (auto simp: single_alert_def)

lemma single_alert_last: "single_alert (bind_res (normalized_alert i t s v x ls) (\<lambda>a. Inr [a]))"
  by (rule single_alert_bind) (auto simp: single_alert_def normalized_alert_ok dest: rejections)

lemma single_alert_error: "single_alert (Inl (ValueError m))"
  by (simp add: single_alert_def)

lemma single_alert_if: "single_alert r \<Longrightarrow> single_alert s \<Longrightarrow> single_alert (if b then r else s)"
  by simp

lemmas single_alert_rules = single_alert_last single_alert_error single_alert_if single_alert_bind

lemma single_cloudwatch: "single_alert (cloudwatch_event p)" "single_alert (cloudwatch_alarm p)"
  unfolding cloudwatch_event_def cloudwatch_alarm_def
  by (auto intro!: single_alert_rules dest: rejections split: pyval.splits)

lemma single_sources:
  "single_alert (generic_normalize p)" "single_alert (sentry_normalize p)"
  "single_alert (cloudwatch_normalize fl p)" "single_alert (zabbix_normalize p)"
  unfolding generic_normalize_def sentry_normalize_def cloudwatch_normalize_def zabbix_normalize_def
    Let_def
  by (auto intro!: single_alert_rules single_cloudwatch dest: rejections split: if_splits)

lemma single_alert_source:
  assumes "\<And>p. single_alert (f p)"
  shows "alert_source f"
proof
  have ok: "\<exists>a. as = [a] \<and> alert_ok a" if "f p = Inr as" for p as
    using assms[of p] that by (simp add: single_alert_def)
  show "is_value_error e" if "f p = Inl e" for p e
    using assms[of p] that by (simp add: single_alert_def)
  show "1 \<le> length as \<and> length as \<le> 100" if "f p = Inr as" for p as
    using ok[OF that] by auto
  show "alert_ok a" if "f p = Inr as" "a \<in> set as" for p as a
    using ok[OF that(1)] that(2) by auto
qed

text \<open>Grafana's batches.\<close>

definition firing :: "dict \<Rightarrow> pyval \<Rightarrow> bool" where
  "firing payload item = (case item of
      VDict alert \<Rightarrow> get_or alert ''status'' (get_or payload ''status'' (VStr ''firing'')) \<noteq> VStr ''resolved''
    | _ \<Rightarrow> True)"

lemma grafana_alert_Inr:
  "grafana_alert payload item = Inr r \<Longrightarrow>
     (r = None \<longleftrightarrow> \<not> firing payload item) \<and> (\<forall>a. r = Some a \<longrightarrow> alert_ok a)"
  by (auto simp: grafana_alert_def firing_def to_mapping_def Let_def normalized_alert_ok
      split: if_splits pyval.splits)

lemma grafana_alert_Inl: "grafana_alert payload item = Inl e \<Longrightarrow> is_value_error e"
  by (auto simp: grafana_alert_def bind_res_eq_Inl Let_def dest: rejections split: if_splits)

lemma map_res_Inl: "map_res f xs = Inl e \<Longrightarrow> \<exists>x \<in> set xs. f x = Inl e"
  by (induction xs) (auto simp: bind_res_eq_Inl)

lemma grafana_output:
  "map_res (grafana_alert payload) items = Inr outs \<Longrightarrow>
     length (somes outs) = length (filter (firing payload) items) \<and> (\<forall>a \<in> set (somes outs). alert_ok a)"
proof (induction items arbitrary: outs)
  case (Cons item items)
  then obtain r rs where r: "grafana_alert payload item = Inr r"
      "map_res (grafana_alert payload) items = Inr rs" "outs = r # rs"
    by auto
  with Cons.IH[OF r(2)] grafana_alert_Inr[OF r(1)] show ?case
    by (cases r) (auto simp: somes_def)
qed (simp add: somes_def)

lemma grafana_Inr:
  assumes "grafana_normalize p = Inr as"
  shows "\<exists>payload batch. p = VDict payload \<and> get payload ''alerts'' = VList batch \<and>
    length batch \<le> 100 \<and> length as = length (filter (firing payload) batch) \<and> as \<noteq> [] \<and>
    (\<forall>a \<in> set as. alert_ok a)"
  using assms grafana_output
  by (fastforce simp: grafana_normalize_def to_mapping_def split: pyval.splits if_splits)

interpretation generic: alert_source generic_normalize
  by (rule single_alert_source) (rule single_sources)

interpretation sentry: alert_source sentry_normalize
  by (rule single_alert_source) (rule single_sources)

interpretation cloudwatch: alert_source "cloudwatch_normalize fl" for fl
  by (rule single_alert_source) (rule single_sources)

interpretation zabbix: alert_source zabbix_normalize
  by (rule single_alert_source) (rule single_sources)

interpretation grafana: alert_source grafana_normalize
proof
  fix p as a
  assume as: "grafana_normalize p = Inr as"
  from grafana_Inr[OF as] show "1 \<le> length as \<and> length as \<le> 100"
    by (auto simp: Suc_le_eq intro: order_trans[OF length_filter_le])
  show "a \<in> set as \<Longrightarrow> alert_ok a" using grafana_Inr[OF as] by blast
next
  fix p e
  assume e: "grafana_normalize p = Inl e"
  show "is_value_error e"
  proof (cases "to_mapping ''Payload'' p")
    case (Inl e')
    with e rejections(1) show ?thesis by (auto simp: grafana_normalize_def)
  next
    case (Inr payload)
    show ?thesis
    proof (cases "\<exists>batch. get payload ''alerts'' = VList batch \<and> batch \<noteq> [] \<and> length batch \<le> 100")
      case True
      then obtain batch where "get payload ''alerts'' = VList batch" "batch \<noteq> []" "length batch \<le> 100"
        by blast
      then show ?thesis
        using e Inr by (auto simp: grafana_normalize_def bind_res_eq_Inl split: if_splits
            dest!: map_res_Inl grafana_alert_Inl)
    next
      case False
      then show ?thesis using e Inr by (auto simp: grafana_normalize_def split: pyval.splits if_splits)
    qed
  qed
qed

lemma get_source_Inr:
  "get_source fl name = Inr f \<Longrightarrow> alert_source f"
  using generic.alert_source_axioms sentry.alert_source_axioms cloudwatch.alert_source_axioms
    zabbix.alert_source_axioms grafana.alert_source_axioms
  by (auto simp: get_source_def source_table_def split: if_splits option.splits)


subsection \<open>Properties\<close>

text \<open>Whatever JSON a monitoring system posts, the adapter of a supported source either rejects
  it with a \<open>ValueError\<close>, which the webhook answers with 422, or gives between one and 100 alerts
  that fit the columns they are stored in and whose texts have gone through the privacy filter.\<close>

lemma source_batches:
  assumes "get_source fl name = Inr adapter"
  shows "case adapter payload of
      Inl e \<Rightarrow> is_value_error e
    | Inr as \<Rightarrow> 1 \<le> length as \<and> length as \<le> 100 \<and> (\<forall>a \<in> set as. alert_ok a)"
proof (cases "adapter payload")
  case (Inl e)
  then show ?thesis using alert_source.rejection[OF get_source_Inr[OF assms]] by simp
next
  case (Inr as)
  then show ?thesis
    using alert_source.batch_size[OF get_source_Inr[OF assms] Inr]
      alert_source.batch_ok[OF get_source_Inr[OF assms] Inr] by simp
qed

lemma source_batches_example:
  "case zabbix_normalize (VDict [(''event_id'', VInt 7), (''event_name'', VStr ''disk full'')]) of
      Inl e \<Rightarrow> is_value_error e
    | Inr as \<Rightarrow> 1 \<le> length as \<and> length as \<le> 100 \<and> (\<forall>a \<in> set as. alert_ok a)"
proof -
  have "get_source id ''Zabbix'' = Inr zabbix_normalize"
  proof -
    have "lower ''Zabbix'' = ''zabbix''" by code_simp
    then show ?thesis by (simp add: get_source_def source_table_def)
  qed
  from source_batches[OF this] show ?thesis .
qed

text \<open>Grafana posts firing and resolved alerts together: the adapter creates one alert for each
  that is not resolved and none for the others, and rejects a batch without a firing one.\<close>

lemma grafana_firing_only:
  assumes "grafana_normalize (VDict payload) = Inr as"
  shows "\<exists>batch. get payload ''alerts'' = VList batch \<and>
    length as = length (filter (firing payload) batch) \<and> (\<exists>item \<in> set batch. firing payload item)"
proof -
  obtain batch where b: "get payload ''alerts'' = VList batch"
      "length as = length (filter (firing payload) batch)" "as \<noteq> []"
    using grafana_Inr[OF assms] by auto
  then have "filter (firing payload) batch \<noteq> []" by (metis length_0_conv)
  with b show ?thesis by (auto simp: filter_empty_conv)
qed

lemma grafana_firing_only_witness:
  "\<exists>e. grafana_normalize (VDict [(''status'', VStr ''resolved''),
     (''alerts'', VList [VDict [(''fingerprint'', VStr ''f'')]])]) = Inl e"
proof (rule ccontr)
  let ?p = "[(''status'', VStr ''resolved''), (''alerts'', VList [VDict [(''fingerprint'', VStr ''f'')]])]"
  assume "\<not> ?thesis"
  then obtain as where "grafana_normalize (VDict ?p) = Inr as"
    by (cases "grafana_normalize (VDict ?p)") auto
  from grafana_firing_only[OF this] show False by (simp add: get_def firing_def get_or_def)
qed

text \<open>An EventBridge event without a state value counts as an alarm when it is filtered, but gets the severity
  of one that is over; the notification of an alarm treats the missing value the same way in both places.\<close>

lemma cloudwatch_missing_state:
  assumes "cloudwatch_event p = Inr [a]"
    and "get p ''detail'' = VDict detail" and "map_of detail ''state'' = None"
  shows "na_severity a = Low"
  using assms by (auto simp: cloudwatch_event_def to_mapping_def get_def get_or_def Let_def normalized_alert_ok(2)
      split: if_splits)

text \<open>The deduplication key of an alert has between one and 255 characters and depends on the
  identifying parts of the payload only: a redelivery that differs elsewhere gets the same key.\<close>

lemma make_id_key:
  assumes "\<exists>v \<in> set parts. present v \<and> py_str v \<noteq> []" and "length source \<le> 190"
  shows "1 \<le> length (make_id source payload parts) \<and> length (make_id source payload parts) \<le> 255 \<and>
    make_id source payload parts = make_id source other parts"
proof -
  have "join '':'' (map py_str vs) \<noteq> []" if "\<exists>v \<in> set vs. py_str v \<noteq> []" for vs
    using that
  proof (induction vs)
    case (Cons v vs)
    then show ?case by (cases vs) auto
  qed simp
  moreover have "\<exists>v \<in> set (filter present parts). py_str v \<noteq> []" using assms(1) by auto
  ultimately have "join '':'' (map py_str (filter present parts)) \<noteq> []" by blast
  then have "make_id source payload parts = make_id source other parts"
    by (simp add: make_id_def Let_def)
  then show ?thesis using make_id_length[OF assms(2)] by simp
qed

lemma make_id_key_witness:
  "make_id ''grafana'' [(''fingerprint'', VStr ''ab''), (''values'', VInt 1)] [VStr ''ab'', VNone]
     = make_id ''grafana'' [(''fingerprint'', VStr ''ab''), (''values'', VInt 2)] [VStr ''ab'', VNone]
   \<and> make_id ''grafana'' [] [VStr ''ab'', VStr ''2024''] = ''ab:2024''"
  using make_id_key[of "[VStr ''ab'', VNone]" "''grafana''"
      "[(''fingerprint'', VStr ''ab''), (''values'', VInt 1)]"
      "[(''fingerprint'', VStr ''ab''), (''values'', VInt 2)]"]
  by (simp add: present_def make_id_def)

end
