(* ===== verification/Incidents.thy ===== *)
theory Incidents
  imports Sources
begin

text \<open>
  \<open>app/domain/incidents.py\<close>: looking incidents up, creating them with their timeline and logs,
  ingesting alerts once per source identifier, and the dashboard.
\<close>

subsection \<open>Operations\<close>

definition require_incident :: "str \<Rightarrow> Incident act" where
  "require_incident i =
     andthen (look (\<lambda>d. find_row inc_id i (incidents d))) (\<lambda>r. case r of
         None \<Rightarrow> raise (AppError ''not_found'' ''Incident not found'' 404)
       | Some inc \<Rightarrow> ret inc)"

definition add_event :: "env \<Rightarrow> str \<Rightarrow> str \<Rightarrow> str \<Rightarrow> TimelineEvent act" where
  "add_event E iid kind message = insert_event E iid kind (redact message)"

definition create_incident :: "env \<Rightarrow> IncidentCreate \<Rightarrow> str \<Rightarrow> Incident act" where
  "create_incident E data source =
     andthen (insert_incident E (redact (ic_title data)) (redact (ic_service data))
         (severity_value (ic_severity data)) (redact (ic_description data))) (\<lambda>inc.
     andthen (add_event E (inc_id inc) ''created'' (''Incident created from '' @ source @ ''.'')) (\<lambda>_.
     ret inc))"

definition add_log :: "env \<Rightarrow> str \<Rightarrow> LogInput \<Rightarrow> LogEntry act" where
  "add_log E iid entry =
     andthen (case li_timestamp entry of Some t \<Rightarrow> ret t | None \<Rightarrow> utcnow E) (\<lambda>t.
       insert_log E iid t (li_level entry) (redact (li_message entry)))"

definition add_logs :: "env \<Rightarrow> str \<Rightarrow> LogInput list \<Rightarrow> LogEntry list act" where
  "add_logs E iid entries =
     andthen (map_act (add_log E iid) entries) (\<lambda>logs.
       if logs = [] then ret logs
       else andthen (add_event E iid ''logs_added''
           (''Attached '' @ nat_text (length logs) @ '' redacted log entries.'')) (\<lambda>_. ret logs))"

text \<open>The alert of a source identifier.\<close>

definition find_alert :: "str \<Rightarrow> str \<Rightarrow> db \<Rightarrow> Alert option" where
  "find_alert source external_id d = find_row alert_key (source, external_id) (alerts d)"

definition alert_data :: "NormalizedAlert \<Rightarrow> (exc, IncidentCreate) res" where
  "alert_data a = read_field (check_incident_create (VDict
     [(''title'', VStr (na_title a)), (''service'', VStr (na_service a)),
      (''severity'', VStr (severity_value (na_severity a))),
      (''description'', VStr (na_description a))]))"

text \<open>The atomic unit of an ingestion.\<close>

definition ingest_new :: "env \<Rightarrow> str \<Rightarrow> str \<Rightarrow> IncidentCreate \<Rightarrow> LogInput list \<Rightarrow> Incident act" where
  "ingest_new E source external_id data logs =
     andthen (create_incident E data source) (\<lambda>inc.
     andthen (insert_alert E (inc_id inc) source external_id (inc_title inc) (inc_service inc)
         (inc_severity inc) (inc_description inc)) (\<lambda>_.
     andthen (add_logs E (inc_id inc) logs) (\<lambda>_. ret inc)))"

text \<open>\<open>rival\<close> is what other sessions commit between the look-up and the insertion.\<close>

definition interfere :: "(world \<Rightarrow> world) \<Rightarrow> unit act" where
  "interfere rival = (\<lambda>w. (Inr (), rival w))"

definition ingest_duplicate :: "Alert \<Rightarrow> (Incident \<times> bool) act" where
  "ingest_duplicate existing =
     andthen (require_incident (al_incident_id existing)) (\<lambda>inc. ret (inc, True))"

definition ingest_alert ::
  "env \<Rightarrow> read_stamp \<Rightarrow> (world \<Rightarrow> world) \<Rightarrow> str \<Rightarrow> NormalizedAlert \<Rightarrow> (Incident \<times> bool) act" where
  "ingest_alert E rs rival source a =
     andthen (look (find_alert source (na_external_id a))) (\<lambda>found. case found of
       Some existing \<Rightarrow> ingest_duplicate existing
     | None \<Rightarrow>
         andthen (lift_res (alert_data a)) (\<lambda>data.
         andthen (lift_res (map_res (\<lambda>d. read_field (check_log_input rs (VDict d))) (na_logs a))) (\<lambda>logs.
         if length logs > 1000
         then raise (AppError ''validation_error'' ''At most 1000 log entries are allowed per alert'' 422)
         else andthen (interfere rival) (\<lambda>_.
           catch (andthen (begin_nested (ingest_new E source (na_external_id a) data logs))
               (\<lambda>inc. ret (inc, False)))
             (\<lambda>e. case e of
                 IntegrityError \<Rightarrow>
                   andthen (look (find_alert source (na_external_id a))) (\<lambda>again. case again of
                     None \<Rightarrow> raise IntegrityError
                   | Some existing \<Rightarrow> ingest_duplicate existing)
               | _ \<Rightarrow> raise e)))))"

subsection \<open>The invariant is kept\<close>

lemma keeps_require_incident: "store.keeps E (require_incident i)"
  unfolding require_incident_def by (intro store.keeps_rules)

lemma keeps_add_event: "inj (uuid E) \<Longrightarrow> store.keeps E (add_event E iid kind m)"
  unfolding add_event_def by (rule keeps_insert_event)

lemma keeps_create_incident: "inj (uuid E) \<Longrightarrow> store.keeps E (create_incident E data source)"
  unfolding create_incident_def
  by (intro store.keeps_rules keeps_insert_incident keeps_add_event severity_value_in)

lemma keeps_add_logs: "inj (uuid E) \<Longrightarrow> store.keeps E (add_logs E iid entries)"
  unfolding add_logs_def add_log_def
  by (intro store.keeps_rules keeps_insert_log keeps_add_event)

lemma keeps_ingest_duplicate: "store.keeps E (ingest_duplicate x)"
  unfolding ingest_duplicate_def by (intro store.keeps_rules keeps_require_incident)

lemma keeps_ingest_new: "inj (uuid E) \<Longrightarrow> store.keeps E (ingest_new E source ext data logs)"
  unfolding ingest_new_def
  by (intro store.keeps_rules keeps_create_incident keeps_insert_alert keeps_add_logs)

definition harmless :: "env \<Rightarrow> (world \<Rightarrow> world) \<Rightarrow> bool" where
  "harmless E rival = (\<forall>w. world_ok E w \<longrightarrow> world_ok E (rival w) \<and> ids w \<le> ids (rival w))"

lemma keeps_interfere: "harmless E rival \<Longrightarrow> store.keeps E (interfere rival)"
  by (simp add: harmless_def interfere_def store.keeps_def winv_world_ok)

lemma keeps_ingest_alert:
  assumes "inj (uuid E)" and "harmless E rival"
  shows "store.keeps E (ingest_alert E rs rival source a)"
proof -
  have h: "store.keeps E (case e of
      IntegrityError \<Rightarrow> andthen (look (find_alert source (na_external_id a))) (\<lambda>again. case again of
          None \<Rightarrow> raise IntegrityError | Some existing \<Rightarrow> ingest_duplicate existing)
    | _ \<Rightarrow> raise e)" for e
    by (cases e) (auto intro!: store.keeps_rules keeps_ingest_duplicate)
  show ?thesis
    unfolding ingest_alert_def
    by (intro store.keeps_rules keeps_ingest_duplicate keeps_interfere keeps_ingest_new assms h)
qed

lemma uncommitted_incidents:
  "uncommitted (require_incident i)" "uncommitted (add_event E i k m)" "uncommitted (create_incident E data source)"
  "uncommitted (add_logs E i entries)" "uncommitted (ingest_duplicate x)" "uncommitted (ingest_new E s ext data logs)"
  unfolding require_incident_def add_event_def create_incident_def add_logs_def add_log_def ingest_duplicate_def
    ingest_new_def
  by (intro uncommitted_store)+

subsection \<open>What the operations do\<close>

lemma require_incident_run:
  "require_incident i w = (case find_row inc_id i (incidents (live w)) of
     None \<Rightarrow> (Inl (AppError ''not_found'' ''Incident not found'' 404), w) | Some inc \<Rightarrow> (Inr inc, w))"
  by (simp add: require_incident_def split: option.splits)

text \<open>How far two states differ: the first was extended by rows of one incident.\<close>

definition new_incident :: "env \<Rightarrow> IncidentCreate \<Rightarrow> world \<Rightarrow> Incident" where
  "new_incident E data w =
     \<lparr>inc_id = uuid E (ids w), inc_title = redact (ic_title data),
      inc_service = redact (ic_service data), inc_severity = severity_value (ic_severity data),
      inc_status = ''open'', inc_description = redact (ic_description data),
      inc_created_at = clock E (ticks w), inc_updated_at = clock E (Suc (ticks w)),
      inc_acknowledged_at = None, inc_resolved_at = None, inc_embedding = None,
      inc_embedding_model = None\<rparr>"

lemma has_incident_last [simp]:
  "has_incident (inc_id r) (d\<lparr>incidents := rs @ [r]\<rparr>)"
  by (simp add: has_incident_iff)

definition new_event :: "env \<Rightarrow> str \<Rightarrow> str \<Rightarrow> str \<Rightarrow> nat \<Rightarrow> nat \<Rightarrow> TimelineEvent" where
  "new_event E iid kind m i t =
     \<lparr>ev_id = uuid E i, ev_incident_id = iid, ev_kind = kind, ev_message = redact m,
      ev_created_at = clock E t\<rparr>"

lemma add_event_run:
  "add_event E iid kind m w =
     (if has_incident iid (live w)
      then (Inr (new_event E iid kind m (ids w) (ticks w)),
        w\<lparr>live := (live w)\<lparr>timeline_events := timeline_events (live w)
             @ [new_event E iid kind m (ids w) (ticks w)]\<rparr>,
          ticks := Suc (ticks w), ids := Suc (ids w)\<rparr>)
      else (Inl IntegrityError, w\<lparr>ticks := Suc (ticks w), ids := Suc (ids w)\<rparr>))"
  by (simp add: add_event_def insert_event_def insert_new_def new_event_def)

lemma insert_incident_run:
  "insert_incident E t s v x w =
     (let r = \<lparr>inc_id = uuid E (ids w), inc_title = t, inc_service = s, inc_severity = v,
          inc_status = ''open'', inc_description = x, inc_created_at = clock E (ticks w),
          inc_updated_at = clock E (Suc (ticks w)), inc_acknowledged_at = None,
          inc_resolved_at = None, inc_embedding = None, inc_embedding_model = None\<rparr>
      in (Inr r, w\<lparr>live := (live w)\<lparr>incidents := incidents (live w) @ [r]\<rparr>,
           ticks := Suc (Suc (ticks w)), ids := Suc (ids w)\<rparr>))"
  by (simp add: insert_incident_def insert_new_def Let_def)

lemma create_incident_run:
  "create_incident E data source w =
     (let r = new_incident E data w;
          ev = new_event E (inc_id r) ''created'' (''Incident created from '' @ source @ ''.'')
            (Suc (ids w)) (Suc (Suc (ticks w)))
      in (Inr r, w\<lparr>live := (live w)\<lparr>incidents := incidents (live w) @ [r],
            timeline_events := timeline_events (live w) @ [ev]\<rparr>,
          ticks := Suc (Suc (Suc (ticks w))), ids := Suc (Suc (ids w))\<rparr>))"
  by (simp add: create_incident_def andthen_def insert_incident_run add_event_run Let_def
      new_incident_def[symmetric] has_incident_iff)

lemma insert_alert_run:
  assumes "has_incident iid (live w)"
  shows "insert_alert E iid source ext title service severity description w =
    (if \<exists>a \<in> set (alerts (live w)). alert_key a = (source, ext)
     then (Inl IntegrityError, w\<lparr>ticks := Suc (ticks w), ids := Suc (ids w)\<rparr>)
     else let r = \<lparr>al_id = uuid E (ids w), al_incident_id = iid, al_source = source,
            al_external_id = ext, al_title = title, al_service = service, al_severity = severity,
            al_description = description, al_received_at = clock E (ticks w)\<rparr>
       in (Inr r, w\<lparr>live := (live w)\<lparr>alerts := alerts (live w) @ [r]\<rparr>, ticks := Suc (ticks w),
            ids := Suc (ids w)\<rparr>))"
  using assms by (auto simp: insert_alert_def insert_new_def alert_key_def Let_def)

text \<open>Adding logs and events leaves the incidents and the alerts alone and always succeeds for an
  existing incident.\<close>

definition only_history :: "str \<Rightarrow> db \<Rightarrow> db \<Rightarrow> bool" where
  "only_history iid d d' =
     (\<exists>ls es. d' = d\<lparr>log_entries := log_entries d @ ls, timeline_events := timeline_events d @ es\<rparr> \<and>
        (\<forall>l \<in> set ls. lg_incident_id l = iid) \<and> (\<forall>e \<in> set es. ev_incident_id e = iid))"

lemma only_history_refl: "only_history iid d d"
  unfolding only_history_def by (intro exI[of _ "[]"]) simp

lemma only_history_trans: "only_history iid d d' \<Longrightarrow> only_history iid d' d'' \<Longrightarrow> only_history iid d d''"
  unfolding only_history_def by (elim exE conjE) (rule exI, rule exI, auto)

lemma only_historyD:
  "only_history iid d d' \<Longrightarrow> incidents d' = incidents d \<and> alerts d' = alerts d \<and>
     analyses d' = analyses d \<and> postmortems d' = postmortems d \<and> exports d' = exports d \<and>
     devices d' = devices d \<and> jobs d' = jobs d \<and> has_incident iid d' = has_incident iid d"
  by (auto simp: only_history_def has_incident_def)

definition adds_history :: "str \<Rightarrow> 'a act \<Rightarrow> bool" where
  "adds_history iid m = (\<forall>w :: world. has_incident iid (live w) \<longrightarrow>
     (\<exists>x w'. m w = (Inr x, w') \<and> only_history iid (live w) (live w') \<and> saved w' = saved w))"

lemma adds_history_ret: "adds_history iid (ret x)"
  by (simp add: adds_history_def only_history_refl)

lemma adds_history_utcnow: "adds_history iid (utcnow E)"
  by (simp add: adds_history_def only_history_refl)

lemma adds_history_andthen:
  assumes "adds_history iid m" and "\<And>x. adds_history iid (f x)"
  shows "adds_history iid (andthen m f)"
  unfolding adds_history_def
proof (intro allI impI)
  fix w :: world assume w: "has_incident iid (live w)"
  obtain x w1 where m: "m w = (Inr x, w1)" "only_history iid (live w) (live w1)" "saved w1 = saved w"
    using assms(1) w unfolding adds_history_def by blast
  then have "has_incident iid (live w1)" using w only_historyD by blast
  then obtain y w2 where "f x w1 = (Inr y, w2)" "only_history iid (live w1) (live w2)" "saved w2 = saved w1"
    using assms(2) unfolding adds_history_def by blast
  with m show "\<exists>y w'. andthen m f w = (Inr y, w') \<and> only_history iid (live w) (live w') \<and> saved w' = saved w"
    by (auto simp: andthen_def intro: only_history_trans)
qed

lemma only_history_log: "only_history (lg_incident_id l) d (d\<lparr>log_entries := log_entries d @ [l]\<rparr>)"
  unfolding only_history_def by (rule exI[of _ "[l]"], rule exI[of _ "[]"]) simp

lemma only_history_event:
  "only_history (ev_incident_id e) d (d\<lparr>timeline_events := timeline_events d @ [e]\<rparr>)"
  unfolding only_history_def by (rule exI[of _ "[]"], rule exI[of _ "[e]"]) simp

lemma adds_history_insert_log: "adds_history iid (insert_log E iid t level m)"
  unfolding adds_history_def insert_log_def insert_new_def
  using only_history_log[of "\<lparr>lg_id = i, lg_incident_id = iid, lg_timestamp = t, lg_level = level,
    lg_message = m\<rparr>" for i] by simp

lemma adds_history_event: "adds_history iid (add_event E iid kind m)"
  unfolding adds_history_def
  using only_history_event[of "new_event E iid kind m i t" for i t]
  by (simp add: add_event_run) (simp add: new_event_def)

lemma adds_history_map: "(\<And>x. adds_history iid (f x)) \<Longrightarrow> adds_history iid (map_act f xs)"
  by (induction xs) (auto intro!: adds_history_andthen adds_history_ret)

lemma adds_history_logs: "adds_history iid (add_logs E iid entries)"
proof -
  have "adds_history iid (add_log E iid e)" for e
    unfolding add_log_def
    by (rule adds_history_andthen)
      (auto intro: adds_history_insert_log adds_history_ret adds_history_utcnow split: option.splits)
  then show ?thesis
    unfolding add_logs_def
    by (auto intro!: adds_history_andthen adds_history_map adds_history_ret adds_history_event)
qed


lemma ingest_new_run:
  fixes w :: world
  shows "(\<exists>a \<in> set (alerts (live w)). alert_key a = (source, ext)) \<Longrightarrow>
      \<exists>w'. ingest_new E source ext data logs w = (Inl IntegrityError, w') \<and> saved w' = saved w"
    and "\<not> (\<exists>a \<in> set (alerts (live w)). alert_key a = (source, ext)) \<Longrightarrow>
      \<exists>w' a. ingest_new E source ext data logs w = (Inr (new_incident E data w), w') \<and>
        incidents (live w') = incidents (live w) @ [new_incident E data w] \<and>
        alerts (live w') = alerts (live w) @ [a] \<and> alert_key a = (source, ext) \<and>
        al_incident_id a = inc_id (new_incident E data w) \<and> saved w' = saved w"
proof -
  let ?r = "new_incident E data w"
  obtain w1 where c: "create_incident E data source w = (Inr ?r, w1)"
    and w1: "incidents (live w1) = incidents (live w) @ [?r]" "alerts (live w1) = alerts (live w)"
      "saved w1 = saved w"
    by (simp add: create_incident_run Let_def)
  have has: "has_incident (inc_id ?r) (live w1)" by (simp add: has_incident_iff w1)
  note ins = insert_alert_run[OF has, of E source ext "inc_title ?r" "inc_service ?r" "inc_severity ?r"
      "inc_description ?r"]
  show "\<exists>w'. ingest_new E source ext data logs w = (Inl IntegrityError, w') \<and> saved w' = saved w"
    if "\<exists>a \<in> set (alerts (live w)). alert_key a = (source, ext)"
    using that by (simp add: ingest_new_def andthen_def c ins w1)
  show "\<exists>w' a. ingest_new E source ext data logs w = (Inr ?r, w') \<and>
        incidents (live w') = incidents (live w) @ [?r] \<and>
        alerts (live w') = alerts (live w) @ [a] \<and> alert_key a = (source, ext) \<and>
        al_incident_id a = inc_id ?r \<and> saved w' = saved w"
    if none: "\<not> (\<exists>a \<in> set (alerts (live w)). alert_key a = (source, ext))"
  proof -
    obtain a w2 where a: "insert_alert E (inc_id ?r) source ext (inc_title ?r) (inc_service ?r)
        (inc_severity ?r) (inc_description ?r) w1 = (Inr a, w2)"
      and w2: "live w2 = (live w1)\<lparr>alerts := alerts (live w1) @ [a]\<rparr>" "saved w2 = saved w1"
      and key: "alert_key a = (source, ext)" "al_incident_id a = inc_id ?r"
      using ins none by (auto simp: Let_def alert_key_def w1)
    have "has_incident (inc_id ?r) (live w2)" using has by (simp add: w2 has_incident_iff)
    then obtain ls w3 where l: "add_logs E (inc_id ?r) logs w2 = (Inr ls, w3)"
        "only_history (inc_id ?r) (live w2) (live w3)" "saved w3 = saved w2"
      using adds_history_logs unfolding adds_history_def by blast
    have "ingest_new E source ext data logs w = (Inr ?r, w3)"
      by (simp add: ingest_new_def andthen_def c a l(1))
    with only_historyD[OF l(2)] l(3) w1 w2 key show ?thesis by auto
  qed
qed

text \<open>The alerts with a source identifier.\<close>

definition alerts_of :: "str \<Rightarrow> str \<Rightarrow> db \<Rightarrow> Alert list" where
  "alerts_of source ext d = filter (\<lambda>a. alert_key a = (source, ext)) (alerts d)"

lemma find_alert_Some:
  "find_alert source ext d = Some a \<Longrightarrow> a \<in> set (alerts d) \<and> alert_key a = (source, ext)"
  unfolding find_alert_def by (drule find_row_Some) auto

lemma find_alert_None: "find_alert source ext d = None \<longleftrightarrow> alerts_of source ext d = []"
  unfolding find_alert_def find_row_None alerts_of_def filter_empty_conv image_iff by metis

lemma alerts_of_unique:
  assumes "unique_keys d" and "a \<in> set (alerts d)" and "alert_key a = (source, ext)"
  shows "alerts_of source ext d = [a]"
proof -
  have "distinct (map alert_key as) \<Longrightarrow> a \<in> set as \<Longrightarrow>
      filter (\<lambda>x. alert_key x = alert_key a) as = [a]" for as
  proof (induction as)
    case (Cons b as)
    then have "b = a \<Longrightarrow> filter (\<lambda>x. alert_key x = alert_key a) as = []"
      by (auto simp: filter_empty_conv image_iff)
    with Cons show ?case by auto
  qed simp
  with assms show ?thesis by (simp add: unique_keys_def alerts_of_def)
qed

text \<open>A duplicate changes nothing, and its incident exists.\<close>

lemma ingest_duplicate_run:
  assumes "db_inv E (live w) n" and "a \<in> set (alerts (live w))"
  shows "\<exists>inc. ingest_duplicate a w = (Inr (inc, True), w) \<and> inc \<in> set (incidents (live w)) \<and>
    inc_id inc = al_incident_id a"
proof -
  have "al_incident_id a \<in> inc_id ` set (incidents (live w))"
    using assms by (auto simp: db_inv_def foreign_keys_def child_parents_def)
  then obtain inc where inc: "find_row inc_id (al_incident_id a) (incidents (live w)) = Some inc"
    by (metis find_row_None not_None_eq)
  then show ?thesis
    using find_row_Some[OF inc] by (simp add: ingest_duplicate_def andthen_def require_incident_run)
qed


lemma ingest_alert_found:
  "find_alert source (na_external_id a) (live w) = Some x \<Longrightarrow>
     ingest_alert E rs rival source a w = ingest_duplicate x w"
  by (simp add: ingest_alert_def)

lemma ingest_alert_new:
  assumes "find_alert source (na_external_id a) (live w) = None"
  shows "(\<exists>e. ingest_alert E rs rival source a w = (Inl e, w)) \<or>
    (\<exists>data logs. ingest_alert E rs rival source a w =
       catch (andthen (begin_nested (ingest_new E source (na_external_id a) data logs))
           (\<lambda>inc. ret (inc, False)))
         (\<lambda>e. case e of
             IntegrityError \<Rightarrow>
               andthen (look (find_alert source (na_external_id a))) (\<lambda>again. case again of
                 None \<Rightarrow> raise IntegrityError | Some existing \<Rightarrow> ingest_duplicate existing)
           | _ \<Rightarrow> raise e) (rival w))"
proof (cases "alert_data a")
  case (Inr data)
  note data = this
  show ?thesis
  proof (cases "map_res (\<lambda>d. read_field (check_log_input rs (VDict d))) (na_logs a)")
    case (Inr logs)
    then show ?thesis using assms data
      by (cases "length logs > 1000") (auto simp: ingest_alert_def andthen_def interfere_def)
  qed (use assms data in \<open>auto simp: ingest_alert_def andthen_def\<close>)
qed (use assms in \<open>auto simp: ingest_alert_def andthen_def\<close>)

lemma ingest_alert_succeeds:
  assumes "alert_data a = Inr data"
    and "map_res (\<lambda>d. read_field (check_log_input rs (VDict d))) (na_logs a) = Inr logs"
    and "length logs \<le> 1000"
    and "alerts_of source (na_external_id a) (live w) = []"
    and "alerts_of source (na_external_id a) (live (rival w)) = []"
  shows "\<exists>w'. ingest_alert E rs rival source a w = (Inr (new_incident E data (rival w), False), w')"
proof -
  have "\<not> (\<exists>x \<in> set (alerts (live (rival w))). alert_key x = (source, na_external_id a))"
    using assms(5) by (auto simp: alerts_of_def filter_empty_conv)
  from ingest_new_run(2)[OF this, of E data logs] obtain w2 where
    "ingest_new E source (na_external_id a) data logs (rival w) = (Inr (new_incident E data (rival w)), w2)"
    by blast
  with assms show ?thesis
    by (simp add: ingest_alert_def find_alert_None[symmetric] andthen_def interfere_def catch_def
        begin_nested_def)
qed

text \<open>Texts the filter has nothing to do with.\<close>

lemma redact_lower_Nil [simp]: "redact [] = []"
  by (rule redact_lower_word) simp

lemma trim_lower_word:
  assumes "\<forall>c \<in> set s. is_lower c"
  shows "trim s = s"
  unfolding trim_def by (rule strip_by_id) (use assms in \<open>auto simp: is_white_def is_lower_def Let_def\<close>)

lemma redacted_str_lower_word:
  "(\<forall>c \<in> set s. is_lower c) \<Longrightarrow> lo \<le> length s \<Longrightarrow> length s \<le> hi \<Longrightarrow> redacted_str lo hi (VStr s) = Inr s"
  by (simp add: redacted_str_def redact_strings_def constrained_str_def redact_lower_word trim_lower_word)

lemma alert_data_words:
  assumes "\<forall>c \<in> set (na_title a @ na_service a). is_lower c" and "na_description a = []"
    and "na_title a \<noteq> []" and "na_service a \<noteq> []" and "length (na_title a) \<le> 240" and "length (na_service a) \<le> 120"
  shows "alert_data a = Inr \<lparr>ic_title = na_title a, ic_service = na_service a,
    ic_severity = na_severity a, ic_description = []\<rparr>"
  using assms
  by (auto simp: alert_data_def check_incident_create_def incident_create_fields_def
      redacted_str_lower_word Suc_le_eq severity_check_def)

subsection \<open>Properties of ingestion\<close>

lemma ingest_alert_unique:
  assumes "harmless E rival" and "world_ok E w"
    and "ingest_alert E rs rival source a w = (r, w')"
  shows "case r of
      Inl e \<Rightarrow> live w' \<in> {live w, live (rival w)}
    | Inr (inc, duplicate) \<Rightarrow>
        inc \<in> set (incidents (live w')) \<and>
        (\<exists>al. alerts_of source (na_external_id a) (live w') = [al] \<and> al_incident_id al = inc_id inc) \<and>
        (if duplicate then live w' \<in> {live w, live (rival w)}
         else alerts_of source (na_external_id a) (live (rival w)) = [] \<and>
           incidents (live w') = incidents (live (rival w)) @ [inc])"
proof (cases "find_alert source (na_external_id a) (live w)")
  case (Some x)
  from find_alert_Some[OF Some] assms(2)
  have x: "alerts_of source (na_external_id a) (live w) = [x]" "x \<in> set (alerts (live w))"
    by (auto simp: world_ok_def db_inv_def intro: alerts_of_unique)
  from assms(2) ingest_duplicate_run[OF _ x(2)] obtain inc
    where "ingest_duplicate x w = (Inr (inc, True), w)" "inc \<in> set (incidents (live w))"
      "inc_id inc = al_incident_id x"
    unfolding world_ok_def by blast
  with assms(3) x show ?thesis by (auto simp: ingest_alert_found[OF Some])
next
  case None
  let ?ext = "na_external_id a"
  from ingest_alert_new[OF None, of E rs rival] show ?thesis
  proof (elim disjE exE)
    fix e assume "ingest_alert E rs rival source a w = (Inl e, w)"
    with assms(3) show ?thesis by auto
  next
    fix data logs
    assume run: "ingest_alert E rs rival source a w =
       catch (andthen (begin_nested (ingest_new E source ?ext data logs)) (\<lambda>inc. ret (inc, False)))
         (\<lambda>e. case e of
             IntegrityError \<Rightarrow> andthen (look (find_alert source ?ext)) (\<lambda>again. case again of
                 None \<Rightarrow> raise IntegrityError | Some existing \<Rightarrow> ingest_duplicate existing)
           | _ \<Rightarrow> raise e) (rival w)"
    have ok: "world_ok E (rival w)" using assms(1,2) by (auto simp: harmless_def)
    show ?thesis
    proof (cases "\<exists>x \<in> set (alerts (live (rival w))). alert_key x = (source, ?ext)")
      case True
      then obtain x where x: "alerts_of source ?ext (live (rival w)) = [x]" "x \<in> set (alerts (live (rival w)))"
        using ok alerts_of_unique by (auto simp: world_ok_def db_inv_def)
      then obtain y where y: "find_alert source ?ext (live (rival w)) = Some y"
        using find_alert_None[of source ?ext "live (rival w)"] by auto
      have "y \<in> set (alerts_of source ?ext (live (rival w)))"
        using find_alert_Some[OF y] by (simp add: alerts_of_def)
      with x(1) have "y = x" by simp
      obtain w2 where w2: "ingest_new E source ?ext data logs (rival w) = (Inl IntegrityError, w2)"
        using ingest_new_run(1)[OF True] by blast
      let ?w3 = "w2\<lparr>live := live (rival w)\<rparr>"
      have "db_inv E (live ?w3) (ids (rival w))" using ok by (simp add: world_ok_def)
      from ingest_duplicate_run[OF this, of x] x obtain inc where
        "ingest_duplicate x ?w3 = (Inr (inc, True), ?w3)" "inc \<in> set (incidents (live ?w3))"
        "inc_id inc = al_incident_id x" by auto
      with assms(3) x y \<open>y = x\<close> show ?thesis
        by (auto simp: run catch_def andthen_def begin_nested_def w2)
    next
      case False
      obtain w2 al where w2: "ingest_new E source ?ext data logs (rival w) = (Inr (new_incident E data (rival w)), w2)"
          "incidents (live w2) = incidents (live (rival w)) @ [new_incident E data (rival w)]"
          "alerts (live w2) = alerts (live (rival w)) @ [al]" "alert_key al = (source, ?ext)"
          "al_incident_id al = inc_id (new_incident E data (rival w))"
        using ingest_new_run(2)[OF False] by blast
      have "alerts_of source ?ext (live (rival w)) = []"
        using False by (auto simp: alerts_of_def filter_empty_conv)
      moreover from this have "alerts_of source ?ext (live w2) = [al]"
        by (simp add: alerts_of_def w2)
      ultimately show ?thesis
        using assms(3) w2 by (auto simp: run catch_def andthen_def begin_nested_def)
    qed
  qed
qed


text \<open>A concrete session for the witnesses: a clock that counts and identifiers that are numerals.\<close>

definition sample_env :: env where
  "sample_env = \<lparr>clock = int, uuid = nat_text\<rparr>"

definition sample_alert :: NormalizedAlert where
  "sample_alert = \<lparr>na_external_id = ''7'', na_title = ''disk'', na_service = ''db'',
        na_severity = High, na_description = [], na_logs = []\<rparr>"

lemma sample_hyps: "harmless sample_env id" "world_ok sample_env new_world" "inj (uuid sample_env)"
proof -
  have "inj nat_text" by (metis injI digits_value_nat_text)
  then show "inj (uuid sample_env)" by (simp add: sample_env_def)
qed (simp_all add: harmless_def world_ok_def new_world_def db_inv_empty)

lemma sample_run:
  "\<exists>inc w'. ingest_alert sample_env (\<lambda>v. None) id ''zabbix'' sample_alert new_world = (Inr (inc, False), w')"
proof -
  have low: "is_lower c" if "c \<in> set ''diskdb''" for c
    using that by (auto simp: is_lower_def ord_def)
  have data: "alert_data sample_alert = Inr \<lparr>ic_title = ''disk'', ic_service = ''db'', ic_severity = High,
      ic_description = []\<rparr>"
    using alert_data_words[of sample_alert] low by (simp add: sample_alert_def)
  have none: "alerts_of s x (live new_world) = []" for s x
    by (simp add: alerts_of_def new_world_def empty_db_def)
  from ingest_alert_succeeds[OF data, of "\<lambda>v. None" "[]" "''zabbix''" new_world id sample_env] none
  show ?thesis by (auto simp: sample_alert_def)
qed

text \<open>C32. Ingesting an alert, even while other sessions commit between its look-up and its insertion,
  either fails and leaves no row behind, or ends with exactly one alert of that source identifier,
  attached to the incident it returns; it reports a duplicate exactly when it stored nothing, and
  otherwise it has stored one new incident.\<close>

theorem ingest_alert_once:
  assumes "harmless E rival" and "world_ok E w"
    and "ingest_alert E rs rival source a w = (r, w')"
  shows "case r of
      Inl e \<Rightarrow> live w' \<in> {live w, live (rival w)}
    | Inr (inc, duplicate) \<Rightarrow>
        inc \<in> set (incidents (live w')) \<and>
        (\<exists>al. alerts_of source (na_external_id a) (live w') = [al] \<and> al_incident_id al = inc_id inc) \<and>
        (if duplicate then live w' \<in> {live w, live (rival w)}
         else alerts_of source (na_external_id a) (live (rival w)) = [] \<and>
           incidents (live w') = incidents (live (rival w)) @ [inc])"
  using ingest_alert_unique[OF assms] .

theorem ingest_alert_once_witness:
  "\<exists>inc w'. ingest_alert sample_env (\<lambda>v. None) id ''zabbix'' sample_alert new_world = (Inr (inc, False), w') \<and>
     (\<exists>al. alerts_of ''zabbix'' ''7'' (live w') = [al] \<and> al_incident_id al = inc_id inc) \<and>
     incidents (live w') = [inc]"
proof -
  obtain inc w' where run: "ingest_alert sample_env (\<lambda>v. None) id ''zabbix'' sample_alert new_world = (Inr (inc, False), w')"
    using sample_run by blast
  from ingest_alert_once[OF sample_hyps(1,2) run]
  have "\<exists>al. alerts_of ''zabbix'' ''7'' (live w') = [al] \<and> al_incident_id al = inc_id inc"
    "incidents (live w') = [inc]"
    by (simp_all add: sample_alert_def new_world_def empty_db_def)
  with run show ?thesis by blast
qed

text \<open>A monitoring system that delivers an alert again gets the incident of the first delivery,
  marked as a duplicate, and nothing is stored, whatever else the second payload says.\<close>

lemma ingest_redelivery:
  assumes "harmless E rival" and "world_ok E w" and "inj (uuid E)"
    and "ingest_alert E rs rival source a w = (Inr (inc, duplicate), w')"
    and "na_external_id b = na_external_id a"
  shows "\<exists>inc'. ingest_alert E rs rival' source b w' = (Inr (inc', True), w') \<and> inc_id inc' = inc_id inc"
proof -
  from ingest_alert_unique[OF assms(1,2,4)] obtain al
    where al: "alerts_of source (na_external_id a) (live w') = [al]" "al_incident_id al = inc_id inc"
    by auto
  have w': "world_ok E w'"
    using keeps_world_ok[OF keeps_ingest_alert[OF assms(3,1)] assms(2,4)] .
  obtain x where x: "find_alert source (na_external_id b) (live w') = Some x"
    using find_alert_None[of source "na_external_id b" "live w'"] al assms(5) by auto
  have "x \<in> set (alerts_of source (na_external_id a) (live w'))"
    using find_alert_Some[OF x] assms(5) by (simp add: alerts_of_def)
  with al have "x = al" by simp
  obtain inc' where "ingest_duplicate x w' = (Inr (inc', True), w')" "inc_id inc' = al_incident_id x"
    using ingest_duplicate_run[of E w' "ids w'" x] find_alert_Some[OF x] w'
    by (auto simp: world_ok_def)
  with \<open>x = al\<close> al show ?thesis by (simp add: ingest_alert_found[OF x])
qed


lemma ingest_redelivery_example:
  "\<exists>inc w'. ingest_alert sample_env (\<lambda>v. None) id ''zabbix'' sample_alert new_world = (Inr (inc, False), w') \<and>
    (\<exists>inc'. ingest_alert sample_env (\<lambda>v. None) id ''zabbix'' (sample_alert\<lparr>na_title := ''other''\<rparr>) w' = (Inr (inc', True), w') \<and>
       inc_id inc' = inc_id inc)"
proof -
  obtain inc w' where run: "ingest_alert sample_env (\<lambda>v. None) id ''zabbix'' sample_alert new_world = (Inr (inc, False), w')"
    using sample_run by blast
  from ingest_redelivery[OF sample_hyps(1,2,3) run, of "sample_alert\<lparr>na_title := ''other''\<rparr>" id] run
  show ?thesis by auto
qed

end
