(* ===== verification/Reporting.thy ===== *)
theory Reporting
  imports Incidents
begin

text \<open>
  The dashboard of \<open>app/domain/incidents.py\<close>. Durations are exact rationals; \<open>round\<close> is rounding
  to even of the exact value, where the code computes with floats.
\<close>

subsection \<open>Rounding\<close>

definition round_even :: "rat \<Rightarrow> int" where
  "round_even q = (let n = \<lfloor>q\<rfloor>; f = q - of_int n
     in if f < 1 / 2 then n else if 1 / 2 < f then n + 1 else if even n then n else n + 1)"

definition round_digits :: "nat \<Rightarrow> rat \<Rightarrow> rat" where
  "round_digits k q = of_int (round_even (q * 10 ^ k)) / 10 ^ k"

lemma round_even_bounds: "\<lfloor>q\<rfloor> \<le> round_even q" "round_even q \<le> \<lfloor>q\<rfloor> + 1"
  by (simp_all add: round_even_def Let_def)

lemma round_even_int: "round_even (of_int n) = n"
  by (simp add: round_even_def)

lemma round_even_mono_int: "of_int a \<le> q \<Longrightarrow> a \<le> round_even q" "q \<le> of_int b \<Longrightarrow> round_even q \<le> b"
proof -
  show "of_int a \<le> q \<Longrightarrow> a \<le> round_even q"
    using round_even_bounds(1)[of q] by (simp add: le_floor_iff[symmetric])
  assume b: "q \<le> of_int b"
  show "round_even q \<le> b"
  proof (cases "q = of_int b")
    case False
    then have "\<lfloor>q\<rfloor> < b" using b by (simp add: floor_less_iff)
    then show ?thesis using round_even_bounds(2)[of q] by simp
  qed (simp add: round_even_int)
qed

lemma round_digits_range:
  assumes "of_int a \<le> q" and "q \<le> of_int b"
  shows "of_int a \<le> round_digits k q" and "round_digits k q \<le> of_int b"
proof -
  have "of_int (a * 10 ^ k) \<le> q * 10 ^ k" "q * 10 ^ k \<le> of_int (b * 10 ^ k)"
    using assms by (simp_all add: mult_right_mono)
  then have "a * 10 ^ k \<le> round_even (q * 10 ^ k)" "round_even (q * 10 ^ k) \<le> b * 10 ^ k"
    by (auto intro: round_even_mono_int)
  then have "of_int (a * 10 ^ k) \<le> (of_int (round_even (q * 10 ^ k)) :: rat)"
      "(of_int (round_even (q * 10 ^ k)) :: rat) \<le> of_int (b * 10 ^ k)"
    by (simp_all only: of_int_le_iff)
  then show "of_int a \<le> round_digits k q" "round_digits k q \<le> of_int b"
    by (simp_all add: round_digits_def field_simps)
qed

subsection \<open>The dashboard\<close>

definition minutes_between :: "time \<Rightarrow> time \<Rightarrow> rat" where
  "minutes_between from_t to_t = of_int (to_t - from_t) / of_int us_per_minute"

definition window_start :: "time \<Rightarrow> nat \<Rightarrow> time" where
  "window_start now days = midnight now - (int days - 1) * us_per_day"

definition in_window :: "time \<Rightarrow> nat \<Rightarrow> Incident list \<Rightarrow> Incident list" where
  "in_window now days rs =
     filter (\<lambda>r. window_start now days \<le> inc_created_at r \<and> inc_created_at r \<le> now) rs"

definition is_resolved :: "Incident \<Rightarrow> bool" where
  "is_resolved r = (inc_status r = ''resolved'' \<and> inc_resolved_at r \<noteq> None)"

definition resolution_minutes :: "Incident list \<Rightarrow> rat list" where
  "resolution_minutes rs =
     map (\<lambda>r. max 0 (minutes_between (inc_created_at r) (the (inc_resolved_at r)))) (filter is_resolved rs)"

definition acknowledgement_minutes :: "Incident list \<Rightarrow> rat list" where
  "acknowledgement_minutes rs =
     map (\<lambda>r. max 0 (minutes_between (inc_created_at r) (the (inc_acknowledged_at r))))
       (filter (\<lambda>r. inc_acknowledged_at r \<noteq> None) rs)"

definition overdue_active :: "time \<Rightarrow> rat \<Rightarrow> Incident list \<Rightarrow> nat" where
  "overdue_active now sla rs =
     length (filter (\<lambda>r. inc_status r \<noteq> ''resolved'' \<and> minutes_between (inc_created_at r) now > sla) rs)"

definition mean2 :: "rat list \<Rightarrow> rat option" where
  "mean2 xs = (if xs = [] then None else Some (round_digits 2 (sum_list xs / of_nat (length xs))))"

definition dashboard_of :: "time \<Rightarrow> nat \<Rightarrow> rat \<Rightarrow> Incident list \<Rightarrow> Dashboard" where
  "dashboard_of now days sla rows =
     (let rs = in_window now days rows; durations = resolution_minutes rs;
          resolved = length (filter is_resolved rs);
          eligible = length durations + overdue_active now sla rs;
          daily = map (\<lambda>r. iso_date (inc_created_at r)) rs
      in \<lparr>da_total = length rs, da_active = length rs - resolved, da_resolved = resolved,
          da_mttr_minutes = mean2 durations,
          da_acknowledgement_minutes = mean2 (acknowledgement_minutes rs),
          da_sla_compliance_percent =
            (if eligible = 0 then None
             else Some (round_digits 2
               (100 * of_nat (length (filter (\<lambda>x. x \<le> sla) durations)) / of_nat eligible))),
          da_sla_target_minutes = sla,
          da_by_severity = map (\<lambda>s. (s, count_list (map inc_severity rs) (severity_value s))) severities,
          da_daily_counts =
            map (\<lambda>i. let date = iso_date (window_start now days + int i * us_per_day)
              in (date, count_list daily date)) [0..<days],
          da_services = sort_desc snd (counter (map inc_service rs))\<rparr>)"

definition dashboard :: "env \<Rightarrow> nat \<Rightarrow> rat \<Rightarrow> Dashboard act" where
  "dashboard E days sla =
     andthen (utcnow E) (\<lambda>now. look (\<lambda>d. dashboard_of now days sla (incidents d)))"

subsection \<open>Its counts add up\<close>

lemma sum_severities:
  assumes "\<forall>r \<in> set rs. incident_ok r"
  shows "sum_list (map (\<lambda>s. count_list (map inc_severity rs) (severity_value s)) severities) = length rs"
proof -
  have "map severity_value severities = severity_texts"
    by (simp add: severities_def severity_texts_def)
  then have "map (\<lambda>s. count_list (map inc_severity rs) (severity_value s)) severities
      = map (count_list (map inc_severity rs)) severity_texts"
    by (metis (no_types, lifting) list.map_comp map_eq_conv comp_apply)
  moreover have "set (map inc_severity rs) \<subseteq> set severity_texts" "distinct severity_texts"
    using assms by (auto simp: incident_ok_def severity_texts_def)
  ultimately show ?thesis using sum_count_list_superset by fastforce
qed

lemma window_day:
  "day_ordinal (window_start now days + int i * us_per_day) = day_ordinal now - int days + 1 + int i"
proof -
  have "window_start now days + int i * us_per_day = midnight now + (int i - (int days - 1)) * us_per_day"
    by (simp add: window_start_def algebra_simps)
  then show ?thesis by (simp add: day_ordinal_midnight)
qed

lemma window_dates:
  assumes "1 \<le> days" and "int days \<le> day_ordinal now"
  shows "distinct (map (\<lambda>i. iso_date (window_start now days + int i * us_per_day)) [0..<days])"
    and "r \<in> set (in_window now days rows) \<Longrightarrow>
      iso_date (inc_created_at r) \<in> set (map (\<lambda>i. iso_date (window_start now days + int i * us_per_day)) [0..<days])"
proof -
  let ?t = "\<lambda>i::nat. window_start now days + int i * us_per_day"
  have rep: "representable (?t i)" for i
    using assms(2) window_day[of now days i] by (simp add: representable_def)
  show "distinct (map (\<lambda>i. iso_date (?t i)) [0..<days])"
    by (auto simp: distinct_map inj_on_def iso_date_inject rep window_day)
  assume r: "r \<in> set (in_window now days rows)"
  let ?c = "inc_created_at r"
  have lo: "day_ordinal now - int days + 1 \<le> day_ordinal ?c"
    using day_ordinal_mono[of "?t 0" ?c] r window_day[of now days 0] by (simp add: in_window_def)
  have hi: "day_ordinal ?c \<le> day_ordinal now"
    using day_ordinal_mono[of ?c now] r by (simp add: in_window_def)
  define i where "i = nat (day_ordinal ?c - (day_ordinal now - int days + 1))"
  have "int i = day_ordinal ?c - (day_ordinal now - int days + 1)"
    using lo by (simp add: i_def)
  then have i: "i < days" "day_ordinal (?t i) = day_ordinal ?c"
    using lo hi assms(1) window_day[of now days i] by linarith+
  have "representable ?c" using lo assms(2) by (simp add: representable_def)
  then have "iso_date ?c = iso_date (?t i)" using iso_date_inject[OF _ rep] i(2) by simp
  with i(1) show "iso_date ?c \<in> set (map (\<lambda>i. iso_date (?t i)) [0..<days])" by auto
qed

lemma percent_range:
  "n \<le> m \<Longrightarrow> m \<noteq> 0 \<Longrightarrow> 0 \<le> round_digits 2 (100 * of_nat n / of_nat m) \<and>
     round_digits 2 (100 * of_nat n / of_nat m) \<le> 100"
  using round_digits_range[of 0 "100 * of_nat n / of_nat m" 100 2]
  by (simp add: divide_le_eq)

lemma sum_list_nonneg': "(\<forall>x \<in> set xs. 0 \<le> x) \<Longrightarrow> 0 \<le> sum_list (xs :: rat list)"
  by (induction xs) auto

lemma mean2_nonneg: "\<forall>x \<in> set xs. 0 \<le> x \<Longrightarrow> mean2 xs = Some m \<Longrightarrow> 0 \<le> m"
proof -
  assume "\<forall>x \<in> set xs. 0 \<le> x" and "mean2 xs = Some m"
  then have m: "m = round_digits 2 (sum_list xs / of_nat (length xs))" and
    "0 \<le> sum_list xs / of_nat (length xs)"
    by (auto simp: mean2_def sum_list_nonneg' split: if_splits)
  then have "0 \<le> round_even (sum_list xs / of_nat (length xs) * 10 ^ 2)"
    by (intro round_even_mono_int) (simp only: of_int_0 zero_le_mult_iff, simp)
  then show ?thesis by (simp add: m round_digits_def)
qed

text \<open>C33. The figures of the dashboard are consistent: active and resolved incidents add up to the
  total, and so do the counts by severity, by day and by service; there is one entry per day of the
  window, services come in descending order, and the compliance is a percentage.\<close>

theorem dashboard_consistent:
  assumes "world_ok E w" and "1 \<le> days" and "int days \<le> day_ordinal (clock E (ticks w))"
    and "dashboard E days sla w = (Inr d, w')"
  shows "da_active d + da_resolved d = da_total d \<and>
    sum_list (map snd (da_by_severity d)) = da_total d \<and>
    sum_list (map snd (da_daily_counts d)) = da_total d \<and>
    sum_list (map snd (da_services d)) = da_total d \<and>
    length (da_daily_counts d) = days \<and>
    sorted_wrt (\<ge>) (map snd (da_services d)) \<and>
    (case da_sla_compliance_percent d of None \<Rightarrow> True | Some p \<Rightarrow> 0 \<le> p \<and> p \<le> 100) \<and>
    (case da_mttr_minutes d of None \<Rightarrow> da_resolved d = 0 | Some m \<Rightarrow> 0 \<le> m) \<and> live w' = live w"
proof -
  define now where "now = clock E (ticks w)"
  define rs where "rs = in_window now days (incidents (live w))"
  have d: "d = dashboard_of now days sla (incidents (live w))" and w': "live w' = live w"
    using assms(4) by (auto simp: dashboard_def now_def)
  have "\<forall>r \<in> set rs. incident_ok r"
    using assms(1) by (auto simp: rs_def in_window_def world_ok_def db_inv_def rows_ok_def)
  note sev = sum_severities[OF this]
  let ?date = "\<lambda>i::nat. iso_date (window_start now days + int i * us_per_day)"
  have "sum_list (map (count_list (map (\<lambda>r. iso_date (inc_created_at r)) rs)) (map ?date [0..<days]))
      = length (map (\<lambda>r. iso_date (inc_created_at r)) rs)"
    using window_dates[OF assms(2) assms(3)[folded now_def]] rs_def
    by (intro sum_count_list_superset) (auto simp only: set_map)
  then have daily: "sum_list (map snd (da_daily_counts d)) = length rs"
    by (simp add: d dashboard_of_def Let_def rs_def comp_def)
  have "mset (map snd (da_services d)) = mset (map snd (counter (map inc_service rs)))"
    by (simp add: d dashboard_of_def Let_def rs_def)
  then have services: "sum_list (map snd (da_services d)) = length rs"
    by (metis sum_mset_sum_list sum_counter length_map)
  have dl: "length (resolution_minutes rs) = length (filter is_resolved rs)"
    by (simp add: resolution_minutes_def)
  have pos: "\<forall>x \<in> set (resolution_minutes rs). 0 \<le> x"
    by (auto simp: resolution_minutes_def)
  have "sorted_wrt (\<lambda>x y. snd y \<le> snd x) (da_services d)"
    by (simp add: d dashboard_of_def Let_def sorted_sort_desc)
  then have sorted: "sorted_wrt (\<ge>) (map snd (da_services d))" by (simp add: sorted_wrt_map)
  have fl: "length (filter is_resolved rs) \<le> length rs" by (rule length_filter_le)
  have pc: "case da_sla_compliance_percent d of None \<Rightarrow> True | Some p \<Rightarrow> 0 \<le> p \<and> p \<le> 100"
    using percent_range[of "length (filter (\<lambda>x. x \<le> sla) (resolution_minutes rs))"
        "length (resolution_minutes rs) + overdue_active now sla rs"]
      length_filter_le[of "\<lambda>x. x \<le> sla" "resolution_minutes rs"]
    by (simp add: d dashboard_of_def Let_def rs_def trans_le_add1)
  have mt: "case da_mttr_minutes d of None \<Rightarrow> da_resolved d = 0 | Some m \<Rightarrow> 0 \<le> m"
    using mean2_nonneg[OF pos] dl
    by (auto simp: d dashboard_of_def Let_def rs_def[symmetric] mean2_def split: option.splits if_splits)
  show ?thesis
    using sev daily services sorted pc mt fl w'
    by (simp add: d dashboard_of_def Let_def rs_def comp_def)
qed


theorem dashboard_consistent_witness:
  "\<exists>d w. dashboard \<lparr>clock = (\<lambda>_. 1700000000000000), uuid = nat_text\<rparr> 30 60 new_world = (Inr d, w) \<and>
     da_total d = 0 \<and> length (da_daily_counts d) = 30 \<and> sum_list (map snd (da_daily_counts d)) = 0"
proof -
  let ?E = "\<lparr>clock = (\<lambda>_. 1700000000000000), uuid = nat_text\<rparr>"
  obtain d w where run: "dashboard ?E 30 60 new_world = (Inr d, w)"
    by (simp add: dashboard_def)
  have "world_ok ?E new_world" by (simp add: world_ok_def new_world_def db_inv_empty)
  moreover have "int 30 \<le> day_ordinal (clock ?E (ticks new_world))"
    by (simp add: day_ordinal_def us_per_day_def)
  ultimately have *: "sum_list (map snd (da_daily_counts d)) = da_total d \<and> length (da_daily_counts d) = 30"
    using dashboard_consistent[OF _ _ _ run] by simp
  have "da_total d = 0"
    using run by (auto simp: dashboard_def dashboard_of_def new_world_def empty_db_def in_window_def Let_def)
  with run * show ?thesis by auto
qed

end
