(* ===== verification/Http_Client.thy ===== *)
theory Http_Client
  imports Errors
begin

text \<open>
  \<open>app/integrations/http.py\<close>: a bounded request for a JSON object. What the network gives to each
  attempt, the float a header denotes and \<open>json.loads\<close> on the body are parameters.
\<close>

definition MAX_RESPONSE_BYTES :: nat where "MAX_RESPONSE_BYTES = 512000"

text \<open>What an attempt meets: an answer with its status, its \<open>Retry-After\<close> header and its chunks, a
  \<open>RequestError\<close>, or another exception.\<close>

datatype reply = Reply int "str option" "nat list list" | Unreachable | Fault exc

text \<open>A float as \<open>float(text)\<close> gives it, and \<open>min(max(x, 0), 3)\<close> of it.\<close>

datatype fnum = Finite rat | PosInf | NegInf | NaN

fun clamp_delay :: "fnum \<Rightarrow> fnum" where
  "clamp_delay (Finite q) = Finite (min (max q 0) 3)"
| "clamp_delay PosInf = Finite 3"
| "clamp_delay NegInf = Finite 0"
| "clamp_delay NaN = NaN"

definition backoff :: "nat \<Rightarrow> rat" where
  "backoff attempt = min (1 / 4 * 2 ^ attempt) 2"

definition transient :: "int \<Rightarrow> bool" where
  "transient status = (status \<in> {408, 429, 500, 502, 503, 504})"

definition is_success :: "int \<Rightarrow> bool" where
  "is_success status = (200 \<le> status \<and> status \<le> 299)"

fun read_chunks :: "nat list \<Rightarrow> nat list list \<Rightarrow> nat list option" where
  "read_chunks body [] = Some body"
| "read_chunks body (c # cs) =
     (if MAX_RESPONSE_BYTES < length (body @ c) then None else read_chunks (body @ c) cs)"

datatype step = Finished "(exc, dict) res" | Wait fnum

definition decode_body :: "(nat list \<Rightarrow> pyval option) \<Rightarrow> nat list list \<Rightarrow> (exc, dict) res" where
  "decode_body json_of chunks =
     (case read_chunks [] chunks of
        None \<Rightarrow> Inl (IntegrationError ''External response exceeded the size limit.''
          ''integration_invalid_response'' 503)
      | Some body \<Rightarrow> (case json_of body of
          Some (VDict d) \<Rightarrow> Inr d
        | _ \<Rightarrow> Inl (IntegrationError ''External service returned invalid JSON.''
            ''integration_invalid_response'' 503)))"

definition request_attempt ::
  "(nat list \<Rightarrow> pyval option) \<Rightarrow> (str \<Rightarrow> fnum option) \<Rightarrow> nat \<Rightarrow> nat \<Rightarrow> reply \<Rightarrow> step" where
  "request_attempt json_of read_float retries attempt r =
     (let delay = Finite (backoff attempt)
      in case r of
        Unreachable \<Rightarrow>
          (if retries \<le> attempt
           then Finished (Inl (IntegrationError
             ''External service could not be reached. For exports, check the destination before retrying.''
             ''integration_timeout'' 503))
           else Wait delay)
      | Fault e \<Rightarrow> Finished (Inl e)
      | Reply status retry_after chunks \<Rightarrow>
          (if transient status then
             (if attempt < retries
              then Wait (case retry_after of
                  None \<Rightarrow> clamp_delay delay
                | Some h \<Rightarrow> (case read_float h of None \<Rightarrow> delay | Some x \<Rightarrow> clamp_delay x))
              else Finished (Inl (IntegrationError
                ''External service is temporarily unavailable. Try again later.''
                (if status = 429 then ''integration_rate_limited'' else ''integration_unavailable'') 503)))
           else if \<not> is_success status
           then Finished (Inl (IntegrationError
             ''External service rejected the request. Check integration configuration.''
             ''integration_rejected'' 503))
           else Finished (decode_body json_of chunks)))"

definition budget_exhausted :: exc where
  "budget_exhausted = integration_error ''External service retry budget exhausted.''"

text \<open>The loop over the attempts left: the result, the waits between attempts and the number of
  requests sent.\<close>

fun request_loop :: "(nat list \<Rightarrow> pyval option) \<Rightarrow> (str \<Rightarrow> fnum option) \<Rightarrow> (nat \<Rightarrow> reply) \<Rightarrow> nat
    \<Rightarrow> nat \<Rightarrow> nat \<Rightarrow> (exc, dict) res \<times> fnum list \<times> nat" where
  "request_loop json_of read_float replies retries attempt 0 = (Inl budget_exhausted, [], 0)"
| "request_loop json_of read_float replies retries attempt (Suc left) =
     (case request_attempt json_of read_float retries attempt (replies attempt) of
        Finished r \<Rightarrow> (r, [], 1)
      | Wait d \<Rightarrow>
          (let (r, ds, sent) = request_loop json_of read_float replies retries (Suc attempt) left
           in (r, d # ds, Suc sent)))"

definition request_json :: "(nat list \<Rightarrow> pyval option) \<Rightarrow> (str \<Rightarrow> fnum option) \<Rightarrow> (nat \<Rightarrow> reply) \<Rightarrow> int
    \<Rightarrow> (exc, dict) res \<times> fnum list \<times> nat" where
  "request_json json_of read_float replies retries =
     (let n = nat (min (max retries 0) 3)
      in request_loop json_of read_float replies n 0 (Suc n))"

subsection \<open>Bounds of the loop\<close>

definition short_wait :: "fnum \<Rightarrow> bool" where
  "short_wait d = (d = NaN \<or> (\<exists>q. d = Finite q \<and> 0 \<le> q \<and> q \<le> 3))"

lemma short_wait_clamp: "short_wait (clamp_delay x)"
  by (cases x) (auto simp: short_wait_def)

lemma short_wait_backoff: "short_wait (Finite (backoff n))"
  by (auto simp: short_wait_def backoff_def min_def)

lemma request_attempt_Wait:
  "request_attempt json_of read_float retries attempt r = Wait d \<Longrightarrow> attempt < retries \<and> short_wait d"
  by (auto simp: request_attempt_def Let_def short_wait_clamp short_wait_backoff
      simp del: clamp_delay.simps split: reply.splits if_splits option.splits)

lemma read_chunks_small:
  "read_chunks b cs = Some body \<Longrightarrow> length b \<le> MAX_RESPONSE_BYTES \<Longrightarrow>
     length body \<le> MAX_RESPONSE_BYTES \<and> body = b @ concat cs"
proof (induction cs arbitrary: b)
  case (Cons c cs)
  then have "read_chunks (b @ c) cs = Some body" "length (b @ c) \<le> MAX_RESPONSE_BYTES"
    by (auto split: if_splits)
  from Cons.IH[OF this] show ?case by auto
qed simp

lemma request_attempt_Inr:
  "request_attempt json_of read_float retries attempt r = Finished (Inr d) \<Longrightarrow>
     \<exists>status h chunks. r = Reply status h chunks \<and> is_success status \<and>
       length (concat chunks) \<le> MAX_RESPONSE_BYTES \<and> json_of (concat chunks) = Some (VDict d)"
  by (auto simp: request_attempt_def decode_body_def Let_def
      split: reply.splits if_splits option.splits pyval.splits dest!: read_chunks_small)

lemma request_loop_bounds:
  assumes "attempt \<le> retries" and "retries < attempt + left"
  shows "case request_loop json_of read_float replies retries attempt left of (r, ds, sent) \<Rightarrow>
    1 \<le> sent \<and> attempt + sent \<le> Suc retries \<and> length ds = sent - 1 \<and> (\<forall>d \<in> set ds. short_wait d) \<and>
    request_attempt json_of read_float retries (attempt + sent - 1) (replies (attempt + sent - 1)) = Finished r"
  using assms
proof (induction left arbitrary: attempt)
  case (Suc left)
  show ?case
  proof (cases "request_attempt json_of read_float retries attempt (replies attempt)")
    case (Finished r)
    with Suc.prems show ?thesis by simp
  next
    case (Wait d)
    note w = request_attempt_Wait[OF Wait]
    obtain r ds sent where l: "request_loop json_of read_float replies retries (Suc attempt) left = (r, ds, sent)"
      by (cases "request_loop json_of read_float replies retries (Suc attempt) left") auto
    from Suc.IH[of "Suc attempt"] w Suc.prems have
      "1 \<le> sent \<and> Suc attempt + sent \<le> Suc retries \<and> length ds = sent - 1 \<and> (\<forall>d \<in> set ds. short_wait d) \<and>
       request_attempt json_of read_float retries (Suc attempt + sent - 1) (replies (Suc attempt + sent - 1)) = Finished r"
      by (simp add: l)
    with w show ?thesis by (auto simp: Wait l)
  qed
qed simp

text \<open>C35. A request is sent at least once and at most four times, and exactly once unless the caller
  asks for retries, so creation requests are never replayed; the waits between attempts are at most
  three seconds, or \<open>nan\<close> when the server says so; what is returned is the answer to the last attempt,
  a JSON object of at most 512000 bytes with a success status. The final \<open>raise\<close> is never reached.\<close>

theorem request_json_bounded:
  "case request_json json_of read_float replies retries of (r, waits, sent) \<Rightarrow>
     1 \<le> sent \<and> int sent \<le> max retries 0 + 1 \<and> sent \<le> 4 \<and> length waits = sent - 1 \<and>
     list_all short_wait waits \<and> (r = Inl budget_exhausted \<longrightarrow> replies (sent - 1) = Fault budget_exhausted) \<and>
     (case r of Inl e \<Rightarrow> True
      | Inr d \<Rightarrow> \<exists>status h chunks. replies (sent - 1) = Reply status h chunks \<and> is_success status \<and>
          length (concat chunks) \<le> 512000 \<and> json_of (concat chunks) = Some (VDict d))"
proof -
  let ?n = "nat (min (max retries 0) 3)"
  obtain r waits sent where l: "request_loop json_of read_float replies ?n 0 (Suc ?n) = (r, waits, sent)"
    by (cases "request_loop json_of read_float replies ?n 0 (Suc ?n)") auto
  from request_loop_bounds[of 0 ?n "Suc ?n" json_of read_float replies] l
  have b: "1 \<le> sent" "sent \<le> Suc ?n" "length waits = sent - 1" "\<forall>d \<in> set waits. short_wait d"
    "request_attempt json_of read_float ?n (sent - 1) (replies (sent - 1)) = Finished r"
    by auto
  have "r = Inl budget_exhausted \<longrightarrow> replies (sent - 1) = Fault budget_exhausted"
    using b(5) by (auto simp: request_attempt_def decode_body_def budget_exhausted_def integration_error_def
        Let_def split: reply.splits if_splits option.splits pyval.splits)
  moreover have "case r of Inl e \<Rightarrow> True
      | Inr d \<Rightarrow> \<exists>status h chunks. replies (sent - 1) = Reply status h chunks \<and> is_success status \<and>
          length (concat chunks) \<le> 512000 \<and> json_of (concat chunks) = Some (VDict d)"
    using b(5) by (cases r) (auto simp: MAX_RESPONSE_BYTES_def dest!: request_attempt_Inr)
  moreover have "int sent \<le> max retries 0 + 1" "sent \<le> 4" using b(2) by linarith+
  ultimately show ?thesis
    using b(1,3,4) unfolding request_json_def Let_def l list_all_iff prod.case by blast
qed

theorem request_json_bounded_witness:
  "request_json (\<lambda>b. Some (VDict [])) (\<lambda>h. Some NaN)
     (\<lambda>n. if n = 0 then Reply 503 None [] else Reply 200 None [[123, 125]]) 2 = (Inr [], [Finite (1/4)], 2)
   \<and> int 2 \<le> max 2 0 + 1"
proof -
  let ?q = "request_json (\<lambda>b. Some (VDict [])) (\<lambda>h. Some NaN)
     (\<lambda>n. if n = 0 then Reply 503 None [] else Reply 200 None [[123, 125]]) 2"
  have "?q = (Inr [], [Finite (1/4)], 2)"
  proof -
    have "nat (min (max 2 0) 3) = Suc (Suc 0)" by simp
    then show ?thesis
      by (simp add: request_json_def request_attempt_def backoff_def transient_def is_success_def
          decode_body_def MAX_RESPONSE_BYTES_def numeral_2_eq_2)
  qed
  with request_json_bounded[where json_of = "\<lambda>b. Some (VDict [])" and read_float = "\<lambda>h. Some NaN"
      and replies = "\<lambda>n. if n = 0 then Reply 503 None [] else Reply 200 None [[123, 125]]" and retries = 2]
  show ?thesis by simp
qed

end
