(* ===== verification/Network.thy ===== *)
theory Network
  imports Http_Client Config
begin

text \<open>
  The outside world as the integrations see it: what a request carries, and the record of the
  parameters that stand for the network and for the libraries that read its answers.
\<close>

record http_request =
  hr_method :: str
  hr_url :: str
  hr_headers :: "(str \<times> str) list"
  hr_auth :: "(str \<times> str) option"
  hr_json :: pyval

text \<open>\<open>net_reply r n\<close> is what the \<open>n\<close>-th attempt of request \<open>r\<close> meets; \<open>net_json\<close> and \<open>net_float\<close> read
  a body and a header; \<open>net_floats\<close> is \<open>repr(float(text))\<close>, which \<open>json.loads\<close> applies to a number
  with a fraction or an exponent; \<open>net_model_json\<close> is pydantic's JSON parser; \<open>net_schema\<close> the schema
  it generates for a model; \<open>net_late\<close> says whether the deadline of a call passes first.\<close>

record network =
  net_reply :: "http_request \<Rightarrow> nat \<Rightarrow> reply"
  net_json :: "nat list \<Rightarrow> pyval option"
  net_float :: "str \<Rightarrow> fnum option"
  net_floats :: "str \<Rightarrow> str"
  net_model_json :: "str \<Rightarrow> pyval option"
  net_schema :: pyval
  net_late :: bool

definition call :: "network \<Rightarrow> int \<Rightarrow> http_request \<Rightarrow> (exc, dict) res" where
  "call N retries req = fst (request_json (net_json N) (net_float N) (net_reply N req) retries)"

text \<open>Python's subscript of a decoded JSON value by \<open>0\<close> and by a text, and its \<open>.get\<close>.\<close>

definition first_item :: "pyval \<Rightarrow> (exc, pyval) res" where
  "first_item v = (case v of
      VList xs \<Rightarrow> (if xs = [] then Inl IndexError else Inr (hd xs))
    | VStr s \<Rightarrow> (if s = [] then Inl IndexError else Inr (VStr [hd s]))
    | VDict d \<Rightarrow> Inl KeyError
    | _ \<Rightarrow> Inl TypeError)"

definition dict_item :: "dict \<Rightarrow> str \<Rightarrow> (exc, pyval) res" where
  "dict_item d k = (case map_of d k of Some v \<Rightarrow> Inr v | None \<Rightarrow> Inl KeyError)"

definition text_item :: "pyval \<Rightarrow> str \<Rightarrow> (exc, pyval) res" where
  "text_item v k = (case v of VDict d \<Rightarrow> dict_item d k | _ \<Rightarrow> Inl TypeError)"

definition dot_get :: "pyval \<Rightarrow> str \<Rightarrow> (exc, pyval) res" where
  "dot_get v k = (case v of VDict d \<Rightarrow> Inr (get d k) | _ \<Rightarrow> Inl AttributeError)"

text \<open>A network on which nothing answers.\<close>

definition silent_network :: network where
  "silent_network = \<lparr>net_reply = (\<lambda>r n. Unreachable), net_json = (\<lambda>b. None), net_float = (\<lambda>h. None),
     net_floats = id, net_model_json = (\<lambda>s. None), net_schema = VNone, net_late = False\<rparr>"

end
