(* ===== verification/Prompt.thy ===== *)
theory Prompt
  imports Json
begin

text \<open>
  \<open>_bounded_context\<close> of \<open>app/ai/client.py\<close>: the context of an incident cut down to a prompt. The
  closure's two variables, the text budget and the flag, are threaded through \<open>compact\<close>.
\<close>

subsection \<open>The compaction\<close>

type_synonym budget = "nat \<times> bool"

text \<open>A comprehension with \<open>if remaining > 0\<close>: once the budget is used up the items are skipped.\<close>

fun thread :: "('a \<Rightarrow> budget \<Rightarrow> 'b \<times> budget) \<Rightarrow> 'a list \<Rightarrow> budget \<Rightarrow> 'b list \<times> budget" where
  "thread f [] st = ([], st)"
| "thread f (x # xs) st =
     (if fst st = 0 then thread f xs st
      else (let (y, st1) = f x st; (ys, st2) = thread f xs st1 in (y # ys, st2)))"

lemma thread_Cons:
  "thread f (x # xs) st =
     (if fst st = 0 then thread f xs st
      else (fst (f x st) # fst (thread f xs (snd (f x st))), snd (thread f xs (snd (f x st)))))"
  by (simp add: split_def Let_def)

lemma thread_cong [fundef_cong]:
  "xs = ys \<Longrightarrow> st = st' \<Longrightarrow> (\<And>x s. x \<in> set ys \<Longrightarrow> f x s = g x s) \<Longrightarrow> thread f xs st = thread g ys st'"
proof (induction xs arbitrary: ys st st')
  case (Cons x xs)
  have "f x = g x" using Cons.prems(1) by (intro ext Cons.prems(3)) auto
  moreover have "thread f xs = thread g xs"
    by (intro ext Cons.IH) (use Cons.prems in auto)
  ultimately show ?case using Cons.prems(1,2) by (auto simp: thread_Cons simp del: thread.simps)
qed simp

declare thread.simps(2) [simp del]

definition marker :: pyval where
  "marker = VStr ''[TRUNCATED]''"

function compact :: "nat \<Rightarrow> pyval \<Rightarrow> budget \<Rightarrow> pyval \<times> budget" where
  "compact depth v st =
     (if fst st = 0 \<or> depth > 8 then (marker, (fst st, True))
      else case v of
        VStr s \<Rightarrow>
          (let r = take (min (fst st) 3000) s
           in (VStr r, (fst st - length r, snd st \<or> length r < length s)))
      | VDict d \<Rightarrow>
          (let (kvs, st') = thread (\<lambda>(k, x) s. case compact (Suc depth) x s of
                 (y, s') \<Rightarrow> ((take 80 k, y), s')) (take 40 d) st;
               mapping = dict_of kvs
           in (VDict mapping, (fst st', snd st' \<or> length mapping < length d)))
      | VList xs \<Rightarrow>
          (let (items, st') = thread (compact (Suc depth)) (last_n 100 xs) st
           in (VList items, (fst st', snd st' \<or> length items < length xs)))
      | _ \<Rightarrow> (v, st))"
  by pat_completeness auto
termination
  by (relation "measure (\<lambda>(depth, v, st). 9 - depth)") auto

declare compact.simps [simp del]

definition set_item :: "str \<Rightarrow> pyval \<Rightarrow> dict \<Rightarrow> dict" where
  "set_item k v d = AList.update k v d"

definition bounded_context :: "dict \<Rightarrow> str" where
  "bounded_context context =
     (case compact 0 (redact_value (VDict context)) (24000, False) of
        (VDict safe, (_, truncated)) \<Rightarrow>
          (let encoded = dumps dump_unicode (VDict (set_item ''_context_truncated'' (VBool truncated) safe))
           in if 40000 < length encoded
              then dumps dump_default (VDict
                [(''context_excerpt'', VStr (redact (take 24000 encoded))),
                 (''_context_truncated'', VBool True)])
              else encoded)
      | _ \<Rightarrow> [])"

subsection \<open>The equations of \<open>compact\<close>\<close>

lemma compact_stop: "fst st = 0 \<or> 8 < n \<Longrightarrow> compact n v st = (marker, (fst st, True))"
  by (subst compact.simps) simp

lemma compact_VStr:
  "0 < fst st \<Longrightarrow> depth \<le> 8 \<Longrightarrow> compact depth (VStr s) st =
     (VStr (take (min (fst st) 3000) s),
      (fst st - min (length s) (min (fst st) 3000), snd st \<or> min (length s) (min (fst st) 3000) < length s))"
  by (simp add: compact.simps[of depth "VStr s"] Let_def)

lemma compact_VDict:
  "0 < fst st \<Longrightarrow> depth \<le> 8 \<Longrightarrow> compact depth (VDict d) st =
     (let (kvs, st') = thread (\<lambda>(k, x) s. case compact (Suc depth) x s of
            (y, s') \<Rightarrow> ((take 80 k, y), s')) (take 40 d) st
      in (VDict (dict_of kvs), (fst st', snd st' \<or> length (dict_of kvs) < length d)))"
  by (simp add: compact.simps[of depth "VDict d"] Let_def)

lemma compact_VList:
  "0 < fst st \<Longrightarrow> depth \<le> 8 \<Longrightarrow> compact depth (VList xs) st =
     (let (items, st') = thread (compact (Suc depth)) (last_n 100 xs) st
      in (VList items, (fst st', snd st' \<or> length items < length xs)))"
  by (simp add: compact.simps[of depth "VList xs"] Let_def)

lemma compact_scalar:
  "0 < fst st \<Longrightarrow> n \<le> 8 \<Longrightarrow> compact n VNone st = (VNone, st)"
  "0 < fst st \<Longrightarrow> n \<le> 8 \<Longrightarrow> compact n (VBool b) st = (VBool b, st)"
  "0 < fst st \<Longrightarrow> n \<le> 8 \<Longrightarrow> compact n (VInt i) st = (VInt i, st)"
  "0 < fst st \<Longrightarrow> n \<le> 8 \<Longrightarrow> compact n (VFloat f) st = (VFloat f, st)"
  by (simp_all add: compact.simps[of n VNone] compact.simps[of n "VBool b"]
      compact.simps[of n "VInt i"] compact.simps[of n "VFloat f"])

text \<open>The induction that all facts below use: strings and scalars are given, containers get the
  hypothesis for their members.\<close>

lemma compact_induct [case_names stop str scalar list dict]:
  assumes stop: "\<And>n v st. fst st = 0 \<or> 8 < n \<Longrightarrow> P n v st"
    and str: "\<And>n s st. 0 < fst st \<Longrightarrow> n \<le> 8 \<Longrightarrow> P n (VStr s) st"
    and scalar: "\<And>n v st. 0 < fst st \<Longrightarrow> n \<le> 8 \<Longrightarrow> compact n v st = (v, st) \<Longrightarrow>
      v = VNone \<or> (\<exists>b. v = VBool b) \<or> (\<exists>i. v = VInt i) \<or> (\<exists>f. v = VFloat f) \<Longrightarrow> P n v st"
    and list: "\<And>n xs st. 0 < fst st \<Longrightarrow> n \<le> 8 \<Longrightarrow> (\<And>x s. x \<in> set xs \<Longrightarrow> P (Suc n) x s) \<Longrightarrow> P n (VList xs) st"
    and dict: "\<And>n d st. 0 < fst st \<Longrightarrow> n \<le> 8 \<Longrightarrow> (\<And>k x s. (k, x) \<in> set d \<Longrightarrow> P (Suc n) x s) \<Longrightarrow> P n (VDict d) st"
  shows "P n v st"
proof (induction "9 - n" arbitrary: n v st)
  case (0 n v st)
  then show ?case by (intro stop) simp
next
  case (Suc m n v st)
  have IH: "P (Suc n) x s" for x s by (rule Suc.hyps(1)) (use Suc.hyps(2) in simp)
  show ?case
  proof (cases "fst st = 0 \<or> 8 < n")
    case False
    then have pos: "0 < fst st" "n \<le> 8" by auto
    show ?thesis
    proof (cases v)
      case (VDict d)
      show ?thesis unfolding VDict by (rule dict[OF pos]) (rule IH)
    next
      case (VList xs)
      show ?thesis unfolding VList by (rule list[OF pos]) (rule IH)
    next
      case (VStr s)
      show ?thesis unfolding VStr by (rule str[OF pos])
    qed (use pos in \<open>simp_all add: compact_scalar scalar\<close>)
  qed (rule stop)
qed

subsection \<open>The shape of what is kept\<close>

fun shaped :: "nat \<Rightarrow> pyval \<Rightarrow> bool" where
  "shaped n (VStr s) = (length s \<le> 3000)"
| "shaped n (VDict d) = (0 < n \<and> length d \<le> 40 \<and> (\<forall>(k, v) \<in> set d. length k \<le> 80 \<and> shaped (n - 1) v))"
| "shaped n (VList xs) = (0 < n \<and> length xs \<le> 100 \<and> (\<forall>v \<in> set xs. shaped (n - 1) v))"
| "shaped n _ = True"

lemma thread_all:
  assumes "\<And>x s. x \<in> set xs \<Longrightarrow> R (fst (f x s))"
  shows "\<forall>y \<in> set (fst (thread f xs st)). R y"
  using assms by (induction xs arbitrary: st) (auto simp: thread_Cons)

lemma length_thread: "length (fst (thread f xs st)) \<le> length xs"
  by (induction xs arbitrary: st) (auto simp: thread_Cons le_SucI)

lemma length_update_le: "length (AList.update k v d) \<le> Suc (length d)"
  by (induction d) auto

lemma length_dict_of: "length (dict_of kvs) \<le> length kvs"
proof -
  have "length (fold (\<lambda>(k, v) d. AList.update k v d) kvs d) \<le> length kvs + length d" for d
  proof (induction kvs arbitrary: d)
    case (Cons kv kvs)
    obtain k v where "kv = (k, v)" by (cases kv)
    with Cons[of "AList.update k v d"] length_update_le[of k v d] show ?case by simp
  qed simp
  from this[of "[]"] show ?thesis by (simp add: dict_of_def)
qed

lemma fst_case_pair: "fst (case p of (a, b) \<Rightarrow> ((g a, a'), b)) = (g (fst p), a')"
  by (simp add: split_def)

lemma compact_shaped: "shaped (9 - n) (fst (compact n v st))"
proof (induction n v st rule: compact_induct)
  case (stop n v st)
  then show ?case by (simp add: compact_stop marker_def)
next
  case (str n s st)
  then show ?case by (simp add: compact_VStr)
next
  case (scalar n v st)
  then show ?case by auto
next
  case (list n xs st)
  have "\<forall>y \<in> set (fst (thread (compact (Suc n)) (last_n 100 xs) st)). shaped (8 - n) y"
    by (rule thread_all) (use list in \<open>auto dest: last_n_subset\<close>)
  moreover have "length (fst (thread (compact (Suc n)) (last_n 100 xs) st)) \<le> 100"
    using length_thread[of "compact (Suc n)" "last_n 100 xs" st] by simp
  ultimately show ?case using list by (simp add: compact_VList split_def Let_def)
next
  case (dict n d st)
  let ?f = "\<lambda>(k, x) s. case compact (Suc n) x s of (y, s') \<Rightarrow> ((take 80 k, y), s')"
  have "\<forall>y \<in> set (fst (thread ?f (take 40 d) st)). length (fst y) \<le> 80 \<and> shaped (8 - n) (snd y)"
    by (rule thread_all) (use dict in \<open>auto simp: split_def dest: in_set_takeD\<close>)
  then have "\<forall>y \<in> set (dict_of (fst (thread ?f (take 40 d) st))). length (fst y) \<le> 80 \<and> shaped (8 - n) (snd y)"
    using dict_of_mem by blast
  moreover have "length (dict_of (fst (thread ?f (take 40 d) st))) \<le> 40"
    using length_dict_of[of "fst (thread ?f (take 40 d) st)"] length_thread[of ?f "take 40 d" st] by simp
  ultimately show ?case using dict by (simp add: compact_VDict split_def Let_def)
qed

lemma json_ok_redact: "json_ok fl v \<Longrightarrow> json_ok fl (redact_at n v)"
proof (induction n v rule: redact_at.induct)
  case (1 n v)
  show ?case
  proof (cases "12 < n")
    case False
    then have n: "n \<le> 12" by simp
    show ?thesis
    proof (cases v)
      case (VDict d)
      have "json_ok fl (redact_at (Suc n) x)" if "(k, x) \<in> set d" "\<not> is_secret_key k" for k x
        using "1.IH"(2)[OF False VDict that(1) refl that(2)] "1.prems" VDict that(1) by auto
      then show ?thesis
        by (auto simp: VDict n distinct_dict_of dest!: dict_of_mem)
    next
      case (VList xs)
      with 1 False n show ?thesis by auto
    qed (use 1 n in auto)
  qed simp
qed

lemma compact_json_ok: "json_ok fl v \<Longrightarrow> json_ok fl (fst (compact n v st))"
proof (induction n v st rule: compact_induct)
  case (stop n v st)
  then show ?case by (simp add: compact_stop marker_def)
next
  case (str n s st)
  then show ?case by (simp add: compact_VStr)
next
  case (list n xs st)
  have "\<forall>y \<in> set (fst (thread (compact (Suc n)) (last_n 100 xs) st)). json_ok fl y"
    by (rule thread_all) (use list in \<open>auto dest: last_n_subset\<close>)
  then show ?case using list by (simp add: compact_VList split_def Let_def)
next
  case (dict n d st)
  let ?f = "\<lambda>(k, x) s. case compact (Suc n) x s of (y, s') \<Rightarrow> ((take 80 k, y), s')"
  have "json_ok fl (fst (compact (Suc n) x s))" if "(k, x) \<in> set (take 40 d)" for k x s
    by (rule dict(3)) (use dict(4) in_set_takeD[OF that] in auto)
  then have "\<forall>y \<in> set (fst (thread ?f (take 40 d) st)). json_ok fl (snd y)"
    by (intro thread_all) (auto simp: split_def)
  then have "\<forall>y \<in> set (dict_of (fst (thread ?f (take 40 d) st))). json_ok fl (snd y)"
    using dict_of_mem by blast
  then show ?case using dict by (auto simp: compact_VDict split_def Let_def distinct_dict_of)
qed simp

subsection \<open>The budget\<close>

text \<open>The characters of the strings kept, markers aside.\<close>

fun kept :: "pyval \<Rightarrow> nat" where
  "kept (VStr s) = (if VStr s = marker then 0 else length s)"
| "kept (VDict d) = sum_list (map (\<lambda>(k, v). kept v) d)"
| "kept (VList xs) = sum_list (map kept xs)"
| "kept _ = 0"

lemma thread_budget:
  assumes "\<And>x s. x \<in> set xs \<Longrightarrow> g (fst (f x s)) + fst (snd (f x s)) \<le> fst s"
  shows "sum_list (map g (fst (thread f xs st))) + fst (snd (thread f xs st)) \<le> fst st"
  using assms
proof (induction xs arbitrary: st)
  case (Cons x xs)
  have "g (fst (f x st)) + fst (snd (f x st)) \<le> fst st" by (rule Cons.prems) simp
  moreover have "sum_list (map g (fst (thread f xs s))) + fst (snd (thread f xs s)) \<le> fst s" for s
    by (rule Cons.IH, rule Cons.prems) simp
  from this[of st] this[of "snd (f x st)"] calculation show ?case by (auto simp: thread_Cons)
qed simp

lemma sum_dict_of: "sum_list (map (\<lambda>(k, v). g v) (dict_of kvs)) \<le> sum_list (map (\<lambda>(k, v). (g v :: nat)) kvs)"
proof -
  have update: "sum_list (map (\<lambda>(k, v). g v) (AList.update k v d)) \<le> g v + sum_list (map (\<lambda>(k, v). g v) d)" for k v d
    by (induction d) auto
  have "sum_list (map (\<lambda>(k, v). g v) (fold (\<lambda>(k, v) d. AList.update k v d) kvs d))
      \<le> sum_list (map (\<lambda>(k, v). g v) kvs) + sum_list (map (\<lambda>(k, v). g v) d)" for d
  proof (induction kvs arbitrary: d)
    case (Cons kv kvs)
    obtain k v where "kv = (k, v)" by (cases kv)
    with Cons[of "AList.update k v d"] update[of k v d] show ?case by simp
  qed simp
  from this[of "[]"] show ?thesis by (simp add: dict_of_def)
qed

lemma compact_budget: "kept (fst (compact n v st)) + fst (snd (compact n v st)) \<le> fst st"
proof (induction n v st rule: compact_induct)
  case (stop n v st)
  then show ?case by (simp add: compact_stop marker_def)
next
  case (str n s st)
  then show ?case by (simp add: compact_VStr)
next
  case (scalar n v st)
  then show ?case by auto
next
  case (list n xs st)
  have "sum_list (map kept (fst (thread (compact (Suc n)) (last_n 100 xs) st)))
      + fst (snd (thread (compact (Suc n)) (last_n 100 xs) st)) \<le> fst st"
    by (rule thread_budget, rule list(3)) (rule last_n_subset)
  then show ?case using list(1,2) by (simp add: compact_VList split_def Let_def)
next
  case (dict n d st)
  let ?f = "\<lambda>(k, x) s. case compact (Suc n) x s of (y, s') \<Rightarrow> ((take 80 k, y), s')"
  have "(case fst (?f kx s) of (k, y) \<Rightarrow> kept y) + fst (snd (?f kx s)) \<le> fst s"
    if "kx \<in> set (take 40 d)" for kx s
    using dict(3)[of "fst kx" "snd kx" s] in_set_takeD[OF that] by (simp add: split_def)
  then have "sum_list (map (\<lambda>(k, y). kept y) (fst (thread ?f (take 40 d) st)))
      + fst (snd (thread ?f (take 40 d) st)) \<le> fst st"
    by (rule thread_budget)
  with sum_dict_of[of kept "fst (thread ?f (take 40 d) st)"] show ?case
    using dict(1,2) by (simp add: compact_VDict split_def Let_def)
qed

subsection \<open>What is kept when nothing is flagged as truncated\<close>

fun cut_keys :: "pyval \<Rightarrow> pyval" where
  "cut_keys (VDict d) = VDict (map (\<lambda>(k, v). (take 80 k, cut_keys v)) d)"
| "cut_keys (VList xs) = VList (map cut_keys xs)"
| "cut_keys v = v"

lemma thread_exact:
  assumes "\<And>x s. x \<in> set xs \<Longrightarrow> \<not> snd (snd (f x s)) \<Longrightarrow> fst (f x s) = h x \<and> \<not> snd s"
    and "\<not> snd (snd (thread f xs st))" and "length xs \<le> length (fst (thread f xs st))"
  shows "fst (thread f xs st) = map h xs \<and> \<not> snd st"
  using assms
proof (induction xs arbitrary: st)
  case (Cons x xs)
  show ?case
  proof (cases "fst st = 0")
    case True
    with Cons.prems(3) length_thread[of f xs st] show ?thesis by (simp add: thread_Cons)
  next
    case False
    have "fst (thread f xs (snd (f x st))) = map h xs \<and> \<not> snd (snd (f x st))"
      by (rule Cons.IH) (use Cons.prems False in \<open>auto simp: thread_Cons\<close>)
    with Cons.prems(1)[of x st] False show ?thesis by (simp add: thread_Cons)
  qed
qed simp

lemma dict_of_full: "length kvs \<le> length (dict_of kvs) \<Longrightarrow> dict_of kvs = kvs"
proof -
  assume le: "length kvs \<le> length (dict_of kvs)"
  have "fst ` set (dict_of kvs) \<subseteq> fst ` set kvs" using set_dict_of by fast
  then have "card (fst ` set (dict_of kvs)) \<le> card (fst ` set kvs)" by (intro card_mono) auto
  moreover have "card (fst ` set (dict_of kvs)) = length (dict_of kvs)"
    using distinct_card[OF distinct_dict_of[of kvs]] by simp
  ultimately have "card (set (map fst kvs)) = length (map fst kvs)"
    using le card_length[of "map fst kvs"] by simp
  then show ?thesis by (intro dict_of_distinct) (rule card_distinct)
qed

lemma compact_exact:
  "\<not> snd (snd (compact n v st)) \<Longrightarrow> fst (compact n v st) = cut_keys v \<and> \<not> snd st"
proof (induction n v st rule: compact_induct)
  case (stop n v st)
  then show ?case by (simp add: compact_stop)
next
  case (str n s st)
  then show ?case by (auto simp: compact_VStr)
next
  case (scalar n v st)
  then show ?case by auto
next
  case (list n xs st)
  let ?t = "thread (compact (Suc n)) (last_n 100 xs) st"
  have flags: "\<not> snd (snd ?t)" "length xs \<le> length (fst ?t)"
    using list(1,2,4) by (auto simp: compact_VList split_def Let_def)
  have "length (fst ?t) \<le> min 100 (length xs)" using length_thread[of "compact (Suc n)" "last_n 100 xs" st] by simp
  then have whole: "last_n 100 xs = xs" using flags(2) by (simp add: last_n_def)
  have "fst ?t = map cut_keys (last_n 100 xs) \<and> \<not> snd st"
    by (rule thread_exact) (use list(3) flags whole in auto)
  then show ?case using list(1,2) whole by (simp add: compact_VList split_def Let_def)
next
  case (dict n d st)
  let ?f = "\<lambda>(k, x) s. case compact (Suc n) x s of (y, s') \<Rightarrow> ((take 80 k, y), s')"
  let ?t = "thread ?f (take 40 d) st"
  have flags: "\<not> snd (snd ?t)" "length d \<le> length (dict_of (fst ?t))"
    using dict(1,2,4) by (auto simp: compact_VDict split_def Let_def)
  have len: "length (dict_of (fst ?t)) \<le> length (fst ?t)" "length (fst ?t) \<le> min 40 (length d)"
    using length_dict_of[of "fst ?t"] length_thread[of ?f "take 40 d" st] by auto
  have "length d \<le> 40" using flags(2) len by linarith
  moreover have "length (fst ?t) \<le> length (dict_of (fst ?t))" using flags(2) len by linarith
  ultimately have whole: "take 40 d = d" "dict_of (fst ?t) = fst ?t"
    by (simp_all only: take_all dict_of_full)
  have "fst ?t = map (\<lambda>(k, v). (take 80 k, cut_keys v)) (take 40 d) \<and> \<not> snd st"
  proof (rule thread_exact)
    fix kx s assume "kx \<in> set (take 40 d)" "\<not> snd (snd (?f kx s))"
    then show "fst (?f kx s) = (case kx of (k, v) \<Rightarrow> (take 80 k, cut_keys v)) \<and> \<not> snd s"
      using dict(3)[of "fst kx" "snd kx" s] whole(1) by (simp add: split_def)
  next
    show "length (take 40 d) \<le> length (fst ?t)"
      using flags(2) len(1) length_take[of 40 d] by linarith
  qed (rule flags(1))
  then show ?case using dict(1,2) whole by (simp add: compact_VDict split_def Let_def)
qed

subsection \<open>The prompt\<close>

abbreviation truncated_key :: str where
  "truncated_key \<equiv> ''_context_truncated''"

lemma redact_value_dict: "\<exists>e. redact_value (VDict d) = VDict e"
  by (simp add: redact_value_def)

lemma compact_dict: "\<exists>e. fst (compact 0 (VDict d) (24000, b)) = VDict e"
  by (simp add: compact_VDict split_def Let_def)

lemma json_ok_set_item:
  assumes "json_ok fl (VDict d)"
  shows "json_ok fl (VDict (set_item k (VBool b) d))"
  using assms set_update_subset[of k "VBool b" d]
  by (auto simp: set_item_def AList.distinct_update)

lemma bounded_context_parts:
  assumes "compact 0 (redact_value (VDict c)) (24000, False) = (VDict safe, (n, t))"
  shows "bounded_context c =
     (let encoded = dumps dump_unicode (VDict (set_item truncated_key (VBool t) safe))
      in if 40000 < length encoded
         then dumps dump_default (VDict [(''context_excerpt'', VStr (redact (take 24000 encoded))),
           (truncated_key, VBool True)])
         else encoded)"
  by (simp add: bounded_context_def assms)

lemma bounded_context_loads:
  assumes "json_ok fl (VDict c)"
  shows "\<exists>d t. json_loads fl (bounded_context c) = Some (VDict d) \<and> json_ok fl (VDict d) \<and>
     map_of d truncated_key = Some (VBool t) \<and>
     (\<not> t \<longrightarrow> (\<exists>e. cut_keys (redact_value (VDict c)) = VDict e \<and> d = set_item truncated_key (VBool False) e))"
proof -
  obtain r where r: "redact_value (VDict c) = VDict r" using redact_value_dict by blast
  obtain safe n t where run: "compact 0 (VDict r) (24000, False) = (VDict safe, (n, t))"
    using compact_dict[of r False] by (metis prod.collapse)
  have "json_ok fl (VDict r)"
    using json_ok_redact[OF assms, of 0] r by (simp add: redact_value_def)
  then have safe: "json_ok fl (VDict safe)"
    using compact_json_ok[of fl "VDict r" 0 "(24000, False)"] run by simp
  have opts: "plain_opts dump_unicode" "plain_opts dump_default"
    by (simp_all add: plain_opts_def dump_unicode_def dump_default_def)
  let ?d = "set_item truncated_key (VBool t) safe"
  let ?x = "[(''context_excerpt'', VStr (redact (take 24000 (dumps dump_unicode (VDict ?d))))),
      (truncated_key, VBool True)]"
  show ?thesis
  proof (cases "40000 < length (dumps dump_unicode (VDict ?d))")
    case True
    have ok: "json_ok fl (VDict ?x)" by simp
    have "bounded_context c = dumps dump_default (VDict ?x)"
      using bounded_context_parts run r True by (simp add: Let_def del: dumps.simps)
    with json_loads_dumps[OF opts(2) ok]
    have "json_loads fl (bounded_context c) = Some (VDict ?x)" by (simp only:)
    moreover have "map_of ?x truncated_key = Some (VBool True)" by simp
    ultimately show ?thesis using ok by blast
  next
    case False
    then have "bounded_context c = dumps dump_unicode (VDict ?d)"
      using bounded_context_parts run r by (simp add: Let_def del: dumps.simps)
    then have "json_loads fl (bounded_context c) = Some (VDict ?d)"
      using json_loads_dumps[OF opts(1) json_ok_set_item[OF safe]] by (simp only:)
    moreover have "map_of ?d truncated_key = Some (VBool t)"
      by (simp add: set_item_def AList.update_conv')
    moreover have "\<not> t \<Longrightarrow> cut_keys (VDict r) = VDict safe"
      using compact_exact[of 0 "VDict r" "(24000, False)"] run by simp
    ultimately show ?thesis using json_ok_set_item[OF safe] r by (metis (full_types))
  qed
qed

text \<open>C27. The prompt sent to a model, and read back by the demo analysis, is a JSON object that says
  whether context was cut; when it says that nothing was, it decodes to the whole filtered context,
  except that keys longer than 80 characters are shortened (which the flag does not report).\<close>

theorem prompt_decodes:
  assumes "json_ok fl (VDict c)"
  shows "\<exists>d t. json_loads fl (bounded_context c) = Some (VDict d) \<and>
     map_of d truncated_key = Some (VBool t) \<and>
     (\<not> t \<longrightarrow> (\<exists>e. cut_keys (redact_value (VDict c)) = VDict e \<and> d = set_item truncated_key (VBool False) e))"
  using bounded_context_loads[OF assms] by blast

theorem prompt_decodes_witness:
  "\<exists>d t. json_loads id (bounded_context [(''logs'', VList [VInt 3])]) = Some (VDict d) \<and>
     map_of d truncated_key = Some (VBool t)"
  using prompt_decodes[of id "[(''logs'', VList [VInt 3])]"] by auto

text \<open>Whatever the context, at most 24000 characters of its texts survive the compaction, each
  string has at most 3000, each object 40 members with keys of at most 80, each array 100 items,
  and nothing lies deeper than nine levels.\<close>

lemma prompt_bounds:
  "kept (fst (compact 0 v (24000, False))) \<le> 24000 \<and> shaped 9 (fst (compact 0 v (24000, False)))"
  using compact_budget[of 0 v "(24000, False)"] compact_shaped[of 0 v "(24000, False)"] by simp

text \<open>C28. Nothing stored under a secret key influences the prompt: contexts that differ only there
  give the same prompt.\<close>

theorem prompt_hides_secrets:
  assumes "mask (VDict c) = mask (VDict c')"
  shows "bounded_context c = bounded_context c'"
proof -
  have "redact_value (VDict c) = redact_value (VDict c')"
    using redact_value_mask[of "VDict c"] redact_value_mask[of "VDict c'"] unfolding assms by simp
  then show ?thesis unfolding bounded_context_def by (rule arg_cong)
qed

theorem prompt_hides_secrets_witness:
  "bounded_context [(''password'', VStr ''hunter2''), (''n'', VInt 1)] =
   bounded_context [(''password'', VStr ''tr0ub4dor''), (''n'', VInt 1)]"
proof (rule prompt_hides_secrets)
  have "is_secret_key ''password''" by code_simp
  then show "mask (VDict [(''password'', VStr ''hunter2''), (''n'', VInt 1)]) =
      mask (VDict [(''password'', VStr ''tr0ub4dor''), (''n'', VInt 1)])" by simp
qed

end
