(* ===== verification/Prose.thy ===== *)
theory Prose
  imports Redaction
begin

text \<open>
  The privacy filter leaves the program's own sentences alone: texts of letters, blanks and the usual
  punctuation, without a credential word where one would introduce a value.
\<close>

definition prose_char :: "char \<Rightarrow> bool" where
  "prose_char c = (is_alpha c \<or> c \<in> set '' .,:;*'')"

definition credential_words :: "str list" where
  "credential_words =
     [''password'', ''passwd'', ''pwd'', ''secret'', ''api'', ''access'', ''refresh'', ''token'',
      ''authorization'', ''cookie'', ''client'', ''aws'', ''sig'', ''x-amz-signature'']"

definition prose :: "str \<Rightarrow> bool" where
  "prose s =
     (list_all prose_char s \<and> \<not> contains ''bearer'' (lower s) \<and> \<not> contains ''basic'' (lower s) \<and>
      \<not> contains ''AKIA'' s \<and> \<not> contains ''ASIA'' s \<and> \<not> contains ''eyJ'' s \<and>
      (CHR '':'' \<in> set s \<longrightarrow> list_all (\<lambda>w. \<not> contains w (lower s)) credential_words))"

text \<open>A pattern that matches at no position changes nothing.\<close>

lemma sub_id:
  assumes "\<And>pv u. suffix u s \<Longrightarrow> match_at r pv u = None"
  shows "sub r t pv s = s"
  using assms
proof (induction s arbitrary: pv)
  case Nil
  from Nil[of "[]"] show ?case by (subst sub.simps) simp
next
  case (Cons c s)
  have "match_at r pv (c # s) = None" by (rule Cons.prems) simp
  moreover have "sub r t pv' s = s" for pv'
    by (rule Cons.IH) (use Cons.prems in \<open>simp add: suffix_ConsI\<close>)
  ultimately show ?case by (subst sub.simps) simp
qed

lemma not_contains_suffix:
  "\<not> contains w (lower s) \<Longrightarrow> suffix u s \<Longrightarrow> \<not> prefix w (lower u)"
proof
  assume no: "\<not> contains w (lower s)" and "suffix u s" and "prefix w (lower u)"
  then obtain a b where "s = a @ u" "lower u = w @ b" by (auto simp: suffix_def prefix_def)
  then have "lower s = lower a @ w @ b" by simp
  with no show False by (simp add: contains_iff_sublist)
qed

lemma not_contains_suffix': "\<not> contains w s \<Longrightarrow> suffix u s \<Longrightarrow> \<not> prefix w u"
  by (auto simp: contains_iff_sublist suffix_def sublist_def prefix_def)

lemma prose_suffix: "prose s \<Longrightarrow> suffix u s \<Longrightarrow> \<forall>c \<in> set u. prose_char c"
  by (auto simp: prose_def list_all_iff suffix_def)

lemma not_prose [simp]:
  "\<not> prose_char (CHR ''-'')" "\<not> prose_char (CHR ''='')" "\<not> prose_char (CHR ''/'')"
  "\<not> prose_char (CHR ''_'')" "\<not> prose_char (CHR ''@'')" "\<not> prose_char (CHR ''+'')"
  "\<not> prose_char dq" "\<not> prose_char sq" "\<not> prose_char (CHR ''1'')" "\<not> prose_char (CHR ''2'')"
  by (simp_all add: prose_char_def is_alpha_def is_upper_def is_lower_def ord_def)

lemma slash_not_prose: "\<forall>x. lower_char x = CHR ''/'' \<longrightarrow> \<not> prose_char x"
  by (simp add: lower_char_slash)

lemma digit_not_prose: "is_digit c \<Longrightarrow> \<not> prose_char c"
  by (auto simp: prose_char_def is_alpha_def is_upper_def is_lower_def is_digit_def ord_def)

lemma match_bearer:
  "\<not> prefix ''bearer'' (lower s) \<Longrightarrow> \<not> prefix ''basic'' (lower s) \<Longrightarrow> match_at bearer_rx pv s = None"
  unfolding match_at_def bearer_rx_def
  by (simp add: mt_seqs_Cons wordb_def mt_alts_Cons mt_alts_single mt_liti cong: option.case_cong)

lemma match_aws: "\<not> prefix ''AKIA'' s \<Longrightarrow> \<not> prefix ''ASIA'' s \<Longrightarrow> match_at aws_key_rx pv s = None"
  unfolding match_at_def aws_key_rx_def
  by (simp add: mt_seqs_Cons wordb_def mt_alts_Cons mt_alts_single mt_lit cong: option.case_cong)

lemma match_jwt: "\<not> prefix ''eyJ'' s \<Longrightarrow> match_at jwt_rx pv s = None"
  unfolding match_at_def jwt_rx_def by (simp add: mt_seqs_Cons wordb_def mt_lit)

lemma prefix_appendD: "prefix (x @ y) z \<Longrightarrow> prefix x z" for x y z :: str
  by (metis prefix_order.trans prefixI)

lemma mt_no_credential:
  assumes "\<forall>w \<in> set credential_words. \<not> prefix w (lower s)"
  shows "mt secret_words (pv, s, cs) K = None"
proof -
  note w = assms[unfolded credential_words_def, simplified]
  have "\<not> prefix ''signature'' (lower s)"
  proof
    assume "prefix ''signature'' (lower s)"
    then have "prefix ''sig'' (lower s)" using prefix_appendD[of "''sig''" "''nature''" "lower s"] by simp
    with w show False by simp
  qed
  with w show ?thesis
    unfolding secret_words_def us_or_dash_def by (simp add: rx_steps cong: option.case_cong)
qed

lemma match_assignment_None:
  assumes "\<forall>w \<in> set credential_words. \<not> prefix w (lower s)" and "\<forall>c \<in> set s. prose_char c"
  shows "match_at assignment_rx pv s = None"
proof -
  have "s = [] \<or> \<not> (hd s = dq \<or> hd s = sq)"
  proof (cases s)
    case (Cons c u)
    then have "prose_char c" using assms(2) by simp
    then have "c \<noteq> dq" "c \<noteq> sq" using not_prose(7,8) by auto
    with Cons show ?thesis by simp
  qed simp
  then show ?thesis
    unfolding match_at_def assignment_rx_def
    by (simp add: mt_seqs_Cons wordb_def mt_opt_skip mt_no_credential[OF assms(1)] cong: option.case_cong)
qed

text \<open>The other patterns need a character that is not one of prose.\<close>

lemma fold_sub_id_each:
  "(\<And>r t. (r, t) \<in> set ps \<Longrightarrow> sub r t None s = s) \<Longrightarrow> fold (\<lambda>(r, t) s. sub r t None s) ps s = s"
  by (induction ps) auto

lemma redact_prose:
  assumes "prose s"
  shows "redact s = s"
proof -
  let ?n = "needs (\<lambda>c. \<not> prose_char c)"
  have chars: "\<forall>c \<in> set s. \<not> \<not> prose_char c" using assms by (simp add: prose_def list_all_iff)
  have "?n private_key_rx" by (simp add: private_key_rx_def needs_simps)
  moreover have "?n url_userinfo_rx" "?n slack_rx" "?n device_rx"
    using slash_not_prose by (simp_all add: url_userinfo_rx_def slack_rx_def device_rx_def needs_simps)
  moreover have "?n api_key_rx" by (simp add: api_key_rx_def needs_simps)
  moreover have "sub aws_key_rx t None s = s" "sub jwt_rx t None s = s" for t
    using assms by (auto simp: prose_def intro!: sub_id match_aws match_jwt dest: not_contains_suffix')
  moreover have "?n email_rx" "?n phone_rx" "?n ip_rx"
    by (simp_all add: email_rx_def phone_rx_def ip_rx_def octet_rx_def needs_simps ch_def digit_not_prose)
  moreover have "sub bearer_rx t None s = s" for t
  proof (rule sub_id)
    fix pv u assume "suffix u s"
    then show "match_at bearer_rx pv u = None"
      using assms by (intro match_bearer not_contains_suffix) (auto simp: prose_def)
  qed
  moreover have "sub assignment_rx t None s = s" for t
  proof (cases "CHR '':'' \<in> set s")
    case True
    show ?thesis
    proof (rule sub_id)
      fix pv u assume u: "suffix u s"
      have "\<not> prefix w (lower u)" if "w \<in> set credential_words" for w
        using assms True that not_contains_suffix[OF _ u] by (simp add: prose_def list_all_iff)
      then show "match_at assignment_rx pv u = None"
        using prose_suffix[OF assms u] by (intro match_assignment_None) auto
    qed
  next
    case False
    have "needs (\<lambda>c. c = CHR '':'' \<or> c = CHR ''='') assignment_rx"
      by (auto simp add: assignment_rx_def needs_simps)
    moreover have "\<forall>c \<in> set s. \<not> (c = CHR '':'' \<or> c = CHR ''='')"
      using False chars not_prose(2) by auto
    ultimately show ?thesis by (rule sub_id_needs)
  qed
  ultimately have "sub r t None s = s" if "(r, t) \<in> set redaction_patterns" for r t
    using that sub_id_needs[OF _ chars] by (auto simp: redaction_patterns_def)
  then show ?thesis unfolding redact_def by (rule fold_sub_id_each)
qed

end
