(* ===== verification/Llm.thy ===== *)
theory Llm
  imports Schemas Prompt Prose Network
begin

text \<open>
  \<open>app/ai/client.py\<close>: the bounded prompt, the deterministic demo analysis, the parsing of what the
  model providers answer, and the client that falls back to the demo. The network is a parameter.
\<close>

subsection \<open>Analysis results\<close>

record AnalysisContent =
  ac_summary :: str
  ac_probable_cause :: str
  ac_confidence :: pyfloat
  ac_evidence :: "str list"
  ac_remediation_steps :: "str list"
  ac_caveats :: "str list"

record AnalysisResult = AnalysisContent +
  ar_provider :: str
  ar_is_fallback :: bool

definition sized_str :: "nat \<Rightarrow> nat \<Rightarrow> pyval \<Rightarrow> str check" where
  "sized_str lo hi v = (case redact_strings v of
      VStr s \<Rightarrow> (if lo \<le> length s \<and> length s \<le> hi then Inr s else Inl [[]]) | _ \<Rightarrow> Inl [[]])"

definition sized_list :: "nat \<Rightarrow> nat \<Rightarrow> pyval \<Rightarrow> str list check" where
  "sized_list lo hi v = bounded_list lo hi (sized_str 1 1000) v"

text \<open>A strict float takes an integer as well; \<open>nan\<close> and the infinities are refused.\<close>

definition confidence_check :: "pyval \<Rightarrow> pyfloat check" where
  "confidence_check v = (case v of
      VFloat f \<Rightarrow> (if confidence_ok f then Inr f else Inl [[]])
    | VInt i \<Rightarrow> (if i = 0 then Inr ''0.0'' else if i = 1 then Inr ''1.0'' else Inl [[]])
    | _ \<Rightarrow> Inl [[]])"

definition content_fields :: "dict \<Rightarrow> AnalysisContent check" where
  "content_fields d =
     map_check (\<lambda>(s, p, c, e, r, k). \<lparr>ac_summary = s, ac_probable_cause = p, ac_confidence = c,
         ac_evidence = e, ac_remediation_steps = r, ac_caveats = k\<rparr>)
       (both (required d ''summary'' (sized_str 1 4000))
       (both (required d ''probable_cause'' (sized_str 1 4000))
       (both (required d ''confidence'' confidence_check)
       (both (required d ''evidence'' (sized_list 0 20))
       (both (required d ''remediation_steps'' (sized_list 1 12))
             (required d ''caveats'' (sized_list 0 10)))))))"

definition check_content :: "pyval \<Rightarrow> AnalysisContent check" where
  "check_content = model_fields content_fields
     [''summary'', ''probable_cause'', ''confidence'', ''evidence'', ''remediation_steps'', ''caveats'']"

text \<open>\<open>AnalysisResult(**values, provider=.., is_fallback=..)\<close> validates the content (again).\<close>

definition content_json :: "AnalysisContent \<Rightarrow> pyval" where
  "content_json c = VDict
     [(''summary'', VStr (ac_summary c)), (''probable_cause'', VStr (ac_probable_cause c)),
      (''confidence'', VFloat (ac_confidence c)), (''evidence'', str_list_json (ac_evidence c)),
      (''remediation_steps'', str_list_json (ac_remediation_steps c)),
      (''caveats'', str_list_json (ac_caveats c))]"

definition make_result :: "AnalysisContent \<Rightarrow> str \<Rightarrow> bool \<Rightarrow> (exc, AnalysisResult) res" where
  "make_result c provider is_fallback =
     bind_res (read_field (check_content (content_json c))) (\<lambda>x.
       Inr \<lparr>ac_summary = ac_summary x, ac_probable_cause = ac_probable_cause x,
         ac_confidence = ac_confidence x, ac_evidence = ac_evidence x,
         ac_remediation_steps = ac_remediation_steps x, ac_caveats = ac_caveats x,
         ar_provider = provider, ar_is_fallback = is_fallback\<rparr>)"

definition texts_within :: "nat \<Rightarrow> str list \<Rightarrow> bool" where
  "texts_within n xs = (\<forall>s \<in> set xs. 1 \<le> length s \<and> length s \<le> n \<and> s \<in> range redact)"

text \<open>What the callers of a client rely on.\<close>

definition content_ok :: "'a AnalysisContent_scheme \<Rightarrow> bool" where
  "content_ok c =
     (texts_within 4000 [ac_summary c, ac_probable_cause c] \<and> confidence_ok (ac_confidence c) \<and>
      length (ac_evidence c) \<le> 20 \<and> texts_within 1000 (ac_evidence c) \<and>
      1 \<le> length (ac_remediation_steps c) \<and> length (ac_remediation_steps c) \<le> 12 \<and>
      texts_within 1000 (ac_remediation_steps c))"

lemma sized_str_Inr:
  "sized_str lo hi v = Inr s \<Longrightarrow> lo \<le> length s \<and> length s \<le> hi \<and> s \<in> range redact"
  by (auto simp: sized_str_def redact_strings_def split: pyval.splits if_splits)

lemma check_items_all:
  "check_items f i vs = Inr xs \<Longrightarrow> (\<And>v x. f v = Inr x \<Longrightarrow> P x) \<Longrightarrow> \<forall>x \<in> set xs. P x"
  by (induction f i vs arbitrary: xs rule: check_items.induct) force+

lemma check_items_sized: "check_items (sized_str 1 1000) i vs = Inr xs \<Longrightarrow> texts_within 1000 xs"
  unfolding texts_within_def by (erule check_items_all) (use sized_str_Inr in blast)

lemma sized_list_Inr:
  "sized_list lo hi v = Inr xs \<Longrightarrow> lo \<le> length xs \<and> length xs \<le> hi \<and> texts_within 1000 xs"
proof -
  assume v: "sized_list lo hi v = Inr xs"
  then show ?thesis
    using check_items_sized bounded_list_length[of lo hi "sized_str 1 1000" v xs]
    by (auto simp: sized_list_def bounded_list_def split: pyval.splits if_splits)
qed

lemma confidence_check_Inr: "confidence_check v = Inr f \<Longrightarrow> confidence_ok f"
proof -
  have "confidence_ok ''0.0''" "confidence_ok ''1.0''" by code_simp+
  then show "confidence_check v = Inr f \<Longrightarrow> confidence_ok f"
    by (auto simp: confidence_check_def split: pyval.splits if_splits)
qed

lemma check_content_ok:
  assumes "check_content v = Inr c"
  shows "content_ok c" and "length (ac_caveats c) \<le> 10 \<and> texts_within 1000 (ac_caveats c)"
proof -
  obtain d s p f e r k where parts: "required d ''summary'' (sized_str 1 4000) = Inr s"
      "required d ''probable_cause'' (sized_str 1 4000) = Inr p"
      "required d ''confidence'' confidence_check = Inr f" "required d ''evidence'' (sized_list 0 20) = Inr e"
      "required d ''remediation_steps'' (sized_list 1 12) = Inr r"
      "required d ''caveats'' (sized_list 0 10) = Inr k"
    and c: "c = \<lparr>ac_summary = s, ac_probable_cause = p, ac_confidence = f, ac_evidence = e,
        ac_remediation_steps = r, ac_caveats = k\<rparr>"
    using assms unfolding check_content_def model_fields_Inr content_fields_def check_Inr
    by (auto simp del: required_Inr)
  have lists: "sized_list lo hi v = Inr xs \<Longrightarrow> lo \<le> length xs \<and> length xs \<le> hi \<and> texts_within 1000 xs" for lo hi v xs
    by (rule sized_list_Inr)
  show "content_ok c"
    using parts sized_str_Inr confidence_check_Inr sized_list_Inr
    by (simp add: c content_ok_def texts_within_def) (metis (no_types, lifting))
  show "length (ac_caveats c) \<le> 10 \<and> texts_within 1000 (ac_caveats c)"
    using parts(6) sized_list_Inr by (auto simp: c)
qed

subsection \<open>The demo analysis\<close>

definition REVIEW_NOTICE :: str where
  "REVIEW_NOTICE = ''Assistive suggestions only. An engineer must verify the evidence before taking action.''"

lemma redact_notice [simp]: "redact REVIEW_NOTICE = REVIEW_NOTICE"
  unfolding REVIEW_NOTICE_def by (rule redact_prose) code_simp

text \<open>The messages of the logs, newest last, at most five.\<close>

definition log_evidence :: "pyval list \<Rightarrow> str list" where
  "log_evidence logs =
     last_n 5 (concat (map (\<lambda>item. case item of
         VDict d \<Rightarrow> (if truthy (get d ''message'')
           then [take 900 (py_str (get_or d ''message'' (VStr [])))] else [])
       | _ \<Rightarrow> []) logs))"

definition insert_second :: "'a \<Rightarrow> 'a list \<Rightarrow> 'a list" where
  "insert_second x xs = take 1 xs @ x # drop 1 xs"

definition demo_checks :: "str \<Rightarrow> str list" where
  "demo_checks service =
     [''Confirm the scope and current health of '' @ service @ '' using the source monitoring system.'',
      ''Compare the incident start with deployment, configuration and dependency changes.'',
      ''Collect correlated traces and error logs, then test the leading hypothesis before remediation.'',
      ''Record the chosen action, owner, verification criteria and rollback plan in the timeline.'']"

text \<open>The probable cause and the check to add for what the texts mention.\<close>

definition demo_cause :: "str \<Rightarrow> str \<times> str option" where
  "demo_cause content =
     (if list_ex (\<lambda>t. contains t content) [''connection pool'', ''too many connections'', ''pool exhausted'']
      then (''Connection pool exhaustion is a possible contributor. The current evidence cannot distinguish excess demand, slow queries or leaked connections.'',
        Some ''Inspect pool utilization, query latency and database connections; identify stuck requests before adjusting capacity.'')
      else if list_ex (\<lambda>t. contains t content) [''out of memory'', ''oomkilled'', ''memory pressure'']
      then (''Memory pressure is a possible contributor. Verify process memory and container termination events before attributing the incident to a leak or capacity limit.'',
        Some ''Compare resident memory, request volume and container limits; inspect allocation trends and recent releases.'')
      else if list_ex (\<lambda>t. contains t content) [''timeout'', ''timed out'', ''latency'']
      then (''A slow or unavailable dependency may explain the observed timeouts. Correlated traces are needed to locate the bottleneck.'',
        Some ''Measure downstream latency, saturation and error rates for the same time window.'')
      else (''Available context does not establish a root cause. Collect service metrics, recent changes and correlated dependency errors.'',
        None))"

definition demo_caveats :: "str list" where
  "demo_caveats =
     [''Deterministic demo output, not a live model assessment.'', REVIEW_NOTICE,
      ''Absence of log evidence is not evidence of service health.'']"

definition as_dict :: "pyval \<Rightarrow> dict" where
  "as_dict v = (case v of VDict d \<Rightarrow> d | _ \<Rightarrow> [])"

definition demo_content :: "dict \<Rightarrow> AnalysisContent" where
  "demo_content safe =
     (let incident = as_dict (get_or safe ''incident'' (VDict safe));
          title = take 250 (py_str (get_or incident ''title'' (VStr ''Incident'')));
          service = take 120 (py_str (get_or incident ''service'' (VStr ''the affected service'')));
          logs = (case get_or safe ''logs'' (get_or incident ''logs'' (VList [])) of VList xs \<Rightarrow> xs | _ \<Rightarrow> []);
          evidence = log_evidence logs;
          content = lower (join '' '' (evidence @ [py_str (get_or incident ''description'' (VStr [])), title]));
          (cause, extra) = demo_cause content;
          checks = (case extra of None \<Rightarrow> demo_checks service
            | Some c \<Rightarrow> insert_second c (demo_checks service))
      in \<lparr>ac_summary = ''Demo assessment: '' @ title @ ''. Review the available context for '' @ service @ ''.'',
          ac_probable_cause = cause,
          ac_confidence = (if evidence \<noteq> [] then ''0.25'' else ''0.1''),
          ac_evidence = evidence, ac_remediation_steps = checks, ac_caveats = demo_caveats\<rparr>)"

definition demo_analyze :: "(str \<Rightarrow> str) \<Rightarrow> dict \<Rightarrow> (exc, AnalysisResult) res" where
  "demo_analyze fl context =
     (case json_loads fl (bounded_context context) of
        Some (VDict safe) \<Rightarrow> make_result (demo_content safe) ''demo'' True
      | Some v \<Rightarrow> Inl AttributeError
      | None \<Rightarrow> Inl (ValueError ''json''))"

definition embedding_unavailable :: exc where
  "embedding_unavailable = IntegrationError ''Semantic embeddings are unavailable; use lexical search.''
     ''embedding_unavailable'' 503"

definition demo_embed :: "str \<Rightarrow> (exc, rat list) res" where
  "demo_embed t = Inl embedding_unavailable"

text \<open>What constructing a result does to content that has the right types.\<close>

definition fits :: "nat \<Rightarrow> str \<Rightarrow> bool" where
  "fits n s = (1 \<le> length (redact s) \<and> length (redact s) \<le> n)"

definition content_fits :: "AnalysisContent \<Rightarrow> bool" where
  "content_fits c =
     (fits 4000 (ac_summary c) \<and> fits 4000 (ac_probable_cause c) \<and> confidence_ok (ac_confidence c) \<and>
      list_all (fits 1000) (ac_evidence c) \<and> length (ac_evidence c) \<le> 20 \<and>
      list_all (fits 1000) (ac_remediation_steps c) \<and> 1 \<le> length (ac_remediation_steps c) \<and>
      length (ac_remediation_steps c) \<le> 12 \<and>
      list_all (fits 1000) (ac_caveats c) \<and> length (ac_caveats c) \<le> 10)"

definition result_of :: "AnalysisContent \<Rightarrow> str \<Rightarrow> bool \<Rightarrow> AnalysisResult" where
  "result_of c provider is_fallback =
     \<lparr>ac_summary = redact (ac_summary c), ac_probable_cause = redact (ac_probable_cause c),
      ac_confidence = ac_confidence c, ac_evidence = map redact (ac_evidence c),
      ac_remediation_steps = map redact (ac_remediation_steps c), ac_caveats = map redact (ac_caveats c),
      ar_provider = provider, ar_is_fallback = is_fallback\<rparr>"

lemma sized_str_VStr:
  "sized_str 1 n (VStr s) = (if fits n s then Inr (redact s) else Inl [[]])"
  by (simp add: sized_str_def redact_strings_def fits_def)

lemma check_items_texts:
  "check_items (sized_str 1 1000) i (map VStr xs) = Inr ys \<longleftrightarrow> list_all (fits 1000) xs \<and> ys = map redact xs"
proof (induction xs arbitrary: i ys)
  case (Cons x xs)
  show ?case by (auto simp: sized_str_VStr Cons.IH simp del: One_nat_def split: if_splits)
qed auto

lemma sized_list_texts:
  "sized_list lo hi (str_list_json xs) = Inr ys \<longleftrightarrow>
     list_all (fits 1000) xs \<and> lo \<le> length xs \<and> length xs \<le> hi \<and> ys = map redact xs"
proof -
  have "sized_list lo hi (str_list_json xs) = (if hi < length xs then Inl [[]]
      else bind_res (check_items (sized_str 1 1000) 0 (map VStr xs)) (\<lambda>xs. if length xs < lo then Inl [[]] else Inr xs))"
    by (simp add: sized_list_def bounded_list_def str_list_json_def)
  then show ?thesis by (auto simp: check_items_texts simp del: One_nat_def)
qed

lemma sized_text: "sized_str 1 n (VStr s) = Inr t \<longleftrightarrow> fits n s \<and> t = redact s"
  unfolding sized_str_VStr by auto

lemma confidence_float: "confidence_check (VFloat f) = Inr g \<longleftrightarrow> confidence_ok f \<and> g = f"
  by (auto simp: confidence_check_def)

lemma check_content_json:
  "check_content (content_json c) = Inr x \<longleftrightarrow> content_fits c \<and>
      x = \<lparr>ac_summary = redact (ac_summary c), ac_probable_cause = redact (ac_probable_cause c),
      ac_confidence = ac_confidence c, ac_evidence = map redact (ac_evidence c),
      ac_remediation_steps = map redact (ac_remediation_steps c), ac_caveats = map redact (ac_caveats c)\<rparr>"
proof -
  have "check_content (content_json c) = content_fields (as_dict (content_json c))"
    by (simp add: check_content_def model_fields_def content_json_def as_dict_def no_extra_def both_def
        map_check_def split: sum.splits)
  moreover have "content_fields (as_dict (content_json c)) = Inr x \<longleftrightarrow> content_fits c \<and>
      x = \<lparr>ac_summary = redact (ac_summary c), ac_probable_cause = redact (ac_probable_cause c),
      ac_confidence = ac_confidence c, ac_evidence = map redact (ac_evidence c),
      ac_remediation_steps = map redact (ac_remediation_steps c), ac_caveats = map redact (ac_caveats c)\<rparr>"
    unfolding content_fields_def check_Inr
    by (simp add: content_json_def as_dict_def sized_text sized_list_texts confidence_float content_fits_def
        del: One_nat_def)
  ultimately show ?thesis by simp
qed

lemma make_result_iff:
  "make_result c p b = Inr r \<longleftrightarrow> content_fits c \<and> r = result_of c p b"
  by (auto simp: make_result_def result_of_def check_content_json)

lemma make_result_error: "make_result c p b = Inl e \<Longrightarrow> e = validation_error"
  by (auto simp: make_result_def read_field_def split: sum.splits)

lemma result_of_sel [simp]:
  "ar_provider (result_of c p b) = p" "ar_is_fallback (result_of c p b) = b"
  "ac_caveats (result_of c p b) = map redact (ac_caveats c)"
  "ac_evidence (result_of c p b) = map redact (ac_evidence c)"
  "ac_confidence (result_of c p b) = ac_confidence c"
  "ac_remediation_steps (result_of c p b) = map redact (ac_remediation_steps c)"
  by (simp_all add: result_of_def)

text \<open>What the callers of a client rely on, the notice that asks for a review included.\<close>

definition result_ok :: "AnalysisResult \<Rightarrow> bool" where
  "result_ok r = (content_ok r \<and> length (ac_caveats r) \<le> 11 \<and> REVIEW_NOTICE \<in> set (ac_caveats r))"

lemma content_ok_result: "content_fits c \<Longrightarrow> content_ok (result_of c p b)"
  by (auto simp: content_fits_def content_ok_def result_of_def texts_within_def fits_def list_all_iff)

lemma result_ok_result:
  "content_fits c \<Longrightarrow> REVIEW_NOTICE \<in> set (ac_caveats c) \<Longrightarrow> result_ok (result_of c p b)"
  using content_ok_result[of c p b]
  by (auto simp: result_ok_def content_fits_def image_iff intro!: bexI[of _ REVIEW_NOTICE])

lemma length_log_evidence: "length (log_evidence logs) \<le> 5"
  by (simp add: log_evidence_def)

lemma demo_content_sel:
  "ac_caveats (demo_content d) = demo_caveats" "length (ac_evidence (demo_content d)) \<le> 5"
  "ac_confidence (demo_content d) = (if ac_evidence (demo_content d) = [] then ''0.1'' else ''0.25'')"
  by (simp_all add: demo_content_def Let_def split_def length_log_evidence)

lemma demo_analyze_cases:
  assumes "json_ok fl (VDict c)"
  shows "\<exists>safe. json_loads fl (bounded_context c) = Some (VDict safe) \<and>
    demo_analyze fl c = make_result (demo_content safe) ''demo'' True"
  using bounded_context_loads[OF assms] by (auto simp: demo_analyze_def)

lemma demo_analyze_Inr:
  assumes "demo_analyze fl c = Inr r"
  shows "\<exists>safe. content_fits (demo_content safe) \<and> r = result_of (demo_content safe) ''demo'' True"
  using assms by (auto simp: demo_analyze_def make_result_iff split: option.splits pyval.splits)

lemma demo_result_ok: "demo_analyze fl c = Inr r \<Longrightarrow> result_ok r"
  using demo_analyze_Inr[of fl c r] by (auto intro!: result_ok_result simp: demo_content_sel demo_caveats_def)

end
