(* ===== verification/Analyses.thy ===== *)
theory Analyses
  imports Providers Incidents "HOL-Library.Product_Lexorder"
begin

text \<open>
  \<open>app/domain/analysis.py\<close>: the bounded context of an incident, the analysis that is stored whatever
  becomes of its embedding, and the latest analysis.
\<close>

subsection \<open>Context\<close>

definition REVIEW_CAVEAT :: str where
  "REVIEW_CAVEAT = ''AI analysis is an assistive suggestion. An engineer must verify the evidence and approve remediation.''"

lemma redact_caveat [simp]: "redact REVIEW_CAVEAT = REVIEW_CAVEAT"
  unfolding REVIEW_CAVEAT_def by (rule redact_prose) code_simp

fun redact_context :: "pyval \<Rightarrow> pyval" where
  "redact_context (VStr s) = VStr (redact s)"
| "redact_context (VList xs) = VList (map redact_context xs)"
| "redact_context (VDict d) = VDict (map (\<lambda>(k, v). (k, redact_context v)) d)"
| "redact_context v = v"

text \<open>Rows of an incident; SQL leaves the order of equal keys open, here it is that of insertion.\<close>

definition newest_logs :: "str \<Rightarrow> db \<Rightarrow> LogEntry list" where
  "newest_logs i d = take 200 (sort_desc lg_timestamp (filter (\<lambda>l. lg_incident_id l = i) (log_entries d)))"

definition newest_events :: "str \<Rightarrow> db \<Rightarrow> TimelineEvent list" where
  "newest_events i d = take 100 (sort_desc ev_created_at (filter (\<lambda>e. ev_incident_id e = i) (timeline_events d)))"

definition some_alerts :: "str \<Rightarrow> db \<Rightarrow> Alert list" where
  "some_alerts i d = take 50 (filter (\<lambda>a. al_incident_id a = i) (alerts d))"

definition max_log_characters :: nat where
  "max_log_characters = 100000"

text \<open>The loop over the logs with the characters that remain.\<close>

fun log_context :: "nat \<Rightarrow> LogEntry list \<Rightarrow> (str \<times> str \<times> str) list" where
  "log_context remaining [] = []"
| "log_context remaining (l # ls) =
     (if remaining = 0 then []
      else let message = take (min 8192 remaining) (lg_message l)
           in (isoformat (lg_timestamp l), lg_level l, message) # log_context (remaining - length message) ls)"

definition log_item :: "str \<times> str \<times> str \<Rightarrow> pyval" where
  "log_item = (\<lambda>(t, l, m). VDict [(''timestamp'', VStr t), (''level'', VStr l), (''message'', VStr m)])"

definition context_of :: "pyval \<Rightarrow> str \<Rightarrow> db \<Rightarrow> pyval" where
  "context_of incident i d = redact_context (VDict
     [(''incident'', incident),
      (''logs'', VList (map log_item (rev (log_context max_log_characters (newest_logs i d))))),
      (''timeline'', VList (map (\<lambda>e. VDict
         [(''timestamp'', VStr (isoformat (ev_created_at e))), (''kind'', VStr (ev_kind e)),
          (''message'', VStr (take 2000 (ev_message e)))]) (rev (newest_events i d)))),
      (''alerts'', VList (map (\<lambda>a. VDict
         [(''source'', VStr (al_source a)), (''title'', VStr (al_title a)),
          (''description'', VStr (take 4000 (al_description a)))]) (some_alerts i d))),
      (''context_limits'', VDict
         [(''max_logs'', VInt 200), (''max_log_characters'', VInt 100000),
          (''max_timeline_events'', VInt 100)])])"

definition build_context :: "str \<Rightarrow> dict act" where
  "build_context i =
     andthen (require_incident i) (\<lambda>inc.
     andthen (lift_res (incident_dict inc)) (\<lambda>j.
     andthen (look (context_of j i)) (\<lambda>c. ret (as_dict c))))"

subsection \<open>Analysing\<close>

definition latest_of :: "str \<Rightarrow> db \<Rightarrow> Analysis option" where
  "latest_of i d =
     (case sort_desc (\<lambda>a. (an_created_at a, an_id a)) (filter (\<lambda>a. an_incident_id a = i) (analyses d)) of
        [] \<Rightarrow> None | a # _ \<Rightarrow> Some a)"

definition latest_analysis :: "str \<Rightarrow> Analysis act" where
  "latest_analysis i = andthen (look (latest_of i)) (\<lambda>found. case found of
     None \<Rightarrow> raise (AppError ''analysis_not_found'' ''Run analysis to create an assistive report'' 404)
   | Some a \<Rightarrow> ret a)"

text \<open>The values of the row: every text filtered once more, and the caveat that asks for a review.\<close>

definition stored_values :: "AnalysisResult \<Rightarrow> AnalysisResult" where
  "stored_values r =
     (let caveats = map redact (ac_caveats r)
      in \<lparr>ac_summary = redact (ac_summary r), ac_probable_cause = redact (ac_probable_cause r),
          ac_confidence = ac_confidence r, ac_evidence = map redact (ac_evidence r),
          ac_remediation_steps = map redact (ac_remediation_steps r),
          ac_caveats = (if REVIEW_CAVEAT \<in> set caveats then caveats else caveats @ [REVIEW_CAVEAT]),
          ar_provider = redact (ar_provider r), ar_is_fallback = ar_is_fallback r\<rparr>)"

definition analysis_row :: "AnalysisResult \<Rightarrow> str \<Rightarrow> str \<Rightarrow> time \<Rightarrow> Analysis" where
  "analysis_row v iid i t =
     \<lparr>an_id = i, an_incident_id = iid, an_summary = ac_summary v,
      an_probable_cause = ac_probable_cause v, an_confidence = ac_confidence v,
      an_evidence = ac_evidence v, an_remediation_steps = ac_remediation_steps v,
      an_caveats = ac_caveats v, an_provider = ar_provider v, an_is_fallback = ar_is_fallback v,
      an_created_at = t\<rparr>"

definition embed_text :: "Incident \<Rightarrow> AnalysisResult \<Rightarrow> str" where
  "embed_text inc r = inc_title inc @ [nl] @ inc_service inc @ [nl] @ ac_summary r @ [nl] @ ac_probable_cause r"

definition store_embedding :: "llm \<Rightarrow> settings \<Rightarrow> str \<Rightarrow> AnalysisResult \<Rightarrow> unit act" where
  "store_embedding llm S iid r =
     catch (andthen (require_incident iid) (\<lambda>inc.
        andthen (lift_res (llm_embed llm (embed_text inc r))) (\<lambda>vector.
          if vector = [] then ret ()
          else set_incident iid (\<lambda>x. x\<lparr>inc_embedding := Some vector,
            inc_embedding_model := Some (embedding_model_name S)\<rparr>))))
       (\<lambda>e. ret ())"

definition analyze_incident :: "env \<Rightarrow> llm \<Rightarrow> settings \<Rightarrow> str \<Rightarrow> Analysis act" where
  "analyze_incident E llm S iid =
     andthen (build_context iid) (\<lambda>context.
     andthen (lift_res (llm_analyze llm context)) (\<lambda>result.
     andthen (insert_analysis E iid (analysis_row (stored_values result) iid)) (\<lambda>analysis.
     andthen (add_event E iid ''analysis_completed''
       (''Assistive analysis generated by '' @ ar_provider result @ ''. Evidence requires engineer review.'')) (\<lambda>_.
     andthen (store_embedding llm S iid result) (\<lambda>_. ret analysis)))))"

subsection \<open>The invariant is kept\<close>

lemma keeps_build_context: "store.keeps E (build_context i)"
  unfolding build_context_def by (intro store.keeps_rules keeps_require_incident)

lemma keeps_latest_analysis: "store.keeps E (latest_analysis i)"
  unfolding latest_analysis_def by (intro store.keeps_rules)

lemma keeps_store_embedding: "store.keeps E (store_embedding llm S iid r)"
  unfolding store_embedding_def
  by (intro store.keeps_rules keeps_require_incident keeps_set_incident) (simp_all add: incident_ok_def)

lemma keeps_analyze_incident: "inj (uuid E) \<Longrightarrow> store.keeps E (analyze_incident E llm S iid)"
  unfolding analyze_incident_def
  by (intro store.keeps_rules keeps_build_context keeps_insert_analysis keeps_add_event keeps_store_embedding)

lemma uncommitted_analyses:
  "uncommitted (build_context i)" "uncommitted (latest_analysis i)" "uncommitted (store_embedding llm S i r)"
  "uncommitted (analyze_incident E llm S i)"
  unfolding build_context_def latest_analysis_def store_embedding_def analyze_incident_def
  by (intro uncommitted_store uncommitted_incidents)+

subsection \<open>The context is JSON and bounded\<close>

lemma json_ok_redact_context: "json_ok fl v \<Longrightarrow> json_ok fl (redact_context v)"
proof (induction v rule: redact_context.induct)
  case (3 d)
  then show ?case by (force simp: comp_def split_def)
qed auto

lemma json_ok_incident: "json_ok fl (incident_json x)"
  by (simp add: incident_json_def json_time_option_def split: option.splits)

lemma json_ok_context: "json_ok fl j \<Longrightarrow> json_ok fl (context_of j i d)"
  unfolding context_of_def by (rule json_ok_redact_context) (auto simp: log_item_def split_def)

lemma context_of_dict: "VDict (as_dict (context_of j i d)) = context_of j i d"
  by (simp add: context_of_def as_dict_def)

lemma build_context_run:
  "build_context i w = (case find_row inc_id i (incidents (live w)) of
     None \<Rightarrow> (Inl (AppError ''not_found'' ''Incident not found'' 404), w)
   | Some inc \<Rightarrow> (case incident_dict inc of
       Inl e \<Rightarrow> (Inl e, w) | Inr j \<Rightarrow> (Inr (as_dict (context_of j i (live w))), w)))"
  by (simp add: build_context_def andthen_def require_incident_run split: option.splits sum.splits)

lemma build_context_json_ok:
  assumes "build_context i w = (Inr c, w')"
  shows "json_ok fl (VDict c)"
proof -
  obtain j d where "c = as_dict (context_of j i d)" "\<exists>x. j = incident_json x"
    using assms unfolding build_context_run
    by (auto simp: incident_dict_def split: option.splits sum.splits)
  then show ?thesis
    using json_ok_context[OF json_ok_incident] by (auto simp: context_of_dict)
qed

lemma log_context_budget: "sum_list (map (\<lambda>(t, l, m). length m) (log_context n ls)) \<le> n"
proof (induction n ls rule: log_context.induct)
  case (2 n l ls)
  let ?m = "take (min 8192 n) (lg_message l)"
  have "n \<noteq> 0 \<Longrightarrow> sum_list (map (\<lambda>(t, l, m). length m) (log_context (n - length ?m) ls)) \<le> n - length ?m"
    by (rule 2) simp_all
  moreover have "length ?m \<le> n" by simp
  ultimately show ?case by (cases "n = 0") (simp_all add: Let_def le_diff_conv2 add.commute del: length_take)
qed simp

lemma log_context_prefix:
  "\<exists>k. log_context n ls = map (\<lambda>(l, m). (isoformat (lg_timestamp l), lg_level l, m))
      (zip (take k ls) (map (\<lambda>(t, l, m). m) (log_context n ls))) \<and> length (log_context n ls) = min k (length ls)"
proof (induction n ls rule: log_context.induct)
  case (2 n l ls)
  show ?case
  proof (cases "n = 0")
    case True
    then show ?thesis by (auto intro: exI[of _ 0])
  next
    case False
    from 2[OF False refl] obtain k where
      "log_context (n - length (take (min 8192 n) (lg_message l))) ls =
        map (\<lambda>(l, m). (isoformat (lg_timestamp l), lg_level l, m)) (zip (take k ls)
          (map (\<lambda>(t, l, m). m) (log_context (n - length (take (min 8192 n) (lg_message l))) ls)))"
      "length (log_context (n - length (take (min 8192 n) (lg_message l))) ls) = min k (length ls)" by blast
    with False show ?thesis by (intro exI[of _ "Suc k"]) (simp add: Let_def)
  qed
qed auto

subsection \<open>What analysing stores\<close>

lemma store_embedding_run:
  "store_embedding llm S iid r w =
     (case find_row inc_id iid (incidents (live w)) of
        None \<Rightarrow> (Inr (), w)
      | Some inc \<Rightarrow> (case llm_embed llm (embed_text inc r) of
          Inl e \<Rightarrow> (Inr (), w)
        | Inr v \<Rightarrow> if v = [] then (Inr (), w)
            else (Inr (), w\<lparr>live := (live w)\<lparr>incidents := update_row inc_id iid
              (\<lambda>x. x\<lparr>inc_embedding := Some v, inc_embedding_model := Some (embedding_model_name S)\<rparr>)
              (incidents (live w))\<rparr>\<rparr>)))"
  by (simp add: store_embedding_def catch_def andthen_def require_incident_run set_incident_def
      split: option.splits sum.splits)

lemma insert_analysis_run:
  assumes "has_incident iid (live w)"
  shows "insert_analysis E iid (analysis_row v iid) w =
    (let a = analysis_row v iid (uuid E (ids w)) (clock E (ticks w))
     in (Inr a, w\<lparr>live := (live w)\<lparr>analyses := analyses (live w) @ [a]\<rparr>,
          ticks := Suc (ticks w), ids := Suc (ids w)\<rparr>))"
  using assms by (simp add: insert_analysis_def insert_new_def Let_def analysis_row_def)

text \<open>The incidents of an analysed one: only its embedding may have changed.\<close>

definition embedded :: "llm \<Rightarrow> settings \<Rightarrow> AnalysisResult \<Rightarrow> str \<Rightarrow> Incident list \<Rightarrow> Incident list" where
  "embedded llm S r iid rs = (case find_row inc_id iid rs of
      None \<Rightarrow> rs
    | Some inc \<Rightarrow> (case llm_embed llm (embed_text inc r) of
        Inr (x # v) \<Rightarrow> update_row inc_id iid (\<lambda>y. y\<lparr>inc_embedding := Some (x # v),
          inc_embedding_model := Some (embedding_model_name S)\<rparr>) rs
      | _ \<Rightarrow> rs))"

lemma analyze_incident_run:
  assumes "build_context iid w = (Inr c, w)"
  shows "analyze_incident E llm S iid w =
    (case llm_analyze llm c of
       Inl e \<Rightarrow> (Inl e, w)
     | Inr r \<Rightarrow>
        (let a = analysis_row (stored_values r) iid (uuid E (ids w)) (clock E (ticks w));
             ev = new_event E iid ''analysis_completed'' (''Assistive analysis generated by '' @ ar_provider r
               @ ''. Evidence requires engineer review.'') (Suc (ids w)) (Suc (ticks w))
         in (Inr a, w\<lparr>live := (live w)\<lparr>analyses := analyses (live w) @ [a],
               timeline_events := timeline_events (live w) @ [ev],
               incidents := embedded llm S r iid (incidents (live w))\<rparr>,
             ticks := Suc (Suc (ticks w)), ids := Suc (Suc (ids w))\<rparr>)))"
proof -
  have "find_row inc_id iid (incidents (live w)) \<noteq> None"
    using assms by (auto simp: build_context_run split: option.splits)
  then have h: "has_incident iid (live w)" by (simp add: has_incident_def)
  have h': "has_incident iid ((live w)\<lparr>analyses := x\<rparr>)" for x using h by (simp add: has_incident_def)
  show ?thesis
    using assms
    by (simp add: analyze_incident_def andthen_def insert_analysis_run[OF h] Let_def add_event_run h'
        store_embedding_run embedded_def split: sum.splits option.splits list.splits)
qed

subsection \<open>A concrete incident\<close>

definition sample_incident :: Incident where
  "sample_incident = \<lparr>inc_id = ''1'', inc_title = ''disk'', inc_service = ''db'', inc_severity = ''high'',
     inc_status = ''open'', inc_description = [], inc_created_at = 0, inc_updated_at = 0,
     inc_acknowledged_at = None, inc_resolved_at = None, inc_embedding = None, inc_embedding_model = None\<rparr>"

definition sample_world :: world where
  "sample_world = new_world\<lparr>live := empty_db\<lparr>incidents := [sample_incident]\<rparr>,
     saved := empty_db\<lparr>incidents := [sample_incident]\<rparr>, ids := 2\<rparr>"

lemma redacted_str_word:
  "\<forall>c \<in> set s. is_lower c \<Longrightarrow> trim s = s \<Longrightarrow> lo \<le> length s \<Longrightarrow> length s \<le> hi \<Longrightarrow> redacted_str lo hi (VStr s) = Inr s"
  by (simp add: redacted_str_def redact_strings_def constrained_str_def redact_lower_word Let_def)

lemma read_sample: "\<exists>x. read_incident_row sample_incident = Inr x"
proof -
  have "trim ''disk'' = ''disk''" "trim ''db'' = ''db''" "trim [] = []" by code_simp+
  then have "redacted_str 1 240 (VStr ''disk'') = Inr ''disk''" "redacted_str 1 120 (VStr ''db'') = Inr ''db''"
    "redacted_str 0 20000 (VStr []) = Inr []"
    by (auto intro!: redacted_str_word simp: is_lower_def ord_def)
  moreover have "severity_check (VStr ''high'') = Inr High" "status_check (VStr ''open'') = Inr Open"
    by (simp_all add: severity_check_def status_check_def to_severity_def severities_def to_status_def)
  ultimately show ?thesis
    by (simp add: read_incident_row_def sample_incident_def read_field_def both_def map_check_def)
qed

lemma sample_context: "\<exists>c. build_context ''1'' sample_world = (Inr c, sample_world)"
proof -
  obtain x where "read_incident_row sample_incident = Inr x" using read_sample by blast
  moreover have "find_row inc_id ''1'' (incidents (live sample_world)) = Some sample_incident"
    by (simp add: sample_world_def find_row_def sample_incident_def)
  ultimately show ?thesis by (simp add: build_context_run incident_dict_def)
qed

lemma sample_world_ok: "world_ok sample_env sample_world"
proof -
  have "''1'' = uuid sample_env 1" by (simp add: sample_env_def) code_simp
  then have "''1'' \<in> uuid sample_env ` {..<2}" by (metis image_eqI lessThan_iff one_less_numeral_iff semiring_norm(76))
  then show ?thesis
    by (simp add: world_ok_def sample_world_def db_inv_def db_inv_parts empty_db_def sample_incident_def
        incident_ok_def severity_texts_def status_texts_def new_world_def)
qed

lemma get_context:
  "\<exists>ls es as. get (as_dict (context_of j i d)) ''logs'' = VList ls \<and>
     length ls = length (log_context max_log_characters (newest_logs i d)) \<and>
     get (as_dict (context_of j i d)) ''timeline'' = VList es \<and> length es = length (newest_events i d) \<and>
     get (as_dict (context_of j i d)) ''alerts'' = VList as \<and> length as = length (some_alerts i d)"
proof -
  have "\<exists>a l e s m. as_dict (context_of j i d) = [(''incident'', a), (''logs'', VList l), (''timeline'', VList e),
      (''alerts'', VList s), (''context_limits'', m)] \<and> length l = length (log_context max_log_characters (newest_logs i d)) \<and>
      length e = length (newest_events i d) \<and> length s = length (some_alerts i d)"
    unfolding context_of_def as_dict_def redact_context.simps list.map prod.case pyval.case
    by (intro exI conjI, rule refl) (simp_all only: length_map length_rev)
  then show ?thesis by (auto simp: get_def)
qed

lemma length_newest:
  "length (newest_logs i d) \<le> 200" "length (newest_events i d) \<le> 100" "length (some_alerts i d) \<le> 50"
  by (simp_all add: newest_logs_def newest_events_def some_alerts_def)

lemma length_log_context: "length (log_context n ls) \<le> length ls"
  using log_context_prefix[of n ls] by auto

lemma get_context_bounded:
  "\<exists>ls es as. get (as_dict (context_of j i d)) ''logs'' = VList ls \<and> length ls \<le> 200 \<and>
     get (as_dict (context_of j i d)) ''timeline'' = VList es \<and> length es \<le> 100 \<and>
     get (as_dict (context_of j i d)) ''alerts'' = VList as \<and> length as \<le> 50"
proof -
  have "length (log_context max_log_characters (newest_logs i d)) \<le> 200"
    using length_log_context length_newest(1) by (rule order_trans)
  with get_context[of j i d] length_newest[of i d] show ?thesis by fastforce
qed

lemma build_context_Inr:
  "build_context i w = (Inr c, w') \<Longrightarrow> \<exists>j. c = as_dict (context_of j i (live w)) \<and> w' = w"
  unfolding build_context_run by (cases "find_row inc_id i (incidents (live w))"; cases "incident_dict (the (find_row inc_id i (incidents (live w))))") auto

subsection \<open>Properties\<close>

text \<open>The context handed to a model is bounded before any provider is called: it has at most the
  200 newest log entries with 100000 characters of messages in all, the 100 newest events and 50
  alerts, and building it changes nothing.\<close>

lemma context_bounded:
  assumes "build_context i w = (Inr c, w')"
  shows "w' = w \<and>
    (\<exists>ls es as. get c ''logs'' = VList ls \<and> length ls \<le> 200 \<and> get c ''timeline'' = VList es \<and> length es \<le> 100 \<and>
       get c ''alerts'' = VList as \<and> length as \<le> 50) \<and>
    sum_list (map (\<lambda>(t, l, m). length m) (log_context max_log_characters (newest_logs i (live w)))) \<le> max_log_characters"
proof -
  obtain j where c: "c = as_dict (context_of j i (live w))" "w' = w"
    using build_context_Inr[OF assms] by blast
  show ?thesis
  proof (intro conjI)
    show "w' = w" by (rule c(2))
    show "\<exists>ls es as. get c ''logs'' = VList ls \<and> length ls \<le> 200 \<and> get c ''timeline'' = VList es \<and>
        length es \<le> 100 \<and> get c ''alerts'' = VList as \<and> length as \<le> 50"
      unfolding c(1) by (rule get_context_bounded)
  qed (rule log_context_budget)
qed

lemma context_bounded_example:
  "\<exists>c. build_context ''1'' sample_world = (Inr c, sample_world) \<and> (\<exists>ls. get c ''logs'' = VList ls \<and> length ls \<le> 200)"
proof -
  obtain c where "build_context ''1'' sample_world = (Inr c, sample_world)" using sample_context by blast
  with context_bounded[OF this] show ?thesis by blast
qed

text \<open>An analysis that the model gave is stored whatever becomes of the embedding: the row is added
  with its filtered texts and the caveat that asks for a review, a timeline event reports it, and an
  embedding outage leaves the incidents as they were.\<close>

lemma analysis_survives_embedding:
  assumes "build_context iid w = (Inr c, w)" and "llm_analyze llm c = Inr r"
  shows "\<exists>a ev w'. analyze_incident E llm S iid w = (Inr a, w') \<and>
    analyses (live w') = analyses (live w) @ [a] \<and> timeline_events (live w') = timeline_events (live w) @ [ev] \<and>
    an_incident_id a = iid \<and> an_summary a = redact (ac_summary r) \<and> an_is_fallback a = ar_is_fallback r \<and>
    REVIEW_CAVEAT \<in> set (an_caveats a) \<and> ev_kind ev = ''analysis_completed'' \<and>
    ((\<forall>t. is_ok (llm_embed llm t) = False) \<longrightarrow> incidents (live w') = incidents (live w))"
proof -
  let ?a = "analysis_row (stored_values r) iid (uuid E (ids w)) (clock E (ticks w))"
  let ?ev = "new_event E iid ''analysis_completed'' (''Assistive analysis generated by '' @ ar_provider r
    @ ''. Evidence requires engineer review.'') (Suc (ids w)) (Suc (ticks w))"
  let ?w = "w\<lparr>live := (live w)\<lparr>analyses := analyses (live w) @ [?a],
      timeline_events := timeline_events (live w) @ [?ev],
      incidents := embedded llm S r iid (incidents (live w))\<rparr>,
    ticks := Suc (Suc (ticks w)), ids := Suc (Suc (ids w))\<rparr>"
  have "analyze_incident E llm S iid w = (Inr ?a, ?w)"
    unfolding analyze_incident_run[OF assms(1)] assms(2) Let_def sum.case by (rule refl)
  moreover have "ev_kind ?ev = ''analysis_completed''" by (simp add: new_event_def)
  moreover have "an_incident_id ?a = iid" "an_summary ?a = redact (ac_summary r)" "an_is_fallback ?a = ar_is_fallback r"
    "REVIEW_CAVEAT \<in> set (an_caveats ?a)"
    by (simp_all add: analysis_row_def stored_values_def Let_def)
  moreover have "incidents (live w) = embedded llm S r iid (incidents (live w))"
    if "\<forall>t. is_ok (llm_embed llm t) = False"
    using that by (auto simp: embedded_def is_ok_def split: option.splits sum.splits)
  ultimately show ?thesis
    by (intro exI[of _ ?a] exI[of _ ?ev] exI[of _ ?w]) simp
qed

lemma analysis_survives_embedding_example:
  "\<exists>a w'. analyze_incident sample_env \<lparr>llm_analyze = (\<lambda>c. Inr (result_of (demo_content bare_context) ''demo'' True)),
       llm_embed = demo_embed\<rparr> default_settings ''1'' sample_world = (Inr a, w') \<and>
     analyses (live w') = [a] \<and> incidents (live w') = [sample_incident]"
proof -
  let ?r = "result_of (demo_content bare_context) ''demo'' True"
  let ?llm = "\<lparr>llm_analyze = (\<lambda>c. Inr ?r), llm_embed = demo_embed\<rparr>"
  obtain c where c: "build_context ''1'' sample_world = (Inr c, sample_world)" using sample_context by blast
  have "llm_analyze ?llm c = Inr ?r" by simp
  from analysis_survives_embedding[OF c this, of sample_env default_settings] show ?thesis
    by (auto simp: demo_embed_def sample_world_def new_world_def empty_db_def)
qed

end
