(* ===== verification/Postmortems.thy ===== *)
theory Postmortems
  imports Analyses Reporting
begin

text \<open>
  \<open>app/domain/postmortems.py\<close>: the Markdown draft of a postmortem and its versions.
\<close>

subsection \<open>Percentages\<close>

text \<open>The double nearest to a number between 0 and \<open>2 ^ 53\<close>, ties to even, and \<open>f"{x:.0%}"\<close> of the
  double that a decimal literal denotes: the product with 100 is rounded to a double before the digits
  are.\<close>

definition to_double :: "rat \<Rightarrow> rat" where
  "to_double q = (case find (\<lambda>e. 2 ^ 52 \<le> q * 2 ^ e) [0..<1075] of
      Some e \<Rightarrow> of_int (round_even (q * 2 ^ e)) / 2 ^ e
    | None \<Rightarrow> of_int (round_even (q * 2 ^ 1074)) / 2 ^ 1074)"

definition percent :: "pyfloat \<Rightarrow> str" where
  "percent f = (case decimal_value f of
      Some q \<Rightarrow> int_text (round_even (to_double (100 * to_double q))) @ ''%''
    | None \<Rightarrow> f @ ''%'')"

subsection \<open>The draft\<close>

definition omitted_line :: str where
  "omitted_line = ''- Additional timeline content omitted from this draft. Review the full incident timeline.''"

definition event_line :: "TimelineEvent \<Rightarrow> str" where
  "event_line e = ''- '' @ isoformat (ev_created_at e) @ '': '' @ ev_message e"

fun timeline_lines :: "int \<Rightarrow> TimelineEvent list \<Rightarrow> str list" where
  "timeline_lines remaining [] = []"
| "timeline_lines remaining (e # es) =
     (if remaining < int (length (event_line e)) then [omitted_line]
      else event_line e # timeline_lines (remaining - (int (length (event_line e)) + 1)) es)"

definition dated_events :: "str \<Rightarrow> db \<Rightarrow> TimelineEvent list" where
  "dated_events i d = take 1000 (sort_key ev_created_at (filter (\<lambda>e. ev_incident_id e = i) (timeline_events d)))"

definition head_sections :: "Incident \<Rightarrow> Analysis option \<Rightarrow> str list" where
  "head_sections inc analysis =
     [''# Postmortem: '' @ inc_title inc,
      ''> DRAFT - '' @ REVIEW_CAVEAT,
      ''## Incident'',
      ''- ID: '' @ inc_id inc @ [nl] @ ''- Service: '' @ inc_service inc @ [nl] @ ''- Severity: '' @ inc_severity inc
        @ [nl] @ ''- Status: '' @ inc_status inc @ [nl] @ ''- Started: '' @ isoformat (inc_created_at inc)
        @ [nl] @ ''- Resolved: '' @ (case inc_resolved_at inc of None \<Rightarrow> ''Ongoing'' | Some t \<Rightarrow> isoformat t),
      ''## Summary'',
      (case analysis of Some a \<Rightarrow> an_summary a
       | None \<Rightarrow> or_text (inc_description inc) ''Add an engineer-reviewed incident summary.''),
      ''## Impact'',
      ''To be completed by the incident owner: affected users, duration, and business impact.'',
      ''## Probable cause (requires verification)'',
      (case analysis of Some a \<Rightarrow> an_probable_cause a
       | None \<Rightarrow> ''No analysis yet. Document the verified cause and supporting evidence.'')]"

definition analysis_sections :: "Analysis \<Rightarrow> str list" where
  "analysis_sections a =
     [''Model confidence: '' @ percent (an_confidence a) @ ''. This is not a calibrated probability.'',
      ''## Supporting evidence'',
      or_text (join [nl] (map (\<lambda>e. ''- '' @ e) (an_evidence a))) ''- No supporting evidence available.'',
      ''## Suggested remediation'',
      or_text (join [nl] (map (\<lambda>s. ''- [ ] '' @ s) (an_remediation_steps a)))
        ''- [ ] Review the incident with the service owner.'']"

definition tail_sections :: "TimelineEvent list \<Rightarrow> str list" where
  "tail_sections events =
     [''## Timeline (UTC)'',
      join [nl] (timeline_lines 60000 events),
      ''## What went well'',
      ''To be completed during the blameless review.'',
      ''## What could improve'',
      ''To be completed during the blameless review.'',
      ''## Follow-up actions'',
      ''- [ ] Assign an owner and due date to each corrective action.'' @ [nl]
        @ ''- [ ] Confirm monitoring covers the failure mode.'' @ [nl]
        @ ''- [ ] Review and approve this draft before publication.'']"

definition limitation_sections :: "Analysis option \<Rightarrow> str list" where
  "limitation_sections analysis = (case analysis of
      Some a \<Rightarrow> (if an_caveats a = [] then []
        else [''## Limitations'', join [nl] (map (\<lambda>c. ''- '' @ c) (an_caveats a))])
    | None \<Rightarrow> [])"

definition postmortem_text :: "Incident \<Rightarrow> Analysis option \<Rightarrow> TimelineEvent list \<Rightarrow> str" where
  "postmortem_text inc analysis events =
     join [nl, nl]
       (head_sections inc analysis
        @ (case analysis of Some a \<Rightarrow> analysis_sections a | None \<Rightarrow> [])
        @ tail_sections events @ limitation_sections analysis) @ [nl]"

subsection \<open>Operations\<close>

definition find_postmortem :: "str \<Rightarrow> db \<Rightarrow> Postmortem option" where
  "find_postmortem i d = find_row pm_incident_id i (postmortems d)"

definition get_postmortem :: "str \<Rightarrow> Postmortem act" where
  "get_postmortem i = andthen (look (find_postmortem i)) (\<lambda>found. case found of
     None \<Rightarrow> raise (AppError ''postmortem_not_found'' ''Generate a postmortem first'' 404)
   | Some p \<Rightarrow> ret p)"

definition draft_of :: "Incident \<Rightarrow> db \<Rightarrow> str" where
  "draft_of inc d = redact (postmortem_text inc (latest_of (inc_id inc) d) (dated_events (inc_id inc) d))"

definition generate_postmortem :: "env \<Rightarrow> str \<Rightarrow> Postmortem act" where
  "generate_postmortem E i =
     andthen (require_incident i) (\<lambda>inc.
     andthen (look (draft_of inc)) (\<lambda>markdown.
     andthen (look (find_postmortem i)) (\<lambda>found.
     andthen (case found of
         Some p \<Rightarrow> andthen (utcnow E) (\<lambda>t.
           let p' = p\<lparr>pm_markdown := markdown, pm_version := pm_version p + 1, pm_updated_at := t\<rparr>
           in andthen (set_postmortem (pm_id p) (\<lambda>q. q\<lparr>pm_markdown := markdown,
                pm_version := pm_version q + 1, pm_updated_at := t\<rparr>)) (\<lambda>_. ret p'))
       | None \<Rightarrow> insert_postmortem E i markdown) (\<lambda>p.
     andthen (add_event E i ''postmortem_generated''
       ''Generated an editable postmortem draft; engineer review required.'') (\<lambda>_. ret p)))))"

subsection \<open>The invariant is kept\<close>

lemma keeps_get_postmortem: "store.keeps E (get_postmortem i)"
  unfolding get_postmortem_def by (intro store.keeps_rules)

lemma keeps_generate_postmortem: "inj (uuid E) \<Longrightarrow> store.keeps E (generate_postmortem E i)"
  unfolding generate_postmortem_def Let_def
  by (intro store.keeps_rules keeps_require_incident keeps_insert_postmortem keeps_set_postmortem keeps_add_event)
    simp_all

lemma uncommitted_postmortems: "uncommitted (get_postmortem i)" "uncommitted (generate_postmortem E i)"
  unfolding get_postmortem_def generate_postmortem_def Let_def
  by (intro uncommitted_store uncommitted_incidents)+

subsection \<open>The timeline of a draft\<close>

lemma timeline_lines_cases:
  obtains (all) "timeline_lines n es = map event_line es"
  | (cut) k where "k < length es" and "timeline_lines n es = map event_line (take k es) @ [omitted_line]"
proof (induction n es arbitrary: thesis rule: timeline_lines.induct)
  case (1 n)
  then show ?case by simp
next
  case (2 n e es)
  show ?case
  proof (cases "n < int (length (event_line e))")
    case True
    then show ?thesis by (intro "2.prems"(2)[of 0]) simp_all
  next
    case False
    show ?thesis
    proof (rule "2.IH"[OF False])
      assume "timeline_lines (n - (int (length (event_line e)) + 1)) es = map event_line es"
      then show thesis using False by (intro "2.prems"(1)) simp
    next
      fix k assume "k < length es"
        "timeline_lines (n - (int (length (event_line e)) + 1)) es = map event_line (take k es) @ [omitted_line]"
      then show thesis using False by (intro "2.prems"(2)[of "Suc k"]) simp_all
    qed
  qed
qed

lemma timeline_lines_budget:
  "-1 \<le> n \<Longrightarrow> int (sum_list (map (\<lambda>l. length l + 1) (timeline_lines n es))) \<le> n + 1 + int (length omitted_line) + 1"
proof (induction n es rule: timeline_lines.induct)
  case (2 n e es)
  show ?case
  proof (cases "n < int (length (event_line e))")
    case True
    then show ?thesis using "2.prems" by simp
  next
    case False
    then have "int (sum_list (map (\<lambda>l. length l + 1) (timeline_lines (n - (int (length (event_line e)) + 1)) es)))
        \<le> n - (int (length (event_line e)) + 1) + 1 + int (length omitted_line) + 1"
      by (intro "2.IH") auto
    with False show ?thesis by simp
  qed
qed simp

lemma length_join_le: "length (join [c] ls) \<le> sum_list (map (\<lambda>l. length l + 1) ls)"
  by (induction "[c]" ls rule: join.induct) auto

text \<open>The timeline of a draft takes at most 60000 characters and the line that says that events
  were left out; it has the events in their order, either all of them, or the first ones followed by
  that line.\<close>

lemma timeline_bounded:
  "length (join [nl] (timeline_lines 60000 es)) \<le> 60000 + length omitted_line + 2 \<and>
   (timeline_lines 60000 es = map event_line es \<or>
    (\<exists>k < length es. timeline_lines 60000 es = map event_line (take k es) @ [omitted_line]))"
proof (intro conjI)
  have "int (sum_list (map (\<lambda>l. length l + 1) (timeline_lines 60000 es))) \<le> 60000 + 1 + int (length omitted_line) + 1"
    by (rule timeline_lines_budget) simp
  then show "length (join [nl] (timeline_lines 60000 es)) \<le> 60000 + length omitted_line + 2"
    using length_join_le[of nl "timeline_lines 60000 es"] by linarith
  show "timeline_lines 60000 es = map event_line es \<or>
      (\<exists>k < length es. timeline_lines 60000 es = map event_line (take k es) @ [omitted_line])"
    by (rule timeline_lines_cases[of 60000 es]) blast+
qed

subsection \<open>Versions\<close>

lemma filter_key:
  "distinct (map f xs) \<Longrightarrow> x \<in> set xs \<Longrightarrow> filter (\<lambda>y. f y = f x) xs = [x]"
proof (induction xs)
  case (Cons a xs)
  show ?case
  proof (cases "a = x")
    case True
    then have "filter (\<lambda>y. f y = f x) xs = []" using Cons.prems(1) by (force simp: filter_empty_conv image_iff)
    then show ?thesis using True by simp
  next
    case False
    then have "f a \<noteq> f x" using Cons.prems by auto
    with Cons False show ?thesis by auto
  qed
qed simp

lemma find_postmortem_only:
  assumes "unique_keys d" and "find_postmortem i d = Some p"
  shows "filter (\<lambda>p. pm_incident_id p = i) (postmortems d) = [p]"
  using filter_key[of pm_incident_id "postmortems d" p] find_row_Some[of pm_incident_id i "postmortems d" p] assms
  by (simp add: find_postmortem_def unique_keys_def)

lemma find_postmortem_none:
  "find_postmortem i d = None \<Longrightarrow> filter (\<lambda>p. pm_incident_id p = i) (postmortems d) = []"
  by (auto simp: find_postmortem_def find_row_None filter_empty_conv)

text \<open>What generating does to the postmortem of the incident.\<close>

definition revised :: "str \<Rightarrow> time \<Rightarrow> Postmortem \<Rightarrow> Postmortem" where
  "revised markdown t p = p\<lparr>pm_markdown := markdown, pm_version := pm_version p + 1, pm_updated_at := t\<rparr>"

lemma filter_update_row:
  assumes "\<And>r. P (f r) = P r"
  shows "filter P (update_row key k f rs) = update_row key k f (filter P rs)"
  using assms by (induction rs) (auto simp: update_row_def)

lemma generate_existing:
  assumes "find_row inc_id i (incidents (live w)) = Some inc" and "find_postmortem i (live w) = Some p"
  shows "\<exists>ev w'. generate_postmortem E i w = (Inr (revised (draft_of inc (live w)) (clock E (ticks w)) p), w') \<and>
    postmortems (live w') = update_row pm_id (pm_id p) (revised (draft_of inc (live w)) (clock E (ticks w))) (postmortems (live w)) \<and>
    timeline_events (live w') = timeline_events (live w) @ [ev] \<and> incidents (live w') = incidents (live w)"
  using assms
  by (simp add: generate_postmortem_def andthen_def require_incident_run set_postmortem_def add_event_run
      has_incident_def Let_def revised_def[abs_def])

lemma generate_first:
  assumes "find_row inc_id i (incidents (live w)) = Some inc" and "find_postmortem i (live w) = None"
  shows "\<exists>p ev w'. generate_postmortem E i w = (Inr p, w') \<and> pm_markdown p = draft_of inc (live w) \<and>
    pm_version p = 1 \<and> pm_incident_id p = i \<and> postmortems (live w') = postmortems (live w) @ [p] \<and>
    timeline_events (live w') = timeline_events (live w) @ [ev] \<and> incidents (live w') = incidents (live w)"
proof -
  have "i \<notin> pm_incident_id ` set (postmortems (live w))"
    using assms(2) by (simp add: find_postmortem_def find_row_None)
  then show ?thesis
    using assms
    by (simp add: generate_postmortem_def andthen_def require_incident_run insert_postmortem_def insert_new_def
        add_event_run has_incident_def)
qed

text \<open>C29. Generating the postmortem of an existing incident always succeeds; afterwards the incident has
  exactly one postmortem, whose text is the filtered draft and whose version is one more than before,
  or one; the postmortems of other incidents are untouched.\<close>

theorem generate_postmortem_versions:
  assumes "world_ok E w" and "find_row inc_id i (incidents (live w)) = Some inc"
  shows "\<exists>p w'. generate_postmortem E i w = (Inr p, w') \<and> pm_markdown p = draft_of inc (live w) \<and>
    pm_version p = (case find_postmortem i (live w) of None \<Rightarrow> 1 | Some q \<Rightarrow> pm_version q + 1) \<and>
    filter (\<lambda>q. pm_incident_id q = i) (postmortems (live w')) = [p] \<and>
    filter (\<lambda>q. pm_incident_id q \<noteq> i) (postmortems (live w')) =
      filter (\<lambda>q. pm_incident_id q \<noteq> i) (postmortems (live w))"
proof (cases "find_postmortem i (live w)")
  case None
  then show ?thesis
    using generate_first[OF assms(2) None, of E] find_postmortem_none[OF None] by fastforce
next
  case (Some q)
  let ?f = "revised (draft_of inc (live w)) (clock E (ticks w))"
  have u: "unique_keys (live w)" "distinct (map pm_id (postmortems (live w)))"
    using assms(1) by (auto simp: world_ok_def db_inv_def primary_keys_def)
  have q: "q \<in> set (postmortems (live w))" "pm_incident_id q = i"
    using Some find_row_Some[of pm_incident_id] by (auto simp: find_postmortem_def)
  have same: "(pm_incident_id (?f r) = i) = (pm_incident_id r = i)" "(pm_incident_id (?f r) \<noteq> i) = (pm_incident_id r \<noteq> i)" for r
    by (simp_all add: revised_def)
  obtain ev w' where run: "generate_postmortem E i w = (Inr (?f q), w')"
      "postmortems (live w') = update_row pm_id (pm_id q) ?f (postmortems (live w))"
    using generate_existing[OF assms(2) Some, of E] by blast
  have "filter (\<lambda>r. pm_incident_id r = i) (postmortems (live w')) = [?f q]"
    using find_postmortem_only[OF u(1) Some] by (simp add: run(2) filter_update_row same) (simp add: update_row_def)
  moreover have "filter (\<lambda>r. pm_incident_id r \<noteq> i) (postmortems (live w')) =
      filter (\<lambda>r. pm_incident_id r \<noteq> i) (postmortems (live w))"
  proof -
    have "pm_id r \<noteq> pm_id q" if "r \<in> set (postmortems (live w))" "pm_incident_id r \<noteq> i" for r
      using that q u(2) by (auto simp: distinct_map inj_on_def)
    then have "update_row pm_id (pm_id q) ?f (filter (\<lambda>r. pm_incident_id r \<noteq> i) (postmortems (live w)))
        = filter (\<lambda>r. pm_incident_id r \<noteq> i) (postmortems (live w))"
      unfolding update_row_def by (intro map_idI) auto
    then show ?thesis by (simp add: run(2) filter_update_row same)
  qed
  ultimately show ?thesis
    using run(1) Some by (intro exI[of _ "?f q"] exI[of _ w']) (simp add: revised_def)
qed

theorem generate_postmortem_versions_witness:
  "\<exists>p w'. generate_postmortem sample_env ''1'' sample_world = (Inr p, w') \<and> pm_version p = 1 \<and>
     filter (\<lambda>q. pm_incident_id q = ''1'') (postmortems (live w')) = [p]"
proof -
  have "find_row inc_id ''1'' (incidents (live sample_world)) = Some sample_incident"
    by (simp add: sample_world_def find_row_def sample_incident_def)
  moreover have "find_postmortem ''1'' (live sample_world) = None"
    by (simp add: sample_world_def find_postmortem_def find_row_def empty_db_def)
  ultimately show ?thesis
    using generate_postmortem_versions[OF sample_world_ok] by fastforce
qed

end
