(* ===== verification/Markdown.thy ===== *)
theory Markdown
  imports Prose PyValues
begin

text \<open>
  The document half of \<open>app/integrations/exporters\<close>: Markdown to Atlassian Document Format (ADF) and
  to Confluence storage XML. Properties: the shape of the document, with the one node that can have an
  empty text, and that a reader of the XML finds the tags of the document's nodes and no others, with
  every text as it was.
\<close>

subsection \<open>Markdown to ADF\<close>

text \<open>A node: a text, or a kind with the level of a heading and its content.\<close>

datatype node = Text str | Node str "nat option" "node list"

definition heading_rx :: rx where
  "heading_rx = seqs
     [RGrp 1 (RRep 1 (Some 6) (ch (CHR ''#''))), plus_rx (RSet is_space),
      RGrp 2 (plus_rx (RSet (\<lambda>c. c \<noteq> nl))), RLook (\<lambda>pv s. s = [] \<or> s = [nl])]"

definition bullet_rx :: rx where
  "bullet_rx = seqs [RSet (\<lambda>c. c = CHR ''-'' \<or> c = CHR ''*''), plus_rx (RSet is_space)]"

definition code_block :: "str list \<Rightarrow> node" where
  "code_block code = Node ''codeBlock'' None [Text (let t = join [nl] code in if t = [] then '' '' else t)]"

definition paragraph_node :: "str \<Rightarrow> node" where
  "paragraph_node line = Node ''paragraph'' None [Text line]"

text \<open>A bullet joins the list that the last block is, if it is one.\<close>

definition add_bullet :: "node list \<Rightarrow> node \<Rightarrow> node list" where
  "add_bullet blocks item =
     (if blocks = [] then [Node ''bulletList'' None [item]]
      else case last blocks of
        Node kind level content \<Rightarrow>
          (if kind = ''bulletList'' then butlast blocks @ [Node kind level (content @ [item])]
           else blocks @ [Node ''bulletList'' None [item]])
      | Text t \<Rightarrow> blocks @ [Node ''bulletList'' None [item]])"

type_synonym adf_state = "node list \<times> str list option"

definition adf_line :: "str \<Rightarrow> adf_state \<Rightarrow> adf_state" where
  "adf_line line = (\<lambda>(blocks, code).
     if prefix ''```'' line then
       (case code of None \<Rightarrow> (blocks, Some []) | Some ls \<Rightarrow> (blocks @ [code_block ls], None))
     else case code of
       Some ls \<Rightarrow> (blocks, Some (ls @ [line]))
     | None \<Rightarrow>
         (if strip line = [] then (blocks, None)
          else case match_at heading_rx None line of
            Some (pv, s, cs) \<Rightarrow>
              (blocks @ [Node ''heading'' (Some (length (group 1 cs))) [Text (group 2 cs)]], None)
          | None \<Rightarrow>
              (if match_at bullet_rx None line \<noteq> None
               then (add_bullet blocks (Node ''listItem'' None [paragraph_node (drop 2 line)]), None)
               else (blocks @ [paragraph_node line], None))))"

definition markdown_to_adf :: "str \<Rightarrow> node" where
  "markdown_to_adf markdown =
     (let (blocks, code) = fold adf_line (splitlines (redact markdown)) ([], None);
          all_blocks = (case code of Some ls \<Rightarrow> blocks @ [code_block ls] | None \<Rightarrow> blocks)
      in Node ''doc'' None (if all_blocks = [] then [Node ''paragraph'' None []] else all_blocks))"

text \<open>The document as the JSON that is sent.\<close>

fun node_json :: "node \<Rightarrow> pyval" where
  "node_json (Text t) = VDict [(''type'', VStr ''text''), (''text'', VStr t)]"
| "node_json (Node kind level content) = VDict
     ((''type'', VStr kind)
      # (case level of Some n \<Rightarrow> [(''attrs'', VDict [(''level'', VInt (int n))])] | None \<Rightarrow> [])
      @ (if kind = ''doc'' then [(''version'', VInt 1)] else [])
      @ [(''content'', VList (map node_json content))])"

subsection \<open>Storage XML\<close>

definition escape_char :: "char \<Rightarrow> str" where
  "escape_char c =
     (if c = CHR ''&'' then ''&amp;'' else if c = CHR ''<'' then ''&lt;'' else if c = CHR ''>'' then ''&gt;''
      else if c = dq then ''&quot;'' else if c = sq then ''&#x27;'' else [c])"

definition html_escape :: "str \<Rightarrow> str" where
  "html_escape s = concat (map escape_char s)"

definition tag_of :: "str \<Rightarrow> nat option \<Rightarrow> str" where
  "tag_of kind level =
     (if kind = ''heading'' then CHR ''h'' # nat_text (case level of Some n \<Rightarrow> n | None \<Rightarrow> 0)
      else case map_of [(''doc'', ''div''), (''paragraph'', ''p''), (''bulletList'', ''ul''),
          (''listItem'', ''li''), (''codeBlock'', ''pre'')] kind of Some t \<Rightarrow> t | None \<Rightarrow> [])"

fun render :: "node \<Rightarrow> str" where
  "render (Text t) = html_escape t"
| "render (Node kind level content) =
     CHR ''<'' # tag_of kind level @ CHR ''>'' # concat (map render content)
       @ ''</'' @ tag_of kind level @ ''>''"

definition markdown_to_storage :: "str \<Rightarrow> str" where
  "markdown_to_storage markdown = render (markdown_to_adf markdown)"

subsection \<open>What a heading captures\<close>

lemma rmatch_set_rep:
  assumes "rmatch (RRep lo hi (RSet p)) st st'"
  shows "\<exists>w. rest st = w @ rest st' \<and> snd (snd st') = snd (snd st) \<and> lo \<le> length w \<and>
    (\<forall>m. hi = Some m \<longrightarrow> length w \<le> m)"
  using assms
proof (induction "RRep lo hi (RSet p)" st st' arbitrary: lo hi rule: rmatch.induct)
  case (rep_step hi st st1 lo st2)
  obtain c where c: "rest st = c # rest st1" "snd (snd st1) = snd (snd st)"
    using rep_step.hyps(2) by (auto elim: rmatch_SetE)
  obtain w where w: "rest st1 = w @ rest st2" "snd (snd st2) = snd (snd st1)" "lo - 1 \<le> length w"
      "\<forall>m. dec_hi hi = Some m \<longrightarrow> length w \<le> m"
    using rep_step.hyps(4) by blast
  have "length (c # w) \<le> m" if "hi = Some m" for m
    using that w(4) rep_step.hyps(1) by (cases m) (auto simp: dec_hi_def)
  with c w show ?case by (intro exI[of _ "c # w"]) auto
qed auto

lemma heading_groups:
  assumes "match_at heading_rx None line = Some (pv, s, cs)"
  shows "length (group 1 cs) \<in> {1..6}" and "group 2 cs \<noteq> []"
proof -
  let ?hash = "RRep 1 (Some 6) (ch (CHR ''#''))"
  let ?text = "plus_rx (RSet (\<lambda>c. c \<noteq> nl))"
  have "rmatch heading_rx (None, line, []) (pv, s, cs)"
    by (rule match_at_Some[OF assms])
  then obtain st1 st2 st3 where st1: "rmatch (RGrp 1 ?hash) (None, line, []) st1"
      and st2: "rmatch (plus_rx (RSet is_space)) st1 st2"
      and st3: "rmatch (RGrp 2 ?text) st2 st3"
      and look: "rmatch (RLook (\<lambda>pv s. s = [] \<or> s = [nl])) st3 (pv, s, cs)"
    unfolding heading_rx_def by (auto simp: seqs.simps elim!: rmatch_SeqE)
  have last: "st3 = (pv, s, cs)" using look by (cases rule: rmatch.cases) auto
  obtain st0 where st0: "rmatch ?hash (None, line, []) st0" "st1 = capture 1 (None, line, []) st0"
    using st1 by (auto elim: rmatch_GrpE)
  obtain st' where st': "rmatch ?text st2 st'" "st3 = capture 2 st2 st'"
    using st3 by (auto elim: rmatch_GrpE)
  obtain w where w: "line = w @ rest st0" "length w \<in> {1..6}"
    using rmatch_set_rep[OF st0(1)[unfolded ch_def]] by auto
  obtain v where v: "rest st2 = v @ rest st'" "snd (snd st') = snd (snd st2)" "1 \<le> length v"
    using rmatch_set_rep[OF st'(1)[unfolded plus_rx_def]] by auto
  have caps1: "snd (snd st1) = (1, w) # snd (snd st0)"
    using st0(2) w by (cases st0) (auto simp: capture_def)
  have caps2: "snd (snd st2) = snd (snd st1)"
    using rmatch_set_rep[OF st2[unfolded plus_rx_def]] by auto
  have "cs = (2, v) # snd (snd st')"
    using st'(2) v(1) last by (cases st') (auto simp: capture_def)
  then have "group 1 cs = w" "group 2 cs = v"
    using caps1 caps2 v(2) by (simp_all add: group_def)
  then show "length (group 1 cs) \<in> {1..6}" "group 2 cs \<noteq> []" using w(2) v(3) by auto
qed

subsection \<open>The shape of the document\<close>

fun item_ok :: "node \<Rightarrow> bool" where
  "item_ok (Node k None [Node k' None [Text t]]) = (k = ''listItem'' \<and> k' = ''paragraph'')"
| "item_ok n = False"

definition leaf_ok :: "str \<Rightarrow> nat option \<Rightarrow> bool" where
  "leaf_ok kind level = (case level of
      None \<Rightarrow> kind = ''paragraph'' \<or> kind = ''codeBlock''
    | Some n \<Rightarrow> kind = ''heading'' \<and> n \<in> {1..6})"

fun block_ok :: "node \<Rightarrow> bool" where
  "block_ok (Node kind level [Text t]) = (t \<noteq> [] \<and> leaf_ok kind level)"
| "block_ok (Node kind level content) =
     (kind = ''bulletList'' \<and> level = None \<and> content \<noteq> [] \<and> list_all item_ok content)"
| "block_ok (Text t) = False"

fun doc_ok :: "node \<Rightarrow> bool" where
  "doc_ok (Node kind level content) = (kind = ''doc'' \<and> level = None \<and>
     (content = [Node ''paragraph'' None []] \<or> content \<noteq> [] \<and> list_all block_ok content))"
| "doc_ok (Text t) = False"

lemma block_ok_list:
  "content \<noteq> [] \<Longrightarrow> list_all item_ok content \<Longrightarrow> block_ok (Node ''bulletList'' None content)"
  by (cases content rule: list.exhaust; cases "hd content"; cases "tl content") auto

lemma block_ok_listD:
  "block_ok (Node ''bulletList'' level content) \<Longrightarrow> level = None \<and> content \<noteq> [] \<and> list_all item_ok content"
  by (cases "Node ''bulletList'' level content" rule: block_ok.cases)
     (auto simp: leaf_ok_def split: option.splits)

lemma add_bullet_ok:
  assumes "list_all block_ok blocks" and "item_ok item"
  shows "list_all block_ok (add_bullet blocks item)"
proof (cases "blocks = []")
  case True
  with assms(2) show ?thesis by (simp add: add_bullet_def block_ok_list)
next
  case False
  then have split: "blocks = butlast blocks @ [last blocks]" by simp
  with assms(1) have ok: "list_all block_ok (butlast blocks)" "block_ok (last blocks)"
    by (metis list_all_append list.pred_inject(2))+
  show ?thesis
  proof (cases "last blocks")
    case (Text t)
    with ok(2) show ?thesis by simp
  next
    case (Node kind level content)
    with ok False assms show ?thesis
      by (auto simp: add_bullet_def block_ok_list dest!: block_ok_listD)
  qed
qed

lemma code_block_ok: "block_ok (code_block code)"
  by (simp add: code_block_def leaf_ok_def Let_def)

lemma adf_line_ok:
  assumes "list_all block_ok (fst st)"
  shows "list_all block_ok (fst (adf_line line st))"
proof (cases st)
  case (Pair blocks code)
  have "block_ok (Node ''heading'' (Some (length (group 1 cs))) [Text (group 2 cs)])"
    if "match_at heading_rx None line = Some (pv, s, cs)" for pv s cs
    using heading_groups[OF that] by (simp add: leaf_ok_def)
  moreover have "block_ok (paragraph_node line)" if "strip line \<noteq> []"
    using that by (cases line) (simp_all add: paragraph_node_def leaf_ok_def strip_def rstrip_by_def lstrip_by_def)
  moreover have "item_ok (Node ''listItem'' None [paragraph_node l])" for l
    by (simp add: paragraph_node_def)
  ultimately show ?thesis using assms Pair
    by (auto simp: adf_line_def code_block_ok add_bullet_ok split: option.split)
qed

lemma adf_lines_ok:
  "list_all block_ok (fst st) \<Longrightarrow> list_all block_ok (fst (fold adf_line lines st))"
  by (induction lines arbitrary: st) (simp_all add: adf_line_ok)

text \<open>C31. For every text, the document has the shape that Jira asks for: a heading has a level from 1
  to 6 and a text, a paragraph and a code block have a text, a bullet list has items, each with one
  paragraph, and a document with nothing in it is one empty paragraph. Only the text of a bullet can
  be empty.\<close>

theorem markdown_to_adf_shape: "doc_ok (markdown_to_adf markdown)"
  using adf_lines_ok[of "([], None)" "splitlines (redact markdown)"]
  by (auto simp: markdown_to_adf_def Let_def code_block_ok split: prod.splits option.splits)

text \<open>A bullet of white space alone is the bullet whose text node is empty, which the document
  format does not allow (a code block in the same place gets a blank).\<close>

lemma markdown_to_adf_empty_bullet:
  "markdown_to_adf ''* '' =
     Node ''doc'' None [Node ''bulletList'' None [Node ''listItem'' None [Node ''paragraph'' None [Text []]]]]"
proof -
  have "prose ''* ''" by code_simp
  then have "redact ''* '' = ''* ''" by (rule redact_prose)
  moreover have "adf_line ''* '' ([], None) =
      ([Node ''bulletList'' None [Node ''listItem'' None [Node ''paragraph'' None [Text []]]]], None)" by code_simp
  moreover have "splitlines ''* '' = [''* '']" by code_simp
  ultimately show ?thesis by (simp add: markdown_to_adf_def)
qed

subsection \<open>Reading the storage XML\<close>

text \<open>What a reader of the XML sees: the opening and closing tags, and the characters between them with
  the five entities resolved.\<close>

datatype xml_token = OpenTag str | CloseTag str | CharData char

definition entities :: "(str \<times> char) list" where
  "entities = [(''&amp;'', CHR ''&''), (''&lt;'', CHR ''<''), (''&gt;'', CHR ''>''), (''&quot;'', dq), (''&#x27;'', sq)]"

definition tag_text :: "str \<Rightarrow> str" where
  "tag_text s = takeWhile (\<lambda>c. c \<noteq> CHR ''>'') s"

definition after_tag :: "str \<Rightarrow> str" where
  "after_tag s = drop 1 (dropWhile (\<lambda>c. c \<noteq> CHR ''>'') s)"

lemma after_tag_length [simp]: "length (after_tag s) \<le> length s"
  by (simp add: after_tag_def) (meson diff_le_self le_trans length_dropWhile_le)

lemma after_tag_drop [simp]: "length (after_tag (drop n s)) \<le> length s"
  by (rule order_trans[OF after_tag_length]) simp

lemma entity_nonempty: "find (\<lambda>(e, x). prefix e s) entities = Some (e, x) \<Longrightarrow> e \<noteq> []"
  by (auto simp: entities_def split: if_splits)

function read_xml :: "str \<Rightarrow> xml_token list" where
  "read_xml [] = []"
| "read_xml (c # s) =
     (if c = CHR ''<'' then
        (if prefix ''/'' s then CloseTag (tag_text (drop 1 s)) # read_xml (after_tag (drop 1 s))
         else OpenTag (tag_text s) # read_xml (after_tag s))
      else if c = CHR ''&'' then (case find (\<lambda>(e, x). prefix e (c # s)) entities of
          Some (e, x) \<Rightarrow> CharData x # read_xml (drop (length e - 1) s)
        | None \<Rightarrow> CharData c # read_xml s)
      else CharData c # read_xml s)"
  by pat_completeness auto
termination
  by (relation "measure length") (auto simp: less_Suc_eq_le)

fun node_tokens :: "node \<Rightarrow> xml_token list" where
  "node_tokens (Text t) = map CharData t"
| "node_tokens (Node kind level content) =
     OpenTag (tag_of kind level) # concat (map node_tokens content) @ [CloseTag (tag_of kind level)]"

lemma read_escape_char: "read_xml (escape_char c @ s) = CharData c # read_xml s"
  by (auto simp: escape_char_def entities_def)

lemma read_html_escape: "read_xml (html_escape t @ s) = map CharData t @ read_xml s"
  by (induction t) (simp_all add: html_escape_def read_escape_char)

definition tag_ok :: "str \<Rightarrow> bool" where
  "tag_ok t = (CHR ''>'' \<notin> set t \<and> \<not> prefix ''/'' t)"

lemma nat_text_tag: "CHR ''>'' \<notin> set (nat_text n)"
  using nat_text_digits[of "CHR ''>''" n] by (auto simp: is_digit_def ord_def)

lemma tag_of_ok: "tag_ok (tag_of kind level)"
  by (auto simp: tag_ok_def tag_of_def nat_text_tag)

lemma read_open: "tag_ok t \<Longrightarrow> read_xml (CHR ''<'' # t @ CHR ''>'' # s) = OpenTag t # read_xml s"
  by (cases t) (auto simp: tag_ok_def tag_text_def after_tag_def takeWhile_append dropWhile_append)

lemma read_close: "tag_ok t \<Longrightarrow> read_xml (''</'' @ t @ CHR ''>'' # s) = CloseTag t # read_xml s"
  by (auto simp: tag_ok_def tag_text_def after_tag_def takeWhile_append dropWhile_append)

lemma read_render: "read_xml (render n @ s) = node_tokens n @ read_xml s"
proof (induction n arbitrary: s rule: render.induct)
  case (1 t)
  show ?case by (simp add: read_html_escape)
next
  case (2 kind level content)
  have "read_xml (concat (map render content) @ s) = concat (map node_tokens content) @ read_xml s" for s
    using 2 by (induction content arbitrary: s) auto
  then show ?case using tag_of_ok[of kind level] read_open read_close by (simp del: read_xml.simps)
qed

text \<open>C30. The storage XML of a postmortem reads back as the document: the tags are those of its nodes and
  no others, whatever the texts contain, and every text is as it was.\<close>

theorem markdown_to_storage_reads:
  "read_xml (markdown_to_storage markdown) = node_tokens (markdown_to_adf markdown)"
  using read_render[of "markdown_to_adf markdown" "[]"] by (simp add: markdown_to_storage_def)

end
