(* ===== verification/Exporters.thy ===== *)
theory Exporters
  imports Markdown Network Schemas Sha256
begin

text \<open>
  \<open>app/integrations/exporters\<close>: the check of a base URL, and the demo, Jira and Confluence exporters behind one interface.
\<close>

subsection \<open>URLs\<close>

text \<open>\<open>urlsplit\<close>. What it checks of a bracketed host depends on \<open>ipaddress\<close> and on the version of the
  library: \<open>bracket_ok\<close>.\<close>

record split_url =
  su_scheme :: str
  su_netloc :: str
  su_query :: str
  su_fragment :: str

definition scheme_char :: "char \<Rightarrow> bool" where
  "scheme_char c = (is_alnum c \<or> c \<in> set ''+-.'')"

definition split_scheme :: "str \<Rightarrow> str \<times> str" where
  "split_scheme url =
     (case partition1 (CHR '':'') url of
        Some (a, b) \<Rightarrow>
          (if a \<noteq> [] \<and> is_alpha (hd a) \<and> list_all scheme_char a then (lower a, b) else ([], url))
      | None \<Rightarrow> ([], url))"

definition cut_at :: "char \<Rightarrow> str \<Rightarrow> str \<times> str" where
  "cut_at c s = (case partition1 c s of Some p \<Rightarrow> p | None \<Rightarrow> (s, []))"

definition urlsplit :: "(str \<Rightarrow> bool) \<Rightarrow> str \<Rightarrow> (exc, split_url) res" where
  "urlsplit bracket_ok value0 =
     (let url0 = filter (\<lambda>c. ord c \<notin> {9, 10, 13}) (dropWhile (\<lambda>c. ord c \<le> 32) value0);
          (scheme, url1) = split_scheme url0;
          netloc = (if prefix ''//'' url1 then takeWhile (\<lambda>c. c \<notin> set ''/?#'') (drop 2 url1) else []);
          url2 = (if prefix ''//'' url1 then dropWhile (\<lambda>c. c \<notin> set ''/?#'') (drop 2 url1) else url1);
          (url3, fragment) = cut_at (CHR ''#'') url2;
          (path, query) = cut_at (CHR ''?'') url3;
          opens = CHR ''['' \<in> set netloc; closes = CHR '']'' \<in> set netloc
      in if opens \<noteq> closes \<or> opens \<and> \<not> bracket_ok netloc
         then Inl (ValueError ''Invalid IPv6 URL'')
         else Inr \<lparr>su_scheme = scheme, su_netloc = netloc, su_query = query, su_fragment = fragment\<rparr>)"

definition userinfo :: "split_url \<Rightarrow> str \<times> str" where
  "userinfo u = (case rpartition1 (CHR ''@'') (su_netloc u) of
      Some (info, host) \<Rightarrow> cut_at (CHR '':'') info | None \<Rightarrow> ([], []))"

definition hostname :: "split_url \<Rightarrow> str" where
  "hostname u =
     (let hostinfo = (case rpartition1 (CHR ''@'') (su_netloc u) of Some (i, h) \<Rightarrow> h | None \<Rightarrow> su_netloc u)
      in case partition1 (CHR ''['') hostinfo of
           Some (a, bracketed) \<Rightarrow> fst (cut_at (CHR '']'') bracketed)
         | None \<Rightarrow> fst (cut_at (CHR '':'') hostinfo))"

definition base_url :: "(str \<Rightarrow> bool) \<Rightarrow> str \<Rightarrow> (exc, str) res" where
  "base_url bracket_ok v =
     bind_res (urlsplit bracket_ok v) (\<lambda>parsed.
       if su_scheme parsed \<noteq> ''https'' \<or> hostname parsed = [] \<or> fst (userinfo parsed) \<noteq> [] \<or>
          snd (userinfo parsed) \<noteq> [] \<or> su_query parsed \<noteq> [] \<or> su_fragment parsed \<noteq> []
       then Inl (IntegrationError ''Integration base URL must be an HTTPS URL without credentials, query or fragment.''
         ''integration_configuration'' 503)
       else Inr (rstrip_by (\<lambda>c. c = CHR ''/'') v))"

subsection \<open>The exporters\<close>

record ExportResult =
  xr_destination :: str
  xr_external_id :: str
  xr_url :: str
  xr_is_demo :: bool

definition demo_export :: "str \<Rightarrow> dict \<Rightarrow> str \<Rightarrow> (exc, ExportResult) res" where
  "demo_export destination incident markdown =
     bind_res (dict_item incident ''id'') (\<lambda>v.
       let i = py_str v; digest = upper (take 10 (sha256_hex (destination @ '':'' @ i)))
       in Inr \<lparr>xr_destination = destination, xr_external_id = ''DEMO-'' @ digest,
            xr_url = ''/api/v1/incidents/'' @ i @ ''/postmortem/markdown'', xr_is_demo = True\<rparr>)"

definition jira_key_rx :: rx where
  "jira_key_rx = seqs
     [RSet is_upper, star (RSet (\<lambda>c. is_upper c \<or> is_digit c \<or> c = CHR ''_'')), ch (CHR ''-''),
      plus_rx (RSet is_digit)]"

definition export_too_large :: exc where
  "export_too_large = IntegrationError ''Postmortem exceeds the 250000 character export limit.'' ''export_too_large'' 413"

definition invalid_response :: "str \<Rightarrow> exc" where
  "invalid_response msg = IntegrationError msg ''integration_invalid_response'' 503"

definition jira_result :: "str \<Rightarrow> str \<Rightarrow> ExportResult" where
  "jira_result base key = \<lparr>xr_destination = ''jira'', xr_external_id = key,
     xr_url = base @ ''/browse/'' @ key, xr_is_demo = False\<rparr>"

definition incident_title :: "dict \<Rightarrow> str" where
  "incident_title incident = redact (''Postmortem: '' @ py_str (get_or incident ''title'' (VStr ''Incident'')))"

definition jira_request :: "settings \<Rightarrow> str \<Rightarrow> dict \<Rightarrow> str \<Rightarrow> str \<Rightarrow> http_request" where
  "jira_request S base incident i markdown =
     \<lparr>hr_method = ''POST'', hr_url = base @ ''/rest/api/3/issue'', hr_headers = [],
      hr_auth = Some (jira_email S, jira_api_token S),
      hr_json = VDict [(''fields'', VDict
        [(''project'', VDict [(''key'', VStr (jira_project_key S))]),
         (''summary'', VStr (take 255 (incident_title incident))),
         (''issuetype'', VDict [(''name'', VStr (jira_issue_type S))]),
         (''description'', node_json (markdown_to_adf markdown)),
         (''labels'', VList [VStr ''incident-ai'', VStr (''incident-'' @ i)])])]\<rparr>"

definition jira_answer :: "str \<Rightarrow> dict \<Rightarrow> (exc, ExportResult) res" where
  "jira_answer base data = (case get data ''key'' of
      VStr key \<Rightarrow> (if fullmatch jira_key_rx key then Inr (jira_result base key)
        else Inl (invalid_response ''Jira returned an invalid issue identifier. Check Jira before retrying.''))
    | _ \<Rightarrow> Inl (invalid_response ''Jira returned an invalid issue identifier. Check Jira before retrying.''))"

definition jira_export ::
  "network \<Rightarrow> (str \<Rightarrow> bool) \<Rightarrow> settings \<Rightarrow> dict \<Rightarrow> str \<Rightarrow> (exc, ExportResult) res" where
  "jira_export N bracket_ok S incident markdown =
     (if 250000 < length markdown then Inl export_too_large
      else bind_res (base_url bracket_ok (jira_base_url S)) (\<lambda>base.
        let existing = get incident ''jira_issue_key''
        in if truthy existing
           then (if \<not> fullmatch jira_key_rx (py_str existing)
                 then Inl (invalid_response ''Stored Jira issue identifier is invalid.'')
                 else case existing of VStr key \<Rightarrow> Inr (jira_result base key) | _ \<Rightarrow> Inl validation_error)
           else bind_res (dict_item incident ''id'') (\<lambda>v.
             bind_res (call N 0 (jira_request S base incident (py_str v) markdown)) (jira_answer base))))"

definition confluence_request :: "settings \<Rightarrow> str \<Rightarrow> dict \<Rightarrow> str \<Rightarrow> str \<Rightarrow> http_request" where
  "confluence_request S wiki incident i markdown =
     \<lparr>hr_method = ''POST'', hr_url = wiki @ ''/api/v2/pages'', hr_headers = [],
      hr_auth = Some (confluence_email S, confluence_api_token S),
      hr_json = VDict
        [(''spaceId'', VStr (confluence_space_id S)), (''status'', VStr ''current''),
         (''title'', VStr (take 200 (incident_title incident) @ '' ('' @ take 8 i @ '')'')),
         (''body'', VDict [(''representation'', VStr ''storage''),
           (''value'', VStr (markdown_to_storage markdown))])]\<rparr>"

definition confluence_result :: "str \<Rightarrow> str \<Rightarrow> ExportResult" where
  "confluence_result wiki page = \<lparr>xr_destination = ''confluence'', xr_external_id = page,
     xr_url = wiki @ ''/pages/viewpage.action?pageId='' @ page, xr_is_demo = False\<rparr>"

definition confluence_answer :: "str \<Rightarrow> dict \<Rightarrow> (exc, ExportResult) res" where
  "confluence_answer wiki data = (case get data ''id'' of
      VStr page \<Rightarrow> (if isdigit_str page
        then Inr (confluence_result wiki page)
        else Inl (invalid_response ''Confluence returned an invalid page identifier. Check Confluence before retrying.''))
    | _ \<Rightarrow> Inl (invalid_response ''Confluence returned an invalid page identifier. Check Confluence before retrying.''))"

definition confluence_export ::
  "network \<Rightarrow> (str \<Rightarrow> bool) \<Rightarrow> settings \<Rightarrow> dict \<Rightarrow> str \<Rightarrow> (exc, ExportResult) res" where
  "confluence_export N bracket_ok S incident markdown =
     (if 250000 < length markdown then Inl export_too_large
      else bind_res (base_url bracket_ok (confluence_base_url S)) (\<lambda>base.
        let wiki = (if suffix ''/wiki'' base then base else base @ ''/wiki'')
        in bind_res (dict_item incident ''id'') (\<lambda>v.
          bind_res (call N 0 (confluence_request S wiki incident (py_str v) markdown)) (confluence_answer wiki))))"

text \<open>What \<open>get_exporter\<close> returns: \<open>isinstance(exporter, DemoExporter)\<close> tells the demo from the rest.\<close>

datatype exporter = DemoExporter str | JiraExporter | ConfluenceExporter

definition required_settings :: "settings \<Rightarrow> str \<Rightarrow> str list option" where
  "required_settings S destination =
     map_of [(''jira'', [jira_base_url S, jira_email S, jira_api_token S, jira_project_key S]),
             (''confluence'', [confluence_base_url S, confluence_email S, confluence_api_token S,
                confluence_space_id S])] destination"

definition get_exporter :: "settings \<Rightarrow> str \<Rightarrow> (exc, exporter) res" where
  "get_exporter S destination = (case required_settings S destination of
      None \<Rightarrow> Inl (ValueError ''Export destination must be jira or confluence'')
    | Some needed \<Rightarrow>
        (if list_ex (\<lambda>f. f = []) needed
         then (if demo_mode S then Inr (DemoExporter destination)
           else Inl (IntegrationError (''Configure all '' @ destination @ '' settings before exporting.'')
             ''integration_configuration'' 503))
         else Inr (if destination = ''jira'' then JiraExporter else ConfluenceExporter)))"

fun run_export :: "network \<Rightarrow> (str \<Rightarrow> bool) \<Rightarrow> settings \<Rightarrow> exporter \<Rightarrow> dict \<Rightarrow> str \<Rightarrow> (exc, ExportResult) res" where
  "run_export N b S (DemoExporter destination) incident markdown = demo_export destination incident markdown"
| "run_export N b S JiraExporter incident markdown = jira_export N b S incident markdown"
| "run_export N b S ConfluenceExporter incident markdown = confluence_export N b S incident markdown"

subsection \<open>What the export route relies on\<close>

text \<open>An exporter for a destination: its results name the destination and whether they are real, and
  their identifiers are safe to store and to show.\<close>

definition safe_external_id :: "str \<Rightarrow> bool" where
  "safe_external_id s = (s \<noteq> [] \<and> (\<forall>c \<in> set s. is_word c \<or> c = CHR ''-''))"

locale incident_exporter =
  fixes destination :: str and demo :: bool
    and export :: "dict \<Rightarrow> str \<Rightarrow> (exc, ExportResult) res"
  assumes export_destination: "export i m = Inr r \<Longrightarrow> xr_destination r = destination"
    and export_demo: "export i m = Inr r \<Longrightarrow> xr_is_demo r = demo"
    and export_id: "export i m = Inr r \<Longrightarrow> safe_external_id (xr_external_id r)"
begin

text \<open>The values the route stores are those of its destination.\<close>

lemma export_key_fixed:
  "export i m = Inr r \<Longrightarrow> export i' m' = Inr r' \<Longrightarrow> xr_destination r' = xr_destination r \<and> xr_is_demo r' = xr_is_demo r"
  using export_destination export_demo by metis

lemma export_id_nonempty: "export i m = Inr r \<Longrightarrow> xr_external_id r \<noteq> []"
  using export_id by (simp add: safe_external_id_def)

end

lemma jira_key_safe: "fullmatch jira_key_rx key \<Longrightarrow> safe_external_id key"
proof -
  assume m: "fullmatch jira_key_rx key"
  have "only (\<lambda>c. is_word c \<or> c = CHR ''-'') jira_key_rx"
    by (auto simp: jira_key_rx_def seqs.simps star_def plus_rx_def ch_def is_word_def is_upper_def is_digit_def ord_def Let_def)
  from fullmatch_only[OF m this] have "\<forall>c \<in> set key. is_word c \<or> c = CHR ''-''" by blast
  moreover have "0 < minlen jira_key_rx" by (simp add: jira_key_rx_def seqs.simps)
  ultimately show ?thesis using fullmatch_minlen[OF m] by (auto simp: safe_external_id_def)
qed

lemma page_id_safe: "isdigit_str page \<Longrightarrow> safe_external_id page"
  by (auto simp: isdigit_str_def safe_external_id_def list_all_iff is_digit_def is_word_def Let_def)

lemma upper_hex_word: "m < 16 \<Longrightarrow> \<forall>c \<in> set (upper_char (hex_digit m)). is_word c"
  by (auto simp: upper_char_def hex_digit_def is_word_def Let_def ord_chr)

lemma hex_text_safe: "c \<in> set (upper (take n (sha256_hex s))) \<Longrightarrow> is_word c"
proof -
  assume "c \<in> set (upper (take n (sha256_hex s)))"
  then obtain d where d: "d \<in> set (sha256_hex s)" "c \<in> set (upper_char d)"
    unfolding upper_def by (auto dest: in_set_takeD)
  from d(1) obtain w where "d \<in> set (hex_word w)" unfolding sha256_hex_def by auto
  then obtain m where "d = hex_digit m" "m < 16" unfolding hex_word_def by auto
  with d(2) upper_hex_word show ?thesis by blast
qed

lemma demo_id_safe: "safe_external_id (''DEMO-'' @ upper (take 10 (sha256_hex s)))"
proof -
  have "\<forall>c \<in> set ''DEMO-''. is_word c \<or> c = CHR ''-''" by (simp add: is_word_def ord_def Let_def)
  then show ?thesis using hex_text_safe by (auto simp: safe_external_id_def)
qed

interpretation demo_exporter: incident_exporter d True "demo_export d" for d
  by unfold_locales (auto simp: demo_export_def Let_def simp del: append.simps intro: demo_id_safe)

text \<open>The answers that are accepted.\<close>

lemma jira_answer_ok:
  assumes "jira_answer base d = Inr r"
  shows "\<exists>key. fullmatch jira_key_rx key \<and> r = jira_result base key"
  using assms by (cases "get d ''key''") (auto simp: jira_answer_def split: if_splits)

lemma confluence_answer_ok:
  assumes "confluence_answer wiki d = Inr r"
  shows "\<exists>page. isdigit_str page \<and> r = confluence_result wiki page"
  using assms by (cases "get d ''id''") (auto simp: confluence_answer_def split: if_splits)

lemma jira_export_ok:
  assumes "jira_export N b S i m = Inr r"
  shows "\<exists>base key. fullmatch jira_key_rx key \<and> r = jira_result base key"
proof -
  obtain base where base: "base_url b (jira_base_url S) = Inr base"
    using assms by (cases "base_url b (jira_base_url S)") (simp_all add: jira_export_def split: if_splits)
  show ?thesis
  proof (cases "truthy (get i ''jira_issue_key'')")
    case True
    with assms base show ?thesis
      by (cases "get i ''jira_issue_key''") (auto simp: jira_export_def Let_def split: if_splits)
  next
    case False
    with assms base show ?thesis
      by (auto simp: jira_export_def Let_def dest!: jira_answer_ok split: if_splits)
  qed
qed

lemma confluence_export_ok:
  assumes "confluence_export N b S i m = Inr r"
  shows "\<exists>wiki page. isdigit_str page \<and> r = confluence_result wiki page"
  using assms by (auto simp: confluence_export_def Let_def dest!: confluence_answer_ok split: if_splits)

interpretation jira_exporter: incident_exporter "''jira''" False "jira_export N b S" for N b S
  by unfold_locales (auto dest!: jira_export_ok simp: jira_result_def intro: jira_key_safe)

interpretation confluence_exporter: incident_exporter "''confluence''" False "confluence_export N b S" for N b S
  by unfold_locales (auto dest!: confluence_export_ok simp: confluence_result_def intro: page_id_safe)

lemma run_export_fun:
  "run_export N b S (DemoExporter d) = demo_export d"
  "run_export N b S JiraExporter = jira_export N b S"
  "run_export N b S ConfluenceExporter = confluence_export N b S"
  by (intro ext, simp)+

lemma get_exporter_ok:
  assumes "get_exporter S destination = Inr x"
  shows "incident_exporter destination (\<exists>d. x = DemoExporter d) (run_export N b S x)"
  using assms demo_exporter.incident_exporter_axioms jira_exporter.incident_exporter_axioms
    confluence_exporter.incident_exporter_axioms
  by (auto simp: get_exporter_def required_settings_def run_export_fun split: option.splits if_splits)

text \<open>Whatever the services answer, an exporter that the settings select and that returns a result
  returns one for the destination that was asked for, marked as a demo exactly when the demo exporter
  made it, with an identifier made of word characters and hyphens only, so that it cannot break out of
  the links it is put into.\<close>

lemma exports_are_safe:
  assumes "get_exporter S destination = Inr x" and "run_export N b S x incident markdown = Inr r"
  shows "xr_destination r = destination \<and> xr_is_demo r = (\<exists>d. x = DemoExporter d) \<and>
    safe_external_id (xr_external_id r)"
proof -
  note ok = get_exporter_ok[OF assms(1)]
  from incident_exporter.export_destination[OF ok assms(2)] incident_exporter.export_demo[OF ok assms(2)]
    incident_exporter.export_id[OF ok assms(2)]
  show ?thesis by blast
qed

definition jira_settings :: settings where
  "jira_settings = default_settings\<lparr>jira_base_url := ''https://jira.test'', jira_email := ''a'',
     jira_api_token := ''t'', jira_project_key := ''OPS''\<rparr>"

lemma exports_are_safe_example:
  "get_exporter jira_settings ''jira'' = Inr JiraExporter \<and>
   run_export silent_network (\<lambda>_. True) jira_settings JiraExporter [(''jira_issue_key'', VStr ''OPS-7'')] [] =
     Inr (jira_result ''https://jira.test'' ''OPS-7'') \<and>
   safe_external_id ''OPS-7''"
proof -
  have get: "get_exporter jira_settings ''jira'' = Inr JiraExporter"
    by (simp add: get_exporter_def required_settings_def jira_settings_def)
  have "base_url b ''https://jira.test'' = Inr ''https://jira.test''" for b by code_simp
  moreover have "fullmatch jira_key_rx ''OPS-7''" by code_simp
  ultimately have run: "run_export silent_network (\<lambda>_. True) jira_settings JiraExporter
      [(''jira_issue_key'', VStr ''OPS-7'')] [] = Inr (jira_result ''https://jira.test'' ''OPS-7'')"
    by (simp add: jira_export_def jira_settings_def get_def)
  from exports_are_safe[OF get run] get run show ?thesis by (simp add: jira_result_def)
qed

text \<open>The check of a base URL refuses what it names, but lets the empty query, fragment and credentials
  through, since an empty text is false: the path that is appended then becomes the query.\<close>

lemma base_url_accepts_empty_parts:
  "base_url b ''https://h?'' = Inr ''https://h?'' \<and> base_url b ''https://h#'' = Inr ''https://h#'' \<and>
   base_url b ''https://:@h'' = Inr ''https://:@h'' \<and>
   base_url b ''https://h?q'' = base_url b ''http://h''"
  by code_simp

end
