(* ===== verification/Notifiers.thy ===== *)
theory Notifiers
  imports Exporters
begin

text \<open>
  \<open>app/integrations/notifiers\<close>: the message of an incident, the Slack and Teams webhooks, the cached
  APNs token, the push to every device, and \<open>notify_incident\<close>, in which no destination can stop
  another. Signing a token is PyJWT's, a parameter, and so is the time; what a notifier sends is the
  list of its requests, in one order; \<open>Fan_Out\<close> has every order. Logging is left out.
\<close>

subsection \<open>The message\<close>

definition message_of :: "dict \<Rightarrow> (exc, str) res" where
  "message_of incident =
     (let severity = take 20 (upper (py_str (get_or incident ''severity'' (VStr ''medium''))));
          title = take 240 (redact (py_str (get_or incident ''title'' (VStr ''Incident''))));
          service = take 120 (redact (py_str (get_or incident ''service'' (VStr ''unknown''))))
      in bind_res (dict_item incident ''id'') (\<lambda>i.
        Inr (''['' @ severity @ ''] '' @ title @ [nl] @ ''Service: '' @ service @ [nl] @ ''Incident: '' @ py_str i)))"

subsection \<open>Webhooks\<close>

definition webhook_payload :: "str \<Rightarrow> str \<Rightarrow> pyval" where
  "webhook_payload destination message =
     (if destination = ''slack''
      then VDict [(''text'', VStr message), (''mrkdwn'', VBool False), (''unfurl_links'', VBool False),
             (''unfurl_media'', VBool False)]
      else VDict [(''type'', VStr ''message''),
        (''attachments'', VList [VDict
          [(''contentType'', VStr ''application/vnd.microsoft.card.adaptive''), (''contentUrl'', VNone),
           (''content'', VDict
             [(''$schema'', VStr ''http://adaptivecards.io/schemas/adaptive-card.json''),
              (''type'', VStr ''AdaptiveCard''), (''version'', VStr ''1.2''),
              (''body'', VList [VDict [(''type'', VStr ''TextBlock''), (''text'', VStr message),
                (''wrap'', VBool True)]])])]])])"

definition webhook_request :: "str \<Rightarrow> pyval \<Rightarrow> http_request" where
  "webhook_request url payload =
     \<lparr>hr_method = ''POST'', hr_url = url, hr_headers = [], hr_auth = None, hr_json = payload\<rparr>"

text \<open>The one attempt at a request that is not retried.\<close>

definition delivered :: "network \<Rightarrow> http_request \<Rightarrow> (exc, bool) res" where
  "delivered N req = (case net_reply N req 0 of
      Reply status retry_after chunks \<Rightarrow> Inr (is_success status)
    | Unreachable \<Rightarrow> Inl HTTPError
    | Fault e \<Rightarrow> Inl e)"

text \<open>What a notifier ends with, and the requests it sent.\<close>

type_synonym 'a sending = "(exc, 'a) res \<times> http_request list"

text \<open>The message for an address that a webhook may have.\<close>

definition webhook_message :: "(str \<Rightarrow> bool) \<Rightarrow> str \<Rightarrow> dict \<Rightarrow> (exc, str) res" where
  "webhook_message bracket_ok url incident =
     bind_res (urlsplit bracket_ok url) (\<lambda>parsed.
       if su_scheme parsed \<noteq> ''https'' \<or> hostname parsed = [] \<or> fst (userinfo parsed) \<noteq> [] \<or> snd (userinfo parsed) \<noteq> []
       then Inl (integration_error ''Notification webhook must use HTTPS without embedded credentials.'')
       else message_of incident)"

definition webhook_notify :: "network \<Rightarrow> (str \<Rightarrow> bool) \<Rightarrow> str \<Rightarrow> str \<Rightarrow> dict \<Rightarrow> unit sending" where
  "webhook_notify N bracket_ok url destination incident =
     (case webhook_message bracket_ok url incident of
        Inl e \<Rightarrow> (Inl e, [])
      | Inr message \<Rightarrow>
          (let req = webhook_request url (webhook_payload destination message)
           in (bind_res (delivered N req) (\<lambda>ok.
                 if ok then Inr () else Inl (integration_error (destination @ '' notification was rejected.''))), [req])))"

subsection \<open>The APNs token\<close>

text \<open>\<open>key.replace("\\n", "\n")\<close> for the two characters a backslash and an n.\<close>

fun newlines :: "str \<Rightarrow> str" where
  "newlines (a # b # s) = (if a = CHR 0x5C \<and> b = CHR ''n'' then nl # newlines s else a # newlines (b # s))"
| "newlines s = s"

text \<open>\<open>int\<close> of a float truncates.\<close>

definition int_of_float :: "rat \<Rightarrow> int" where
  "int_of_float q = (if 0 \<le> q then \<lfloor>q\<rfloor> else \<lceil>q\<rceil>)"

text \<open>\<open>jwt.encode\<close> of an issuer, a time of issue, a private key and a key identifier.\<close>

type_synonym jwt_encode = "str \<Rightarrow> int \<Rightarrow> str \<Rightarrow> str \<Rightarrow> (exc, str) res"

type_synonym jwt_cache = "(str \<times> rat \<times> str) list"

definition apns_key :: "settings \<Rightarrow> str" where
  "apns_key S = newlines (apns_private_key S)"

definition fingerprint :: "settings \<Rightarrow> str" where
  "fingerprint S = sha256_hex (apns_team_id S @ '':'' @ apns_key_id S @ '':'' @ apns_key S)"

definition apns_token :: "jwt_encode \<Rightarrow> settings \<Rightarrow> rat \<Rightarrow> jwt_cache \<Rightarrow> (exc, str) res \<times> jwt_cache" where
  "apns_token encode S now cache =
     (let mint = (case encode (apns_team_id S) (int_of_float now) (apns_key S) (apns_key_id S) of
          Inl e \<Rightarrow> (Inl e, cache)
        | Inr token \<Rightarrow> (Inr token, [(fingerprint S, now, token)]))
      in case map_of cache (fingerprint S) of
          Some (issued, token) \<Rightarrow> (if 0 \<le> now - issued \<and> now - issued < 2400 then (Inr token, cache) else mint)
        | None \<Rightarrow> mint)"

subsection \<open>Pushes\<close>

type_synonym device = "(str \<times> str) list"

definition device_field :: "device \<Rightarrow> str \<Rightarrow> str \<Rightarrow> str" where
  "device_field d name missing = (case map_of d name of Some x \<Rightarrow> x | None \<Rightarrow> missing)"

definition token_rx :: rx where
  "token_rx = RRep 64 (Some 200) (RSet is_hex)"

definition valid_device :: "device \<Rightarrow> bool" where
  "valid_device d = (fullmatch token_rx (device_field d ''token'' []) \<and>
     device_field d ''environment'' ''sandbox'' \<in> {''sandbox'', ''production''})"

definition apns_payload :: "dict \<Rightarrow> str \<Rightarrow> pyval" where
  "apns_payload incident i = VDict
     [(''aps'', VDict
        [(''alert'', VDict [(''title'', VStr ''Incident AI''),
           (''body'', VStr (take 200 (redact (py_str (get_or incident ''title'' (VStr ''New incident''))))))]),
         (''sound'', VStr ''default''), (''thread-id'', VStr i)]),
      (''incident_id'', VStr i)]"

definition apns_request :: "settings \<Rightarrow> rat \<Rightarrow> str \<Rightarrow> dict \<Rightarrow> str \<Rightarrow> device \<Rightarrow> http_request" where
  "apns_request S now bearer incident i d =
     \<lparr>hr_method = ''POST'',
      hr_url = ''https://'' @ (if device_field d ''environment'' ''sandbox'' = ''sandbox''
          then ''api.sandbox.push.apple.com'' else ''api.push.apple.com'')
        @ ''/3/device/'' @ device_field d ''token'' [],
      hr_headers = [(''authorization'', ''bearer '' @ bearer), (''apns-topic'', apns_bundle_id S),
        (''apns-push-type'', ''alert''), (''apns-priority'', ''10''),
        (''apns-expiration'', int_text (int_of_float now + 3600)), (''apns-collapse-id'', sha256_hex i)],
      hr_auth = None, hr_json = apns_payload incident i\<rparr>"

text \<open>\<open>send\<close>: an invalid device raises before anything is sent, a refused push is only logged.\<close>

definition apns_send ::
  "network \<Rightarrow> settings \<Rightarrow> rat \<Rightarrow> str \<Rightarrow> dict \<Rightarrow> str \<Rightarrow> device \<Rightarrow> unit sending" where
  "apns_send N S now bearer incident i d =
     (if \<not> valid_device d then (Inl (integration_error ''Invalid APNs device registration.''), [])
      else let req = apns_request S now bearer incident i d
        in (bind_res (delivered N req) (\<lambda>ok. Inr ()), [req]))"

text \<open>The results of all sends are gathered; an exception among them is logged.\<close>

definition apns_notify ::
  "network \<Rightarrow> jwt_encode \<Rightarrow> settings \<Rightarrow> rat \<Rightarrow> device list \<Rightarrow> dict \<Rightarrow> jwt_cache \<Rightarrow> unit sending \<times> jwt_cache" where
  "apns_notify N encode S now regs incident cache =
     (case apns_token encode S now cache of
        (Inl e, cache') \<Rightarrow> ((Inl e, []), cache')
      | (Inr bearer, cache') \<Rightarrow>
          (case dict_item incident ''id'' of
             Inl e \<Rightarrow> ((Inl e, []), cache')
           | Inr v \<Rightarrow>
               ((Inr (), concat (map (\<lambda>d. snd (apns_send N S now bearer incident (py_str v) d)) regs)), cache')))"

subsection \<open>All destinations\<close>

definition apns_configured :: "settings \<Rightarrow> bool" where
  "apns_configured S =
     list_all (\<lambda>f. f \<noteq> []) [apns_key_id S, apns_team_id S, apns_private_key S, apns_bundle_id S]"

definition webhook_targets :: "settings \<Rightarrow> (str \<times> str) list" where
  "webhook_targets S =
     filter (\<lambda>(destination, url). url \<noteq> [])
       [(''slack'', slack_webhook_url S), (''teams'', teams_webhook_url S)]"

text \<open>The outcome per destination (which is only logged), the requests, and the token cache.\<close>

definition notify_incident ::
  "network \<Rightarrow> (str \<Rightarrow> bool) \<Rightarrow> jwt_encode \<Rightarrow> rat \<Rightarrow> settings \<Rightarrow> device list \<Rightarrow> dict \<Rightarrow> jwt_cache
     \<Rightarrow> (str \<times> unit sending) list \<times> jwt_cache" where
  "notify_incident N bracket_ok encode now S regs incident cache =
     (let webhooks = map (\<lambda>(destination, url). (destination, webhook_notify N bracket_ok url destination incident))
            (webhook_targets S)
      in if regs \<noteq> [] \<and> apns_configured S
         then (case apns_notify N encode S now regs incident cache of
             (r, cache') \<Rightarrow> (webhooks @ [(''apns'', r)], cache'))
         else (webhooks, cache))"

subsection \<open>The token cache\<close>

text \<open>The cache holds at most the one token it minted last.\<close>

definition minted :: "jwt_encode \<Rightarrow> str \<Rightarrow> rat \<Rightarrow> str \<Rightarrow> bool" where
  "minted encode fp t token = (\<exists>S. fp = fingerprint S \<and>
     encode (apns_team_id S) (int_of_float t) (apns_key S) (apns_key_id S) = Inr token)"

definition cache_ok :: "jwt_encode \<Rightarrow> jwt_cache \<Rightarrow> bool" where
  "cache_ok encode cache =
     (length cache \<le> 1 \<and> (\<forall>(fp, t, token) \<in> set cache. minted encode fp t token))"

lemma apns_token_ok:
  assumes "cache_ok encode cache"
  shows "cache_ok encode (snd (apns_token encode S now cache))"
  using assms
  by (auto simp: apns_token_def cache_ok_def minted_def Let_def split: option.splits sum.splits)

lemma apns_token_recent:
  assumes "cache_ok encode cache" and "apns_token encode S now cache = (Inr token, cache')"
  shows "\<exists>t. minted encode (fingerprint S) t token \<and> 0 \<le> now - t \<and> now - t < 2400"
proof (cases "map_of cache (fingerprint S)")
  case None
  with assms(2) have "minted encode (fingerprint S) now token"
    by (auto simp: apns_token_def minted_def Let_def split: sum.splits)
  then show ?thesis by (intro exI[of _ now]) simp
next
  case (Some p)
  obtain issued old where p: "p = (issued, old)" by (cases p)
  then have old: "minted encode (fingerprint S) issued old"
    using assms(1) map_of_SomeD[OF Some] by (auto simp: cache_ok_def)
  show ?thesis
  proof (cases "0 \<le> now - issued \<and> now - issued < 2400")
    case True
    then have "token = old" using assms(2) Some p by (simp add: apns_token_def Let_def)
    with True old show ?thesis by blast
  next
    case False
    with assms(2) Some p have "minted encode (fingerprint S) now token"
      by (auto simp: apns_token_def minted_def Let_def split: sum.splits)
    then show ?thesis by (intro exI[of _ now]) simp
  qed
qed

text \<open>A process asks for tokens one after the other; the trace records what it was given.\<close>

fun token_trace :: "jwt_encode \<Rightarrow> (settings \<times> rat) list \<Rightarrow> jwt_cache \<Rightarrow> (settings \<times> rat \<times> (exc, str) res) list" where
  "token_trace encode [] cache = []"
| "token_trace encode ((S, now) # calls) cache =
     (case apns_token encode S now cache of (r, cache') \<Rightarrow> (S, now, r) # token_trace encode calls cache')"

lemma token_trace_fresh:
  assumes "cache_ok encode cache" and "(S, now, Inr token) \<in> set (token_trace encode calls cache)"
  shows "\<exists>t. minted encode (fingerprint S) t token \<and> 0 \<le> now - t \<and> now - t < 2400"
  using assms
proof (induction calls arbitrary: cache)
  case (Cons call calls)
  obtain S1 now1 r cache' where c: "call = (S1, now1)" "apns_token encode S1 now1 cache = (r, cache')"
    by (metis surj_pair)
  have "cache_ok encode cache'" using apns_token_ok[OF Cons.prems(1), of S1 now1] c(2) by simp
  with Cons.IH Cons.prems c apns_token_recent[OF Cons.prems(1)] show ?case by fastforce
qed simp

text \<open>C21. Every token a process sends to Apple was signed less than forty minutes before, at most an
  hour being allowed, under the key of the same fingerprint, however the configurations and the clock
  change from call to call.\<close>

theorem apns_tokens_fresh:
  assumes "(S, now, Inr token) \<in> set (token_trace encode calls [])"
  shows "\<exists>t. minted encode (fingerprint S) t token \<and> 0 \<le> now - t \<and> now - t < 2400"
  using token_trace_fresh[OF _ assms] by (simp add: cache_ok_def)

theorem apns_tokens_fresh_witness:
  "\<exists>t. minted (\<lambda>team iat key kid. Inr (int_text iat)) (fingerprint default_settings) t ''7'' \<and>
     0 \<le> (2400 :: rat) - t \<and> 2400 - t < 2400"
proof -
  let ?enc = "\<lambda>team iat key kid. Inr (int_text iat) :: (exc, str) res"
  have "int_of_float 7 = 7" by (simp add: int_of_float_def)
  moreover have "int_text 7 = ''7''" by code_simp
  ultimately have "(default_settings, 2400, Inr ''7'') \<in> set (token_trace ?enc [(default_settings, 7), (default_settings, 2400)] [])"
    by (simp add: apns_token_def)
  from apns_tokens_fresh[OF this] show ?thesis .
qed

end
