(* ===== verification/Fan_Out.thy ===== *)
theory Fan_Out
  imports Notifiers "HOL-Library.Multiset"
begin

text \<open>
  The concurrent sends of \<open>notify_incident\<close> and of \<open>APNsNotifier.notify\<close> in \<open>app/integrations/notifiers\<close>: gathered
  coroutines that interleave at their awaits in any order, the pushes behind a semaphore of ten. Whatever the
  schedule and the answers are, every run ends, has tried every destination, and has sent the requests that the
  sequential reading of \<open>Notifiers\<close> sends.
\<close>

subsection \<open>What is gathered\<close>

text \<open>A webhook with its destination, a push with its token and the incident's identifier.\<close>

datatype send = Webhook str str | Push str str device

fun is_push :: "send \<Rightarrow> bool" where
  "is_push (Webhook destination url) = False"
| "is_push (Push bearer i d) = True"

definition push_sends :: "jwt_encode \<Rightarrow> rat \<Rightarrow> settings \<Rightarrow> device list \<Rightarrow> dict \<Rightarrow> jwt_cache \<Rightarrow> send list" where
  "push_sends encode now S regs incident cache =
     (case fst (apns_token encode S now cache) of
        Inl e \<Rightarrow> []
      | Inr bearer \<Rightarrow> (case dict_item incident ''id'' of Inl e \<Rightarrow> [] | Inr v \<Rightarrow> map (Push bearer (py_str v)) regs))"

definition notify_sends :: "jwt_encode \<Rightarrow> rat \<Rightarrow> settings \<Rightarrow> device list \<Rightarrow> dict \<Rightarrow> jwt_cache \<Rightarrow> send list" where
  "notify_sends encode now S regs incident cache =
     map (\<lambda>(destination, url). Webhook destination url) (webhook_targets S) @
     (if regs \<noteq> [] \<and> apns_configured S then push_sends encode now S regs incident cache else [])"

text \<open>What a send does before its request, at the time of its clock: it raises, or it has the request.\<close>

fun prepared :: "(str \<Rightarrow> bool) \<Rightarrow> settings \<Rightarrow> dict \<Rightarrow> rat \<Rightarrow> send \<Rightarrow> (exc, http_request) res" where
  "prepared bracket_ok S incident t (Webhook destination url) =
     bind_res (webhook_message bracket_ok url incident) (\<lambda>message.
       Inr (webhook_request url (webhook_payload destination message)))"
| "prepared bracket_ok S incident t (Push bearer i d) =
     (if valid_device d then Inr (apns_request S t bearer incident i d)
      else Inl (integration_error ''Invalid APNs device registration.''))"

text \<open>What it ends with, once its request is answered: with success or not, or not at all.\<close>

fun ended_with :: "send \<Rightarrow> (exc, bool) res \<Rightarrow> (exc, unit) res" where
  "ended_with (Webhook destination url) answer = bind_res answer (\<lambda>ok.
     if ok then Inr () else Inl (integration_error (destination @ '' notification was rejected.'')))"
| "ended_with (Push bearer i d) answer = bind_res answer (\<lambda>ok. Inr ())"

subsection \<open>The system\<close>

datatype send_phase = Unsent | InFlight | Over "(exc, unit) res"

record gathering =
  ga_phase :: "nat \<Rightarrow> send_phase"
  ga_sent :: "(nat \<times> http_request) list"

definition gather_start :: gathering where
  "gather_start = \<lparr>ga_phase = (\<lambda>k. Unsent), ga_sent = []\<rparr>"

definition in_flight :: "send list \<Rightarrow> gathering \<Rightarrow> nat" where
  "in_flight sends g = length (filter (\<lambda>k. is_push (sends ! k) \<and> ga_phase g k = InFlight) [0..<length sends])"

definition slot_free :: "send list \<Rightarrow> gathering \<Rightarrow> bool" where
  "slot_free sends g = (in_flight sends g < 10)"

text \<open>A step of one of the sends; an answer is any answer.\<close>

inductive gather_step :: "(str \<Rightarrow> bool) \<Rightarrow> settings \<Rightarrow> dict \<Rightarrow> (nat \<Rightarrow> rat) \<Rightarrow> send list \<Rightarrow> gathering \<Rightarrow> gathering \<Rightarrow> bool"
  for bracket_ok S incident clk sends where
  refuse: "k < length sends \<Longrightarrow> ga_phase g k = Unsent \<Longrightarrow> prepared bracket_ok S incident (clk k) (sends ! k) = Inl e \<Longrightarrow>
    gather_step bracket_ok S incident clk sends g (g\<lparr>ga_phase := (ga_phase g)(k := Over (Inl e))\<rparr>)"
| send: "k < length sends \<Longrightarrow> ga_phase g k = Unsent \<Longrightarrow> prepared bracket_ok S incident (clk k) (sends ! k) = Inr req \<Longrightarrow>
    is_push (sends ! k) \<longrightarrow> slot_free sends g \<Longrightarrow>
    gather_step bracket_ok S incident clk sends g (g\<lparr>ga_phase := (ga_phase g)(k := InFlight), ga_sent := ga_sent g @ [(k, req)]\<rparr>)"
| answer: "k < length sends \<Longrightarrow> ga_phase g k = InFlight \<Longrightarrow>
    gather_step bracket_ok S incident clk sends g (g\<lparr>ga_phase := (ga_phase g)(k := Over (ended_with (sends ! k) a))\<rparr>)"

definition requests_of :: "nat \<Rightarrow> gathering \<Rightarrow> http_request list" where
  "requests_of k g = map snd (filter (\<lambda>(j, req). j = k) (ga_sent g))"

subsection \<open>The invariant\<close>

definition requests :: "(exc, http_request) res \<Rightarrow> http_request list" where
  "requests r = (case r of Inl e \<Rightarrow> [] | Inr req \<Rightarrow> [req])"

definition phase_ok :: "(exc, http_request) res \<Rightarrow> send \<Rightarrow> send_phase \<Rightarrow> http_request list \<Rightarrow> bool" where
  "phase_ok r s ph reqs = (case ph of
      Unsent \<Rightarrow> reqs = []
    | InFlight \<Rightarrow> is_ok r \<and> reqs = requests r
    | Over x \<Rightarrow> reqs = requests r \<and> (case r of Inl e \<Rightarrow> x = Inl e | Inr req \<Rightarrow> \<exists>a. x = ended_with s a))"

definition gather_inv :: "(str \<Rightarrow> bool) \<Rightarrow> settings \<Rightarrow> dict \<Rightarrow> (nat \<Rightarrow> rat) \<Rightarrow> send list \<Rightarrow> gathering \<Rightarrow> bool" where
  "gather_inv bracket_ok S incident clk sends g \<longleftrightarrow> in_flight sends g \<le> 10 \<and> (\<forall>(j, req) \<in> set (ga_sent g). j < length sends) \<and>
     (\<forall>k < length sends. phase_ok (prepared bracket_ok S incident (clk k) (sends ! k)) (sends ! k) (ga_phase g k) (requests_of k g))"

lemma requests_of_simps [simp]:
  "requests_of k (g\<lparr>ga_phase := f\<rparr>) = requests_of k g"
  "requests_of k (g\<lparr>ga_phase := f, ga_sent := ga_sent g @ [(j, req)]\<rparr>) = requests_of k g @ (if j = k then [req] else [])"
  by (simp_all add: requests_of_def)

lemma in_flight_phase:
  "in_flight sends (g\<lparr>ga_phase := f, ga_sent := xs\<rparr>) = in_flight sends (g\<lparr>ga_phase := f\<rparr>)"
  by (simp add: in_flight_def)

lemma in_flight_card: "in_flight sends g = card {k. k < length sends \<and> is_push (sends ! k) \<and> ga_phase g k = InFlight}"
proof -
  have "card (set (filter (\<lambda>k. is_push (sends ! k) \<and> ga_phase g k = InFlight) [0..<length sends])) = in_flight sends g"
    unfolding in_flight_def by (intro distinct_card) simp
  moreover have "set (filter (\<lambda>k. is_push (sends ! k) \<and> ga_phase g k = InFlight) [0..<length sends]) =
      {k. k < length sends \<and> is_push (sends ! k) \<and> ga_phase g k = InFlight}" by auto
  ultimately show ?thesis by simp
qed

text \<open>Only a push that starts takes a slot, and no more than one.\<close>

lemma in_flight_step:
  assumes "gather_step bracket_ok S incident clk sends g g'" and "in_flight sends g \<le> 10"
  shows "in_flight sends g' \<le> 10"
proof -
  let ?busy = "\<lambda>g. {k. k < length sends \<and> is_push (sends ! k) \<and> ga_phase g k = InFlight}"
  have fin: "finite (?busy g)" for g by simp
  from assms(1) show ?thesis
  proof cases
    case (send k req)
    show ?thesis
    proof (cases "is_push (sends ! k)")
      case True
      have "?busy g' \<subseteq> insert k (?busy g)" using send(1) by auto
      from card_mono[OF _ this] have "in_flight sends g' \<le> Suc (in_flight sends g)"
        using card_insert_le_m1 by (simp add: in_flight_card card_insert_if split: if_splits)
      with send(5) True show ?thesis by (simp add: slot_free_def)
    next
      case False
      have "?busy g' \<subseteq> ?busy g" using send(1) False by auto
      from card_mono[OF fin this] assms(2) show ?thesis by (simp add: in_flight_card)
    qed
  next
    case (refuse k e)
    then have "?busy g' \<subseteq> ?busy g" by auto
    from card_mono[OF fin this] assms(2) show ?thesis by (simp add: in_flight_card)
  next
    case (answer k a)
    then have "?busy g' \<subseteq> ?busy g" by auto
    from card_mono[OF fin this] assms(2) show ?thesis by (simp add: in_flight_card)
  qed
qed

lemma gather_step_inv:
  assumes "gather_step bracket_ok S incident clk sends g g'" and "gather_inv bracket_ok S incident clk sends g"
  shows "gather_inv bracket_ok S incident clk sends g'"
proof -
  have "in_flight sends g' \<le> 10" using in_flight_step[OF assms(1)] assms(2) by (simp add: gather_inv_def)
  moreover have "\<forall>(j, req) \<in> set (ga_sent g'). j < length sends"
    using assms by cases (auto simp: gather_inv_def)
  moreover have "phase_ok (prepared bracket_ok S incident (clk j) (sends ! j)) (sends ! j) (ga_phase g' j) (requests_of j g')"
    if "j < length sends" for j
    using assms(1)
  proof cases
    case (refuse k e)
    with assms(2) that show ?thesis by (cases "j = k") (auto simp: gather_inv_def phase_ok_def requests_def)
  next
    case (send k req)
    with assms(2) that show ?thesis by (cases "j = k") (auto simp: gather_inv_def phase_ok_def requests_def is_ok_def)
  next
    case (answer k a)
    with assms(2) that show ?thesis
      by (cases "j = k") (auto simp: gather_inv_def phase_ok_def requests_def is_ok_def split: sum.splits)
  qed
  ultimately show ?thesis by (simp add: gather_inv_def)
qed

lemma gather_start_inv: "gather_inv bracket_ok S incident clk sends gather_start"
  by (simp add: gather_inv_def gather_start_def in_flight_def phase_ok_def requests_of_def)

subsection \<open>Every run ends, and only when all is over\<close>

definition rank :: "send_phase \<Rightarrow> nat" where
  "rank ph = (case ph of Unsent \<Rightarrow> 0 | InFlight \<Rightarrow> 1 | Over r \<Rightarrow> 2)"

definition progress :: "send list \<Rightarrow> gathering \<Rightarrow> nat" where
  "progress sends g = (\<Sum>k<length sends. rank (ga_phase g k))"

lemma progress_bound: "progress sends g \<le> 2 * length sends"
proof -
  have "progress sends g \<le> (\<Sum>k<length sends. 2)"
    unfolding progress_def by (intro sum_mono) (simp add: rank_def split: send_phase.split)
  then show ?thesis by simp
qed

lemma progress_grows:
  assumes "gather_step bracket_ok S incident clk sends g g'"
  shows "progress sends g < progress sends g'"
proof -
  obtain k where k: "k < length sends" "rank (ga_phase g k) < rank (ga_phase g' k)"
      "\<And>j. j \<noteq> k \<Longrightarrow> ga_phase g' j = ga_phase g j"
    using assms by cases (auto simp: rank_def)
  then have "rank (ga_phase g j) \<le> rank (ga_phase g' j)" for j by (cases "j = k") auto
  then show ?thesis
    unfolding progress_def using k by (intro sum_strict_mono_ex1) auto
qed

lemma steps_bound:
  assumes "(gather_step bracket_ok S incident clk sends ^^ m) g g'"
  shows "progress sends g + m \<le> progress sends g'"
  using assms
proof (induction m arbitrary: g')
  case (Suc m)
  then obtain h where "(gather_step bracket_ok S incident clk sends ^^ m) g h" "gather_step bracket_ok S incident clk sends h g'"
    by auto
  with Suc.IH[of h] progress_grows[of bracket_ok S incident clk sends h g'] show ?case by simp
qed simp

lemma all_over:
  assumes "\<nexists>g'. gather_step bracket_ok S incident clk sends g g'" and "k < length sends"
  shows "\<exists>r. ga_phase g k = Over r"
proof -
  have quiet: "ga_phase g j \<noteq> InFlight" if "j < length sends" for j
    using assms(1) gather_step.answer[OF that] by blast
  then have "slot_free sends g" by (auto simp: slot_free_def in_flight_def)
  then have "ga_phase g k \<noteq> Unsent"
    using assms gather_step.refuse[OF assms(2)] gather_step.send[OF assms(2)]
    by (cases "prepared bracket_ok S incident (clk k) (sends ! k)") blast+
  with quiet[OF assms(2)] show ?thesis by (cases "ga_phase g k") auto
qed

lemma over_quiet: "\<forall>k < length sends. \<exists>r. ga_phase g k = Over r \<Longrightarrow> \<nexists>g'. gather_step bracket_ok S incident clk sends g g'"
  by (auto elim!: gather_step.cases)

subsection \<open>The sequential reading\<close>

lemma webhook_requests: "snd (webhook_notify N bracket_ok url destination incident) = requests (prepared bracket_ok S incident t (Webhook destination url))"
  by (simp add: webhook_notify_def requests_def Let_def split: sum.split)

lemma push_requests:
  "concat (map (\<lambda>d. snd (apns_send N S t bearer incident i d)) regs) = concat (map (requests \<circ> prepared bracket_ok S incident t) (map (Push bearer i) regs))"
  by (induction regs) (simp_all add: apns_send_def requests_def Let_def)

lemma notify_requests:
  "concat (map (snd \<circ> snd) (fst (notify_incident N bracket_ok encode now S regs incident cache))) =
     concat (map (requests \<circ> prepared bracket_ok S incident now) (notify_sends encode now S regs incident cache))"
proof -
  have "concat (map (snd \<circ> snd) (map (\<lambda>(destination, url). (destination, webhook_notify N bracket_ok url destination incident)) ts)) =
      concat (map (requests \<circ> prepared bracket_ok S incident now) (map (\<lambda>(destination, url). Webhook destination url) ts))" for ts
    by (induction ts) (auto simp: webhook_requests[where S = S and t = now])
  then show ?thesis
    by (auto simp: notify_incident_def notify_sends_def push_sends_def apns_notify_def push_requests[where bracket_ok = bracket_ok]
        Let_def simp del: map_map prepared.simps split: prod.splits sum.splits)
qed

lemma sent_split:
  fixes xs :: "(nat \<times> 'a) list"
  assumes "\<forall>(j, req) \<in> set xs. j < n"
  shows "mset (map snd xs) = (\<Sum>k<n. mset (map snd (filter (\<lambda>(j, req). j = k) xs)))"
  using assms
proof (induction xs)
  case (Cons p xs)
  obtain j req where p: "p = (j, req)" by (cases p)
  have "(\<Sum>k<n. mset (map snd (filter (\<lambda>(j, req). j = k) (p # xs)))) =
      (\<Sum>k<n. (if j = k then {#req#} else {#}) + mset (map snd (filter (\<lambda>(j, req). j = k) xs)))"
    by (intro sum.cong) (auto simp: p)
  also have "\<dots> = {#req#} + (\<Sum>k<n. mset (map snd (filter (\<lambda>(j, req). j = k) xs)))"
    using Cons.prems by (simp add: sum.distrib p)
  finally show ?case using Cons by (simp add: p)
qed simp

lemma concat_indices: "mset (concat (map f xs)) = (\<Sum>k<length xs. mset (f (xs ! k)))"
proof (induction xs rule: rev_induct)
  case (snoc x xs)
  have "(\<Sum>k<length xs. mset (f ((xs @ [x]) ! k))) = (\<Sum>k<length xs. mset (f (xs ! k)))"
    by (intro sum.cong) (auto simp: nth_append)
  with snoc show ?case by simp
qed simp

text \<open>C20. The notification of an incident tries every destination, however the sends interleave and whatever is
  answered: with no more than ten pushes under way at any time, every run ends after at most two steps for each
  configured webhook and, when APNs is configured and its provider token is made, each device; and when it has, each of
  them has had its own end: an invalid destination was refused and sent nothing, every other one was sent its one
  request and ended with its own answer, so that no failure stops another send. When all of this happens at one time of
  the clock, the requests of a finished run are those of the sequential reading, in some order.\<close>

theorem notify_reaches_all:
  assumes "sends = notify_sends encode now S regs incident cache"
    and "(gather_step bracket_ok S incident clk sends ^^ m) gather_start g"
  shows "m \<le> 2 * length sends \<and> in_flight sends g \<le> 10 \<and>
    ((\<nexists>g'. gather_step bracket_ok S incident clk sends g g') \<longrightarrow>
       (\<forall>k < length sends. case prepared bracket_ok S incident (clk k) (sends ! k) of
            Inl e \<Rightarrow> ga_phase g k = Over (Inl e) \<and> requests_of k g = []
          | Inr req \<Rightarrow> (\<exists>a. ga_phase g k = Over (ended_with (sends ! k) a)) \<and> requests_of k g = [req]) \<and>
       ((\<forall>k. clk k = now) \<longrightarrow> mset (map snd (ga_sent g)) =
          mset (concat (map (snd \<circ> snd) (fst (notify_incident N bracket_ok encode now S regs incident cache))))))"
proof -
  have "(gather_step bracket_ok S incident clk sends)\<^sup>*\<^sup>* gather_start g" using assms(2) by (rule relpowp_imp_rtranclp)
  then have inv: "gather_inv bracket_ok S incident clk sends g"
    by (induction rule: rtranclp_induct) (use gather_start_inv gather_step_inv in auto)
  have "m \<le> 2 * length sends" using steps_bound[OF assms(2)] progress_bound[of sends g] by simp
  moreover have ends: "requests_of k g = requests (prepared bracket_ok S incident (clk k) (sends ! k)) \<and>
      (case prepared bracket_ok S incident (clk k) (sends ! k) of Inl e \<Rightarrow> ga_phase g k = Over (Inl e)
        | Inr req \<Rightarrow> \<exists>a. ga_phase g k = Over (ended_with (sends ! k) a))"
    if "\<nexists>g'. gather_step bracket_ok S incident clk sends g g'" "k < length sends" for k
    using all_over[OF that] inv that(2) by (auto simp: gather_inv_def phase_ok_def split: sum.splits)
  moreover have "mset (map snd (ga_sent g)) =
      mset (concat (map (snd \<circ> snd) (fst (notify_incident N bracket_ok encode now S regs incident cache))))"
    if "\<nexists>g'. gather_step bracket_ok S incident clk sends g g'" "\<forall>k. clk k = now"
  proof -
    have "mset (map snd (ga_sent g)) = (\<Sum>k<length sends. mset (requests_of k g))"
      unfolding requests_of_def using inv by (intro sent_split) (simp add: gather_inv_def)
    also have "\<dots> = (\<Sum>k<length sends. mset ((requests \<circ> prepared bracket_ok S incident now) (sends ! k)))"
      using ends[OF that(1)] that(2) by (intro sum.cong) auto
    finally show ?thesis by (simp add: notify_requests concat_indices assms(1))
  qed
  moreover have "case prepared bracket_ok S incident (clk k) (sends ! k) of
      Inl e \<Rightarrow> ga_phase g k = Over (Inl e) \<and> requests_of k g = []
    | Inr req \<Rightarrow> (\<exists>a. ga_phase g k = Over (ended_with (sends ! k) a)) \<and> requests_of k g = [req]"
    if "\<nexists>g'. gather_step bracket_ok S incident clk sends g g'" "k < length sends" for k
    using ends[OF that] by (simp add: requests_def split: sum.splits)
  moreover have "in_flight sends g \<le> 10" using inv by (simp add: gather_inv_def)
  ultimately show ?thesis by blast
qed

definition apns_settings :: settings where
  "apns_settings = default_settings\<lparr>apns_key_id := ''k'', apns_team_id := ''t'', apns_private_key := ''p''\<rparr>"

text \<open>Of two devices, the first is invalid and the push to the second is not answered.\<close>

theorem notify_reaches_all_witness:
  "\<exists>g r. (gather_step (\<lambda>_. True) apns_settings [(''id'', VStr ''1'')] (\<lambda>k. 0)
       [Push ''j'' ''1'' [(''token'', ''bad'')], Push ''j'' ''1'' [(''token'', replicate 64 (CHR ''a''))]] ^^ 3) gather_start g \<and>
     ga_phase g 0 = Over (Inl (integration_error ''Invalid APNs device registration.'')) \<and> ga_phase g 1 = Over (Inl HTTPError) \<and>
     requests_of 1 g = [r] \<and> hr_url r = ''https://api.sandbox.push.apple.com/3/device/'' @ replicate 64 (CHR ''a'')"
proof -
  let ?enc = "\<lambda>team iat key kid. Inr ''j'' :: (exc, str) res" and ?inc = "[(''id'', VStr ''1'')]"
  let ?bad = "[(''token'', ''bad'')]" and ?good = "[(''token'', replicate 64 (CHR ''a''))]"
  let ?sends = "[Push ''j'' ''1'' ?bad, Push ''j'' ''1'' ?good]"
  let ?step = "gather_step (\<lambda>_. True) apns_settings ?inc (\<lambda>k. 0) ?sends"
  have "apns_configured apns_settings" by (simp add: apns_configured_def apns_settings_def default_settings_def)
  moreover have "webhook_targets apns_settings = []" by (simp add: webhook_targets_def apns_settings_def default_settings_def)
  ultimately have sends: "?sends = notify_sends ?enc 0 apns_settings [?bad, ?good] ?inc []"
    by (simp add: notify_sends_def push_sends_def apns_token_def dict_item_def)
  have valid: "valid_device ?good" "\<not> valid_device ?bad" by (simp_all add: valid_device_def device_field_def) code_simp+
  let ?e = "integration_error ''Invalid APNs device registration.''" and ?req = "apns_request apns_settings 0 ''j'' ?inc ''1'' ?good"
  let ?g1 = "gather_start\<lparr>ga_phase := (ga_phase gather_start)(0 := Over (Inl ?e))\<rparr>"
  let ?g2 = "?g1\<lparr>ga_phase := (ga_phase ?g1)(1 := InFlight), ga_sent := ga_sent ?g1 @ [(1, ?req)]\<rparr>"
  let ?g3 = "?g2\<lparr>ga_phase := (ga_phase ?g2)(1 := Over (ended_with (?sends ! 1) (Inl HTTPError)))\<rparr>"
  have "?step gather_start ?g1" by (rule gather_step.refuse) (simp_all add: gather_start_def valid)
  moreover have "?step ?g1 ?g2" by (rule gather_step.send) (simp_all add: gather_start_def valid slot_free_def in_flight_def)
  moreover have "?step ?g2 ?g3" by (rule gather_step.answer) simp_all
  ultimately have steps: "(?step ^^ 3) gather_start ?g3" by (auto simp: numeral_3_eq_3 relcompp.simps)
  have phases: "ga_phase ?g3 0 = Over (Inl ?e)" "ga_phase ?g3 1 = Over (Inl HTTPError)" by simp_all
  have "\<exists>r. ga_phase ?g3 k = Over r" if "k < length ?sends" for k
    using that phases by (cases "k = 0"; cases "k = 1") auto
  then have over: "\<nexists>g'. ?step ?g3 g'" by (intro over_quiet) blast
  from notify_reaches_all[OF sends steps, THEN conjunct2, THEN conjunct2, THEN mp[OF _ over], THEN conjunct1, rule_format, of 1]
  have "requests_of 1 ?g3 = [?req]" by (simp add: valid)
  with steps phases show ?thesis by (intro exI[of _ ?g3] exI[of _ ?req]) (simp add: apns_request_def device_field_def)
qed

end
