(* ===== verification/Archival.thy ===== *)
theory Archival
  imports Network Schemas Prompt Sha256
begin

text \<open>
  \<open>app/integrations/archival.py\<close>: the logs of an incident as redacted JSON lines, compressed and
  stored under a key made of their digest. Compression and the two stores (a directory, S3) are
  parameters. Properties: the archive decodes line by line to the redacted logs, and the key names an
  object of the incident alone and depends on nothing but the redacted content.
\<close>

subsection \<open>The archive\<close>

definition archive_id_char :: "char \<Rightarrow> bool" where
  "archive_id_char c = (is_upper c \<or> is_lower c \<or> is_digit c \<or> c = CHR ''_'' \<or> c = CHR ''-'')"

definition archive_id_rx :: rx where
  "archive_id_rx = RRep 1 (Some 100) (RSet archive_id_char)"

definition archive_line :: "pyval \<Rightarrow> str" where
  "archive_line entry = dumps dump_sorted (redact_value entry)"

definition archive_text :: "pyval list \<Rightarrow> str" where
  "archive_text logs = concat (map (\<lambda>entry. archive_line entry @ [nl]) logs)"

definition archive_key :: "str \<Rightarrow> str \<Rightarrow> str" where
  "archive_key i content = ''incidents/'' @ i @ ''/'' @ take 24 (sha256_hex content) @ ''.jsonl.gz''"

text \<open>What \<open>boto3\<close> is asked to store, and the options of its client.\<close>

record s3_put =
  s3_options :: "(str \<times> str) list"
  s3_bucket_name :: str
  s3_key :: str
  s3_body :: "nat list"

record archive_store =
  as_gzip :: "nat list \<Rightarrow> nat list"
  as_write :: "str \<Rightarrow> str \<Rightarrow> nat list \<Rightarrow> (exc, unit) res"
  as_upload :: "s3_put \<Rightarrow> (exc, unit) res"

definition client_options :: "settings \<Rightarrow> (str \<times> str) list" where
  "client_options S = (''region_name'', aws_region S)
     # filter (\<lambda>(name, x). x \<noteq> [])
         [(''endpoint_url'', s3_endpoint_url S), (''aws_access_key_id'', aws_access_key_id S),
          (''aws_secret_access_key'', aws_secret_access_key S), (''aws_session_token'', aws_session_token S)]"

definition archive_logs :: "archive_store \<Rightarrow> str \<Rightarrow> pyval list \<Rightarrow> settings \<Rightarrow> (exc, dict) res" where
  "archive_logs A i logs S =
     (if \<not> fullmatch archive_id_rx i then Inl (ValueError ''Invalid incident identifier for archive'')
      else let content = archive_text logs;
               key = archive_key i content;
               compressed = as_gzip A (utf8 content)
        in if 20000000 < length (utf8 content)
           then Inl (IntegrationError ''Archive exceeds the 20 MB uncompressed limit.'' ''archive_too_large'' 413)
           else if s3_bucket S = [] then
             (if \<not> demo_mode S
              then Inl (IntegrationError ''S3_BUCKET must be configured before archiving.''
                ''integration_configuration'' 503)
              else bind_res (as_write A (s3_demo_directory S) key compressed)
                (\<lambda>_. Inr [(''key'', VStr key), (''is_demo'', VBool True)]))
           else (case as_upload A \<lparr>s3_options = client_options S, s3_bucket_name = s3_bucket S, s3_key = key,
                   s3_body = compressed\<rparr> of
               Inl e \<Rightarrow> Inl (IntegrationError ''S3 archival failed. Check storage permissions and retry.''
                 ''archive_failed'' 503)
             | Inr _ \<Rightarrow> Inr [(''key'', VStr key), (''url'', VStr (''s3://'' @ s3_bucket S @ ''/'' @ key)),
                 (''is_demo'', VBool False)]))"

subsection \<open>Sorted keys\<close>

text \<open>\<open>sort_keys=True\<close> writes the value whose dictionaries are sorted.\<close>

fun sort_value :: "pyval \<Rightarrow> pyval" where
  "sort_value (VList xs) = VList (map sort_value xs)"
| "sort_value (VDict d) = VDict (sort_key fst (map (\<lambda>(k, v). (k, sort_value v)) d))"
| "sort_value v = v"

lemma sort_key_map_snd: "sort_key fst (map (\<lambda>(k, v). (k, f v)) d) = map (\<lambda>(k, v). (k, f v)) (sort_key fst d)"
  for d :: "(str \<times> 'a) list"
proof -
  have "insort_key fst (k, f v) (map (\<lambda>(k, v). (k, f v)) d) = map (\<lambda>(k, v). (k, f v)) (insort_key fst (k, v) d)"
    for k v and d :: "(str \<times> 'a) list"
    by (induction d) auto
  then show ?thesis by (induction d) (auto simp: split_def)
qed

lemma dump_opts_simps [simp]:
  "ascii dump_sorted = False" "sort_keys dump_sorted = True" "item_sep dump_sorted = '', ''"
  "key_sep dump_sorted = '': ''" "ascii dump_unicode = False" "sort_keys dump_unicode = False"
  "item_sep dump_unicode = '', ''" "key_sep dump_unicode = '': ''"
  by (simp_all add: dump_sorted_def dump_unicode_def dump_default_def)

lemma dumps_sort_value: "dumps dump_sorted v = dumps dump_unicode (sort_value v)"
proof (induction v rule: sort_value.induct)
  case (1 xs)
  then have "map (dumps dump_sorted) xs = map (dumps dump_unicode) (map sort_value xs)" by simp
  then show ?case by (simp only: dumps.simps sort_value.simps dump_opts_simps)
next
  case (2 d)
  then have ih: "dumps dump_sorted v = dumps dump_unicode (sort_value v)" if "(k, v) \<in> set d" for k v
    using that by auto
  have "map (\<lambda>(k, v). json_string False k @ '': '' @ dumps dump_sorted v) (sort_key fst d) =
      map (\<lambda>(k, v). json_string False k @ '': '' @ dumps dump_unicode (sort_value v)) (sort_key fst d)"
    using ih by (auto intro!: map_cong)
  also have "\<dots> = map (\<lambda>(k, v). json_string False k @ '': '' @ dumps dump_unicode v)
      (sort_key fst (map (\<lambda>(k, v). (k, sort_value v)) d))"
    unfolding sort_key_map_snd map_map by (rule map_cong) auto
  finally show ?case by (simp only: dumps.simps sort_value.simps dict_items_def dump_opts_simps if_True if_False)
qed (simp_all only: sort_value.simps dumps.simps dump_opts_simps)

lemma json_ok_sort_value: "json_ok fl v \<Longrightarrow> json_ok fl (sort_value v)"
proof (induction v rule: sort_value.induct)
  case (2 d)
  then have "distinct (map fst (map (\<lambda>(k, v). (k, sort_value v)) d))" by (simp add: comp_def split_def)
  then have "distinct (map fst (sort_key fst (map (\<lambda>(k, v). (k, sort_value v)) d)))"
    by (metis distinct_map distinct_sort set_sort)
  with 2 show ?case by fastforce
qed auto

subsection \<open>Reading an archive\<close>

text \<open>Reading the text of an archive: a value per line.\<close>

lemma next_line_shorter: "s \<noteq> [] \<Longrightarrow> length (drop 1 (dropWhile p s)) < length s"
  using length_dropWhile_le[of p s] by (cases s) (auto simp: less_Suc_eq_le split: if_splits)

function lines_nl :: "str \<Rightarrow> str list" where
  "lines_nl s = (if s = [] then []
     else takeWhile (\<lambda>c. c \<noteq> nl) s # lines_nl (drop 1 (dropWhile (\<lambda>c. c \<noteq> nl) s)))"
  by pat_completeness auto
termination
  by (relation "measure length") (simp_all only: in_measure next_line_shorter wf_measure not_False_eq_True)

declare lines_nl.simps [simp del]

lemma lines_nl_Nil [simp]: "lines_nl [] = []"
  by (subst lines_nl.simps) simp

lemma lines_nl_line:
  assumes "nl \<notin> set l"
  shows "lines_nl (l @ nl # s) = l # lines_nl s"
proof -
  have "takeWhile (\<lambda>c. c \<noteq> nl) (l @ nl # s) = l" "dropWhile (\<lambda>c. c \<noteq> nl) (l @ nl # s) = nl # s"
    using assms by (auto simp: takeWhile_append dropWhile_append)
  then show ?thesis by (subst lines_nl.simps) simp
qed

definition read_archive :: "(str \<Rightarrow> str) \<Rightarrow> str \<Rightarrow> pyval option list" where
  "read_archive fl s = map (json_loads fl) (lines_nl s)"

lemma archive_line_reads:
  assumes "json_ok fl entry"
  shows "nl \<notin> set (archive_line entry)"
    and "json_loads fl (archive_line entry) = Some (sort_value (redact_value entry))"
proof -
  have ok: "json_ok fl (sort_value (redact_value entry))"
    using assms by (intro json_ok_sort_value) (simp add: redact_value_def json_ok_redact)
  have "plain_opts dump_unicode" by (simp add: plain_opts_def dump_unicode_def dump_default_def)
  then show "nl \<notin> set (archive_line entry)"
      "json_loads fl (archive_line entry) = Some (sort_value (redact_value entry))"
    using json_loads_dumps[OF _ ok] dumps_no_nl[OF _ ok] by (simp_all add: archive_line_def dumps_sort_value)
qed

lemma archive_text_Cons: "archive_text (e # es) = archive_line e @ nl # archive_text es"
  by (simp add: archive_text_def)

lemma archive_text_reads:
  "\<forall>entry \<in> set logs. json_ok fl entry \<Longrightarrow>
     read_archive fl (archive_text logs) = map (\<lambda>entry. Some (sort_value (redact_value entry))) logs"
proof (induction logs)
  case Nil
  show ?case by (simp add: read_archive_def archive_text_def)
next
  case (Cons e es)
  then have e: "json_ok fl e" by simp
  show ?case
    using Cons unfolding archive_text_Cons read_archive_def lines_nl_line[OF archive_line_reads(1)[OF e]]
    by (simp add: archive_line_reads(2)[OF e])
qed

lemma archive_id_ok:
  assumes "fullmatch archive_id_rx i"
  shows "1 \<le> length i" and "list_all archive_id_char i"
proof -
  show "1 \<le> length i" using fullmatch_minlen[OF assms] by (simp add: archive_id_rx_def)
  have "only archive_id_char archive_id_rx" by (simp add: archive_id_rx_def)
  from fullmatch_only[OF assms this] show "list_all archive_id_char i" by (simp add: list_all_iff)
qed

subsection \<open>Properties\<close>

text \<open>C22. When an archive is reported as stored in S3, the object under the reported key holds the
  compressed text of the logs, at most 20 MB before compression, and that text reads back, line by line,
  as the redacted log entries in their order.\<close>

theorem archive_reads_back:
  assumes "archive_logs A i logs S = Inr d" and "s3_bucket S \<noteq> []" and "\<forall>entry \<in> set logs. json_ok fl entry"
  shows "\<exists>put content. as_upload A put = Inr () \<and> get d ''key'' = VStr (s3_key put) \<and>
    s3_body put = as_gzip A (utf8 content) \<and> length (utf8 content) \<le> 20000000 \<and>
    read_archive fl content = map (\<lambda>entry. Some (sort_value (redact_value entry))) logs"
proof -
  let ?c = "archive_text logs"
  let ?put = "\<lparr>s3_options = client_options S, s3_bucket_name = s3_bucket S, s3_key = archive_key i ?c,
    s3_body = as_gzip A (utf8 ?c)\<rparr>"
  have "as_upload A ?put = Inr () \<and> get d ''key'' = VStr (archive_key i ?c) \<and> length (utf8 ?c) \<le> 20000000"
    using assms(1,2) by (auto simp: archive_logs_def Let_def get_def split: if_splits sum.splits)
  then show ?thesis
    using archive_text_reads[OF assms(3)] by (intro exI[of _ ?put] exI[of _ ?c]) simp
qed

text \<open>C23. The key of an archive stays inside the directory of its incident: the identifier that passes has
  no separator and no dot, and the rest is the digest of the content and a fixed suffix, so that archiving
  the same logs again names the same object.\<close>

theorem archive_key_safe:
  assumes "archive_logs A i logs S = Inr d"
  shows "\<exists>digest. get d ''key'' = VStr (''incidents/'' @ i @ ''/'' @ digest @ ''.jsonl.gz'') \<and>
    i \<noteq> [] \<and> CHR ''/'' \<notin> set i \<and> CHR ''.'' \<notin> set i \<and> list_all id_char digest \<and> length digest = 24 \<and>
    digest = take 24 (sha256_hex (archive_text logs))"
proof -
  let ?d = "take 24 (sha256_hex (archive_text logs))"
  have "fullmatch archive_id_rx i" and key: "get d ''key'' = VStr (archive_key i (archive_text logs))"
    using assms by (auto simp: archive_logs_def Let_def get_def split: if_splits sum.splits)
  note i = archive_id_ok[OF this(1)]
  have "\<not> archive_id_char (CHR ''/'')" "\<not> archive_id_char (CHR ''.'')" by code_simp+
  with i(2) have "CHR ''/'' \<notin> set i" "CHR ''.'' \<notin> set i" by (auto simp: list_all_iff)
  moreover have "list_all id_char ?d" using sha256_hex_chars by (auto simp: list_all_iff dest: in_set_takeD)
  ultimately show ?thesis using i(1) key by (intro exI[of _ ?d]) (auto simp: archive_key_def)
qed

definition sample_store :: archive_store where
  "sample_store = \<lparr>as_gzip = id, as_write = (\<lambda>dir k b. Inr ()), as_upload = (\<lambda>p. Inr ())\<rparr>"

lemma sample_archive:
  "\<exists>d. archive_logs sample_store ''1'' [] (default_settings\<lparr>s3_bucket := ''b''\<rparr>) = Inr d"
proof -
  have "fullmatch archive_id_rx ''1''" by code_simp
  then show ?thesis by (simp add: archive_logs_def sample_store_def archive_text_def utf8_def Let_def)
qed

theorem archive_reads_back_witness:
  "\<exists>d (put :: s3_put) content. archive_logs sample_store ''1'' [] (default_settings\<lparr>s3_bucket := ''b''\<rparr>) = Inr d \<and>
     get d ''key'' = VStr (s3_key put) \<and> s3_body put = utf8 content \<and> read_archive id content = []"
proof -
  obtain d where d: "archive_logs sample_store ''1'' [] (default_settings\<lparr>s3_bucket := ''b''\<rparr>) = Inr d"
    using sample_archive by blast
  have bucket: "s3_bucket (default_settings\<lparr>s3_bucket := ''b''\<rparr>) \<noteq> []" by simp
  have entries: "\<forall>entry \<in> set []. json_ok id entry" by simp
  obtain put where "\<exists>content. as_upload sample_store put = Inr () \<and> get d ''key'' = VStr (s3_key put) \<and>
      s3_body put = as_gzip sample_store (utf8 content) \<and> length (utf8 content) \<le> 20000000 \<and>
      read_archive id content = map (\<lambda>entry. Some (sort_value (redact_value entry))) []"
    using archive_reads_back[OF d bucket entries] ..
  then obtain content where r: "as_upload sample_store put = Inr () \<and> get d ''key'' = VStr (s3_key put) \<and>
      s3_body put = as_gzip sample_store (utf8 content) \<and> length (utf8 content) \<le> 20000000 \<and>
      read_archive id content = map (\<lambda>entry. Some (sort_value (redact_value entry))) []" ..
  show ?thesis
    by (rule exI[of _ d], rule exI[of _ put], rule exI[of _ content])
      (use d r in \<open>simp only: sample_store_def archive_store.simps id_apply list.map simp_thms\<close>)
qed

theorem archive_key_safe_witness:
  "\<exists>d digest. archive_logs sample_store ''1'' [] (default_settings\<lparr>s3_bucket := ''b''\<rparr>) = Inr d \<and>
     get d ''key'' = VStr (''incidents/1/'' @ digest @ ''.jsonl.gz'') \<and> length digest = 24"
proof -
  obtain d where d: "archive_logs sample_store ''1'' [] (default_settings\<lparr>s3_bucket := ''b''\<rparr>) = Inr d"
    using sample_archive by blast
  from archive_key_safe[OF d] d show ?thesis by auto
qed

end
