(* ===== verification/Jobs.thy ===== *)
theory Jobs
  imports Analyses Notifiers
begin

text \<open>
  \<open>app/domain/jobs.py\<close>: the background execution of an analysis, whose result and whose failure are
  each stored in a session of their own, and the notification of a new incident. What other sessions
  commit between the two sessions of a failing job is the parameter \<open>rival\<close>.
\<close>

subsection \<open>Executing an analysis job\<close>

definition find_job :: "str \<Rightarrow> db \<Rightarrow> Job option" where
  "find_job i d = find_row jb_id i (jobs d)"

definition job_failure :: str where
  "job_failure = ''Analysis failed. Retry after checking provider configuration and availability.''"

definition run_job :: "env \<Rightarrow> llm \<Rightarrow> settings \<Rightarrow> Job \<Rightarrow> unit act" where
  "run_job E llm S job =
     andthen (utcnow E) (\<lambda>started.
     andthen (set_job (jb_id job) (\<lambda>j. j\<lparr>jb_status := ''running'', jb_updated_at := started\<rparr>)) (\<lambda>_.
     andthen (analyze_incident E llm S (jb_incident_id job)) (\<lambda>analysis.
     andthen (lift_res (read_analysis_row analysis)) (\<lambda>r.
     andthen (utcnow E) (\<lambda>finished.
     andthen (set_job (jb_id job) (\<lambda>j. j\<lparr>jb_status := ''succeeded'', jb_result := Some (analysis_json r),
       jb_updated_at := finished\<rparr>)) (\<lambda>_. session_commit))))))"

definition try_job :: "env \<Rightarrow> llm \<Rightarrow> settings \<Rightarrow> str \<Rightarrow> unit act" where
  "try_job E llm S i =
     andthen (look (find_job i)) (\<lambda>found. case found of
         None \<Rightarrow> ret ()
       | Some job \<Rightarrow> if jb_status job = ''succeeded'' then ret () else run_job E llm S job)"

definition fail_job :: "env \<Rightarrow> str \<Rightarrow> unit act" where
  "fail_job E i =
     andthen (look (find_job i)) (\<lambda>found. case found of
         None \<Rightarrow> ret ()
       | Some job \<Rightarrow>
           andthen (utcnow E) (\<lambda>t.
           andthen (set_job i (\<lambda>j. j\<lparr>jb_status := ''failed'', jb_error := Some job_failure, jb_updated_at := t\<rparr>))
             (\<lambda>_. session_commit)))"

definition execute_analysis_job :: "env \<Rightarrow> llm \<Rightarrow> settings \<Rightarrow> (world \<Rightarrow> world) \<Rightarrow> str \<Rightarrow> unit act" where
  "execute_analysis_job E llm S rival i =
     catch (get_session (try_job E llm S i))
       (\<lambda>e. andthen (interfere rival) (\<lambda>_. get_session (fail_job E i)))"

subsection \<open>Notifying\<close>

definition device_of :: "Device \<Rightarrow> device" where
  "device_of d = [(''token'', dv_token d), (''platform'', dv_platform d), (''environment'', dv_environment d)]"

text \<open>The devices that are stored are read in a session of their own; nothing that goes wrong escapes.
  The result is what was sent and the token cache.\<close>

definition notify_created ::
  "network \<Rightarrow> (str \<Rightarrow> bool) \<Rightarrow> jwt_encode \<Rightarrow> rat \<Rightarrow> settings \<Rightarrow> dict \<Rightarrow> jwt_cache
     \<Rightarrow> ((str \<times> unit sending) list \<times> jwt_cache) act" where
  "notify_created N bracket_ok encode now S incident cache =
     catch (andthen (get_session (look (\<lambda>d. map device_of (devices d))))
         (\<lambda>ds. ret (notify_incident N bracket_ok encode now S ds incident cache)))
       (\<lambda>e. ret ([], cache))"

subsection \<open>The invariant is kept\<close>

lemma keeps_run_job: "inj (uuid E) \<Longrightarrow> store.keeps E (run_job E llm S job)"
  unfolding run_job_def
  by (intro store.keeps_rules keeps_set_job keeps_analyze_incident) (simp_all add: job_ok_def)

lemma keeps_try_job: "inj (uuid E) \<Longrightarrow> store.keeps E (try_job E llm S i)"
  unfolding try_job_def by (intro store.keeps_rules keeps_run_job)

lemma keeps_fail_job: "store.keeps E (fail_job E i)"
  unfolding fail_job_def by (intro store.keeps_rules keeps_set_job) (simp_all add: job_ok_def)

lemma keeps_execute_analysis_job:
  "inj (uuid E) \<Longrightarrow> harmless E rival \<Longrightarrow> store.keeps E (execute_analysis_job E llm S rival i)"
  unfolding execute_analysis_job_def
  by (intro store.keeps_catch store.keeps_andthen store.keeps_get_session keeps_try_job keeps_interfere keeps_fail_job)

subsection \<open>What an execution stores\<close>

lemma analyze_incident_shape:
  assumes "analyze_incident E llm S iid w = (Inr a, w')"
  shows "analyses (live w') = analyses (live w) @ [a] \<and> jobs (live w') = jobs (live w) \<and>
    an_incident_id a = iid \<and> saved w' = saved w"
proof -
  obtain c w1 where c: "build_context iid w = (Inr c, w1)"
    using assms by (auto simp: analyze_incident_def andthen_Inr)
  then have "build_context iid w = (Inr c, w)" using build_context_Inr by blast
  from assms[unfolded analyze_incident_run[OF this]] show ?thesis
    by (auto simp: Let_def analysis_row_def split: sum.splits)
qed

lemma andthen_interfere [simp]: "andthen (interfere rival) f w = f () (rival w)"
  by (simp add: andthen_def interfere_def)

lemma find_job_update:
  "(\<And>j. jb_id (f j) = jb_id j) \<Longrightarrow>
     find_job i (d\<lparr>jobs := update_row jb_id i f (jobs d)\<rparr>) = map_option f (find_job i d)"
  by (simp add: find_job_def find_row_update)

lemma run_job_Inr:
  assumes "run_job E llm S job w = (Inr u, w')" and "find_job (jb_id job) (live w) = Some job"
  shows "\<exists>a x j. analyses (saved w') = analyses (live w) @ [a] \<and> an_incident_id a = jb_incident_id job \<and>
    read_analysis_row a = Inr x \<and> find_job (jb_id job) (saved w') = Some j \<and>
    jb_status j = ''succeeded'' \<and> jb_result j = Some (analysis_json x)"
proof -
  let ?start = "\<lambda>j. j\<lparr>jb_status := ''running'', jb_updated_at := clock E (ticks w)\<rparr>"
  let ?w = "w\<lparr>ticks := Suc (ticks w), live := (live w)\<lparr>jobs := update_row jb_id (jb_id job) ?start (jobs (live w))\<rparr>\<rparr>"
  obtain a w2 x where a: "analyze_incident E llm S (jb_incident_id job) ?w = (Inr a, w2)"
      and x: "read_analysis_row a = Inr x"
      and w': "w' = w2\<lparr>ticks := Suc (ticks w2),
        live := (live w2)\<lparr>jobs := update_row jb_id (jb_id job) (\<lambda>j. j\<lparr>jb_status := ''succeeded'',
          jb_result := Some (analysis_json x), jb_updated_at := clock E (ticks w2)\<rparr>) (jobs (live w2))\<rparr>,
        saved := (live w2)\<lparr>jobs := update_row jb_id (jb_id job) (\<lambda>j. j\<lparr>jb_status := ''succeeded'',
          jb_result := Some (analysis_json x), jb_updated_at := clock E (ticks w2)\<rparr>) (jobs (live w2))\<rparr>\<rparr>"
    using assms(1) by (auto simp: run_job_def set_job_def andthen_Inr)
  note shape = analyze_incident_shape[OF a]
  have "find_job (jb_id job) (live w2) = map_option ?start (find_job (jb_id job) (live w))"
    using shape find_job_update[of ?start "jb_id job" "live w"] by (simp add: find_job_def)
  with assms(2) have "find_job (jb_id job) (live w2) = Some (?start job)" by simp
  then have "\<exists>j. find_job (jb_id job) (saved w') = Some j \<and> jb_status j = ''succeeded'' \<and>
      jb_result j = Some (analysis_json x)"
    by (simp add: w' find_job_update)
  moreover have "analyses (saved w') = analyses (live w) @ [a]" "an_incident_id a = jb_incident_id job"
    using shape by (simp_all add: w')
  ultimately show ?thesis using x by blast
qed

lemma atomic_run_job: "atomic (run_job E llm S job)"
  unfolding run_job_def
  by (intro atomic_andthen atomic_commit uncommitted_store uncommitted_analyses)

lemma atomic_try_job: "atomic (try_job E llm S i)"
  unfolding try_job_def
  by (intro atomic_andthen atomic_case_option atomic_if atomic_run_job atomic_uncommitted uncommitted_rules)

lemma fail_job_run:
  "get_session (fail_job E i) w = (case find_job i (saved w) of
     None \<Rightarrow> (Inr (), w\<lparr>live := saved w\<rparr>)
   | Some j \<Rightarrow> (let d = (saved w)\<lparr>jobs := update_row jb_id i (\<lambda>j. j\<lparr>jb_status := ''failed'', jb_error := Some job_failure,
        jb_updated_at := clock E (ticks w)\<rparr>) (jobs (saved w))\<rparr>
      in (Inr (), w\<lparr>ticks := Suc (ticks w), live := d, saved := d\<rparr>)))"
  by (simp add: get_session_run fail_job_def set_job_def Let_def split: option.splits)

text \<open>C13. An execution of a job whose row other sessions leave alone stores all of its work or none: the
  job succeeds together with the new analysis it reports as its result, or it is marked as failed and
  nothing else of the attempt is stored. It is never left running.\<close>

theorem job_all_or_nothing:
  assumes "find_job i (saved w) = Some job" and "jb_status job \<noteq> ''succeeded''"
    and "execute_analysis_job E llm S id i w = (r, w')"
  shows "r = Inr () \<and>
    ((\<exists>a x j. analyses (saved w') = analyses (saved w) @ [a] \<and> an_incident_id a = jb_incident_id job \<and>
        read_analysis_row a = Inr x \<and> find_job i (saved w') = Some j \<and> jb_status j = ''succeeded'' \<and>
        jb_result j = Some (analysis_json x)) \<or>
     (\<exists>t. saved w' = (saved w)\<lparr>jobs := update_row jb_id i
        (\<lambda>j. j\<lparr>jb_status := ''failed'', jb_error := Some job_failure, jb_updated_at := t\<rparr>) (jobs (saved w))\<rparr>))"
proof -
  let ?w = "w\<lparr>live := saved w\<rparr>"
  have i: "jb_id job = i" using find_row_Some[OF assms(1)[unfolded find_job_def]] by simp
  obtain q w1 where run: "run_job E llm S job ?w = (q, w1)" by (cases "run_job E llm S job ?w")
  have first: "get_session (try_job E llm S i) w = (q, w1\<lparr>live := saved w1\<rparr>)"
    using assms(1,2) run by (simp add: get_session_run try_job_def)
  show ?thesis
  proof (cases q)
    case (Inr u)
    then have "r = Inr ()" "saved w' = saved w1"
      using assms(3) first by (auto simp: execute_analysis_job_def catch_def)
    moreover from run_job_Inr[OF run[unfolded Inr]] assms(1) i
    have "\<exists>a x j. analyses (saved w1) = analyses (saved w) @ [a] \<and> an_incident_id a = jb_incident_id job \<and>
        read_analysis_row a = Inr x \<and> find_job i (saved w1) = Some j \<and> jb_status j = ''succeeded'' \<and>
        jb_result j = Some (analysis_json x)" by simp
    ultimately show ?thesis by simp
  next
    case (Inl e)
    have same: "saved w1 = saved w" using atomicD[OF atomic_run_job run[unfolded Inl]] by simp
    with assms first Inl show ?thesis
      by (auto simp: execute_analysis_job_def catch_def fail_job_run Let_def)
  qed
qed

text \<open>A job that has succeeded is not run again: executing it once more, as a redelivery by the queue
  does, stores nothing and returns.\<close>

lemma job_redelivery_noop:
  assumes "find_job i (saved w) = Some job" and "jb_status job = ''succeeded''"
  shows "execute_analysis_job E llm S rival i w = (Inr (), w\<lparr>live := saved w\<rparr>)"
  using assms by (simp add: execute_analysis_job_def catch_def get_session_run try_job_def)

text \<open>C15. The session that records a failure does not look at the status it overwrites: when another
  execution of the same job has succeeded in the meantime, the job ends as failed, with an error and
  with the result of the success beside it.\<close>

theorem failure_overwrites_success:
  assumes "get_session (try_job E llm S i) w = (Inl e, w1)" and "find_job i (saved (rival w1)) = Some j"
    and "jb_status j = ''succeeded''"
  shows "\<exists>w' t. execute_analysis_job E llm S rival i w = (Inr (), w') \<and>
    find_job i (saved w') = Some (j\<lparr>jb_status := ''failed'', jb_error := Some job_failure, jb_updated_at := t\<rparr>)"
  using assms
  by (simp add: execute_analysis_job_def catch_def fail_job_run Let_def find_job_update) blast

subsection \<open>Concrete executions\<close>

definition sample_job :: Job where
  "sample_job = \<lparr>jb_id = ''0'', jb_incident_id = ''1'', jb_status = ''queued'', jb_result = None,
     jb_error = None, jb_created_at = 0, jb_updated_at = 0\<rparr>"

definition job_world :: "Job \<Rightarrow> world" where
  "job_world j = sample_world\<lparr>saved := (saved sample_world)\<lparr>jobs := [j]\<rparr>\<rparr>"

definition no_llm :: llm where
  "no_llm = \<lparr>llm_analyze = (\<lambda>c. Inl HTTPError), llm_embed = (\<lambda>t. Inl HTTPError)\<rparr>"

lemma find_sample_job: "find_job ''0'' (saved (job_world sample_job)) = Some sample_job"
  by (simp add: find_job_def find_row_def job_world_def sample_job_def)

lemma try_sample_job:
  "\<exists>e w1. get_session (try_job E no_llm S ''0'') (job_world sample_job) = (Inl e, w1) \<and>
     saved w1 = saved (job_world sample_job)"
proof -
  let ?w = "(job_world sample_job)\<lparr>live := saved (job_world sample_job)\<rparr>"
  obtain q w1 where run: "run_job E no_llm S sample_job ?w = (q, w1)" by (cases "run_job E no_llm S sample_job ?w")
  have "\<exists>e w2. analyze_incident E no_llm S iid w = (Inl e, w2)" for iid and w :: world
    by (auto simp: analyze_incident_def no_llm_def andthen_def split: prod.splits sum.splits)
  then have "\<exists>e. q = Inl e" using run
    by (cases q) (auto simp: run_job_def andthen_Inr, metis Inl_Inr_False fst_conv)
  then obtain e where e: "q = Inl e" by blast
  with run have "saved w1 = saved (job_world sample_job)" using atomicD[OF atomic_run_job] by fastforce
  moreover have "get_session (try_job E no_llm S ''0'') (job_world sample_job) = (Inl e, w1\<lparr>live := saved w1\<rparr>)"
    using run e find_sample_job by (simp add: get_session_run try_job_def) (simp add: sample_job_def)
  ultimately show ?thesis by auto
qed

theorem job_all_or_nothing_witness:
  "\<exists>t w'. execute_analysis_job sample_env no_llm default_settings id ''0'' (job_world sample_job) = (Inr (), w') \<and>
     jobs (saved w') = [sample_job\<lparr>jb_status := ''failed'', jb_error := Some job_failure, jb_updated_at := t\<rparr>]"
proof -
  obtain r w' where run: "execute_analysis_job sample_env no_llm default_settings id ''0'' (job_world sample_job) = (r, w')"
    by (cases "execute_analysis_job sample_env no_llm default_settings id ''0'' (job_world sample_job)")
  obtain e w1 where first: "get_session (try_job sample_env no_llm default_settings ''0'') (job_world sample_job) = (Inl e, w1)"
      "saved w1 = saved (job_world sample_job)" using try_sample_job by blast
  have "analyses (saved w') = analyses (saved (job_world sample_job))"
    using run first find_sample_job by (auto simp: execute_analysis_job_def catch_def fail_job_run Let_def)
  moreover have "jb_status sample_job \<noteq> ''succeeded''" by (simp add: sample_job_def)
  ultimately show ?thesis
    using job_all_or_nothing[OF find_sample_job _ run] run
    by (auto simp: job_world_def update_row_def) (auto simp: sample_job_def)
qed

lemma job_redelivery_noop_example:
  "execute_analysis_job sample_env no_llm default_settings id ''0'' (job_world (sample_job\<lparr>jb_status := ''succeeded''\<rparr>)) =
     (Inr (), (job_world (sample_job\<lparr>jb_status := ''succeeded''\<rparr>))\<lparr>live := saved (job_world (sample_job\<lparr>jb_status := ''succeeded''\<rparr>))\<rparr>)"
  by (rule job_redelivery_noop[where job = "sample_job\<lparr>jb_status := ''succeeded''\<rparr>"])
    (simp_all add: find_job_def find_row_def job_world_def sample_job_def)

theorem failure_overwrites_success_witness:
  "\<exists>w' t. execute_analysis_job sample_env no_llm default_settings
       (\<lambda>w. job_world (sample_job\<lparr>jb_status := ''succeeded'', jb_result := Some (VDict [])\<rparr>)) ''0'' (job_world sample_job) = (Inr (), w') \<and>
     find_job ''0'' (saved w') = Some (sample_job\<lparr>jb_result := Some (VDict []), jb_status := ''failed'',
       jb_error := Some job_failure, jb_updated_at := t\<rparr>)"
proof -
  let ?j = "sample_job\<lparr>jb_status := ''succeeded'', jb_result := Some (VDict [])\<rparr>"
  obtain e w1 where first: "get_session (try_job sample_env no_llm default_settings ''0'') (job_world sample_job) = (Inl e, w1)"
    using try_sample_job by blast
  have found: "find_job ''0'' (saved (job_world ?j)) = Some ?j" and ok: "jb_status ?j = ''succeeded''"
    by (simp_all add: find_job_def find_row_def job_world_def sample_job_def)
  from failure_overwrites_success[OF first, of "\<lambda>w. job_world ?j", OF found ok] show ?thesis by simp
qed

end
