(* ===== verification/Search.thy ===== *)
theory Search
  imports Analyses
begin

text \<open>
  \<open>app/domain/search.py\<close>: semantic search over stored embeddings with a lexical fallback. Scores are
  real numbers, where the code computes with floats; what PostgreSQL computes (the distance of pgvector
  and its \<open>lower\<close>) is a parameter, the \<open>lower\<close> of SQLite is written out. Logging is left out.
\<close>

subsection \<open>Scores\<close>

definition norm_of :: "rat list \<Rightarrow> real" where
  "norm_of v = sqrt (of_rat (sum_list (map (\<lambda>x. x * x) v)))"

definition dot :: "rat list \<Rightarrow> rat list \<Rightarrow> rat" where
  "dot a b = sum_list (map (\<lambda>(x, y). x * y) (zip a b))"

text \<open>The score of a stored vector, unless its length differs or a norm is zero.\<close>

definition cosine :: "rat list \<Rightarrow> rat list \<Rightarrow> real option" where
  "cosine v u =
     (if length u \<noteq> length v then None
      else if norm_of v * norm_of u = 0 then None
      else Some (of_rat (dot v u) / (norm_of v * norm_of u)))"

text \<open>\<open>round(x, 4)\<close>: to even.\<close>

definition round4 :: "real \<Rightarrow> real" where
  "round4 x = (let y = x * 10000; n = \<lfloor>y\<rfloor>; f = y - of_int n
     in of_int (if f < 1 / 2 then n else if 1 / 2 < f then n + 1 else if even n then n else n + 1) / 10000)"

subsection \<open>The database's part\<close>

definition sqlite_lower :: "str \<Rightarrow> str" where
  "sqlite_lower s = map (\<lambda>c. if is_upper c then chr (ord c + 32) else c) s"

record dialect =
  di_postgres :: bool
  di_lower :: "str \<Rightarrow> str"
  di_nearest :: "db \<Rightarrow> rat list \<Rightarrow> str \<Rightarrow> str option \<Rightarrow> nat \<Rightarrow> (exc, (Incident \<times> real) list) res"

definition sqlite :: dialect where
  "sqlite = \<lparr>di_postgres = False, di_lower = sqlite_lower, di_nearest = (\<lambda>d v m x n. Inr [])\<rparr>"

definition not_excluded :: "str option \<Rightarrow> Incident \<Rightarrow> bool" where
  "not_excluded exclude r = (case exclude of None \<Rightarrow> True | Some i \<Rightarrow> i = [] \<or> inc_id r \<noteq> i)"

subsection \<open>Semantic search\<close>

text \<open>A hit as it is returned: the incident is validated, the score rounded.\<close>

definition search_item :: "(real \<Rightarrow> real) \<Rightarrow> real \<times> Incident \<Rightarrow> (exc, real SearchItem) res" where
  "search_item f = (\<lambda>(score, r). bind_res (read_incident_row r)
     (\<lambda>x. Inr \<lparr>si_incident = x, si_score = round4 (f score)\<rparr>))"

definition clamp :: "real \<Rightarrow> real" where
  "clamp x = max (-1) (min 1 x)"

definition candidates :: "settings \<Rightarrow> str option \<Rightarrow> db \<Rightarrow> (rat list \<times> Incident) list" where
  "candidates S exclude d =
     concat (map (\<lambda>r. case inc_embedding r of
         Some u \<Rightarrow> (if inc_embedding_model r = Some (embedding_model_name S) \<and> not_excluded exclude r
                    then [(u, r)] else [])
       | None \<Rightarrow> []) (incidents d))"

definition scored :: "rat list \<Rightarrow> (rat list \<times> Incident) list \<Rightarrow> (real \<times> Incident) list" where
  "scored v rs = concat (map (\<lambda>(u, r). case cosine v u of None \<Rightarrow> [] | Some s \<Rightarrow> [(s, r)]) rs)"

text \<open>The items, when there is any hit.\<close>

definition when_any :: "'a list \<Rightarrow> (exc, 'b) res \<Rightarrow> (exc, 'b option) res" where
  "when_any hits r = (if hits = [] then Inr None else bind_res r (\<lambda>x. Inr (Some x)))"

definition semantic :: "dialect \<Rightarrow> settings \<Rightarrow> str option \<Rightarrow> nat \<Rightarrow> rat list \<Rightarrow> db
    \<Rightarrow> (exc, real SearchItem list option) res" where
  "semantic D S exclude limit v d =
     (if di_postgres D
      then bind_res (di_nearest D d v (embedding_model_name S) exclude limit) (\<lambda>rows.
        when_any rows (map_res (search_item (\<lambda>distance. clamp (1 - distance))) (map (\<lambda>(r, x). (x, r)) rows)))
      else let hits = scored v (candidates S exclude d)
        in when_any hits (map_res (search_item id) (take limit (sort_desc fst hits))))"

subsection \<open>Lexical search\<close>

definition query_tokens :: "str \<Rightarrow> str list" where
  "query_tokens q = take 20 (dedup (findall_set is_word [] (lower q)))"

definition incident_text :: "Incident \<Rightarrow> str" where
  "incident_text r = inc_title r @ '' '' @ inc_service r @ '' '' @ inc_description r"

definition prefiltered :: "dialect \<Rightarrow> str list \<Rightarrow> str option \<Rightarrow> db \<Rightarrow> Incident list" where
  "prefiltered D tokens exclude d =
     filter (\<lambda>r. list_ex (\<lambda>t. contains t (di_lower D (incident_text r))) tokens \<and> not_excluded exclude r) (incidents d)"

definition lexical_score :: "str list \<Rightarrow> Incident \<Rightarrow> real" where
  "lexical_score tokens r =
     real (length (filter (\<lambda>t. contains t (lower (incident_text r))) tokens)) / real (length tokens)"

definition lexical :: "dialect \<Rightarrow> str \<Rightarrow> str option \<Rightarrow> nat \<Rightarrow> db \<Rightarrow> (exc, real SearchItem list) res" where
  "lexical D q exclude limit d =
     (let tokens = query_tokens q
      in if tokens = [] then Inr []
         else map_res (search_item id) (map (\<lambda>r. (lexical_score tokens r, r))
           (take limit (sort_desc (\<lambda>r. (lexical_score tokens r, inc_created_at r)) (prefiltered D tokens exclude d)))))"

subsection \<open>Searching\<close>

text \<open>Any exception of the semantic part rolls back and leaves the search to the lexical one.\<close>

definition semantic_items :: "dialect \<Rightarrow> llm \<Rightarrow> settings \<Rightarrow> str option \<Rightarrow> nat \<Rightarrow> str \<Rightarrow> real SearchItem list option act" where
  "semantic_items D llm S exclude limit q =
     catch (andthen (lift_res (llm_embed llm q)) (\<lambda>v.
         if v = [] then raise (ValueError ''Invalid embedding'')
         else andthen (look (semantic D S exclude limit v)) lift_res))
       (\<lambda>e. andthen session_rollback (\<lambda>_. ret None))"

definition search_incidents ::
  "dialect \<Rightarrow> llm \<Rightarrow> settings \<Rightarrow> str \<Rightarrow> nat \<Rightarrow> str option \<Rightarrow> real SearchResults act" where
  "search_incidents D llm S query limit exclude =
     (let q = redact query
      in andthen (semantic_items D llm S exclude limit q) (\<lambda>found. case found of
         Some items \<Rightarrow> ret \<lparr>sr_items = items, sr_mode = Semantic\<rparr>
       | None \<Rightarrow> andthen (look (lexical D q exclude limit)) (\<lambda>r.
           lift_res (bind_res r (\<lambda>items. Inr \<lparr>sr_items = items, sr_mode = Lexical\<rparr>)))))"

lemma keeps_search_incidents: "store.keeps E (search_incidents D llm S q limit x)"
  unfolding search_incidents_def semantic_items_def Let_def by (intro store.keeps_rules)

lemma uncommitted_semantic: "uncommitted (semantic_items D llm S x limit q)"
proof -
  have "uncommitted session_rollback" by (simp add: uncommitted_def)
  then show ?thesis unfolding semantic_items_def by (intro uncommitted_rules)
qed

lemma uncommitted_search: "uncommitted (search_incidents D llm S q limit x)"
  unfolding search_incidents_def Let_def by (intro uncommitted_rules uncommitted_semantic)

subsection \<open>Scores lie between -1 and 1\<close>

lemma dot_bound:
  fixes p q a b s :: real
  assumes "\<bar>s\<bar> \<le> sqrt p * sqrt q" and "0 \<le> p" and "0 \<le> q"
  shows "\<bar>s + a * b\<bar> \<le> sqrt (p + a * a) * sqrt (q + b * b)"
proof -
  let ?m = "sqrt p * sqrt q + \<bar>a\<bar> * \<bar>b\<bar>"
  have "0 \<le> (sqrt p * \<bar>b\<bar> - sqrt q * \<bar>a\<bar>)\<^sup>2" by simp
  then have "?m\<^sup>2 \<le> (p + a * a) * (q + b * b)"
    using assms(2,3) by (simp add: power2_eq_square algebra_simps)
  then have "?m \<le> sqrt ((p + a * a) * (q + b * b))" by (rule real_le_rsqrt)
  moreover have "\<bar>s + a * b\<bar> \<le> ?m"
    using assms(1) by (simp add: abs_mult[symmetric] abs_triangle_ineq[THEN order_trans])
  ultimately show ?thesis by (simp add: real_sqrt_mult)
qed

lemma squares_nonneg: "0 \<le> sum_list (map (\<lambda>x. x * x) v)" for v :: "rat list"
  by (induction v) auto

lemma cauchy_schwarz:
  "length a = length b \<Longrightarrow> \<bar>of_rat (dot a b)\<bar> \<le> norm_of a * norm_of b"
proof (induction a b rule: list_induct2)
  case (Cons x a y b)
  have "\<bar>of_rat (dot a b) + of_rat x * of_rat y\<bar> \<le>
      sqrt (of_rat (sum_list (map (\<lambda>x. x * x) a)) + of_rat x * of_rat x) *
      sqrt (of_rat (sum_list (map (\<lambda>x. x * x) b)) + of_rat y * of_rat y)"
    using Cons by (intro dot_bound) (simp_all add: norm_of_def squares_nonneg)
  then show ?case by (simp add: dot_def norm_of_def of_rat_add of_rat_mult add.commute)
qed (simp add: dot_def)

lemma cosine_range:
  assumes "cosine v u = Some s"
  shows "-1 \<le> s \<and> s \<le> 1"
proof -
  have s: "s = of_rat (dot v u) / (norm_of v * norm_of u)" "length v = length u" "norm_of v * norm_of u \<noteq> 0"
    using assms by (auto simp: cosine_def split: if_splits)
  have "0 \<le> norm_of v * norm_of u" by (simp add: norm_of_def squares_nonneg)
  with s(3) have pos: "0 < norm_of v * norm_of u" by (metis less_eq_real_def)
  have "of_rat (dot v u) \<le> norm_of v * norm_of u" "- (norm_of v * norm_of u) \<le> of_rat (dot v u)"
    using cauchy_schwarz[OF s(2)] by linarith+
  then show ?thesis unfolding s(1) using pos by (simp add: divide_le_eq le_divide_eq)
qed

lemma round4_mono:
  assumes "x \<le> y"
  shows "round4 x \<le> round4 y"
proof -
  let ?r = "\<lambda>z :: real. if z - of_int \<lfloor>z\<rfloor> < 1 / 2 then \<lfloor>z\<rfloor> else if 1 / 2 < z - of_int \<lfloor>z\<rfloor> then \<lfloor>z\<rfloor> + 1
    else if even \<lfloor>z\<rfloor> then \<lfloor>z\<rfloor> else \<lfloor>z\<rfloor> + 1"
  have mono: "?r a \<le> ?r b" if "a \<le> b" for a b
  proof (cases "\<lfloor>a\<rfloor> = \<lfloor>b\<rfloor>")
    case True
    then show ?thesis using that by auto
  next
    case False
    then have "\<lfloor>a\<rfloor> + 1 \<le> \<lfloor>b\<rfloor>" using floor_mono[OF that] by simp
    moreover have "?r a \<le> \<lfloor>a\<rfloor> + 1" "\<lfloor>b\<rfloor> \<le> ?r b" by auto
    ultimately show ?thesis by linarith
  qed
  have "x * 10000 \<le> y * 10000" using assms by simp
  from mono[OF this] show ?thesis unfolding round4_def Let_def by (simp only: divide_right_mono of_int_le_iff)
qed

lemma round4_ends: "round4 1 = 1" "round4 (-1) = -1" "round4 0 = 0"
  by (simp_all add: round4_def)

lemma round4_range: "-1 \<le> x \<Longrightarrow> x \<le> 1 \<Longrightarrow> -1 \<le> round4 x \<and> round4 x \<le> 1"
  using round4_mono[of "-1" x] round4_mono[of x 1] by (simp add: round4_ends)

lemma lexical_score_range: "0 \<le> lexical_score ts r \<and> lexical_score ts r \<le> 1"
  by (simp add: lexical_score_def divide_le_eq)

subsection \<open>What a search returns\<close>

lemma map_res_all2: "map_res f xs = Inr ys \<Longrightarrow> list_all2 (\<lambda>x y. f x = Inr y) xs ys"
  by (induction xs arbitrary: ys) auto

lemma search_items_scores:
  assumes "map_res (search_item f) xs = Inr items"
  shows "map si_score items = map (\<lambda>(s, r). round4 (f s)) xs"
    and "map (\<lambda>i. ir_id (si_incident i)) items = map (\<lambda>(s, r). trim (inc_id r)) xs"
proof -
  have "list_all2 (\<lambda>x i. search_item f x = Inr i) xs items" by (rule map_res_all2[OF assms])
  then have "map si_score items = map (\<lambda>(s, r). round4 (f s)) xs \<and>
      map (\<lambda>i. ir_id (si_incident i)) items = map (\<lambda>(s, r). trim (inc_id r)) xs"
    by (induction rule: list_all2_induct) (auto simp: search_item_def read_incident_valid(8))
  then show "map si_score items = map (\<lambda>(s, r). round4 (f s)) xs"
    "map (\<lambda>i. ir_id (si_incident i)) items = map (\<lambda>(s, r). trim (inc_id r)) xs" by blast+
qed

text \<open>Hits in the order of their scores, each within the range, are items with the same properties.\<close>

definition ranked :: "nat \<Rightarrow> real SearchItem list \<Rightarrow> bool" where
  "ranked limit items = (length items \<le> limit \<and> sorted_wrt (\<ge>) (map si_score items) \<and>
     (\<forall>i \<in> set items. -1 \<le> si_score i \<and> si_score i \<le> 1))"

lemma ranked_items:
  assumes "map_res (search_item id) xs = Inr items" and "length xs \<le> limit"
    and "sorted_wrt (\<lambda>x y. fst y \<le> fst x) xs" and "\<forall>x \<in> set xs. -1 \<le> fst x \<and> fst x \<le> 1"
  shows "ranked limit items"
proof -
  note scores = search_items_scores(1)[OF assms(1)]
  have "sorted_wrt (\<ge>) (map (\<lambda>(s, r). round4 (id s)) xs)"
    using assms(3) by (auto simp: sorted_wrt_map split_def round4_mono elim: sorted_wrt_mono_rel[rotated])
  moreover have "\<forall>y \<in> set (map si_score items). -1 \<le> y \<and> y \<le> 1"
    unfolding scores using assms(4) round4_range by (auto simp: split_def)
  then have "\<forall>i \<in> set items. -1 \<le> si_score i \<and> si_score i \<le> 1" by simp
  ultimately show ?thesis
    using map_res_length[OF assms(1)] assms(2) unfolding ranked_def scores by simp
qed

lemma scored_range: "(s, r) \<in> set (scored v rs) \<Longrightarrow> -1 \<le> s \<and> s \<le> 1"
  using cosine_range by (auto simp: scored_def split: option.splits)

lemma sorted_sort_desc_take: "sorted_wrt (\<lambda>x y. f y \<le> f x) (take n (sort_desc f xs))"
  by (rule sorted_wrt_take) (rule sorted_sort_desc)

lemma semantic_ranked:
  assumes "semantic D S exclude limit v d = Inr (Some items)" and "\<not> di_postgres D"
  shows "ranked limit items"
proof -
  let ?hits = "scored v (candidates S exclude d)"
  have "map_res (search_item id) (take limit (sort_desc fst ?hits)) = Inr items"
    using assms by (auto simp: semantic_def when_any_def Let_def split: if_splits)
  then show ?thesis
    by (rule ranked_items) (auto simp: sorted_sort_desc_take dest!: in_set_takeD scored_range)
qed

lemma lexical_ranked:
  assumes "lexical D q exclude limit d = Inr items"
  shows "ranked limit items"
proof -
  let ?ts = "query_tokens q"
  let ?rs = "take limit (sort_desc (\<lambda>r. (lexical_score ?ts r, inc_created_at r)) (prefiltered D ?ts exclude d))"
  show ?thesis
  proof (cases "?ts = []")
    case True
    with assms show ?thesis by (simp add: lexical_def ranked_def)
  next
    case False
    then have run: "map_res (search_item id) (map (\<lambda>r. (lexical_score ?ts r, r)) ?rs) = Inr items"
      using assms by (simp add: lexical_def Let_def)
    have "sorted_wrt (\<lambda>x y. (lexical_score ?ts y, inc_created_at y) \<le> (lexical_score ?ts x, inc_created_at x)) ?rs"
      by (rule sorted_sort_desc_take)
    then have "sorted_wrt (\<lambda>x y. fst y \<le> fst x) (map (\<lambda>r. (lexical_score ?ts r, r)) ?rs)"
      by (auto simp: sorted_wrt_map elim: sorted_wrt_mono_rel[rotated])
    moreover have "-1 \<le> lexical_score ?ts r \<and> lexical_score ?ts r \<le> 1" for r
      using lexical_score_range[of ?ts r] by linarith
    ultimately show ?thesis using run by (intro ranked_items) auto
  qed
qed

lemma search_incidents_run:
  "search_incidents D llm S query limit exclude w =
     (case bind_res (llm_embed llm (redact query)) (\<lambda>v.
          if v = [] then Inl (ValueError ''Invalid embedding'') else semantic D S exclude limit v (live w)) of
        Inr (Some items) \<Rightarrow> (Inr \<lparr>sr_items = items, sr_mode = Semantic\<rparr>, w)
      | Inr None \<Rightarrow> (bind_res (lexical D (redact query) exclude limit (live w))
          (\<lambda>items. Inr \<lparr>sr_items = items, sr_mode = Lexical\<rparr>), w)
      | Inl e \<Rightarrow> (bind_res (lexical D (redact query) exclude limit (saved w))
          (\<lambda>items. Inr \<lparr>sr_items = items, sr_mode = Lexical\<rparr>), w\<lparr>live := saved w\<rparr>))"
proof (cases "llm_embed llm (redact query)")
  case (Inl e)
  then show ?thesis by (simp add: search_incidents_def semantic_items_def catch_def andthen_def Let_def)
next
  case (Inr v)
  then show ?thesis
    by (cases "v = []"; cases "semantic D S exclude limit v (live w)")
      (auto simp: search_incidents_def semantic_items_def catch_def andthen_def Let_def split: option.splits)
qed

subsection \<open>Properties\<close>

text \<open>C19. A search on SQLite that returns gives at most the number of hits asked for, best first, with
  scores between -1 and 1, in both modes, and stores nothing.\<close>

theorem search_ranked:
  assumes "search_incidents D llm S query limit exclude w = (Inr r, w')" and "\<not> di_postgres D"
  shows "ranked limit (sr_items r) \<and> saved w' = saved w"
proof
  show "saved w' = saved w" by (rule uncommittedD[OF uncommitted_search assms(1)])
  show "ranked limit (sr_items r)"
    using assms semantic_ranked[OF _ assms(2)] lexical_ranked unfolding search_incidents_run
    by (auto split: sum.splits option.splits if_splits)
qed

lemma map_res_ok: "\<forall>x \<in> set xs. is_ok (f x) \<Longrightarrow> \<exists>ys. map_res f xs = Inr ys"
proof (induction xs)
  case (Cons x xs)
  then show ?case by (cases "f x") auto
qed simp

lemma lexical_ok:
  assumes "\<forall>r \<in> set (incidents d). is_ok (read_incident_row r)"
  shows "\<exists>items. lexical D q exclude limit d = Inr items"
proof -
  let ?ts = "query_tokens q"
  let ?rs = "take limit (sort_desc (\<lambda>r. (lexical_score ?ts r, inc_created_at r)) (prefiltered D ?ts exclude d))"
  have "is_ok (search_item id (s, r))" if "r \<in> set ?rs" for s r
  proof -
    have "r \<in> set (incidents d)" using in_set_takeD[OF that] by (simp add: prefiltered_def)
    then have "is_ok (read_incident_row r)" using assms by blast
    then show ?thesis by (cases "read_incident_row r") (simp_all add: search_item_def)
  qed
  then have "\<forall>x \<in> set (map (\<lambda>r. (lexical_score ?ts r, r)) ?rs). is_ok (search_item id x)"
    unfolding set_map by blast
  from map_res_ok[OF this] show ?thesis
    by (cases "?ts = []") (simp_all add: lexical_def Let_def)
qed

lemma search_outage:
  assumes "\<not> is_ok (llm_embed llm (redact query))" and "\<forall>r \<in> set (incidents (saved w)). is_ok (read_incident_row r)"
  shows "\<exists>items. search_incidents D llm S query limit exclude w =
      (Inr \<lparr>sr_items = items, sr_mode = Lexical\<rparr>, w\<lparr>live := saved w\<rparr>) \<and>
    lexical D (redact query) exclude limit (saved w) = Inr items"
proof -
  obtain e where e: "llm_embed llm (redact query) = Inl e"
    using assms(1) by (cases "llm_embed llm (redact query)") simp_all
  obtain items where "lexical D (redact query) exclude limit (saved w) = Inr items"
    using lexical_ok[OF assms(2)] by blast
  with e show ?thesis by (simp add: search_incidents_run)
qed

text \<open>An outage of the embedding service does not fail a search: for rows that are valid, it answers
  with the lexical hits of what is stored.\<close>

lemma search_survives_outage:
  assumes "\<not> is_ok (llm_embed llm (redact query))" and "\<forall>r \<in> set (incidents (saved w)). is_ok (read_incident_row r)"
  shows "\<exists>items. search_incidents D llm S query limit exclude w =
      (Inr \<lparr>sr_items = items, sr_mode = Lexical\<rparr>, w\<lparr>live := saved w\<rparr>) \<and>
    lexical D (redact query) exclude limit (saved w) = Inr items"
  using search_outage[OF assms] .

definition offline_llm :: llm where
  "offline_llm = \<lparr>llm_analyze = (\<lambda>c. Inl HTTPError), llm_embed = (\<lambda>t. Inl HTTPError)\<rparr>"

lemma sample_offline:
  "\<not> is_ok (llm_embed offline_llm q)" "\<forall>r \<in> set (incidents (saved sample_world)). is_ok (read_incident_row r)"
  using read_sample by (auto simp: offline_llm_def sample_world_def)

lemma search_survives_outage_example:
  "\<exists>items. lexical sqlite (redact ''disk'') None 10 (saved sample_world) = Inr items \<and>
     search_incidents sqlite offline_llm default_settings ''disk'' 10 None sample_world =
       (Inr \<lparr>sr_items = items, sr_mode = Lexical\<rparr>, sample_world\<lparr>live := saved sample_world\<rparr>)"
  using search_survives_outage[where D = sqlite and query = "''disk''" and S = default_settings and limit = 10 and exclude = None,
      OF sample_offline] by blast

theorem search_ranked_witness:
  "\<exists>items. search_incidents sqlite offline_llm default_settings ''disk'' 10 None sample_world =
     (Inr \<lparr>sr_items = items, sr_mode = Lexical\<rparr>, sample_world\<lparr>live := saved sample_world\<rparr>) \<and> ranked 10 items"
proof -
  obtain items where run: "search_incidents sqlite offline_llm default_settings ''disk'' 10 None sample_world =
      (Inr \<lparr>sr_items = items, sr_mode = Lexical\<rparr>, sample_world\<lparr>live := saved sample_world\<rparr>)"
    using search_outage[where D = sqlite and query = "''disk''" and S = default_settings and limit = 10 and exclude = None,
      OF sample_offline] by blast
  have "\<not> di_postgres sqlite" by (simp add: sqlite_def)
  from search_ranked[OF run this] run show ?thesis by auto
qed

text \<open>On SQLite an incident is missed when the only word it shares with the query has an accented
  capital letter: the query is lowered by Python, the stored text by SQLite, which lowers ASCII only.\<close>

lemma sqlite_search_misses_accents:
  "prefiltered sqlite [[chr 233]] None (empty_db\<lparr>incidents := [sample_incident\<lparr>inc_title := [chr 201]\<rparr>]\<rparr>) = [] \<and>
   lexical_score [[chr 233]] (sample_incident\<lparr>inc_title := [chr 201]\<rparr>) = 1"
proof -
  have "contains [chr 233] (lower (incident_text (sample_incident\<lparr>inc_title := [chr 201]\<rparr>)))"
    "\<not> contains [chr 233] (sqlite_lower (incident_text (sample_incident\<lparr>inc_title := [chr 201]\<rparr>)))" by code_simp+
  then show ?thesis by (simp add: prefiltered_def sqlite_def lexical_score_def)
qed

end
