(* ===== verification/Routes.thy ===== *)
theory Routes
  imports Jobs Search Archival Reporting Postmortems
begin

text \<open>
  \<open>app/api/routes.py\<close>: the handlers, each as an action on the session of its request together with the
  background tasks it schedules. A handler takes what FastAPI hands it: path and query parameters that
  have been parsed and checked, and the decoded body, which it validates with the schema.
\<close>

subsection \<open>The application\<close>

text \<open>The application state and what the handlers reach through it. \<open>ap_rival\<close> is what other sessions
  commit while an alert is ingested, \<open>ap_publish\<close> whether the broker accepts a job.\<close>

record app =
  ap_env :: env
  ap_settings :: settings
  ap_llm :: llm
  ap_network :: network
  ap_bracket :: "str \<Rightarrow> bool"
  ap_floats :: "str \<Rightarrow> str"
  ap_stamp :: read_stamp
  ap_dialect :: dialect
  ap_archive :: archive_store
  ap_rival :: "world \<Rightarrow> world"
  ap_publish :: "str \<Rightarrow> bool"

datatype task = NotifyCreated dict | ExecuteJob str

type_synonym 'a route = "('a \<times> task list) act"

text \<open>A request body: what its schema rejects is a \<open>RequestValidationError\<close> located in the body.\<close>

definition body :: "(pyval \<Rightarrow> 'a check) \<Rightarrow> pyval \<Rightarrow> 'a act" where
  "body f v = lift_res (case f v of
     Inl locs \<Rightarrow> Inl (RequestValidationError (map (Cons ''body'') locs)) | Inr x \<Rightarrow> Inr x)"

definition finish :: "'a \<Rightarrow> 'a route" where
  "finish x = ret (x, [])"

text \<open>\<open>model_validate\<close> of what a handler returns.\<close>

definition respond :: "(exc, 'a) res \<Rightarrow> 'a route" where
  "respond r = andthen (lift_res r) finish"

definition schedule_created :: "Incident \<Rightarrow> (exc, task) res" where
  "schedule_created inc = bind_res (incident_dict inc) (\<lambda>j. Inr (NotifyCreated (as_dict j)))"

subsection \<open>Jobs\<close>

definition queue_unavailable :: str where
  "queue_unavailable = ''The queue is unavailable. Retry when Redis and the worker are healthy.''"

definition queue_analysis :: "app \<Rightarrow> str \<Rightarrow> Job route" where
  "queue_analysis A i =
     andthen (require_incident i) (\<lambda>_.
     andthen (insert_job (ap_env A) i) (\<lambda>job.
     andthen session_commit (\<lambda>_.
       if celery_enabled (ap_settings A)
       then (if ap_publish A (jb_id job) then finish job
         else andthen (set_job (jb_id job) (\<lambda>j. j\<lparr>jb_status := ''failed'', jb_error := Some queue_unavailable\<rparr>)) (\<lambda>_.
           andthen session_commit (\<lambda>_. raise (AppError ''queue_unavailable'' queue_unavailable 503))))
       else ret (job, [ExecuteJob (jb_id job)]))))"

definition create_analysis_job :: "app \<Rightarrow> str \<Rightarrow> JobRead route" where
  "create_analysis_job A i =
     andthen (queue_analysis A i) (\<lambda>(job, tasks). ret (read_job_row job, tasks))"

definition read_job :: "str \<Rightarrow> JobRead route" where
  "read_job i = andthen (look (find_job i)) (\<lambda>found. case found of
     None \<Rightarrow> raise (AppError ''job_not_found'' ''Job not found'' 404)
   | Some job \<Rightarrow> finish (read_job_row job))"

subsection \<open>Webhooks\<close>

definition ingestion_rival :: "app \<Rightarrow> world \<Rightarrow> world" where
  "ingestion_rival A = (if di_postgres (ap_dialect A) then ap_rival A else id)"

definition normalized_batch :: "app \<Rightarrow> str \<Rightarrow> pyval \<Rightarrow> (exc, NormalizedAlert list) res" where
  "normalized_batch A source payload =
     bind_res (get_source (ap_floats A) source) (\<lambda>normalize.
     bind_res (normalize payload) (\<lambda>as.
       if as = [] \<or> 100 < length as then Inl (ValueError ''An alert batch must contain between 1 and 100 alerts'')
       else Inr as))"

definition ingest_item :: "app \<Rightarrow> str \<Rightarrow> NormalizedAlert \<Rightarrow> (IngestionItem \<times> Incident) act" where
  "ingest_item A source a =
     andthen (ingest_alert (ap_env A) (ap_stamp A) (ingestion_rival A) source a) (\<lambda>(inc, duplicate).
     andthen (lift_res (read_incident_row inc)) (\<lambda>x. ret (\<lparr>ii_incident = x, ii_duplicate = duplicate\<rparr>, inc)))"

definition ingest_batch :: "app \<Rightarrow> str \<Rightarrow> pyval \<Rightarrow> (IngestionItem \<times> Incident) list act" where
  "ingest_batch A source payload =
     catch (andthen (lift_res (normalized_batch A source payload)) (\<lambda>as.
        andthen (map_act (ingest_item A source) as) (\<lambda>items.
        andthen session_commit (\<lambda>_. ret items))))
       (\<lambda>e. if is_value_error e
         then raise (AppError ''invalid_alert'' ''The source or alert payload is invalid'' 422) else raise e)"

definition after_created :: "app \<Rightarrow> Incident \<Rightarrow> task list act" where
  "after_created A inc =
     andthen (lift_res (schedule_created inc)) (\<lambda>t.
       if auto_analyze (ap_settings A)
       then andthen (queue_analysis A (inc_id inc)) (\<lambda>(job, ts). ret (t # ts)) else ret [t])"

definition dict_body :: "pyval \<Rightarrow> pyval check" where
  "dict_body v = (case v of VDict d \<Rightarrow> Inr v | _ \<Rightarrow> Inl [[]])"

definition ingestion_response :: "IngestionItem list \<Rightarrow> IngestionResponse" where
  "ingestion_response items =
     \<lparr>in_incident = ii_incident (hd items), in_duplicate = list_all ii_duplicate items, in_results = items\<rparr>"

definition ingest :: "app \<Rightarrow> str \<Rightarrow> pyval \<Rightarrow> IngestionResponse route" where
  "ingest A source0 json =
     (let source = lower source0
      in andthen (body dict_body json) (\<lambda>payload.
         andthen (ingest_batch A source payload) (\<lambda>items.
         andthen (map_act (after_created A) (map snd (filter (\<lambda>(i, inc). \<not> ii_duplicate i) items))) (\<lambda>ts.
           ret (ingestion_response (map fst items), concat ts)))))"

subsection \<open>Incidents\<close>

definition status_matches :: "str option \<Rightarrow> Incident \<Rightarrow> bool" where
  "status_matches status r = (case status of
      None \<Rightarrow> True
    | Some s \<Rightarrow> if s = ''active'' then inc_status r \<noteq> ''resolved'' else inc_status r = s)"

definition severity_matches :: "Severity option \<Rightarrow> Incident \<Rightarrow> bool" where
  "severity_matches severity r = (case severity of None \<Rightarrow> True | Some s \<Rightarrow> inc_severity r = severity_value s)"

definition text_matches :: "dialect \<Rightarrow> str option \<Rightarrow> Incident \<Rightarrow> bool" where
  "text_matches D search r = (case search of
      None \<Rightarrow> True
    | Some s \<Rightarrow> s = [] \<or> list_ex (\<lambda>t. contains (di_lower D s) (di_lower D t))
        [inc_title r, inc_service r, inc_description r])"

definition listed :: "dialect \<Rightarrow> str option \<Rightarrow> Severity option \<Rightarrow> str option \<Rightarrow> db \<Rightarrow> Incident list" where
  "listed D status severity search d =
     filter (\<lambda>r. status_matches status r \<and> severity_matches severity r \<and> text_matches D search r) (incidents d)"

definition page_of :: "nat \<Rightarrow> nat \<Rightarrow> Incident list \<Rightarrow> Incident list" where
  "page_of limit offset rs = take limit (drop offset (sort_desc (\<lambda>r. (inc_created_at r, inc_id r)) rs))"

definition list_incidents ::
  "app \<Rightarrow> str option \<Rightarrow> Severity option \<Rightarrow> str option \<Rightarrow> nat \<Rightarrow> nat \<Rightarrow> IncidentPage route" where
  "list_incidents A status severity search limit offset =
     andthen (look (listed (ap_dialect A) status severity search)) (\<lambda>rs.
       respond (bind_res (map_res read_incident_row (page_of limit offset rs)) (\<lambda>items.
         Inr \<lparr>ip_items = items, ip_total = length rs, ip_limit = limit, ip_offset = offset\<rparr>)))"

definition create_incident_route :: "app \<Rightarrow> pyval \<Rightarrow> IncidentRead route" where
  "create_incident_route A payload =
     andthen (body check_incident_create payload) (\<lambda>data.
     andthen (create_incident (ap_env A) data ''manual'') (\<lambda>inc.
     andthen session_commit (\<lambda>_.
     andthen (lift_res (schedule_created inc)) (\<lambda>t.
     andthen (lift_res (read_incident_row inc)) (\<lambda>x. ret (x, [t]))))))"

definition read_incident :: "str \<Rightarrow> IncidentRead route" where
  "read_incident i = andthen (require_incident i) (\<lambda>inc. respond (read_incident_row inc))"

text \<open>The fields that were set are written, texts through the privacy filter once more; a change of
  status keeps the lifecycle timestamps, and a change of text drops the embedding.\<close>

definition set_fields :: "IncidentUpdate \<Rightarrow> Incident \<Rightarrow> Incident" where
  "set_fields u r = r\<lparr>
     inc_title := (case iu_title u of Some t \<Rightarrow> redact t | None \<Rightarrow> inc_title r),
     inc_severity := (case iu_severity u of Some s \<Rightarrow> redact (severity_value s) | None \<Rightarrow> inc_severity r),
     inc_status := (case iu_status u of Some s \<Rightarrow> redact (status_value s) | None \<Rightarrow> inc_status r),
     inc_description := (case iu_description u of Some x \<Rightarrow> redact x | None \<Rightarrow> inc_description r)\<rparr>"

definition status_changes :: "IncidentUpdate \<Rightarrow> Incident \<Rightarrow> Status option" where
  "status_changes u r = (case iu_status u of
      Some s \<Rightarrow> if inc_status r \<noteq> status_value s then Some s else None | None \<Rightarrow> None)"

definition set_lifecycle :: "IncidentUpdate \<Rightarrow> time \<Rightarrow> Incident \<Rightarrow> Incident \<Rightarrow> Incident" where
  "set_lifecycle u now old r = (case status_changes u old of
      None \<Rightarrow> r
    | Some s \<Rightarrow> r\<lparr>
        inc_acknowledged_at := (if s \<in> {Acknowledged, Investigating} \<and> inc_acknowledged_at r = None
          then Some now else inc_acknowledged_at r),
        inc_resolved_at := (if s = Resolved then Some now else None)\<rparr>)"

definition drop_embedding :: "IncidentUpdate \<Rightarrow> Incident \<Rightarrow> Incident" where
  "drop_embedding u r =
     (if (case iu_title u of Some t \<Rightarrow> t \<noteq> [] | None \<Rightarrow> False) \<or> iu_description u \<noteq> None
      then r\<lparr>inc_embedding := None, inc_embedding_model := None\<rparr> else r)"

definition updated_row :: "IncidentUpdate \<Rightarrow> time \<Rightarrow> Incident \<Rightarrow> Incident" where
  "updated_row u now r = drop_embedding u (set_lifecycle u now r ((set_fields u r)\<lparr>inc_updated_at := now\<rparr>))"

definition update_event :: "IncidentUpdate \<Rightarrow> Incident \<Rightarrow> str \<times> str" where
  "update_event u old = (case status_changes u old of
      Some s \<Rightarrow> (''status_changed'', ''Status changed from '' @ inc_status old @ '' to '' @ status_value s @ ''.'')
    | None \<Rightarrow> (''updated'', ''Incident details updated.''))"

definition update_incident :: "app \<Rightarrow> str \<Rightarrow> pyval \<Rightarrow> IncidentRead route" where
  "update_incident A i payload =
     andthen (body check_incident_update payload) (\<lambda>u.
     andthen (require_incident i) (\<lambda>old.
     andthen (utcnow (ap_env A)) (\<lambda>now.
     andthen (set_incident i (updated_row u now)) (\<lambda>_.
     andthen (add_event (ap_env A) i (fst (update_event u old)) (snd (update_event u old))) (\<lambda>_.
     andthen session_commit (\<lambda>_. respond (read_incident_row (updated_row u now old))))))))"

definition delete_incident :: "str \<Rightarrow> unit route" where
  "delete_incident i =
     andthen (require_incident i) (\<lambda>inc.
     andthen (change (cascade (inc_id inc))) (\<lambda>_.
     andthen session_commit (\<lambda>_. finish ())))"

subsection \<open>Alerts, logs and the timeline\<close>

definition list_alerts :: "str \<Rightarrow> Alert list route" where
  "list_alerts i =
     andthen (require_incident i) (\<lambda>_.
     andthen (look (\<lambda>d. sort_key al_received_at (filter (\<lambda>a. al_incident_id a = i) (alerts d)))) (\<lambda>rows.
       respond (map_res read_alert_row rows)))"

definition list_logs :: "str \<Rightarrow> nat \<Rightarrow> nat \<Rightarrow> LogEntry list route" where
  "list_logs i limit offset =
     andthen (require_incident i) (\<lambda>_.
     andthen (look (\<lambda>d. take limit (drop offset
         (sort_key (\<lambda>l. (lg_timestamp l, lg_id l)) (filter (\<lambda>l. lg_incident_id l = i) (log_entries d)))))) (\<lambda>rows.
       finish (map read_log_row rows)))"

definition attach_logs :: "app \<Rightarrow> str \<Rightarrow> pyval \<Rightarrow> LogEntry list route" where
  "attach_logs A i payload =
     andthen (body (check_logs_create (ap_stamp A)) payload) (\<lambda>entries.
     andthen (require_incident i) (\<lambda>_.
     andthen (add_logs (ap_env A) i entries) (\<lambda>rows.
     andthen session_commit (\<lambda>_. finish (map read_log_row rows)))))"

definition timeline :: "str \<Rightarrow> TimelineEvent list route" where
  "timeline i =
     andthen (require_incident i) (\<lambda>_.
     andthen (look (\<lambda>d. sort_key (\<lambda>e. (ev_created_at e, ev_id e)) (filter (\<lambda>e. ev_incident_id e = i) (timeline_events d))))
       (\<lambda>rows. respond (map_res read_event_row rows)))"

definition add_timeline_event :: "app \<Rightarrow> str \<Rightarrow> pyval \<Rightarrow> TimelineEvent route" where
  "add_timeline_event A i payload =
     andthen (body check_timeline_create payload) (\<lambda>message.
     andthen (require_incident i) (\<lambda>_.
     andthen (add_event (ap_env A) i ''manual'' message) (\<lambda>event.
     andthen session_commit (\<lambda>_. respond (read_event_row event)))))"

subsection \<open>Analyses\<close>

definition get_analysis :: "str \<Rightarrow> Analysis route" where
  "get_analysis i =
     andthen (require_incident i) (\<lambda>_. andthen (latest_analysis i) (\<lambda>a. respond (read_analysis_row a)))"

definition run_analysis :: "app \<Rightarrow> str \<Rightarrow> Analysis route" where
  "run_analysis A i =
     andthen (analyze_incident (ap_env A) (ap_llm A) (ap_settings A) i) (\<lambda>a.
     andthen session_commit (\<lambda>_. respond (read_analysis_row a)))"

subsection \<open>Postmortems\<close>

definition read_postmortem :: "str \<Rightarrow> Postmortem route" where
  "read_postmortem i =
     andthen (require_incident i) (\<lambda>_. andthen (get_postmortem i) (\<lambda>p. respond (read_postmortem_row p)))"

definition create_postmortem :: "app \<Rightarrow> str \<Rightarrow> Postmortem route" where
  "create_postmortem A i =
     andthen (generate_postmortem (ap_env A) i) (\<lambda>p.
     andthen session_commit (\<lambda>_. respond (read_postmortem_row p)))"

definition edit_postmortem :: "app \<Rightarrow> str \<Rightarrow> pyval \<Rightarrow> Postmortem route" where
  "edit_postmortem A i payload =
     andthen (body check_postmortem_update payload) (\<lambda>markdown.
     andthen (require_incident i) (\<lambda>_.
     andthen (get_postmortem i) (\<lambda>p.
     andthen (utcnow (ap_env A)) (\<lambda>now.
     andthen (set_postmortem (pm_id p) (revised (redact markdown) now)) (\<lambda>_.
     andthen (add_event (ap_env A) i ''postmortem_edited''
       (''Postmortem edited to version '' @ int_text (pm_version p + 1) @ ''.'')) (\<lambda>_.
     andthen session_commit (\<lambda>_. respond (read_postmortem_row (revised (redact markdown) now p)))))))))"

text \<open>A download: the text, its media type and its headers.\<close>

definition download_markdown :: "str \<Rightarrow> (str \<times> str \<times> (str \<times> str) list) route" where
  "download_markdown i =
     andthen (get_postmortem i) (\<lambda>p. finish (pm_markdown p, ''text/markdown'',
       [(''Content-Disposition'', ''attachment; filename='' @ [dq] @ ''postmortem-'' @ i @ ''.md'' @ [dq])]))"

subsection \<open>Exports\<close>

definition find_export :: "str \<Rightarrow> str \<Rightarrow> db \<Rightarrow> ExportRecord option" where
  "find_export i destination d = find_row export_key (i, destination) (exports d)"

text \<open>What an export does before it writes: either there is nothing to do, or the exporter has answered.\<close>

datatype export_plan = Exported ExportRecord | Fresh "ExportRecord option" Postmortem ExportResult

definition is_demo_exporter :: "exporter \<Rightarrow> bool" where
  "is_demo_exporter x = (case x of DemoExporter d \<Rightarrow> True | _ \<Rightarrow> False)"

definition plan_export :: "app \<Rightarrow> str \<Rightarrow> str \<Rightarrow> export_plan act" where
  "plan_export A i destination =
     andthen (require_incident i) (\<lambda>inc.
     andthen (look (find_export i destination)) (\<lambda>previous.
       if (case previous of Some x \<Rightarrow> \<not> ex_is_demo x | None \<Rightarrow> False) then ret (Exported (the previous))
       else andthen (lift_res (get_exporter (ap_settings A) destination)) (\<lambda>exporter.
         if previous \<noteq> None \<and> is_demo_exporter exporter then ret (Exported (the previous))
         else andthen (get_postmortem i) (\<lambda>p.
           andthen (lift_res (incident_dict inc)) (\<lambda>j.
           andthen (lift_res (run_export (ap_network A) (ap_bracket A) (ap_settings A) exporter (as_dict j) (pm_markdown p)))
             (\<lambda>result. ret (Fresh previous p result)))))))"

definition with_result :: "ExportResult \<Rightarrow> ExportRecord \<Rightarrow> ExportRecord" where
  "with_result r x = x\<lparr>ex_destination := xr_destination r, ex_external_id := xr_external_id r,
     ex_url := xr_url r, ex_is_demo := xr_is_demo r\<rparr>"

definition linked :: "str \<Rightarrow> ExportResult \<Rightarrow> Postmortem \<Rightarrow> Postmortem" where
  "linked destination r p =
     (if destination = ''jira''
      then p\<lparr>pm_jira_issue_key := Some (xr_external_id r), pm_jira_issue_url := Some (xr_url r)\<rparr>
      else p\<lparr>pm_confluence_url := Some (xr_url r)\<rparr>)"

definition save_export :: "app \<Rightarrow> str \<Rightarrow> ExportRecord option \<Rightarrow> ExportResult \<Rightarrow> ExportRecord act" where
  "save_export A i previous r = (case previous of
      Some x \<Rightarrow> andthen (set_export (ex_id x) (with_result r)) (\<lambda>_. ret (with_result r x))
    | None \<Rightarrow> insert_export (ap_env A) i (xr_destination r) (xr_external_id r) (xr_url r) (xr_is_demo r))"

definition record_export :: "app \<Rightarrow> str \<Rightarrow> str \<Rightarrow> export_plan \<Rightarrow> ExportRead route" where
  "record_export A i destination plan = (case plan of
      Exported x \<Rightarrow> finish (read_export_row x)
    | Fresh previous p r \<Rightarrow>
        andthen (save_export A i previous r) (\<lambda>x.
        andthen (set_postmortem (pm_id p) (linked destination r)) (\<lambda>_.
        andthen (add_event (ap_env A) i ''exported'' (''Postmortem exported to '' @ destination
          @ (if xr_is_demo r then '' in demo mode'' else []) @ ''.'')) (\<lambda>_.
        andthen session_commit (\<lambda>_. finish (read_export_row x))))))"

text \<open>The lock of the incident makes the handler one step for the exports of that incident.\<close>

definition export_postmortem :: "app \<Rightarrow> str \<Rightarrow> str \<Rightarrow> ExportRead route" where
  "export_postmortem A i destination =
     andthen (plan_export A i destination) (record_export A i destination)"

subsection \<open>Dashboard, devices, search and archives\<close>

definition read_dashboard :: "app \<Rightarrow> nat \<Rightarrow> Dashboard route" where
  "read_dashboard A days =
     andthen (dashboard (ap_env A) days (sla_target_minutes (ap_settings A))) finish"

definition with_device :: "DeviceCreate \<Rightarrow> time \<Rightarrow> Device list \<Rightarrow> Device list" where
  "with_device p now ds = device_table.upsert
     \<lparr>dv_token = dc_token p, dv_platform = dc_platform p, dv_environment = dc_environment p, dv_created_at = now\<rparr>
     (\<lambda>d. d\<lparr>dv_platform := dc_platform p, dv_environment := dc_environment p\<rparr>) ds"

definition register_device :: "app \<Rightarrow> pyval \<Rightarrow> bool route" where
  "register_device A payload =
     andthen (body check_device_create payload) (\<lambda>p.
     andthen (utcnow (ap_env A)) (\<lambda>now.
     andthen (set_devices (with_device p now)) (\<lambda>_.
     andthen session_commit (\<lambda>_. finish True))))"

definition unregister_device :: "str \<Rightarrow> unit route" where
  "unregister_device token =
     andthen (set_devices (remove_row dv_token (lower token))) (\<lambda>_.
     andthen session_commit (\<lambda>_. finish ()))"

definition search_route :: "app \<Rightarrow> str \<Rightarrow> nat \<Rightarrow> real SearchResults route" where
  "search_route A q limit =
     andthen (search_incidents (ap_dialect A) (ap_llm A) (ap_settings A) q limit None) finish"

definition similar :: "app \<Rightarrow> str \<Rightarrow> nat \<Rightarrow> real SearchResults route" where
  "similar A i limit =
     andthen (require_incident i) (\<lambda>inc.
     andthen (search_incidents (ap_dialect A) (ap_llm A) (ap_settings A)
       (inc_title inc @ '' '' @ inc_service inc) limit (Some i)) finish)"

definition log_json :: "LogEntry \<Rightarrow> pyval" where
  "log_json l = VDict [(''id'', VStr (lg_id l)), (''incident_id'', VStr (lg_incident_id l)),
     (''timestamp'', VStr (json_time (lg_timestamp l))), (''level'', VStr (lg_level l)),
     (''message'', VStr (lg_message l))]"

definition archive :: "app \<Rightarrow> str \<Rightarrow> dict route" where
  "archive A i =
     andthen (require_incident i) (\<lambda>_.
     andthen (look (\<lambda>d. sort_key lg_timestamp (filter (\<lambda>l. lg_incident_id l = i) (log_entries d)))) (\<lambda>logs.
     andthen (lift_res (archive_logs (ap_archive A) i (map (\<lambda>l. log_json (read_log_row l)) logs) (ap_settings A))) (\<lambda>result.
     andthen (add_event (ap_env A) i ''archived'' ''Redacted log archive created.'') (\<lambda>_.
     andthen session_commit (\<lambda>_. finish result)))))"

end
