(* ===== verification/Api.thy ===== *)
theory Api
  imports Routes
begin

text \<open>
  The service as a whole: every request of the API as one value, the handler that serves it in a session
  of its own, and the steps of the system (a request, a background task, a job delivered by the queue, a
  restart), with the invariant that every reachable state of the database satisfies.
\<close>

subsection \<open>Requests\<close>

datatype api_request =
    Ingest str pyval
  | ListIncidents "str option" "Severity option" "str option" nat nat
  | CreateIncident pyval
  | ReadIncident str
  | UpdateIncident str pyval
  | DeleteIncident str
  | ListAlerts str
  | ListLogs str nat nat
  | AttachLogs str pyval
  | Timeline str
  | AddTimelineEvent str pyval
  | GetAnalysis str
  | RunAnalysis str
  | ReadPostmortem str
  | CreatePostmortem str
  | EditPostmortem str pyval
  | DownloadMarkdown str
  | ExportPostmortem str str
  | ReadDashboard nat
  | RegisterDevice pyval
  | UnregisterDevice str
  | SearchIncidents str nat
  | Similar str nat
  | CreateAnalysisJob str
  | ReadJob str
  | Archive str

datatype answer =
    AIngestion IngestionResponse
  | APage IncidentPage
  | AIncident IncidentRead
  | AAlerts "Alert list"
  | ALogs "LogEntry list"
  | AEvents "TimelineEvent list"
  | AEvent TimelineEvent
  | AAnalysis Analysis
  | APostmortem Postmortem
  | AMarkdown "str \<times> str \<times> (str \<times> str) list"
  | AExport ExportRead
  | ADashboard Dashboard
  | ARegistered bool
  | ASearch "real SearchResults"
  | AJob JobRead
  | AArchive dict
  | ANothing

definition answer_with :: "('a \<Rightarrow> answer) \<Rightarrow> 'a route \<Rightarrow> answer route" where
  "answer_with f m = andthen m (\<lambda>(x, ts). ret (f x, ts))"

fun route :: "app \<Rightarrow> api_request \<Rightarrow> answer route" where
  "route A (Ingest source v) = answer_with AIngestion (ingest A source v)"
| "route A (ListIncidents st sv s n k) = answer_with APage (list_incidents A st sv s n k)"
| "route A (CreateIncident v) = answer_with AIncident (create_incident_route A v)"
| "route A (ReadIncident i) = answer_with AIncident (read_incident i)"
| "route A (UpdateIncident i v) = answer_with AIncident (update_incident A i v)"
| "route A (DeleteIncident i) = answer_with (\<lambda>_. ANothing) (delete_incident i)"
| "route A (ListAlerts i) = answer_with AAlerts (list_alerts i)"
| "route A (ListLogs i n k) = answer_with ALogs (list_logs i n k)"
| "route A (AttachLogs i v) = answer_with ALogs (attach_logs A i v)"
| "route A (Timeline i) = answer_with AEvents (timeline i)"
| "route A (AddTimelineEvent i v) = answer_with AEvent (add_timeline_event A i v)"
| "route A (GetAnalysis i) = answer_with AAnalysis (get_analysis i)"
| "route A (RunAnalysis i) = answer_with AAnalysis (run_analysis A i)"
| "route A (ReadPostmortem i) = answer_with APostmortem (read_postmortem i)"
| "route A (CreatePostmortem i) = answer_with APostmortem (create_postmortem A i)"
| "route A (EditPostmortem i v) = answer_with APostmortem (edit_postmortem A i v)"
| "route A (DownloadMarkdown i) = answer_with AMarkdown (download_markdown i)"
| "route A (ExportPostmortem i d) = answer_with AExport (export_postmortem A i d)"
| "route A (ReadDashboard n) = answer_with ADashboard (read_dashboard A n)"
| "route A (RegisterDevice v) = answer_with ARegistered (register_device A v)"
| "route A (UnregisterDevice t) = answer_with (\<lambda>_. ANothing) (unregister_device t)"
| "route A (SearchIncidents q n) = answer_with ASearch (search_route A q n)"
| "route A (Similar i n) = answer_with ASearch (similar A i n)"
| "route A (CreateAnalysisJob i) = answer_with AJob (create_analysis_job A i)"
| "route A (ReadJob i) = answer_with AJob (read_job i)"
| "route A (Archive i) = answer_with AArchive (archive A i)"

definition serve :: "app \<Rightarrow> api_request \<Rightarrow> answer route" where
  "serve A req = get_session (route A req)"

subsection \<open>Steps\<close>

type_synonym system = "world \<times> task list"

definition new_tasks :: "(exc, 'a \<times> task list) res \<Rightarrow> task list" where
  "new_tasks r = (case r of Inl e \<Rightarrow> [] | Inr (x, ts) \<Rightarrow> ts)"

text \<open>The background tasks of a request run after its answer, in any order; a notification only reads. A
  worker may execute any job at any time, more than once. A restart loses the tasks that are pending.\<close>

inductive api_step :: "app \<Rightarrow> system \<Rightarrow> system \<Rightarrow> bool" for A where
  request: "serve A req w = (r, w') \<Longrightarrow> api_step A (w, q) (w', q @ new_tasks r)"
| job: "execute_analysis_job (ap_env A) (ap_llm A) (ap_settings A) rival i w = (r, w') \<Longrightarrow>
    harmless (ap_env A) rival \<Longrightarrow> api_step A (w, p @ ExecuteJob i # q) (w', p @ q)"
| notify: "api_step A (w, p @ NotifyCreated d # q) (w\<lparr>live := saved w\<rparr>, p @ q)"
| worker: "execute_analysis_job (ap_env A) (ap_llm A) (ap_settings A) rival i w = (r, w') \<Longrightarrow>
    harmless (ap_env A) rival \<Longrightarrow> api_step A (w, q) (w', q)"
| restart: "api_step A (w, q) (w\<lparr>live := saved w\<rparr>, [])"

inductive reachable :: "app \<Rightarrow> system \<Rightarrow> bool" for A where
  start: "reachable A (new_world, [])"
| step: "reachable A s \<Longrightarrow> api_step A s s' \<Longrightarrow> reachable A s'"

inductive_cases api_stepE: "api_step A s s'"
inductive_simps reachable_simps: "reachable A s"

subsection \<open>Every handler keeps the invariant\<close>

lemma keeps_body: "store.keeps E (body f v)"
  unfolding body_def by (rule store.keeps_pure)

lemma keeps_finish: "store.keeps E (finish x)"
  unfolding finish_def by (rule store.keeps_pure)

lemma keeps_respond: "store.keeps E (respond r)"
  unfolding respond_def by (intro store.keeps_rules keeps_finish)

lemmas keeps_ends = store.keeps_rules keeps_body keeps_finish keeps_respond keeps_require_incident
  keeps_add_event

lemma keeps_case_prod: "(\<And>x y. store.keeps E (f x y)) \<Longrightarrow> store.keeps E (case p of (x, y) \<Rightarrow> f x y)"
  by (cases p) simp

lemma redact_severity [simp]: "redact (severity_value s) = severity_value s"
  by (cases s) (auto intro!: redact_lower_word simp: is_lower_def ord_def)

lemma redact_status [simp]: "redact (status_value s) = status_value s"
  by (cases s) (auto intro!: redact_lower_word simp: is_lower_def ord_def)

lemma status_value_inject [simp]: "status_value s = status_value s' \<longleftrightarrow> s = s'"
  by (cases s; cases s') simp_all

lemma status_values: "status_value s = ''resolved'' \<longleftrightarrow> s = Resolved"
    "status_value s = ''acknowledged'' \<longleftrightarrow> s = Acknowledged" "status_value s = ''investigating'' \<longleftrightarrow> s = Investigating"
  by (cases s; simp)+

text \<open>An update keeps the lifecycle data of the incident consistent.\<close>

lemma updated_row_ok:
  assumes "incident_ok r"
  shows "incident_ok (updated_row u now r)"
proof -
  have "incident_ok (set_lifecycle u now r ((set_fields u r)\<lparr>inc_updated_at := now\<rparr>))"
    using assms
    by (auto simp: incident_ok_def set_lifecycle_def set_fields_def status_changes_def status_values
        split: option.splits)
  then show ?thesis
    by (auto simp: updated_row_def drop_embedding_def incident_ok_def)
qed

lemma updated_row_id: "inc_id (updated_row u now r) = inc_id r"
  by (auto simp: updated_row_def drop_embedding_def set_lifecycle_def set_fields_def split: option.splits)

lemma keeps_queue_analysis: "inj (uuid (ap_env A)) \<Longrightarrow> store.keeps (ap_env A) (queue_analysis A i)"
  unfolding queue_analysis_def
  by (intro keeps_ends keeps_insert_job keeps_set_job) (simp_all add: job_ok_def)

lemma ingestion_rival_harmless:
  "harmless E (ap_rival A) \<Longrightarrow> harmless E (ingestion_rival A)"
  by (simp add: ingestion_rival_def harmless_def)

lemma keeps_ingest:
  assumes "inj (uuid (ap_env A))" and "harmless (ap_env A) (ap_rival A)"
  shows "store.keeps (ap_env A) (ingest A source v)"
  unfolding ingest_def ingest_batch_def ingest_item_def after_created_def Let_def
  by (intro keeps_ends keeps_case_prod keeps_ingest_alert keeps_queue_analysis assms
      ingestion_rival_harmless)

lemma keeps_incident_routes:
  assumes "inj (uuid (ap_env A))"
  shows "store.keeps (ap_env A) (list_incidents A st sv s n k)"
    and "store.keeps (ap_env A) (create_incident_route A v)" and "store.keeps (ap_env A) (read_incident i)"
    and "store.keeps (ap_env A) (update_incident A i v)" and "store.keeps (ap_env A) (delete_incident i)"
proof -
  show "store.keeps (ap_env A) (update_incident A i v)"
    unfolding update_incident_def
    by (intro keeps_ends keeps_set_incident updated_row_id updated_row_ok assms)
  show "store.keeps (ap_env A) (delete_incident i)"
    unfolding delete_incident_def by (intro keeps_ends store.keeps_change cascade_inv)
qed (unfold list_incidents_def create_incident_route_def read_incident_def,
  (intro keeps_ends keeps_create_incident assms)+)

lemma keeps_history_routes:
  assumes "inj (uuid (ap_env A))"
  shows "store.keeps (ap_env A) (list_alerts i)" and "store.keeps (ap_env A) (list_logs i n k)"
    and "store.keeps (ap_env A) (attach_logs A i v)" and "store.keeps (ap_env A) (timeline i)"
    and "store.keeps (ap_env A) (add_timeline_event A i v)"
  unfolding list_alerts_def list_logs_def attach_logs_def timeline_def add_timeline_event_def
  by (intro keeps_ends keeps_add_logs assms)+

lemma keeps_analysis_routes:
  assumes "inj (uuid (ap_env A))"
  shows "store.keeps (ap_env A) (get_analysis i)" and "store.keeps (ap_env A) (run_analysis A i)"
    and "store.keeps (ap_env A) (create_analysis_job A i)" and "store.keeps (ap_env A) (read_job i)"
  unfolding get_analysis_def run_analysis_def create_analysis_job_def read_job_def
  by (intro keeps_ends keeps_case_prod keeps_latest_analysis keeps_analyze_incident keeps_queue_analysis assms)+

lemma keeps_postmortem_routes:
  assumes "inj (uuid (ap_env A))"
  shows "store.keeps (ap_env A) (read_postmortem i)" and "store.keeps (ap_env A) (create_postmortem A i)"
    and "store.keeps (ap_env A) (edit_postmortem A i v)" and "store.keeps (ap_env A) (download_markdown i)"
  unfolding read_postmortem_def create_postmortem_def edit_postmortem_def download_markdown_def
  by (intro keeps_ends keeps_get_postmortem keeps_generate_postmortem keeps_set_postmortem assms;
      simp add: revised_def)+

lemma keeps_other_routes:
  assumes "inj (uuid (ap_env A))"
  shows "store.keeps (ap_env A) (read_dashboard A n)" and "store.keeps (ap_env A) (register_device A v)"
    and "store.keeps (ap_env A) (unregister_device t)" and "store.keeps (ap_env A) (search_route A q n)"
    and "store.keeps (ap_env A) (similar A i n)" and "store.keeps (ap_env A) (archive A i)"
  unfolding read_dashboard_def dashboard_def register_device_def unregister_device_def search_route_def
    similar_def archive_def with_device_def
  by (intro keeps_ends keeps_search_incidents keeps_set_devices distinct_remove_row device_table.upsert_unique assms;
      simp)+

subsection \<open>Exports\<close>

text \<open>Planning an export reads only; what it plans to store is for its incident and destination.\<close>

lemma require_incident_reading: "require_incident i w = (r, w') \<Longrightarrow> w' = w"
  by (auto simp: require_incident_run split: option.splits)

lemma get_postmortem_reading: "get_postmortem i w = (r, w') \<Longrightarrow> w' = w"
  by (auto simp: get_postmortem_def split: option.splits)

lemma plan_export_reading: "plan_export A i d w = (r, w') \<Longrightarrow> w' = w"
  unfolding plan_export_def
  by (auto simp: andthen_def split: prod.splits sum.splits if_splits
      dest!: require_incident_reading get_postmortem_reading)

lemma plan_export_Fresh:
  assumes "plan_export A i d w = (Inr (Fresh previous p r), w')"
  shows "previous = find_export i d (live w) \<and> (\<forall>x. previous = Some x \<longrightarrow> ex_is_demo x) \<and>
    (\<exists>x. get_exporter (ap_settings A) d = Inr x \<and> xr_is_demo r = is_demo_exporter x \<and>
      (previous \<noteq> None \<longrightarrow> \<not> is_demo_exporter x)) \<and> xr_destination r = d"
proof -
  obtain x j m where x: "get_exporter (ap_settings A) d = Inr x"
      and run: "run_export (ap_network A) (ap_bracket A) (ap_settings A) x j m = Inr r"
      and prev: "previous = find_export i d (live w)" "\<forall>x. previous = Some x \<longrightarrow> ex_is_demo x"
      "previous \<noteq> None \<longrightarrow> \<not> is_demo_exporter x"
    using assms unfolding plan_export_def
    by (cases "find_export i d (live w)")
      (auto simp: andthen_Inr split: if_splits dest!: require_incident_reading)
  note ok = get_exporter_ok[OF x, of "ap_network A" "ap_bracket A"]
  have "xr_destination r = d" "xr_is_demo r = (\<exists>d. x = DemoExporter d)"
    using incident_exporter.export_destination[OF ok run] incident_exporter.export_demo[OF ok run] by auto
  moreover have "(\<exists>d. x = DemoExporter d) = is_demo_exporter x" by (cases x) (simp_all add: is_demo_exporter_def)
  ultimately show ?thesis using x prev by auto
qed

text \<open>The record that a real export replaces keeps its key.\<close>

lemma update_row_cong:
  "(\<And>r. r \<in> set rs \<Longrightarrow> key r = k \<Longrightarrow> f r = g r) \<Longrightarrow> update_row key k f rs = update_row key k g rs"
  by (auto simp: update_row_def)

lemma unique_row: "distinct (map key rs) \<Longrightarrow> r \<in> set rs \<Longrightarrow> r' \<in> set rs \<Longrightarrow> key r = key r' \<Longrightarrow> r = r'"
  by (metis find_row_unique option.inject)

text \<open>What a plan relies on when it is carried out: the record that it replaces is there, and is a demo.\<close>

definition plan_fits :: "str \<Rightarrow> str \<Rightarrow> export_plan \<Rightarrow> db \<Rightarrow> bool" where
  "plan_fits i d plan D = (case plan of Exported x \<Rightarrow> True
    | Fresh previous p r \<Rightarrow> xr_destination r = d \<and>
        (\<forall>x. previous = Some x \<longrightarrow> x \<in> set (exports D) \<and> export_key x = (i, d) \<and> ex_is_demo x))"

lemma plan_export_fits:
  assumes "plan_export A i d w = (Inr plan, w')"
  shows "plan_fits i d plan (live w)"
proof (cases plan)
  case (Fresh previous p r)
  from plan_export_Fresh[OF assms[unfolded Fresh]] show ?thesis
    by (auto simp: plan_fits_def Fresh find_export_def dest!: find_row_Some sym[of "Some _" "find_row _ _ _"])
qed (simp add: plan_fits_def)

lemma save_export_inv:
  assumes "store.winv E w" and "E = ap_env A" and "inj (uuid E)" and "xr_destination r = d"
    and "\<forall>x. previous = Some x \<longrightarrow> x \<in> set (exports (live w)) \<and> ex_destination x = d"
    and "save_export A i previous r w = (q, w')"
  shows "store.winv E w' \<and> ids w \<le> ids w'"
proof (cases previous)
  case None
  then have "store.keeps E (save_export A i previous r)"
    using assms(2,3) by (simp add: save_export_def keeps_insert_export)
  with assms(1,6) show ?thesis using store.keeps_run by blast
next
  case (Some x)
  have x: "x \<in> set (exports (live w))" "ex_destination x = d" using Some assms(5) by auto
  have "distinct (map ex_id (exports (live w)))"
    using assms(1) by (simp add: store.winv_def db_inv_def primary_keys_def)
  then have same: "update_row ex_id (ex_id x) (with_result r) (exports (live w)) =
      update_row ex_id (ex_id x) (\<lambda>y. (with_result r y)\<lparr>ex_destination := ex_destination y\<rparr>) (exports (live w))"
    using x assms(4) unique_row[OF _ _ x(1)] by (intro update_row_cong) (fastforce simp: with_result_def)
  have "store.keeps E (set_export (ex_id x) (\<lambda>y. (with_result r y)\<lparr>ex_destination := ex_destination y\<rparr>))"
    by (rule keeps_set_export) (simp_all add: with_result_def)
  from store.keeps_run[OF this assms(1) prod.collapse[symmetric]] show ?thesis
    using assms(6) Some same by (auto simp: save_export_def set_export_def)
qed

lemma record_export_inv:
  assumes "store.winv (ap_env A) w" and "inj (uuid (ap_env A))" and "plan_fits i d plan (live w)"
    and "record_export A i d plan w = (q, w')"
  shows "store.winv (ap_env A) w' \<and> ids w \<le> ids w'"
proof (cases plan)
  case (Exported x)
  with assms(1,4) show ?thesis by (simp add: record_export_def finish_def)
next
  case (Fresh prev p r)
  let ?rest = "\<lambda>x'. andthen (set_postmortem (pm_id p) (linked d r)) (\<lambda>_.
    andthen (add_event (ap_env A) i ''exported'' (''Postmortem exported to '' @ d
        @ (if xr_is_demo r then '' in demo mode'' else []) @ ''.'')) (\<lambda>_.
    andthen session_commit (\<lambda>_. finish (read_export_row x'))))"
  have rest: "store.keeps (ap_env A) (?rest x')" for x'
    by (intro keeps_ends keeps_set_postmortem assms) (simp_all add: linked_def)
  obtain q2 w2 where save: "save_export A i prev r w = (q2, w2)" by (cases "save_export A i prev r w")
  from save_export_inv[OF assms(1) refl assms(2) _ _ save, of d] assms(3) Fresh
  have w2: "store.winv (ap_env A) w2 \<and> ids w \<le> ids w2" by (auto simp: plan_fits_def export_key_def)
  show ?thesis
  proof (cases q2)
    case (Inl e)
    with assms(4) Fresh save w2 show ?thesis by (simp add: record_export_def andthen_def)
  next
    case (Inr y)
    with assms(4) Fresh save have "?rest y w2 = (q, w')" by (simp add: record_export_def andthen_def)
    with store.keeps_run[OF rest] w2 show ?thesis by (meson order_trans)
  qed
qed

lemma keeps_export_postmortem:
  assumes "inj (uuid (ap_env A))"
  shows "store.keeps (ap_env A) (export_postmortem A i d)"
proof (rule store.keepsI)
  fix w r w' assume w: "store.winv (ap_env A) w" and run: "export_postmortem A i d w = (r, w')"
  obtain q w1 where plan: "plan_export A i d w = (q, w1)" by (cases "plan_export A i d w")
  then have [simp]: "w1 = w" by (rule plan_export_reading)
  show "store.winv (ap_env A) w' \<and> ids w \<le> ids w'"
  proof (cases q)
    case (Inl e)
    with w run plan show ?thesis by (simp add: export_postmortem_def andthen_def)
  next
    case (Inr p)
    with run plan have "record_export A i d p w = (r, w')" by (simp add: export_postmortem_def andthen_def)
    from record_export_inv[OF w assms plan_export_fits[OF plan[unfolded Inr]] this] show ?thesis .
  qed
qed

text \<open>Every request keeps the invariant.\<close>

lemma keeps_route:
  assumes "inj (uuid (ap_env A))" and "harmless (ap_env A) (ap_rival A)"
  shows "store.keeps (ap_env A) (route A req)"
  by (cases req) (auto simp: answer_with_def intro!: keeps_ends keeps_case_prod keeps_ingest keeps_incident_routes
    keeps_history_routes keeps_analysis_routes keeps_postmortem_routes keeps_other_routes keeps_export_postmortem assms)

lemma keeps_serve:
  assumes "inj (uuid (ap_env A))" and "harmless (ap_env A) (ap_rival A)"
  shows "store.keeps (ap_env A) (serve A req)"
  unfolding serve_def by (intro store.keeps_get_session keeps_route assms)

end
