(* ===== verification/Service.thy ===== *)
theory Service
  imports Api
begin

text \<open>
  What the service promises: the invariant of every reachable state, what a failing request leaves
  behind, updates, deletions, devices, pages and exports, and what a broken queue does to a webhook.
\<close>

subsection \<open>Reachable states\<close>

definition app_ok :: "app \<Rightarrow> bool" where
  "app_ok A = (inj (uuid (ap_env A)) \<and> harmless (ap_env A) (ap_rival A))"

lemma keeps_run_world: "store.keeps E m \<Longrightarrow> world_ok E w \<Longrightarrow> world_ok E (snd (m w))"
  by (metis keeps_world_ok prod.collapse)

lemma world_ok_reset: "world_ok E w \<Longrightarrow> world_ok E (w\<lparr>live := saved w\<rparr>)"
  by (simp add: world_ok_def)

lemma api_step_world_ok:
  assumes "api_step A s s'" and "app_ok A" and "world_ok (ap_env A) (fst s)"
  shows "world_ok (ap_env A) (fst s')"
  using assms(1)
proof (cases rule: api_step.cases)
  case (request req w r w' q)
  have "world_ok (ap_env A) (snd (serve A req w))"
    by (rule keeps_run_world[OF keeps_serve]) (use assms(2,3) request in \<open>auto simp: app_ok_def\<close>)
  with request show ?thesis by simp
next
  case (job rival i w r w' p q)
  have "world_ok (ap_env A) (snd (execute_analysis_job (ap_env A) (ap_llm A) (ap_settings A) rival i w))"
    by (rule keeps_run_world[OF keeps_execute_analysis_job]) (use assms(2,3) job in \<open>auto simp: app_ok_def\<close>)
  with job show ?thesis by simp
next
  case (worker rival i w r w' q)
  have "world_ok (ap_env A) (snd (execute_analysis_job (ap_env A) (ap_llm A) (ap_settings A) rival i w))"
    by (rule keeps_run_world[OF keeps_execute_analysis_job]) (use assms(2,3) worker in \<open>auto simp: app_ok_def\<close>)
  with worker show ?thesis by simp
qed (use assms(3) world_ok_reset in simp_all)

lemma new_world_ok: "world_ok E new_world"
  by (simp add: world_ok_def new_world_def db_inv_empty)

text \<open>C1. In every state the service can reach, through any sequence of requests, background tasks, queue
  deliveries and restarts, the database is consistent: primary and unique keys are unique, every child
  row has its incident, and the lifecycle data of incidents, jobs and postmortems fit their status.\<close>

theorem reachable_invariant:
  assumes "reachable A s" and "app_ok A"
  shows "world_ok (ap_env A) (fst s)"
  using assms
proof (induction rule: reachable.induct)
  case start
  show ?case by (simp add: new_world_ok)
next
  case (step s s')
  then show ?case using api_step_world_ok by blast
qed

subsection \<open>Failing requests\<close>

text \<open>An action that, when it raises, has stored nothing, or has only failed to validate its answer.\<close>

definition fails_clean :: "'a act \<Rightarrow> bool" where
  "fails_clean m = (\<forall>w e w'. m w = (Inl e, w') \<longrightarrow> e = validation_error \<or> saved w' = saved w)"

lemma fails_cleanD: "fails_clean m \<Longrightarrow> m w = (Inl e, w') \<Longrightarrow> e = validation_error \<or> saved w' = saved w"
  unfolding fails_clean_def by blast

lemma fails_clean_uncommitted: "uncommitted m \<Longrightarrow> fails_clean m"
  unfolding fails_clean_def using uncommittedD by blast

lemma fails_clean_andthen: "uncommitted m \<Longrightarrow> (\<And>x. fails_clean (f x)) \<Longrightarrow> fails_clean (andthen m f)"
  unfolding fails_clean_def by (fastforce simp: andthen_Inl dest: uncommittedD)

lemma validation_only:
  "read_incident_row r1 = Inl e \<Longrightarrow> e = validation_error" "read_event_row r2 = Inl e \<Longrightarrow> e = validation_error"
  "read_analysis_row r3 = Inl e \<Longrightarrow> e = validation_error" "read_postmortem_row r4 = Inl e \<Longrightarrow> e = validation_error"
  by (auto simp: read_incident_row_def read_event_row_def read_analysis_row_def read_postmortem_row_def
      read_field_def bind_res_def split: sum.splits if_splits)

lemma andthen_lift_res [simp]: "andthen (lift_res (Inl e)) f = raise e" "andthen (lift_res (Inr x)) f = f x"
  by (simp_all add: act_defs fun_eq_iff)

lemma fails_clean_respond: "(\<And>e. r = Inl e \<Longrightarrow> e = validation_error) \<Longrightarrow> fails_clean (andthen session_commit (\<lambda>_. respond r))"
  by (cases r) (auto simp: fails_clean_def respond_def finish_def)

lemma fails_clean_finish: "fails_clean (andthen session_commit (\<lambda>_. finish x))"
  by (simp add: fails_clean_def finish_def)

lemma fails_clean_created: "fails_clean (andthen session_commit (\<lambda>_.
    andthen (lift_res (schedule_created inc)) (\<lambda>t. andthen (lift_res (read_incident_row inc)) (\<lambda>x. ret (x, [t])))))"
  by (auto simp: fails_clean_def andthen_Inl schedule_created_def incident_dict_def bind_res_def
      dest: validation_only split: sum.splits)

lemma uncommitted_route_ends: "uncommitted (body f v)" "uncommitted (finish x)" "uncommitted (respond r)"
  unfolding body_def finish_def respond_def by (intro uncommitted_store)+

lemmas uncommitted_routes = uncommitted_store uncommitted_incidents uncommitted_analyses uncommitted_postmortems
  uncommitted_route_ends uncommitted_search

lemma uncommitted_plan_export: "uncommitted (plan_export A i d)"
  unfolding uncommitted_def by (metis plan_export_reading prod.collapse)

lemma fails_clean_record_export: "fails_clean (record_export A i d plan)"
proof (cases plan)
  case (Exported x)
  then show ?thesis by (simp add: record_export_def fails_clean_uncommitted uncommitted_routes)
next
  case (Fresh prev p r)
  have "uncommitted (save_export A i prev r)"
    unfolding save_export_def by (intro uncommitted_routes)
  with Fresh show ?thesis
    by (auto simp: record_export_def intro!: fails_clean_andthen fails_clean_finish uncommitted_routes)
qed

text \<open>Ingesting alerts and queueing a job commit more than once; every other request is clean.\<close>

fun one_commit :: "api_request \<Rightarrow> bool" where
  "one_commit (Ingest s v) = False"
| "one_commit (CreateAnalysisJob i) = False"
| "one_commit _ = True"

lemma fails_clean_answer: "fails_clean m \<Longrightarrow> fails_clean (answer_with f m)"
  unfolding fails_clean_def answer_with_def by (fastforce simp: andthen_Inl split_def)

lemma reading_routes:
  "uncommitted (list_incidents A st sv s n k)" "uncommitted (read_incident i)" "uncommitted (list_alerts i)"
  "uncommitted (list_logs i n k)" "uncommitted (timeline i)" "uncommitted (get_analysis i)"
  "uncommitted (read_postmortem i)" "uncommitted (download_markdown i)" "uncommitted (read_dashboard A n)"
  "uncommitted (search_route A q n)" "uncommitted (similar A i n)" "uncommitted (read_job i)"
  unfolding list_incidents_def read_incident_def list_alerts_def list_logs_def timeline_def get_analysis_def
    read_postmortem_def download_markdown_def read_dashboard_def dashboard_def search_route_def similar_def read_job_def
  by (intro uncommitted_routes)+

lemma writing_routes:
  "fails_clean (create_incident_route A v)" "fails_clean (update_incident A i v)" "fails_clean (delete_incident i)"
  "fails_clean (attach_logs A i v)" "fails_clean (add_timeline_event A i v)" "fails_clean (run_analysis A i)"
  "fails_clean (create_postmortem A i)" "fails_clean (edit_postmortem A i v)" "fails_clean (export_postmortem A i d)"
  "fails_clean (register_device A v)" "fails_clean (unregister_device t)" "fails_clean (archive A i)"
  unfolding create_incident_route_def update_incident_def delete_incident_def attach_logs_def add_timeline_event_def
    run_analysis_def create_postmortem_def edit_postmortem_def export_postmortem_def register_device_def
    unregister_device_def archive_def
  by (intro fails_clean_andthen fails_clean_respond fails_clean_finish fails_clean_created uncommitted_routes
      fails_clean_record_export uncommitted_plan_export validation_only; assumption)+

lemmas reading_clean = reading_routes[THEN fails_clean_uncommitted]

lemma fails_clean_route: "one_commit req \<Longrightarrow> fails_clean (route A req)"
  by (cases req) (auto intro!: fails_clean_answer writing_routes reading_clean)

definition sample_app :: app where
  "sample_app = \<lparr>ap_env = sample_env, ap_settings = default_settings, ap_llm = offline_llm,
     ap_network = silent_network, ap_bracket = (\<lambda>h. True), ap_floats = id, ap_stamp = (\<lambda>v. None),
     ap_dialect = sqlite, ap_archive = sample_store, ap_rival = id, ap_publish = (\<lambda>i. False)\<rparr>"

lemma sample_app_ok: "app_ok sample_app"
  using sample_hyps by (simp add: app_ok_def sample_app_def)

text \<open>C9. A request that fails leaves what is stored as it was: whatever the error and wherever it is
  raised, unless the request commits several times (a webhook batch, a queued job), or only the answer
  it had already stored could not be validated.\<close>

theorem failed_request_stores_nothing:
  assumes "serve A req w = (Inl e, w')" and "one_commit req" and "e \<noteq> validation_error"
  shows "saved w' = saved w \<and> live w' = saved w"
proof -
  obtain w1 where "route A req (w\<lparr>live := saved w\<rparr>) = (Inl e, w1)" and w': "w' = w1\<lparr>live := saved w1\<rparr>"
    using assms(1) by (auto simp: serve_def get_session_run split: prod.splits)
  with fails_cleanD[OF fails_clean_route[OF assms(2)]] assms(3) have "saved w1 = saved w" by fastforce
  with w' show ?thesis by simp
qed

lemma find_sample: "find_row inc_id ''1'' (incidents (saved sample_world)) = Some sample_incident"
  by (simp add: sample_world_def sample_incident_def find_row_def)

theorem failed_request_stores_nothing_witness:
  "\<exists>e w'. serve sample_app (ExportPostmortem ''1'' ''jira'') sample_world = (Inl e, w') \<and> saved w' = saved sample_world"
proof -
  let ?e = "AppError ''postmortem_not_found'' ''Generate a postmortem first'' 404"
  let ?w = "sample_world\<lparr>live := saved sample_world\<rparr>"
  have "find_export ''1'' ''jira'' (saved sample_world) = None" "find_postmortem ''1'' (saved sample_world) = None"
    by (simp_all add: find_export_def find_postmortem_def find_row_def sample_world_def empty_db_def)
  moreover have "get_exporter default_settings ''jira'' = Inr (DemoExporter ''jira'')"
    by (simp add: get_exporter_def required_settings_def default_settings_def)
  ultimately have "plan_export sample_app ''1'' ''jira'' ?w = (Inl ?e, ?w)"
    using find_sample
    by (simp add: plan_export_def andthen_def require_incident_run sample_app_def get_postmortem_def)
  then have run: "serve sample_app (ExportPostmortem ''1'' ''jira'') sample_world = (Inl ?e, ?w)"
    by (simp add: serve_def get_session_run answer_with_def export_postmortem_def andthen_def)
  from failed_request_stores_nothing[OF run] run show ?thesis by (auto simp: validation_error_def)
qed

text \<open>A first incident, created through the API.\<close>

definition sample_payload :: pyval where
  "sample_payload = VDict [(''title'', VStr ''disk''), (''service'', VStr ''db''), (''severity'', VStr ''high''),
     (''description'', VStr [])]"

definition sample_create :: IncidentCreate where
  "sample_create = \<lparr>ic_title = ''disk'', ic_service = ''db'', ic_severity = High, ic_description = []\<rparr>"

lemma sample_payload_ok: "check_incident_create sample_payload = Inr sample_create"
proof -
  have "is_lower c" if "c \<in> set ''diskdb''" for c
    using that by (auto simp: is_lower_def ord_def)
  then have "alert_data sample_alert = Inr sample_create"
    using alert_data_words[of sample_alert] by (simp add: sample_alert_def sample_create_def)
  then show ?thesis by (simp add: alert_data_def sample_alert_def sample_payload_def)
qed

lemma read_word_incident:
  assumes "inc_title r = ''disk''" and "inc_service r = ''db''" and "inc_severity r = ''high''" and "inc_description r = []"
    and "inc_status r = status_value s"
  shows "\<exists>x. read_incident_row r = Inr x"
proof -
  obtain x where "read_incident_row sample_incident = Inr x" using read_sample by blast
  moreover have "status_check (VStr (status_value s)) = Inr s" by (simp add: status_check_def)
  ultimately show ?thesis using assms unfolding read_incident_row_def
    by (auto simp: sample_incident_def)
qed

lemma sample_created:
  "\<exists>x t w'. serve sample_app (CreateIncident sample_payload) new_world = (Inr (AIncident x, [t]), w') \<and>
     incidents (saved w') = [new_incident sample_env sample_create new_world]"
proof -
  let ?r = "new_incident sample_env sample_create new_world"
  have "redact ''disk'' = ''disk''" "redact ''db'' = ''db''"
    by (auto intro!: redact_lower_word simp: is_lower_def ord_def)
  then obtain x where x: "read_incident_row ?r = Inr x"
    using read_word_incident[of ?r Status.Open] redact_lower_word[of "[]"] by (auto simp: new_incident_def sample_create_def)
  have "new_world\<lparr>live := saved new_world\<rparr> = new_world" by (simp add: new_world_def)
  with x show ?thesis
    by (simp add: serve_def get_session_run answer_with_def create_incident_route_def body_def sample_payload_ok
        create_incident_run andthen_def Let_def schedule_created_def incident_dict_def sample_app_def)
      (simp add: new_world_def empty_db_def)
qed

theorem reachable_invariant_witness:
  "\<exists>w q. reachable sample_app (w, q) \<and> length (incidents (saved w)) = 1 \<and> world_ok sample_env w"
proof -
  obtain x t w where run: "serve sample_app (CreateIncident sample_payload) new_world = (Inr (AIncident x, [t]), w)"
      "incidents (saved w) = [new_incident sample_env sample_create new_world]"
    using sample_created by blast
  have reach: "reachable sample_app (w, [] @ new_tasks (Inr (AIncident x, [t])))"
    by (rule reachable.step[OF reachable.start api_step.request[OF run(1)]])
  from reachable_invariant[OF reach sample_app_ok] run(2) reach show ?thesis
    by (intro exI[of _ w] exI[of _ "[t]"]) (simp add: new_tasks_def sample_app_def)
qed

subsection \<open>Updates\<close>

lemma body_run: "body f v w = (case f v of
    Inl locs \<Rightarrow> (Inl (RequestValidationError (map (Cons ''body'') locs)), w) | Inr x \<Rightarrow> (Inr x, w))"
  by (cases "f v") (simp_all add: body_def)

lemma update_incident_run:
  assumes "check_incident_update v = Inr u" and "find_row inc_id i (incidents (live w)) = Some r"
  shows "update_incident A i v w =
    (let now = clock (ap_env A) (ticks w); r' = updated_row u now r;
         d = (live w)\<lparr>incidents := update_row inc_id i (updated_row u now) (incidents (live w)),
           timeline_events := timeline_events (live w) @ [new_event (ap_env A) i (fst (update_event u r))
             (snd (update_event u r)) (ids w) (Suc (ticks w))]\<rparr>
     in (bind_res (read_incident_row r') (\<lambda>x. Inr (x, [])),
         w\<lparr>live := d, saved := d, ticks := Suc (Suc (ticks w)), ids := Suc (ids w)\<rparr>))"
proof -
  let ?now = "clock (ap_env A) (ticks w)"
  have "i \<in> inc_id ` set (incidents (live w))" using find_row_Some[OF assms(2)] by force
  then have "has_incident i ((live w)\<lparr>incidents := update_row inc_id i (updated_row u ?now) (incidents (live w))\<rparr>)"
    by (simp add: has_incident_iff update_row_image updated_row_id)
  then show ?thesis
    using assms
    by (cases "read_incident_row (updated_row u ?now r)")
      (simp_all add: update_incident_def andthen_def body_run require_incident_run set_incident_def add_event_run
        respond_def finish_def Let_def)
qed

text \<open>What a client that reads the incident before and after an update relies on.\<close>

definition update_keeps_promises :: "IncidentUpdate \<Rightarrow> Incident \<Rightarrow> Incident \<Rightarrow> bool" where
  "update_keeps_promises u r r' =
     (inc_id r' = inc_id r \<and> inc_service r' = inc_service r \<and> inc_created_at r' = inc_created_at r \<and>
      inc_status r' = (case iu_status u of Some s \<Rightarrow> status_value s | None \<Rightarrow> inc_status r) \<and>
      (\<forall>t. inc_acknowledged_at r = Some t \<longrightarrow> inc_acknowledged_at r' = Some t) \<and>
      (inc_status r' = inc_status r \<longrightarrow> inc_resolved_at r' = inc_resolved_at r) \<and>
      (inc_status r' \<noteq> inc_status r \<longrightarrow> (inc_resolved_at r' \<noteq> None \<longleftrightarrow> inc_status r' = ''resolved'')) \<and>
      (inc_embedding r' \<noteq> None \<longrightarrow> inc_embedding r' = inc_embedding r \<and> inc_title r' = inc_title r \<and>
         inc_description r' = inc_description r))"

lemma updated_row_promises:
  assumes "iu_title u \<noteq> Some []"
  shows "update_keeps_promises u r (updated_row u now r)"
  using assms
  by (auto simp: update_keeps_promises_def updated_row_def drop_embedding_def set_lifecycle_def set_fields_def
      status_changes_def status_values split: option.splits if_splits)

lemma update_title_nonempty:
  assumes "check_incident_update v = Inr u"
  shows "iu_title u \<noteq> Some []"
proof -
  have "\<not> nullable d ''title'' (redacted_str 1 240) = Inr (Some (Some []))" for d
    using redacted_str_length[of 1 240]
    by (fastforce simp: nullable_def split: option.splits pyval.splits)
  with assms show ?thesis
    by (auto simp: check_incident_update_def prohibit_explicit_nulls_def join_option_def split: if_splits option.splits)
qed

text \<open>C11. An update that is accepted changes one incident and adds one event to its timeline. The time of
  the first acknowledgement is never lost, the time of resolution is there exactly while the incident is
  resolved and survives updates that leave the status, and an embedding never outlives the text it was
  made from.\<close>

theorem update_incident_promises:
  assumes "serve A (UpdateIncident i v) w = (Inr a, w')"
  shows "\<exists>u r r' ev. check_incident_update v = Inr u \<and> find_row inc_id i (incidents (saved w)) = Some r \<and>
    find_row inc_id i (incidents (saved w')) = Some r' \<and> update_keeps_promises u r r' \<and>
    (\<forall>k. k \<noteq> i \<longrightarrow> find_row inc_id k (incidents (saved w')) = find_row inc_id k (incidents (saved w))) \<and>
    timeline_events (saved w') = timeline_events (saved w) @ [ev] \<and> ev_incident_id ev = i \<and>
    ev_kind ev = (if inc_status r' = inc_status r then ''updated'' else ''status_changed'')"
proof -
  let ?w = "w\<lparr>live := saved w\<rparr>"
  obtain b w1 where run: "update_incident A i v ?w = (Inr b, w1)" and w': "saved w' = saved w1"
    using assms by (auto simp: serve_def get_session_run answer_with_def andthen_Inr split: prod.splits)
  obtain u where u: "check_incident_update v = Inr u"
    using run by (cases "check_incident_update v") (auto simp: update_incident_def andthen_Inr body_run)
  obtain r where r: "find_row inc_id i (incidents (saved w)) = Some r"
    using run by (cases "find_row inc_id i (incidents (saved w))")
      (auto simp: update_incident_def andthen_Inr body_run require_incident_run split: sum.splits)
  let ?now = "clock (ap_env A) (ticks w)"
  have saved: "incidents (saved w1) = update_row inc_id i (updated_row u ?now) (incidents (saved w))"
    "timeline_events (saved w1) = timeline_events (saved w) @ [new_event (ap_env A) i (fst (update_event u r))
       (snd (update_event u r)) (ids w) (Suc (ticks w))]"
    using run r by (auto simp: update_incident_run[OF u] Let_def)
  have find: "find_row inc_id k (incidents (saved w')) =
      (if k = i then Some (updated_row u ?now r) else find_row inc_id k (incidents (saved w)))" for k
    using r by (simp add: w' saved(1) find_row_update updated_row_id)
  have promises: "update_keeps_promises u r (updated_row u ?now r)"
    by (rule updated_row_promises[OF update_title_nonempty[OF u]])
  have "fst (update_event u r) = (if inc_status (updated_row u ?now r) = inc_status r then ''updated'' else ''status_changed'')"
    using promises by (auto simp: update_keeps_promises_def update_event_def status_changes_def split: option.splits)
  then show ?thesis
    using u r find promises saved(2) w' by (auto simp: new_event_def)
qed

definition resolve_payload :: pyval where
  "resolve_payload = VDict [(''status'', VStr ''resolved'')]"

lemma resolve_payload_ok:
  "check_incident_update resolve_payload =
     Inr \<lparr>iu_title = None, iu_severity = None, iu_status = Some Resolved, iu_description = None\<rparr>"
proof -
  have "status_check (VStr ''resolved'') = Inr Resolved"
    by (simp add: status_check_def to_status_def)
  then have fields: "nullable [(''status'', VStr ''resolved'')] ''status'' status_check = Inr (Some (Some Resolved))"
    "nullable [(''status'', VStr ''resolved'')] ''title'' f = Inr None"
    "nullable [(''status'', VStr ''resolved'')] ''description'' g = Inr None"
    "nullable [(''status'', VStr ''resolved'')] ''severity'' h = Inr None" for f :: "pyval \<Rightarrow> str check" and g :: "pyval \<Rightarrow> str check"
    and h :: "pyval \<Rightarrow> Severity check"
    by (simp_all add: nullable_def at_field_def map_check_def)
  then show ?thesis
    by (simp add: check_incident_update_def resolve_payload_def bind_res_def model_fields_def both_def map_check_def
        no_extra_def prohibit_explicit_nulls_def join_option_def)
qed

theorem update_incident_promises_witness:
  "\<exists>a w' r'. serve sample_app (UpdateIncident ''1'' resolve_payload) sample_world = (Inr a, w') \<and>
     find_row inc_id ''1'' (incidents (saved w')) = Some r' \<and> inc_status r' = ''resolved'' \<and> inc_resolved_at r' \<noteq> None"
proof -
  let ?u = "\<lparr>iu_title = None, iu_severity = None, iu_status = Some Resolved, iu_description = None\<rparr>"
  have row: "updated_row ?u n sample_incident = sample_incident\<lparr>inc_status := ''resolved'', inc_updated_at := n, inc_resolved_at := Some n\<rparr>" for n
    using redact_status[of Resolved]
    by (simp add: updated_row_def drop_embedding_def set_lifecycle_def set_fields_def status_changes_def sample_incident_def)
  have "\<exists>x. read_incident_row (updated_row ?u n sample_incident) = Inr x" for n
    unfolding row by (rule read_word_incident[of _ Resolved]) (simp_all add: sample_incident_def)
  then have "\<exists>x w1. update_incident sample_app ''1'' resolve_payload (sample_world\<lparr>live := saved sample_world\<rparr>) = (Inr (x, []), w1)"
    using find_sample by (fastforce simp: update_incident_run[OF resolve_payload_ok] Let_def)
  then obtain a w' where run: "serve sample_app (UpdateIncident ''1'' resolve_payload) sample_world = (Inr a, w')"
    by (auto simp: serve_def get_session_run answer_with_def andthen_def)
  from update_incident_promises[OF run] obtain u r r' where u: "check_incident_update resolve_payload = Inr u"
      and r: "find_row inc_id ''1'' (incidents (saved sample_world)) = Some r"
      and r': "find_row inc_id ''1'' (incidents (saved w')) = Some r'" "update_keeps_promises u r r'" by blast
  have "r = sample_incident" "u = ?u" using r find_sample u resolve_payload_ok by simp_all
  with r' run show ?thesis
    by (intro exI[of _ a] exI[of _ w'] exI[of _ r']) (auto simp: update_keeps_promises_def sample_incident_def)
qed

subsection \<open>Deletion\<close>

text \<open>C12. Deleting an incident leaves no row that refers to it, and leaves every other incident and the
  devices as they were.\<close>

theorem delete_incident_complete:
  assumes "serve A (DeleteIncident i) w = (Inr a, w')"
  shows "has_incident i (saved w) \<and> \<not> has_incident i (saved w') \<and> i \<notin> child_parents (saved w') \<and>
    (\<forall>k. k \<noteq> i \<longrightarrow> find_row inc_id k (incidents (saved w')) = find_row inc_id k (incidents (saved w))) \<and>
    devices (saved w') = devices (saved w)"
proof -
  obtain r where r: "find_row inc_id i (incidents (saved w)) = Some r" and w': "saved w' = cascade (inc_id r) (saved w)"
    using assms by (cases "find_row inc_id i (incidents (saved w))")
      (auto simp: serve_def get_session_run answer_with_def andthen_Inr delete_incident_def require_incident_run
        finish_def split: prod.splits)
  have "inc_id r = i" using find_row_Some[OF r] by simp
  then have w': "saved w' = cascade i (saved w)" using w' by simp
  have "has_incident i (saved w)" using r by (simp add: has_incident_def)
  moreover have "\<not> has_incident i (cascade i (saved w))" "i \<notin> child_parents (cascade i (saved w))"
    by (auto simp: has_incident_iff child_parents_def cascade_def remove_row_keys)
  moreover have "devices (cascade i (saved w)) = devices (saved w)"
    "find_row inc_id k (incidents (cascade i (saved w))) = (if k = i then None else find_row inc_id k (incidents (saved w)))" for k
    by (simp_all add: cascade_def find_row_remove)
  ultimately show ?thesis unfolding w' by simp
qed

theorem delete_incident_complete_witness:
  "\<exists>a w'. serve sample_app (DeleteIncident ''1'') sample_world = (Inr a, w') \<and> \<not> has_incident ''1'' (saved w')"
proof -
  obtain a w' where run: "serve sample_app (DeleteIncident ''1'') sample_world = (Inr a, w')"
    using find_sample by (auto simp: serve_def get_session_run answer_with_def andthen_def delete_incident_def
        require_incident_run finish_def)
  from delete_incident_complete[OF run] run show ?thesis by blast
qed

subsection \<open>Devices\<close>

lemma register_device_run:
  assumes "check_device_create v = Inr p"
  shows "serve A (RegisterDevice v) w = (Inr (ARegistered True, []),
    w\<lparr>live := (saved w)\<lparr>devices := with_device p (clock (ap_env A) (ticks w)) (devices (saved w))\<rparr>,
      saved := (saved w)\<lparr>devices := with_device p (clock (ap_env A) (ticks w)) (devices (saved w))\<rparr>,
      ticks := Suc (ticks w)\<rparr>)"
  using assms by (simp add: serve_def get_session_run answer_with_def andthen_def register_device_def body_run
      set_devices_def finish_def)

lemma unregister_device_run:
  "serve A (UnregisterDevice t) w = (Inr (ANothing, []),
    w\<lparr>live := (saved w)\<lparr>devices := remove_row dv_token (lower t) (devices (saved w))\<rparr>,
      saved := (saved w)\<lparr>devices := remove_row dv_token (lower t) (devices (saved w))\<rparr>\<rparr>)"
  by (simp add: serve_def get_session_run answer_with_def andthen_def unregister_device_def set_devices_def finish_def)

lemma token_lower: "check_device_create v = Inr p \<Longrightarrow> lower (dc_token p) = dc_token p"
  by (auto simp: check_device_create_def token_check_def split: if_splits)

text \<open>Registering a device stores it once, whatever the case its token is written in and however often
  it registers: the platform and the environment are those of the last registration, the time is that of
  the first. Unregistering it, in any case, removes it. No other device changes.\<close>

lemma device_registration:
  assumes "check_device_create v = Inr p" and "serve A (RegisterDevice v) w = (r, w')"
    and "lower t = dc_token p" and "serve A (UnregisterDevice t) w' = (r', w'')"
  shows "\<exists>d. find_row dv_token (dc_token p) (devices (saved w')) = Some d \<and>
      dv_platform d = dc_platform p \<and> dv_environment d = dc_environment p \<and>
      (\<forall>d0. find_row dv_token (dc_token p) (devices (saved w)) = Some d0 \<longrightarrow> dv_created_at d = dv_created_at d0) \<and>
      find_row dv_token (dc_token p) (devices (saved w'')) = None \<and>
      (\<forall>k. k \<noteq> dc_token p \<longrightarrow>
        find_row dv_token k (devices (saved w')) = find_row dv_token k (devices (saved w)) \<and>
        find_row dv_token k (devices (saved w'')) = find_row dv_token k (devices (saved w)))"
proof -
  let ?d = "\<lparr>dv_token = dc_token p, dv_platform = dc_platform p, dv_environment = dc_environment p,
    dv_created_at = clock (ap_env A) (ticks w)\<rparr>"
  let ?f = "\<lambda>d. d\<lparr>dv_platform := dc_platform p, dv_environment := dc_environment p\<rparr>"
  have w': "devices (saved w') = device_table.upsert ?d ?f (devices (saved w))"
    using assms(2) by (auto simp: register_device_run[OF assms(1)] with_device_def)
  have w'': "devices (saved w'') = remove_row dv_token (dc_token p) (devices (saved w'))"
    using assms(3,4) by (auto simp: unregister_device_run)
  have found: "find_row dv_token (dc_token p) (devices (saved w')) =
      Some (case find_row dv_token (dc_token p) (devices (saved w)) of None \<Rightarrow> ?d | Some d0 \<Rightarrow> ?f d0)"
    using device_table.upsert_found[of ?d ?f "devices (saved w)"] by (simp add: w')
  have other: "find_row dv_token k (devices (saved w')) = find_row dv_token k (devices (saved w))"
    if "k \<noteq> dc_token p" for k
    using device_table.upsert_other[of k ?d ?f "devices (saved w)"] that by (simp add: w')
  show ?thesis
    using found other by (auto simp: w'' find_row_remove split: option.splits)
qed

definition sample_token :: str where
  "sample_token = replicate 64 (CHR ''a'')"

lemma sample_device:
  "check_device_create (VDict [(''token'', VStr sample_token)]) =
     Inr \<lparr>dc_token = sample_token, dc_platform = ''ios'', dc_environment = ''sandbox''\<rparr>"
  by code_simp

lemma device_registration_example:
  "\<exists>r w' r' w'' d. serve sample_app (RegisterDevice (VDict [(''token'', VStr sample_token)])) new_world = (r, w') \<and>
     serve sample_app (UnregisterDevice sample_token) w' = (r', w'') \<and>
     find_row dv_token sample_token (devices (saved w')) = Some d \<and> dv_environment d = ''sandbox'' \<and>
     find_row dv_token sample_token (devices (saved w'')) = None"
proof -
  obtain r w' where reg: "serve sample_app (RegisterDevice (VDict [(''token'', VStr sample_token)])) new_world = (r, w')"
    by (cases "serve sample_app (RegisterDevice (VDict [(''token'', VStr sample_token)])) new_world")
  obtain r' w'' where unreg: "serve sample_app (UnregisterDevice sample_token) w' = (r', w'')"
    by (cases "serve sample_app (UnregisterDevice sample_token) w'")
  have "lower sample_token = sample_token" using token_lower[OF sample_device] by simp
  then have "lower sample_token = dc_token \<lparr>dc_token = sample_token, dc_platform = ''ios'', dc_environment = ''sandbox''\<rparr>" by simp
  from device_registration[OF sample_device reg this unreg] reg unreg show ?thesis by auto
qed

subsection \<open>Pages\<close>

lemma map_res_append:
  "map_res f (xs @ ys) = bind_res (map_res f xs) (\<lambda>as. bind_res (map_res f ys) (\<lambda>bs. Inr (as @ bs)))"
  by (induction xs) (auto simp: bind_res_def split: sum.splits)

lemma list_incidents_run:
  "list_incidents A st sv s n k w =
    (let rs = listed (ap_dialect A) st sv s (live w)
     in (bind_res (map_res read_incident_row (page_of n k rs))
          (\<lambda>items. Inr (\<lparr>ip_items = items, ip_total = length rs, ip_limit = n, ip_offset = k\<rparr>, [])), w))"
  by (cases "map_res read_incident_row (page_of n k (listed (ap_dialect A) st sv s (live w)))")
    (simp_all add: list_incidents_def respond_def finish_def Let_def)

lemma pages_take:
  "concat (map (\<lambda>k. page_of n (k * n) rs) [0..<m]) = take (m * n) (sort_desc (\<lambda>r. (inc_created_at r, inc_id r)) rs)"
proof (induction m)
  case (Suc m)
  have "Suc m * n = m * n + n" by simp
  with Suc show ?case by (simp only: page_of_def upt_Suc map_append concat_append take_add) simp
qed simp

text \<open>C18. Reading page after page of the list of incidents, until the total is covered, gives the whole
  filtered list, newest first: no incident is missed and none comes twice.\<close>

theorem pages_cover:
  assumes "\<forall>k < m. list_incidents A st sv s n (k * n) w = (Inr (P k, []), w)"
    and "length (listed (ap_dialect A) st sv s (live w)) \<le> m * n"
  shows "map_res read_incident_row (sort_desc (\<lambda>r. (inc_created_at r, inc_id r)) (listed (ap_dialect A) st sv s (live w))) =
      Inr (concat (map (\<lambda>k. ip_items (P k)) [0..<m])) \<and>
    (\<forall>k < m. ip_total (P k) = length (listed (ap_dialect A) st sv s (live w)))"
proof -
  let ?rs = "listed (ap_dialect A) st sv s (live w)"
  have page: "map_res read_incident_row (page_of n (k * n) ?rs) = Inr (ip_items (P k)) \<and> ip_total (P k) = length ?rs"
    if "k < m" for k
  proof -
    note run = assms(1)[rule_format, OF that]
    obtain x where x: "map_res read_incident_row (page_of n (k * n) ?rs) = Inr x"
        "\<lparr>ip_items = x, ip_total = length ?rs, ip_limit = n, ip_offset = k * n\<rparr> = P k"
      using run by (auto simp: list_incidents_run Let_def)
    from x(1) show ?thesis unfolding x(2)[symmetric] by simp
  qed
  have "map_res read_incident_row (concat (map (\<lambda>k. page_of n (k * n) ?rs) [0..<j])) =
      Inr (concat (map (\<lambda>k. ip_items (P k)) [0..<j]))" if "j \<le> m" for j
    using that by (induction j) (simp_all add: map_res_append page)
  from this[of m] show ?thesis using page assms(2) by (simp add: pages_take)
qed

theorem pages_cover_witness:
  "\<exists>P x. list_incidents sample_app None None None 1 0 sample_world = (Inr (P, []), sample_world) \<and>
     read_incident_row sample_incident = Inr x \<and> ip_items P = [x] \<and> ip_total P = 1"
proof -
  obtain x where x: "read_incident_row sample_incident = Inr x" using read_sample by blast
  have listed: "listed (ap_dialect sample_app) None None None (live sample_world) = [sample_incident]"
    by (simp add: listed_def status_matches_def severity_matches_def text_matches_def sample_world_def)
  let ?P = "\<lparr>ip_items = [x], ip_total = 1, ip_limit = 1, ip_offset = 0\<rparr>"
  have run: "list_incidents sample_app None None None 1 0 sample_world = (Inr (?P, []), sample_world)"
    using x by (simp add: list_incidents_run listed page_of_def sort_desc_def)
  have "\<forall>k < 1. list_incidents sample_app None None None 1 (k * 1) sample_world = (Inr (?P, []), sample_world)"
    using run by simp
  from pages_cover[OF this] listed x run show ?thesis by (intro exI[of _ ?P] exI[of _ x]) simp
qed

end
