(* ===== verification/Deliveries.thy ===== *)
theory Deliveries
  imports Service
begin

text \<open>
  What leaves the service: the notifications and jobs a webhook schedules, what happens to them when
  the queue is down, and exports, which are made once.
\<close>

subsection \<open>What a webhook schedules\<close>

definition is_notification :: "task \<Rightarrow> bool" where
  "is_notification t = (case t of NotifyCreated d \<Rightarrow> True | ExecuteJob i \<Rightarrow> False)"

lemma queue_analysis_tasks:
  assumes "queue_analysis A i w = (Inr (j, ts), w')"
  shows "filter is_notification ts = []"
  using assms
  by (auto simp: queue_analysis_def andthen_Inr finish_def is_notification_def split: if_splits)

lemma after_created_tasks:
  assumes "after_created A inc w = (Inr ts, w')" and "read_incident_row inc = Inr x"
  shows "filter is_notification ts = [NotifyCreated (as_dict (incident_json x))]"
  using assms queue_analysis_tasks
  by (auto simp: after_created_def andthen_Inr schedule_created_def incident_dict_def is_notification_def split: if_splits)

lemma map_act_all2:
  "map_act f xs w = (Inr ys, w') \<Longrightarrow> list_all2 (\<lambda>x y. \<exists>w1 w2. f x w1 = (Inr y, w2)) xs ys"
proof (induction xs arbitrary: w ys)
  case (Cons x xs)
  then show ?case by (fastforce simp: andthen_Inr)
qed simp

subsection \<open>A webhook when the queue is down\<close>

lemma queue_analysis_down:
  assumes "celery_enabled (ap_settings A)" and "\<forall>j. \<not> ap_publish A j" and "has_incident i (live w)"
  shows "\<exists>w'. queue_analysis A i w = (Inl (AppError ''queue_unavailable'' queue_unavailable 503), w') \<and>
    incidents (saved w') = incidents (live w) \<and> alerts (saved w') = alerts (live w)"
proof -
  obtain r where "find_row inc_id i (incidents (live w)) = Some r"
    using assms(3) by (auto simp: has_incident_def)
  with assms show ?thesis
    by (simp add: queue_analysis_def andthen_def require_incident_run insert_job_def insert_new_def set_job_def)
qed

text \<open>The parts of a delivery of one alert.\<close>

lemma ingest_item_run:
  assumes "ingest_item A source a w = (Inr (it, inc), w')"
  shows "ingest_alert (ap_env A) (ap_stamp A) (ingestion_rival A) source a w = (Inr (inc, ii_duplicate it), w') \<and>
    read_incident_row inc = Inr (ii_incident it)"
  using assms by (auto simp: ingest_item_def andthen_Inr split_def)

lemma ingest_item_Inr:
  assumes "ingest_alert (ap_env A) (ap_stamp A) (ingestion_rival A) source a w = (Inr (inc, dup), w')"
    and "read_incident_row inc = Inr x"
  shows "ingest_item A source a w = (Inr (\<lparr>ii_incident = x, ii_duplicate = dup\<rparr>, inc), w')"
  using assms by (simp add: ingest_item_def andthen_def)

lemma ingest_batch_one:
  assumes "normalized_batch A source v = Inr [a]" and "ingest_item A source a w = (Inr p, w1)"
  shows "ingest_batch A source v w = (Inr [p], w1\<lparr>saved := live w1\<rparr>)"
  using assms by (simp add: ingest_batch_def catch_def andthen_def)

lemma ingest_one:
  assumes "v = VDict d" and "normalized_batch A (lower source) v = Inr [a]"
    and "ingest_item A (lower source) a (w\<lparr>live := saved w\<rparr>) = (Inr (it, inc), w1)"
  shows "serve A (Ingest source v) w =
    (case map_act (after_created A) (if ii_duplicate it then [] else [inc]) (w1\<lparr>saved := live w1\<rparr>) of
       (Inl e, w2) \<Rightarrow> (Inl e, w2\<lparr>live := saved w2\<rparr>)
     | (Inr ts, w2) \<Rightarrow> (Inr (AIngestion (ingestion_response [it]), concat ts), w2\<lparr>live := saved w2\<rparr>))"
  using assms(1) ingest_batch_one[OF assms(2,3)]
  by (simp add: serve_def get_session_run answer_with_def ingest_def Let_def body_run dict_body_def andthen_def
      split: prod.splits sum.splits)

lemma found_again:
  assumes "world_ok E w" and "alerts_of source ext (live w) = [al]" and "inc \<in> set (incidents (live w))"
    and "al_incident_id al = inc_id inc" and "na_external_id a = ext"
  shows "ingest_alert E rs rival source a w = (Inr (inc, True), w)"
proof -
  obtain x where x: "find_alert source ext (live w) = Some x"
    using assms(2) find_alert_None[of source ext "live w"] by auto
  have "x \<in> set (alerts_of source ext (live w))" using find_alert_Some[OF x] by (simp add: alerts_of_def)
  then have "x = al" using assms(2) by simp
  obtain inc' where inc': "ingest_duplicate x w = (Inr (inc', True), w)" "inc' \<in> set (incidents (live w))"
      "inc_id inc' = al_incident_id x"
    using ingest_duplicate_run[of E w "ids w" x] find_alert_Some[OF x] assms(1) by (auto simp: world_ok_def)
  have "distinct (map inc_id (incidents (live w)))"
    using assms(1) by (simp add: world_ok_def db_inv_def primary_keys_def)
  then have "inc' = inc" using unique_row inc'(2,3) assms(3,4) \<open>x = al\<close> by metis
  with inc'(1) x assms(5) ingest_alert_found show ?thesis by metis
qed

subsection \<open>An example\<close>

definition sample_webhook :: pyval where
  "sample_webhook = VDict [(''event_id'', VStr ''7''), (''event_name'', VStr ''disk''), (''host'', VStr ''db''),
     (''severity'', VStr ''high'')]"

lemma sample_webhook_alert: "zabbix_normalize sample_webhook = Inr [sample_alert]"
proof -
  have words: "redacted_str 1 240 (VStr ''disk'') = Inr ''disk''" "redacted_str 1 120 (VStr ''db'') = Inr ''db''"
    "redacted_str 0 20000 (VStr []) = Inr []"
    by (auto intro!: redacted_str_lower_word simp: is_lower_def ord_def)
  have "severity_of (VStr ''high'') False = Inr High" by code_simp
  moreover have "constrained_str 1 255 (VStr ''7'') = Inr ''7''" by code_simp
  moreover have "make_id ''zabbix'' p [VStr ''7''] = ''7''" for p
    by (simp add: make_id_def present_def)
  moreover have "logs_check (VList []) = Inr []" by (simp add: logs_check_def)
  ultimately show ?thesis using words
    by (simp add: sample_webhook_def zabbix_normalize_def to_mapping_def get_or_def get_def or_else_def
        text_of_def normalized_alert_def sample_alert_def read_field_def
        both_def map_check_def)
qed

lemma sample_batch: "normalized_batch A (lower ''zabbix'') sample_webhook = Inr [sample_alert]"
proof -
  have low: "lower ''zabbix'' = ''zabbix''" by code_simp
  then have "get_source fl (lower ''zabbix'') = Inr zabbix_normalize" for fl
    by (simp add: get_source_def source_table_def)
  then show ?thesis by (simp add: normalized_batch_def sample_webhook_alert)
qed

text \<open>The sample application with another configuration.\<close>

abbreviation app_with :: "settings \<Rightarrow> app" where
  "app_with s \<equiv> sample_app\<lparr>ap_settings := s\<rparr>"

lemma sample_item:
  "\<exists>it inc w1. ingest_item (app_with s) (lower ''zabbix'') sample_alert new_world = (Inr (it, inc), w1) \<and>
     \<not> ii_duplicate it \<and> ii_incident it \<in> {x. read_incident_row inc = Inr x}"
proof -
  let ?inc = "new_incident sample_env sample_create (id new_world)"
  have low: "is_lower c" if "c \<in> set ''diskdb''" for c
    using that by (auto simp: is_lower_def ord_def)
  have data: "alert_data sample_alert = Inr sample_create"
    using alert_data_words[of sample_alert] low by (simp add: sample_alert_def sample_create_def)
  have none: "alerts_of src x (live new_world) = []" for src x
    by (simp add: alerts_of_def new_world_def empty_db_def)
  from ingest_alert_succeeds[OF data, of "\<lambda>v. None" "[]" "lower ''zabbix''" new_world id sample_env] none
  obtain w1 where run: "ingest_alert sample_env (\<lambda>v. None) id (lower ''zabbix'') sample_alert new_world =
      (Inr (?inc, False), w1)" by (auto simp: sample_alert_def)
  have "redact ''disk'' = ''disk''" "redact ''db'' = ''db''"
    by (auto intro!: redact_lower_word simp: is_lower_def ord_def)
  then obtain x where x: "read_incident_row ?inc = Inr x"
    using read_word_incident[of ?inc Status.Open] by (auto simp: new_incident_def sample_create_def)
  have "ingest_item (app_with s) (lower ''zabbix'') sample_alert new_world =
      (Inr (\<lparr>ii_incident = x, ii_duplicate = False\<rparr>, ?inc), w1)"
    using run by (intro ingest_item_Inr x) (simp add: sample_app_def ingestion_rival_def sqlite_def)
  with x show ?thesis by simp
qed

lemma fresh_world: "new_world\<lparr>live := saved new_world\<rparr> = new_world"
  by (simp add: new_world_def)

lemma sample_delivery:
  "\<exists>i ts w. serve sample_app (Ingest ''zabbix'' sample_webhook) new_world = (Inr (AIngestion (ingestion_response [i]), ts), w) \<and>
     \<not> ii_duplicate i"
proof -
  obtain it inc w1 where item: "ingest_item (app_with default_settings) (lower ''zabbix'') sample_alert new_world = (Inr (it, inc), w1)"
      "\<not> ii_duplicate it" "read_incident_row inc = Inr (ii_incident it)" using sample_item by blast
  have app: "app_with default_settings = sample_app" by (simp add: sample_app_def)
  have "\<exists>ts w. serve sample_app (Ingest ''zabbix'' sample_webhook) new_world = (Inr (AIngestion (ingestion_response [it]), ts), w)"
    using ingest_one[of sample_webhook _ sample_app "''zabbix''", OF sample_webhook_def sample_batch, of new_world] item
    unfolding app
    by (simp add: fresh_world after_created_def schedule_created_def andthen_def incident_dict_def sample_app_def default_settings_def)
  with item(2) show ?thesis by blast
qed

text \<open>A queue whose broker is down.\<close>

definition queue_app :: app where
  "queue_app = app_with (default_settings\<lparr>celery_enabled := True, auto_analyze := True\<rparr>)"

subsection \<open>Properties\<close>

text \<open>C8. When every new incident is to be analysed by the queue and the queue is down, the first delivery of a
  single new alert is answered with an error although the alert and its incident are stored; the delivery that is
  repeated because of the error finds a duplicate, schedules no notification and no analysis and leaves the stored
  data as they are, so that every further repetition does the same. The incident is there, but no delivery of its
  alert ever notifies anybody of it. This holds for both databases, for stored data that
  satisfy the invariant of the service and other sessions that keep it.\<close>

theorem queue_outage_loses_notification:
  assumes "app_ok A" and "celery_enabled (ap_settings A)" and "auto_analyze (ap_settings A)"
    and "\<forall>j. \<not> ap_publish A j" and "world_ok (ap_env A) w"
    and "v = VDict d" and "normalized_batch A (lower source) v = Inr [a]"
    and "ingest_item A (lower source) a (w\<lparr>live := saved w\<rparr>) = (Inr (it, inc), w1)" and "\<not> ii_duplicate it"
  shows "\<exists>w' r. serve A (Ingest source v) w =
      (Inl (AppError ''queue_unavailable'' queue_unavailable 503), w') \<and> inc \<in> set (incidents (saved w')) \<and>
    serve A (Ingest source v) w' = (Inr (AIngestion r, []), w') \<and> in_duplicate r"
proof -
  let ?w = "w\<lparr>live := saved w\<rparr>"
  let ?ext = "na_external_id a"
  note item = ingest_item_run[OF assms(8)]
  have "harmless (ap_env A) (ingestion_rival A)" using assms(1) by (simp add: app_ok_def ingestion_rival_harmless)
  from ingest_alert_unique[OF this world_ok_reset[OF assms(5)] item[THEN conjunct1]] assms(9)
  obtain al where al: "alerts_of (lower source) ?ext (live w1) = [al]" "al_incident_id al = inc_id inc"
      and inc: "inc \<in> set (incidents (live w1))" by auto
  let ?w1 = "w1\<lparr>saved := live w1\<rparr>"
  have "has_incident (inc_id inc) (live ?w1)" using inc by (simp add: has_incident_iff)
  from queue_analysis_down[OF assms(2,4) this] obtain w2 where w2:
      "queue_analysis A (inc_id inc) ?w1 = (Inl (AppError ''queue_unavailable'' queue_unavailable 503), w2)"
      "incidents (saved w2) = incidents (live w1)" "alerts (saved w2) = alerts (live w1)" by auto
  have "map_act (after_created A) [inc] ?w1 = (Inl (AppError ''queue_unavailable'' queue_unavailable 503), w2)"
    using w2(1) item assms(3) by (simp add: andthen_def after_created_def schedule_created_def incident_dict_def)
  with ingest_one[OF assms(6,7,8)] assms(9) have first: "serve A (Ingest source v) w =
      (Inl (AppError ''queue_unavailable'' queue_unavailable 503), w2\<lparr>live := saved w2\<rparr>)" by simp
  let ?w' = "w2\<lparr>live := saved w2\<rparr>"
  have "store.keeps (ap_env A) (serve A (Ingest source v))"
    using keeps_serve assms(1) by (simp add: app_ok_def)
  from keeps_run_world[OF this assms(5)] have "world_ok (ap_env A) ?w'" by (simp add: first)
  moreover have "alerts_of (lower source) ?ext (live ?w') = [al]" "inc \<in> set (incidents (live ?w'))"
    using al inc w2 by (simp_all add: alerts_of_def)
  ultimately have "ingest_alert (ap_env A) (ap_stamp A) (ingestion_rival A) (lower source) a ?w' = (Inr (inc, True), ?w')"
    using al(2) by (intro found_again) auto
  from ingest_item_Inr[OF this] item have again: "ingest_item A (lower source) a (?w'\<lparr>live := saved ?w'\<rparr>) =
      (Inr (\<lparr>ii_incident = ii_incident it, ii_duplicate = True\<rparr>, inc), ?w')" by simp
  have "\<exists>r. serve A (Ingest source v) ?w' = (Inr (AIngestion r, []), ?w') \<and> in_duplicate r"
    using ingest_one[OF assms(6,7) again] by (simp add: ingestion_response_def)
  with first inc w2 show ?thesis by auto
qed

theorem queue_outage_loses_notification_witness:
  "\<exists>w' r. serve queue_app (Ingest ''zabbix'' sample_webhook) new_world =
      (Inl (AppError ''queue_unavailable'' queue_unavailable 503), w') \<and> incidents (saved w') \<noteq> [] \<and>
    serve queue_app (Ingest ''zabbix'' sample_webhook) w' = (Inr (AIngestion r, []), w') \<and> in_duplicate r"
proof -
  obtain it inc w1 where item: "ingest_item queue_app (lower ''zabbix'') sample_alert new_world = (Inr (it, inc), w1)"
      "\<not> ii_duplicate it" using sample_item queue_app_def by metis
  have ok: "app_ok queue_app" using sample_app_ok by (simp add: app_ok_def queue_app_def)
  have "celery_enabled (ap_settings queue_app)" "auto_analyze (ap_settings queue_app)"
      "\<forall>j. \<not> ap_publish queue_app j" "world_ok (ap_env queue_app) new_world"
    using sample_hyps by (simp_all add: queue_app_def sample_app_def sqlite_def)
  from queue_outage_loses_notification[OF ok this sample_webhook_def sample_batch, of it inc w1] item
  show ?thesis by (fastforce simp: fresh_world)
qed

end
