(* ===== verification/Growth.thy ===== *)
theory Growth
  imports Api
begin

text \<open>
  Facts about stored rows that adding rows cannot falsify, and the requests that only add rows. A fact is a
  predicate on the database; what a client has to show of it is that appending rows to the tables keeps it.
\<close>

locale append_closed =
  fixes Q :: "db \<Rightarrow> bool"
  assumes append_incident: "Q d \<Longrightarrow> Q (d\<lparr>incidents := incidents d @ [r1]\<rparr>)"
    and append_alert: "Q d \<Longrightarrow> Q (d\<lparr>alerts := alerts d @ [r2]\<rparr>)"
    and append_log: "Q d \<Longrightarrow> Q (d\<lparr>log_entries := log_entries d @ [r3]\<rparr>)"
    and append_event: "Q d \<Longrightarrow> Q (d\<lparr>timeline_events := timeline_events d @ [r4]\<rparr>)"
    and append_analysis: "Q d \<Longrightarrow> Q (d\<lparr>analyses := analyses d @ [r5]\<rparr>)"
    and append_postmortem: "Q d \<Longrightarrow> Q (d\<lparr>postmortems := postmortems d @ [r6]\<rparr>)"
    and append_export: "Q d \<Longrightarrow> Q (d\<lparr>exports := exports d @ [r7]\<rparr>)"
    and change_jobs: "Q d \<Longrightarrow> Q (d\<lparr>jobs := js\<rparr>)"

sublocale append_closed \<subseteq> session_invariant "\<lambda>d n. Q d"
  by unfold_locales

text \<open>What other sessions do meanwhile respects the fact.\<close>

definition spares :: "(db \<Rightarrow> bool) \<Rightarrow> (world \<Rightarrow> world) \<Rightarrow> bool" where
  "spares Q f = (\<forall>w. Q (live w) \<and> Q (saved w) \<longrightarrow> Q (live (f w)) \<and> Q (saved (f w)) \<and> ids w \<le> ids (f w))"

lemma spares_id [simp]: "spares Q id"
  by (simp add: spares_def)

context append_closed
begin

lemma stays_interfere: "spares Q rival \<Longrightarrow> keeps (interfere rival)"
  by (simp add: spares_def keeps_def winv_def interfere_def)

lemma stays_insert_new:
  assumes "\<And>d r. Q d \<Longrightarrow> Q (add r d)"
  shows "keeps (insert_new E ok mk add)"
  unfolding insert_new_def using assms by (intro keeps_rules keeps_change)

lemmas appends = append_incident append_alert append_log append_event append_analysis append_postmortem append_export

lemma keeps_inserts:
  "keeps (insert_incident E a b c y)" "keeps (insert_alert E i s e t v z u)"
  "keeps (insert_log E i k l m)" "keeps (insert_event E i k1 m1)"
  "keeps (insert_analysis E i mk)" "keeps (insert_postmortem E i m2)"
  "keeps (insert_export E i o1 o2 o3 o4)" "keeps (insert_job E i)"
  unfolding insert_incident_def insert_alert_def insert_log_def insert_event_def insert_analysis_def
    insert_postmortem_def insert_export_def insert_job_def
  by (intro keeps_rules stays_insert_new appends change_jobs; assumption)+

lemma stays_set_job: "keeps (set_job i f)"
  unfolding set_job_def by (intro keeps_change change_jobs)

lemmas keeps_basic = keeps_rules keeps_inserts stays_set_job

lemma keeps_incidents:
  "keeps (require_incident i)" "keeps (add_event E i k m)" "keeps (create_incident E data source)"
  "keeps (add_logs E i entries)"
  unfolding require_incident_def add_event_def create_incident_def add_logs_def add_log_def
  by (intro keeps_basic)+

lemmas keeps_actions = keeps_basic keeps_incidents

lemma stays_ingest_alert:
  assumes "spares Q rival"
  shows "keeps (ingest_alert E rs rival source a)"
proof -
  have h: "keeps (case e of IntegrityError \<Rightarrow> m | _ \<Rightarrow> raise e)" if "keeps m" for e and m :: "'b act"
    using that by (cases e) (auto intro: keeps_basic)
  show ?thesis
    unfolding ingest_alert_def ingest_new_def ingest_duplicate_def Let_def
    by (intro keeps_actions stays_interfere[OF assms] h)
qed

lemma keeps_ends: "keeps (body f v)" "keeps (finish y)" "keeps (respond r)"
  unfolding body_def finish_def respond_def by (intro keeps_actions)+

lemma stays_case_prod: "(\<And>y z. keeps (f y z)) \<Longrightarrow> keeps (case p of (y, z) \<Rightarrow> f y z)"
  by (cases p) simp

lemma stays_queue_analysis: "keeps (queue_analysis A i)"
  unfolding queue_analysis_def by (intro keeps_actions keeps_ends)

lemma keeps_after_created: "keeps (after_created A inc)"
  unfolding after_created_def by (intro keeps_actions stays_case_prod stays_queue_analysis)

lemma keeps_ingest_item:
  assumes "spares Q (ap_rival A)"
  shows "keeps (ingest_item A source a)"
proof -
  have "spares Q (ingestion_rival A)" using assms by (simp add: ingestion_rival_def spares_def)
  then show ?thesis unfolding ingest_item_def by (intro keeps_actions stays_case_prod stays_ingest_alert)
qed

lemma stays_ingest:
  assumes "spares Q (ap_rival A)"
  shows "keeps (ingest A source v)"
  unfolding ingest_def ingest_batch_def Let_def
  by (intro keeps_actions keeps_ends stays_case_prod keeps_ingest_item[OF assms] keeps_after_created)

end

end
