(* ===== verification/Export_Once.thy ===== *)
theory Export_Once
  imports Growth Service
begin

text \<open>
  A real export is made once: no request other than the deletion of its incident changes its record, and
  asking for it again answers with that record and sends nothing.
\<close>

subsection \<open>Actions that leave a record alone\<close>

interpretation export: append_closed "\<lambda>d. x \<in> set (exports d)" for x :: ExportRecord
  by unfold_locales simp_all

lemma export_sets:
  "export.keeps x (set_incident i f1)" "export.keeps x (set_postmortem i f2)" "export.keeps x (set_devices f5)"
  unfolding set_incident_def set_postmortem_def set_devices_def
  by (intro export.keeps_change; simp)+

lemmas export_actions = export.keeps_actions export_sets

lemma export_domain:
  "export.keeps x (build_context i)" "export.keeps x (latest_analysis i)" "export.keeps x (analyze_incident E llm S i)"
  "export.keeps x (get_postmortem i)" "export.keeps x (generate_postmortem E i)"
  "export.keeps x (search_incidents D llm S q k y)" "export.keeps x (dashboard E n m)"
  unfolding build_context_def latest_analysis_def analyze_incident_def store_embedding_def get_postmortem_def
    generate_postmortem_def search_incidents_def semantic_items_def dashboard_def Let_def
  by (intro export_actions)+

lemmas export_rules = export_actions export_domain export.keeps_ends export.stays_case_prod export.stays_queue_analysis

lemma export_simple_routes:
  "export.keeps x (list_incidents A st sv s n k)" "export.keeps x (create_incident_route A v)" "export.keeps x (read_incident i)"
  "export.keeps x (update_incident A i v)" "export.keeps x (list_alerts i)" "export.keeps x (list_logs i n k)"
  "export.keeps x (attach_logs A i v)" "export.keeps x (timeline i)" "export.keeps x (add_timeline_event A i v)"
  "export.keeps x (get_analysis i)" "export.keeps x (run_analysis A i)" "export.keeps x (create_analysis_job A i)"
  "export.keeps x (read_job i)" "export.keeps x (read_postmortem i)" "export.keeps x (create_postmortem A i)"
  "export.keeps x (edit_postmortem A i v)" "export.keeps x (download_markdown i)" "export.keeps x (read_dashboard A n)"
  "export.keeps x (register_device A v)" "export.keeps x (unregister_device t)" "export.keeps x (search_route A q n)"
  "export.keeps x (similar A i n)" "export.keeps x (archive A i)"
  unfolding list_incidents_def create_incident_route_def read_incident_def update_incident_def list_alerts_def
    list_logs_def attach_logs_def timeline_def add_timeline_event_def get_analysis_def run_analysis_def
    create_analysis_job_def read_job_def read_postmortem_def create_postmortem_def edit_postmortem_def
    download_markdown_def read_dashboard_def register_device_def unregister_device_def search_route_def
    similar_def archive_def
  by (intro export_rules)+

text \<open>Deleting another incident, and exporting.\<close>

lemma export_delete:
  assumes "i \<noteq> ex_incident_id x"
  shows "export.keeps x (delete_incident i)"
proof -
  have "export.keeps x (andthen (change (cascade j)) (\<lambda>_. andthen session_commit (\<lambda>_. finish ())))"
    if "j \<noteq> ex_incident_id x" for j
    using that by (intro export_rules export.keeps_change) (simp add: cascade_def remove_row_def)
  moreover have "inc_id inc = i" if "require_incident i w = (Inr inc, w')" for inc w w'
    using that by (auto simp: require_incident_run dest: find_row_Some split: option.splits)
  ultimately show ?thesis
    unfolding delete_incident_def using assms
    by (intro export.keeps_andthen_fact[where P = "\<lambda>inc. inc_id inc = i"] export.keeps_incidents) auto
qed

lemma export_save:
  assumes "distinct (map ex_id (exports (live w)))" and "export.winv x w"
    and "\<forall>y. previous = Some y \<longrightarrow> y \<in> set (exports (live w)) \<and> x \<noteq> y" and "save_export A i previous r w = (q, w')"
  shows "export.winv x w'"
proof (cases previous)
  case None
  then have "export.keeps x (save_export A i previous r)" by (simp add: save_export_def export.keeps_inserts)
  with assms(2,4) show ?thesis using export.keeps_run by blast
next
  case (Some y)
  have "x \<in> set (exports (live w))" using assms(2) by (simp add: export.winv_def)
  with unique_row[OF assms(1)] assms(3) Some have "ex_id x \<noteq> ex_id y" by auto
  with assms(2,4) Some show ?thesis
    by (auto simp: save_export_def set_export_def andthen_def export.winv_def update_row_def image_iff)
qed

text \<open>Carrying out an export leaves every record alone except the one that it replaces.\<close>

lemma export_record:
  assumes "distinct (map ex_id (exports (live w)))" and "export.winv x w" and "plan_fits i d plan (live w)"
    and "\<forall>y p r. plan = Fresh (Some y) p r \<longrightarrow> x \<noteq> y" and "record_export A i d plan w = (q, w')"
  shows "export.winv x w'"
proof (cases plan)
  case (Exported y)
  with assms(2,5) show ?thesis by (simp add: record_export_def finish_def)
next
  case (Fresh prev p r)
  let ?rest = "\<lambda>y. andthen (set_postmortem (pm_id p) (linked d r)) (\<lambda>_.
    andthen (add_event (ap_env A) i ''exported'' (''Postmortem exported to '' @ d
        @ (if xr_is_demo r then '' in demo mode'' else []) @ ''.'')) (\<lambda>_.
    andthen session_commit (\<lambda>_. finish (read_export_row y))))"
  have keeps: "export.keeps x (?rest y)" for y by (intro export_rules)
  obtain q2 w2 where save: "save_export A i prev r w = (q2, w2)" by (cases "save_export A i prev r w")
  from export_save[OF assms(1,2) _ save] assms(3,4) Fresh have w2: "export.winv x w2" by (auto simp: plan_fits_def)
  show ?thesis
  proof (cases q2)
    case (Inl e)
    with assms(5) Fresh save w2 show ?thesis by (simp add: andthen_def record_export_def)
  next
    case (Inr y)
    with assms(5) Fresh save have "?rest y w2 = (q, w')" by (simp add: andthen_def record_export_def)
    with export.keeps_run[OF keeps w2] show ?thesis by blast
  qed
qed

lemma export_export:
  assumes "world_ok E w" and "\<not> ex_is_demo x" and "export.winv x w" and "export_postmortem A i d w = (q, w')"
  shows "export.winv x w'"
proof -
  obtain q1 w1 where plan: "plan_export A i d w = (q1, w1)" by (cases "plan_export A i d w")
  then have [simp]: "w1 = w" by (rule plan_export_reading)
  show ?thesis
  proof (cases q1)
    case (Inl e)
    with assms(3,4) plan show ?thesis by (simp add: export_postmortem_def andthen_def)
  next
    case (Inr p)
    note fits = plan_export_fits[OF plan[unfolded Inr]]
    have "distinct (map ex_id (exports (live w)))" using assms(1) by (simp add: world_ok_def db_inv_def primary_keys_def)
    moreover have "record_export A i d p w = (q, w')"
      using assms(4) plan Inr by (simp add: export_postmortem_def andthen_def)
    moreover have "\<forall>y pm r. p = Fresh (Some y) pm r \<longrightarrow> x \<noteq> y" using fits assms(2) by (auto simp: plan_fits_def)
    ultimately show ?thesis using export_record[OF _ assms(3) fits] by blast
  qed
qed

lemma export_answer: "export.keeps x m \<Longrightarrow> export.keeps x (answer_with f m)"
  unfolding answer_with_def by (intro export_rules)

lemma export_route:
  assumes "spares (\<lambda>d. x \<in> set (exports d)) (ap_rival A)" and "req \<noteq> DeleteIncident (ex_incident_id x)" and "\<forall>i d. req \<noteq> ExportPostmortem i d"
  shows "export.keeps x (route A req)"
  using assms(2,3)
  by (cases req) (auto intro!: export_answer export.stays_ingest[OF assms(1)] export_simple_routes export_delete)

lemma export_job:
  assumes "spares (\<lambda>d. x \<in> set (exports d)) rival"
  shows "export.keeps x (execute_analysis_job E llm S rival i)"
  unfolding execute_analysis_job_def try_job_def run_job_def fail_job_def
  by (intro export_rules export.keeps_get_session export.stays_interfere[OF assms])

subsection \<open>An example\<close>

definition real_export :: ExportRecord where
  "real_export = \<lparr>ex_id = ''0'', ex_incident_id = ''1'', ex_destination = ''jira'', ex_external_id = ''OPS-7'',
     ex_url = ''https://jira/browse/OPS-7'', ex_is_demo = False, ex_created_at = 0\<rparr>"

definition export_world :: world where
  "export_world = new_world\<lparr>live := empty_db\<lparr>incidents := [sample_incident], exports := [real_export]\<rparr>,
     saved := empty_db\<lparr>incidents := [sample_incident], exports := [real_export]\<rparr>, ids := 2\<rparr>"

lemma export_world_ok: "world_ok sample_env export_world"
proof -
  have "''0'' = uuid sample_env 0" "''1'' = uuid sample_env 1" by (simp_all add: sample_env_def) code_simp+
  then have "''0'' \<in> uuid sample_env ` {..<2}" "''1'' \<in> uuid sample_env ` {..<2}" by auto
  then show ?thesis
    by (simp add: world_ok_def export_world_def db_inv_def db_inv_parts empty_db_def sample_incident_def
        incident_ok_def severity_texts_def status_texts_def new_world_def real_export_def export_key_def)
qed

subsection \<open>Properties\<close>

text \<open>C16. The record of a real export is final: no request changes or removes it, except for the deletion of its
  incident, and no analysis job does, whatever the trackers, the model and the other sessions do meanwhile, as
  long as the latter leave the record alone. In particular no later export, demo or real, replaces it.\<close>

theorem real_export_final:
  assumes "world_ok (ap_env A) w" and "x \<in> set (exports (saved w))" and "\<not> ex_is_demo x" and "spares (\<lambda>d. x \<in> set (exports d)) (ap_rival A)"
  shows "(serve A req w = (r, w') \<longrightarrow> req \<noteq> DeleteIncident (ex_incident_id x) \<longrightarrow> x \<in> set (exports (saved w'))) \<and>
    (execute_analysis_job (ap_env A) (ap_llm A) (ap_settings A) (ap_rival A) i w = (q, w') \<longrightarrow> x \<in> set (exports (saved w')))"
proof (intro conjI impI)
  let ?w = "w\<lparr>live := saved w\<rparr>"
  have start: "export.winv x ?w" "world_ok (ap_env A) ?w"
    using assms(1,2) by (simp_all add: export.winv_def world_ok_def)
  assume run: "serve A req w = (r, w')" and req: "req \<noteq> DeleteIncident (ex_incident_id x)"
  then obtain w1 where w1: "route A req ?w = (r, w1)" and w': "saved w' = saved w1"
    by (auto simp: serve_def get_session_run split: prod.splits)
  have "export.winv x w1"
  proof (cases "\<exists>i d. req = ExportPostmortem i d")
    case True
    then obtain i d where "req = ExportPostmortem i d" by blast
    with w1 obtain q2 where "export_postmortem A i d ?w = (q2, w1)"
      by (auto simp: answer_with_def andthen_def split: prod.splits sum.splits)
    from export_export[OF start(2) assms(3) start(1) this] show ?thesis .
  next
    case False
    then have "export.keeps x (route A req)" using export_route[OF assms(4) req] by blast
    from export.keeps_run[OF this start(1) w1] show ?thesis by blast
  qed
  with w' show "x \<in> set (exports (saved w'))" by (simp add: export.winv_def)
next
  let ?w = "w\<lparr>live := saved w\<rparr>"
  assume "execute_analysis_job (ap_env A) (ap_llm A) (ap_settings A) (ap_rival A) i w = (q, w')"
  then have run: "execute_analysis_job (ap_env A) (ap_llm A) (ap_settings A) (ap_rival A) i ?w = (q, w')"
    by (simp add: execute_analysis_job_def catch_def get_session_run)
  have "export.winv x ?w" using assms(2) by (simp add: export.winv_def)
  from export.keeps_run[OF export_job[OF assms(4)] this run] show "x \<in> set (exports (saved w'))"
    by (simp add: export.winv_def)
qed

theorem real_export_final_witness:
  "\<exists>r w'. serve sample_app (ExportPostmortem ''1'' ''jira'') export_world = (r, w') \<and> real_export \<in> set (exports (saved w'))"
proof -
  obtain r w' where run: "serve sample_app (ExportPostmortem ''1'' ''jira'') export_world = (r, w')"
    by (cases "serve sample_app (ExportPostmortem ''1'' ''jira'') export_world")
  have "world_ok (ap_env sample_app) export_world" "spares (\<lambda>d. real_export \<in> set (exports d)) (ap_rival sample_app)"
    using export_world_ok by (simp_all add: sample_app_def spares_def)
  moreover have "real_export \<in> set (exports (saved export_world))" "\<not> ex_is_demo real_export"
    by (simp_all add: export_world_def real_export_def)
  ultimately show ?thesis using real_export_final[of sample_app export_world real_export _ r w'] run by blast
qed

text \<open>Exporting again to a destination that already has a real export answers with the stored record and
  schedules nothing; the answer does not depend on the tracker, which is not asked, and nothing is stored.\<close>

lemma export_repeats:
  assumes "world_ok (ap_env A) w" and "x \<in> set (exports (saved w))" and "\<not> ex_is_demo x"
  shows "serve (A\<lparr>ap_network := N\<rparr>) (ExportPostmortem (ex_incident_id x) (ex_destination x)) w =
    (Inr (AExport (read_export_row x), []), w\<lparr>live := saved w\<rparr>)"
proof -
  let ?i = "ex_incident_id x"
  have inv: "unique_keys (saved w)" "foreign_keys (saved w)" using assms(1) by (simp_all add: world_ok_def db_inv_def)
  have "find_export ?i (ex_destination x) (saved w) = Some x"
    using find_row_unique[of export_key "exports (saved w)" x] inv(1) assms(2)
    by (simp add: find_export_def export_key_def unique_keys_def)
  moreover have "?i \<in> inc_id ` set (incidents (saved w))"
    using inv(2) assms(2) by (auto simp: foreign_keys_def child_parents_def)
  then obtain inc where "find_row inc_id ?i (incidents (saved w)) = Some inc"
    by (metis has_incident_def has_incident_iff option.exhaust)
  ultimately show ?thesis using assms(3)
    by (simp add: serve_def get_session_run answer_with_def export_postmortem_def plan_export_def andthen_def
        require_incident_run record_export_def finish_def)
qed

lemma export_repeats_example:
  "fst (serve (sample_app\<lparr>ap_network := silent_network\<rparr>) (ExportPostmortem ''1'' ''jira'') export_world) =
     Inr (AExport \<lparr>er_destination = ''jira'', er_external_id = ''OPS-7'', er_url = ''https://jira/browse/OPS-7'',
       er_is_demo = False\<rparr>, [])"
proof -
  have "world_ok (ap_env sample_app) export_world" using export_world_ok by (simp add: sample_app_def)
  moreover have "real_export \<in> set (exports (saved export_world))" "\<not> ex_is_demo real_export"
    by (simp_all add: export_world_def real_export_def)
  moreover have "trim ''jira'' = ''jira''" "trim ''OPS-7'' = ''OPS-7''"
      "trim ''https://jira/browse/OPS-7'' = ''https://jira/browse/OPS-7''" by code_simp+
  ultimately show ?thesis using export_repeats[of sample_app export_world real_export silent_network]
    by (simp add: real_export_def read_export_row_def)
qed

end
