(* ===== verification/Deletions.thy ===== *)
theory Deletions
  imports Service
begin

text \<open>
  An incident that was deleted does not come back: identifiers are drawn afresh, so no request, task or job of the
  service stores an incident under the identifier of one that is gone.
\<close>

subsection \<open>The fact\<close>

definition incident_gone :: "env \<Rightarrow> str \<Rightarrow> db \<Rightarrow> nat \<Rightarrow> bool" where
  "incident_gone E i d n = (\<not> has_incident i d \<and> i \<in> uuid E ` {..<n})"

interpretation gone: session_invariant "incident_gone E i" for E i
  by unfold_locales (auto simp: incident_gone_def)

text \<open>Other sessions that do not bring one back.\<close>

definition revives_none :: "env \<Rightarrow> (world \<Rightarrow> world) \<Rightarrow> bool" where
  "revives_none E f = (\<forall>i. gone.keeps E i (interfere f))"

lemma revives_none_id [simp]: "revives_none E id"
  by (simp add: revives_none_def gone.keeps_def interfere_def)

lemma gone_ingestion_rival: "revives_none E (ap_rival A) \<Longrightarrow> revives_none E (ingestion_rival A)"
  using revives_none_id[of E] by (simp add: ingestion_rival_def)

subsection \<open>Rows\<close>

lemma gone_insert_new:
  assumes "\<And>d n. incident_gone E i d n \<Longrightarrow> incident_gone E i (add (mk (uuid E n)) d) (Suc n)"
  shows "gone.keeps E i (insert_new E ok mk add)"
proof (rule gone.keepsI)
  fix w r w' assume w: "gone.winv E i w" and run: "insert_new E ok mk add w = (r, w')"
  from w have "incident_gone E i (live w) (ids w)" "incident_gone E i (live w) (Suc (ids w))"
      "incident_gone E i (saved w) (Suc (ids w))"
    by (simp_all add: gone.winv_def gone.inv_more_ids)
  with run assms show "gone.winv E i w' \<and> ids w \<le> ids w'"
    by (cases "ok (live w)") (auto simp: insert_new_def gone.winv_def)
qed

lemma gone_same: "incident_gone E i d n \<Longrightarrow> incidents d' = incidents d \<Longrightarrow> incident_gone E i d' (Suc n)"
  using gone.inv_more_ids by (simp add: incident_gone_def has_incident_def)

text \<open>A new incident has the next identifier, which is none that was drawn.\<close>

lemma gone_insert_incident:
  assumes "inj (uuid E)"
  shows "gone.keeps E i (insert_incident E a b c y)"
  unfolding insert_incident_def
proof (intro gone.keeps_andthen gone.keeps_pure gone_insert_new)
  fix t u d n assume "incident_gone E i d n"
  moreover from this have "uuid E n \<noteq> i" using assms by (auto simp: incident_gone_def dest: injD)
  ultimately show "incident_gone E i (d\<lparr>incidents := incidents d @ [\<lparr>inc_id = uuid E n, inc_title = a, inc_service = b,
      inc_severity = c, inc_status = ''open'', inc_description = y, inc_created_at = t, inc_updated_at = u,
      inc_acknowledged_at = None, inc_resolved_at = None, inc_embedding = None, inc_embedding_model = None\<rparr>]\<rparr>) (Suc n)"
    by (auto simp: incident_gone_def has_incident_iff)
qed

lemma gone_inserts:
  "gone.keeps E i (insert_alert E j s e t v z u)" "gone.keeps E i (insert_log E j k l m)"
  "gone.keeps E i (insert_event E j k1 m1)" "gone.keeps E i (insert_analysis E j mk)"
  "gone.keeps E i (insert_postmortem E j m2)" "gone.keeps E i (insert_export E j o1 o2 o3 o4)"
  "gone.keeps E i (insert_job E j)"
  unfolding insert_alert_def insert_log_def insert_event_def insert_analysis_def insert_postmortem_def
    insert_export_def insert_job_def
  by (intro gone.keeps_rules gone_insert_new; erule gone_same; simp)+

lemma gone_sets:
  "gone.keeps E i (set_postmortem j f2)" "gone.keeps E i (set_export j f3)" "gone.keeps E i (set_job j f4)"
  "gone.keeps E i (set_devices f5)" "gone.keeps E i (change (cascade j))"
  unfolding set_postmortem_def set_export_def set_job_def set_devices_def
  by (intro gone.keeps_change; auto simp: incident_gone_def has_incident_iff cascade_def remove_row_keys)+

lemma gone_set_incident:
  assumes "\<And>r. inc_id (f r) = inc_id r"
  shows "gone.keeps E i (set_incident j f)"
  unfolding set_incident_def using assms
  by (intro gone.keeps_change) (simp add: incident_gone_def has_incident_iff update_row_image)

lemmas gone_rules = gone.keeps_rules gone_inserts gone_sets gone_insert_incident gone_set_incident

subsection \<open>Actions\<close>

lemma gone_ends: "gone.keeps E i (body f v)" "gone.keeps E i (finish y)" "gone.keeps E i (respond r)"
  unfolding body_def finish_def respond_def by (intro gone_rules)+

lemma gone_case_prod: "(\<And>y z. gone.keeps E i (f y z)) \<Longrightarrow> gone.keeps E i (case p of (y, z) \<Rightarrow> f y z)"
  by (cases p) simp

lemma gone_incidents:
  assumes "inj (uuid E)"
  shows "gone.keeps E i (require_incident j)" "gone.keeps E i (add_event E j k m)" "gone.keeps E i (create_incident E data source)"
    "gone.keeps E i (add_logs E j entries)"
  unfolding require_incident_def add_event_def create_incident_def add_logs_def add_log_def
  by (intro gone_rules assms)+

lemmas gone_actions = gone_rules gone_ends gone_case_prod gone_incidents

lemma gone_ingest:
  assumes "inj (uuid (ap_env A))" and "revives_none (ap_env A) (ap_rival A)"
  shows "gone.keeps (ap_env A) i (ingest A source v)"
proof -
  have h: "gone.keeps (ap_env A) i (case e of IntegrityError \<Rightarrow> m | _ \<Rightarrow> raise e)"
    if "gone.keeps (ap_env A) i m" for e and m :: "'b act"
    using that by (cases e) (auto intro: gone_actions)
  have rival: "gone.keeps (ap_env A) i (interfere (ingestion_rival A))"
    using gone_ingestion_rival[OF assms(2)] by (simp add: revives_none_def)
  show ?thesis
    unfolding ingest_def ingest_batch_def ingest_item_def ingest_alert_def ingest_new_def ingest_duplicate_def
      after_created_def queue_analysis_def Let_def
    by (intro gone_actions h rival assms)
qed

lemma gone_domain:
  assumes "inj (uuid E)"
  shows "gone.keeps E i (build_context j)" "gone.keeps E i (latest_analysis j)" "gone.keeps E i (analyze_incident E llm S j)"
    "gone.keeps E i (get_postmortem j)" "gone.keeps E i (generate_postmortem E j)"
    "gone.keeps E i (search_incidents D llm S q k y)" "gone.keeps E i (dashboard E n m)"
  unfolding build_context_def latest_analysis_def analyze_incident_def store_embedding_def get_postmortem_def
    generate_postmortem_def search_incidents_def semantic_items_def dashboard_def Let_def
  by (intro gone_actions assms; simp)+

lemma gone_routes:
  assumes "inj (uuid (ap_env A))"
  shows "gone.keeps (ap_env A) j (list_incidents A st sv s n k)" "gone.keeps (ap_env A) j (create_incident_route A v)"
    "gone.keeps (ap_env A) j (read_incident i)" "gone.keeps (ap_env A) j (update_incident A i v)"
    "gone.keeps (ap_env A) j (delete_incident i)" "gone.keeps (ap_env A) j (list_alerts i)"
    "gone.keeps (ap_env A) j (list_logs i n k)" "gone.keeps (ap_env A) j (attach_logs A i v)"
    "gone.keeps (ap_env A) j (timeline i)" "gone.keeps (ap_env A) j (add_timeline_event A i v)"
    "gone.keeps (ap_env A) j (get_analysis i)" "gone.keeps (ap_env A) j (run_analysis A i)"
    "gone.keeps (ap_env A) j (create_analysis_job A i)" "gone.keeps (ap_env A) j (read_job i)"
    "gone.keeps (ap_env A) j (read_postmortem i)" "gone.keeps (ap_env A) j (create_postmortem A i)"
    "gone.keeps (ap_env A) j (edit_postmortem A i v)" "gone.keeps (ap_env A) j (download_markdown i)"
    "gone.keeps (ap_env A) j (read_dashboard A n)" "gone.keeps (ap_env A) j (register_device A v)"
    "gone.keeps (ap_env A) j (unregister_device t)" "gone.keeps (ap_env A) j (search_route A q n)"
    "gone.keeps (ap_env A) j (similar A i n)" "gone.keeps (ap_env A) j (archive A i)"
  unfolding list_incidents_def create_incident_route_def read_incident_def update_incident_def delete_incident_def
    list_alerts_def list_logs_def attach_logs_def timeline_def add_timeline_event_def get_analysis_def run_analysis_def
    create_analysis_job_def queue_analysis_def read_job_def read_postmortem_def create_postmortem_def edit_postmortem_def
    download_markdown_def read_dashboard_def register_device_def unregister_device_def search_route_def
    similar_def archive_def
  by (intro gone_actions gone_domain updated_row_id assms)+

lemma gone_record_export:
  assumes "inj (uuid (ap_env A))"
  shows "gone.keeps (ap_env A) j (record_export A i d p)"
proof (cases p)
  case (Exported x)
  then show ?thesis by (simp add: record_export_def gone_ends)
next
  case (Fresh previous pm r)
  show ?thesis
    unfolding record_export_def save_export_def Fresh export_plan.case by (intro gone_actions assms)
qed

lemma gone_export:
  assumes "inj (uuid (ap_env A))"
  shows "gone.keeps (ap_env A) j (export_postmortem A i d)"
proof -
  have "gone.keeps (ap_env A) j (plan_export A i d)"
    by (rule gone.keepsI) (use plan_export_reading in blast)
  then show ?thesis unfolding export_postmortem_def by (intro gone.keeps_andthen gone_record_export assms)
qed

subsection \<open>Requests and jobs\<close>

lemma gone_serve:
  assumes "inj (uuid (ap_env A))" and "revives_none (ap_env A) (ap_rival A)"
  shows "gone.keeps (ap_env A) j (serve A req)"
proof -
  have answer: "gone.keeps (ap_env A) j (answer_with f m)" if "gone.keeps (ap_env A) j m" for f and m :: "'b route"
    unfolding answer_with_def by (intro gone_actions that)
  show ?thesis
    unfolding serve_def
    by (intro gone.keeps_get_session, cases req) (auto intro!: answer gone_ingest gone_routes gone_export assms)
qed

lemma gone_job:
  assumes "inj (uuid E)" and "revives_none E rival"
  shows "gone.keeps E j (execute_analysis_job E llm S rival i)"
proof -
  have "gone.keeps E j (interfere rival)" using assms(2) by (simp add: revives_none_def)
  then show ?thesis
    unfolding execute_analysis_job_def try_job_def run_job_def fail_job_def
    by (intro gone_actions gone_domain gone.keeps_get_session assms)
qed

end
