(* ===== verification/Export_Lock.thy ===== *)
theory Export_Lock
  imports Export_Once Deletions
begin

text \<open>
  Concurrent exports (\<open>export_postmortem\<close> in \<open>app/api/routes.py\<close>): the requests of one process interleave at their
  awaits, the lock of the incident is held from the first query to the commit. A request first waits for the lock,
  then reads and asks the tracker, then records the answer. A tracker that does not answer may have created the
  document all the same.
\<close>

subsection \<open>The system\<close>

datatype export_phase = Waiting str str | Entered str str | Answered str str export_plan | Ended

text \<open>\<open>xs_made\<close> names the documents that the trackers have created, \<open>xs_lost\<close> those that the service does not know
  of: the recording failed, or the answer to the creation did not arrive or could not be read.\<close>

record export_system =
  xs_world :: world
  xs_lock :: "str \<Rightarrow> nat option"
  xs_task :: "nat \<Rightarrow> export_phase"
  xs_made :: "(str \<times> str) list"
  xs_lost :: "(str \<times> str) list"

definition creates :: "export_plan \<Rightarrow> bool" where
  "creates plan = (case plan of Exported x \<Rightarrow> False | Fresh previous p r \<Rightarrow> \<not> xr_is_demo r)"

definition acquire :: "nat \<Rightarrow> str \<Rightarrow> str \<Rightarrow> export_system \<Rightarrow> export_system" where
  "acquire k i d s = s\<lparr>xs_lock := (xs_lock s)(i := Some k), xs_task := (xs_task s)(k := Entered i d)\<rparr>"

definition release :: "nat \<Rightarrow> str \<Rightarrow> export_system \<Rightarrow> export_system" where
  "release k i s = s\<lparr>xs_lock := (xs_lock s)(i := None), xs_task := (xs_task s)(k := Ended)\<rparr>"

text \<open>The plan reaches the tracker: the incident has no record of a real export, and the exporter is not the demo.\<close>

definition asks_tracker :: "app \<Rightarrow> str \<Rightarrow> str \<Rightarrow> world \<Rightarrow> bool" where
  "asks_tracker A i d w =
     (has_incident i (live w) \<and> (case find_export i d (live w) of None \<Rightarrow> True | Some x \<Rightarrow> ex_is_demo x) \<and>
      (case get_exporter (ap_settings A) d of Inl e \<Rightarrow> False | Inr exporter \<Rightarrow> \<not> is_demo_exporter exporter))"

text \<open>A request to the tracker that ends with an error may have created the document: a timeout or an invalid answer does
  not tell. Any other request, the deletion of an incident included, or a job may be served at any time. A recording
  whose incident was deleted meanwhile fails: its event has no incident any more.\<close>

inductive export_step :: "app \<Rightarrow> export_system \<Rightarrow> export_system \<Rightarrow> bool" for A where
  enter: "xs_task s k = Waiting i d \<Longrightarrow> xs_lock s i = None \<Longrightarrow> export_step A s (acquire k i d s)"
| answer: "xs_task s k = Entered i d \<Longrightarrow>
    plan_export A i d ((xs_world s)\<lparr>live := saved (xs_world s)\<rparr>) = (Inr p, w') \<Longrightarrow>
    export_step A s (s\<lparr>xs_task := (xs_task s)(k := Answered i d p),
      xs_made := (if creates p then (i, d) # xs_made s else xs_made s)\<rparr>)"
| refuse: "xs_task s k = Entered i d \<Longrightarrow>
    plan_export A i d ((xs_world s)\<lparr>live := saved (xs_world s)\<rparr>) = (Inl e, w') \<Longrightarrow> export_step A s (release k i s)"
| unanswered: "xs_task s k = Entered i d \<Longrightarrow>
    plan_export A i d ((xs_world s)\<lparr>live := saved (xs_world s)\<rparr>) = (Inl e, w') \<Longrightarrow>
    asks_tracker A i d ((xs_world s)\<lparr>live := saved (xs_world s)\<rparr>) \<Longrightarrow>
    export_step A s ((release k i s)\<lparr>xs_made := (i, d) # xs_made s, xs_lost := (i, d) # xs_lost s\<rparr>)"
| recorded: "xs_task s k = Answered i d p \<Longrightarrow> get_session (record_export A i d p) (xs_world s) = (r, w') \<Longrightarrow>
    export_step A s ((release k i s)\<lparr>xs_world := w',
      xs_lost := (if creates p \<and> \<not> is_ok r then (i, d) # xs_lost s else xs_lost s)\<rparr>)"
| other: "serve A req (xs_world s) = (x, w') \<Longrightarrow> \<forall>i d. req \<noteq> ExportPostmortem i d \<Longrightarrow>
    export_step A s (s\<lparr>xs_world := w'\<rparr>)"
| job: "execute_analysis_job (ap_env A) (ap_llm A) (ap_settings A) id i (xs_world s) = (x, w') \<Longrightarrow>
    export_step A s (s\<lparr>xs_world := w'\<rparr>)"

definition export_start :: "export_system \<Rightarrow> bool" where
  "export_start s = ((\<forall>k. \<exists>i d. xs_task s k = Waiting i d) \<and> xs_lock s = (\<lambda>i. None) \<and> xs_made s = [] \<and> xs_lost s = [])"

subsection \<open>The invariant\<close>

definition holds :: "export_system \<Rightarrow> nat \<Rightarrow> str \<Rightarrow> bool" where
  "holds s k i = (\<exists>d. xs_task s k = Entered i d \<or> (\<exists>p. xs_task s k = Answered i d p))"

definition pending :: "export_system \<Rightarrow> str \<Rightarrow> str \<Rightarrow> bool" where
  "pending s i d = (\<exists>k p. xs_task s k = Answered i d p \<and> creates p)"

definition exported :: "db \<Rightarrow> str \<Rightarrow> str \<Rightarrow> bool" where
  "exported D i d = (\<exists>x \<in> set (exports D). export_key x = (i, d) \<and> \<not> ex_is_demo x)"

definition mutex :: "export_system \<Rightarrow> bool" where
  "mutex s = (\<forall>k i. holds s k i \<longrightarrow> xs_lock s i = Some k)"

definition deleted :: "env \<Rightarrow> world \<Rightarrow> str \<Rightarrow> bool" where
  "deleted E w i = incident_gone E i (saved w) (ids w)"

definition plans_fit :: "env \<Rightarrow> export_system \<Rightarrow> bool" where
  "plans_fit E s = (\<forall>k i d p. xs_task s k = Answered i d p \<longrightarrow> plan_fits i d p (saved (xs_world s)) \<or> deleted E (xs_world s) i)"

definition final :: "env \<Rightarrow> world \<Rightarrow> str \<Rightarrow> str \<Rightarrow> bool" where
  "final E w i d = (exported (saved w) i d \<or> deleted E w i)"

definition settled :: "env \<Rightarrow> export_system \<Rightarrow> str \<Rightarrow> str \<Rightarrow> bool" where
  "settled E s i d = (final E (xs_world s) i d \<or> pending s i d)"

definition accounted :: "env \<Rightarrow> export_system \<Rightarrow> bool" where
  "accounted E s = (\<forall>i d. count_list (xs_made s) (i, d) \<le> count_list (xs_lost s) (i, d) + of_bool (settled E s i d))"

definition export_inv :: "env \<Rightarrow> export_system \<Rightarrow> bool" where
  "export_inv E s = (world_ok E (xs_world s) \<and> mutex s \<and> plans_fit E s \<and> accounted E s)"

text \<open>What a successful recording of a created document leaves behind.\<close>

lemma save_export_row:
  assumes "save_export A i previous r w = (Inr y, w')" and "plan_fits i d (Fresh previous p r) (live w)" and "\<not> xr_is_demo r"
  shows "exported (live w') i d"
proof (cases previous)
  case None
  with assms show ?thesis
    by (auto simp: save_export_def insert_export_def insert_new_def new_identifier_def utcnow_def andthen_Inr plan_fits_def
        exported_def export_key_def split: if_splits)
next
  case (Some x)
  with assms show ?thesis
    by (auto simp: save_export_def set_export_def andthen_def plan_fits_def exported_def export_key_def with_result_def
        update_row_def intro!: bexI[of _ "with_result r x"])
qed

lemma record_exported:
  assumes "record_export A i d p w = (Inr y, w')" and "creates p" and "plan_fits i d p (live w)"
  shows "exported (saved w') i d"
proof -
  obtain previous pm r where p: "p = Fresh previous pm r" and r: "\<not> xr_is_demo r"
    using assms(2) by (cases p) (auto simp: creates_def)
  obtain x w2 where save: "save_export A i previous r w = (Inr x, w2)" and
      rest: "andthen (set_postmortem (pm_id pm) (linked d r)) (\<lambda>_. andthen (add_event (ap_env A) i ''exported''
        (''Postmortem exported to '' @ d @ (if xr_is_demo r then '' in demo mode'' else []) @ ''.''))
        (\<lambda>_. andthen session_commit (\<lambda>_. finish (read_export_row x)))) w2 = (Inr y, w')"
    using assms(1) p by (auto simp: record_export_def andthen_Inr)
  have "exports (live v') = exports (live v)" if "add_event E i k m v = (Inr z, v')" for E k m z v v'
    using that by (auto simp: add_event_run split: if_splits)
  with rest have "exports (saved w') = exports (live w2)"
    by (auto simp: set_postmortem_def andthen_Inr finish_def)
  with save_export_row[OF save] assms(3) p r show ?thesis by (simp add: exported_def)
qed

lemma record_gone:
  assumes "record_export A i d p w = (Inr y, w')" and p: "p = Fresh previous pm r"
  shows "has_incident i (live w)"
proof -
  obtain x w2 w3 ev where save: "save_export A i previous r w = (Inr x, w2)"
      and ev: "add_event (ap_env A) i ''exported'' (''Postmortem exported to '' @ d @ (if xr_is_demo r then '' in demo mode'' else []) @ ''.'')
        (w2\<lparr>live := (live w2)\<lparr>postmortems := update_row pm_id (pm_id pm) (linked d r) (postmortems (live w2))\<rparr>\<rparr>) = (Inr ev, w3)"
    using assms(1) p by (auto simp: record_export_def set_postmortem_def andthen_Inr)
  have "incidents (live w2) = incidents (live w)"
    using save by (cases previous) (auto simp: save_export_def set_export_def insert_export_def insert_new_def new_identifier_def
      utcnow_def andthen_Inr split: if_splits)
  then show ?thesis using ev by (auto simp: add_event_run has_incident_def split: if_splits)
qed

text \<open>A recording that raises has stored nothing.\<close>

lemma record_failed:
  assumes "get_session (record_export A i d p) w = (Inl e, w')"
  shows "saved w' = saved w"
proof -
  have "atomic (record_export A i d p)"
  proof (cases p)
    case (Exported x)
    then show ?thesis by (simp add: record_export_def finish_def atomic_def)
  next
    case (Fresh previous pm r)
    have "uncommitted (save_export A i previous r)" unfolding save_export_def by (intro uncommitted_routes)
    with Fresh show ?thesis
      by (auto simp: record_export_def finish_def intro!: atomic_andthen atomic_commit uncommitted_routes)
  qed
  from atomicD[OF atomic_get_session[OF this] assms] show ?thesis .
qed

text \<open>Nor has one whose incident was deleted meanwhile, and it has raised.\<close>

lemma record_deleted:
  assumes "get_session (record_export A i d p) w = (r, w')" and "\<not> has_incident i (saved w)"
  shows "saved w' = saved w" and "creates p \<Longrightarrow> \<not> is_ok r"
proof -
  obtain w1 where run: "record_export A i d p (w\<lparr>live := saved w\<rparr>) = (r, w1)" and w': "saved w' = saved w1"
    using assms(1) by (auto simp: get_session_run split: prod.splits)
  have raised: "\<exists>e. r = Inl e" if "p = Fresh previous pm x" for previous pm x
    using record_gone[OF _ that, of A i d "w\<lparr>live := saved w\<rparr>"] run assms(2) by (cases r) auto
  then show "\<not> is_ok r" if "creates p" using that by (cases p) (auto simp: creates_def is_ok_def)
  show "saved w' = saved w"
  proof (cases p)
    case (Exported x)
    then show ?thesis using run w' by (auto simp: record_export_def finish_def)
  next
    case (Fresh previous pm x)
    then obtain e where "r = Inl e" using raised by blast
    then show ?thesis using record_failed assms(1) by blast
  qed
qed

subsection \<open>Steps that leave the records alone\<close>

lemma get_session_reset: "get_session m w = get_session m (w\<lparr>live := saved w\<rparr>)"
  by (simp add: get_session_run)

lemma job_reset:
  "execute_analysis_job E llm S id i w = execute_analysis_job E llm S id i (w\<lparr>live := saved w\<rparr>)"
  using get_session_reset[of "try_job E llm S i" w] by (simp add: execute_analysis_job_def catch_def)

text \<open>What is deleted stays deleted.\<close>

lemma deleted_stays:
  assumes "gone.keeps E j m" and "m (w\<lparr>live := saved w\<rparr>) = (r, w')" and "deleted E w j"
  shows "deleted E w' j"
  using gone.keeps_run[OF assms(1) _ assms(2)] assms(3) by (simp add: gone.winv_def deleted_def)

lemma deletion_run:
  assumes "serve A (DeleteIncident i) w = (r, w')"
  shows "saved w' = saved w \<or> saved w' = cascade i (saved w) \<and> has_incident i (saved w) \<and> ids w' = ids w"
proof (cases "find_row inc_id i (incidents (saved w))")
  case None
  then show ?thesis
    using assms by (auto simp: serve_def get_session_run answer_with_def delete_incident_def andthen_def require_incident_run)
next
  case (Some inc)
  then have "inc_id inc = i" by (auto dest: find_row_Some)
  then show ?thesis
    using assms Some by (auto simp: serve_def get_session_run answer_with_def delete_incident_def andthen_def
      require_incident_run finish_def has_incident_def)
qed

text \<open>The world after a step of any other kind: the records are there, except for those of incidents that were deleted.\<close>

definition later :: "env \<Rightarrow> world \<Rightarrow> world \<Rightarrow> bool" where
  "later E w w' = ((\<forall>x \<in> set (exports (saved w)). x \<in> set (exports (saved w')) \<or> deleted E w' (ex_incident_id x)) \<and>
     (\<forall>j. deleted E w j \<longrightarrow> deleted E w' j))"

lemma serve_later:
  assumes "app_ok A" and "\<And>x. spares (\<lambda>d. x \<in> set (exports d)) (ap_rival A)" and "revives_none (ap_env A) (ap_rival A)"
    and "world_ok (ap_env A) w" and "serve A req w = (r, w')" and "\<forall>i d. req \<noteq> ExportPostmortem i d"
  shows "later (ap_env A) w w'"
proof -
  have inj: "inj (uuid (ap_env A))" using assms(1) by (simp add: app_ok_def)
  have reset: "serve A req (w\<lparr>live := saved w\<rparr>) = (r, w')"
    using assms(5) get_session_reset[of "route A req" w] by (simp add: serve_def)
  have "x \<in> set (exports (saved w')) \<or> deleted (ap_env A) w' (ex_incident_id x)" if x: "x \<in> set (exports (saved w))" for x
  proof (cases "req = DeleteIncident (ex_incident_id x)")
    case True
    have "foreign_keys (saved w)" and drawn: "drawn_ids (ap_env A) (saved w) (ids w)"
      using assms(4) by (simp_all add: world_ok_def db_inv_def)
    then have "ex_incident_id x \<in> inc_id ` set (incidents (saved w))"
      using x by (auto simp: foreign_keys_def child_parents_def)
    with drawn have "ex_incident_id x \<in> uuid (ap_env A) ` {..<ids w}" by (auto simp: drawn_ids_def)
    then have "deleted (ap_env A) w' (ex_incident_id x)" if "saved w' = cascade (ex_incident_id x) (saved w)" "ids w' = ids w"
      using that by (simp add: deleted_def incident_gone_def has_incident_iff cascade_def remove_row_keys)
    then show ?thesis using deletion_run[OF assms(5)[unfolded True]] x by auto
  next
    case False
    have "export.keeps x (serve A req)"
      unfolding serve_def using assms(2,6) False by (intro export.keeps_get_session export_route) auto
    moreover have "export.winv x (w\<lparr>live := saved w\<rparr>)" using x by (simp add: export.winv_def)
    ultimately have "export.winv x w'" using export.keeps_run reset by blast
    then show ?thesis by (simp add: export.winv_def)
  qed
  then show ?thesis
    using deleted_stays[OF gone_serve[OF inj assms(3)] reset] by (simp add: later_def)
qed

lemma job_later:
  assumes "inj (uuid E)" and "execute_analysis_job E llm S id i w = (r, w')"
  shows "later E w w'"
proof -
  have run: "execute_analysis_job E llm S id i (w\<lparr>live := saved w\<rparr>) = (r, w')"
    using assms(2) job_reset[of E llm S i w] by simp
  have "x \<in> set (exports (saved w'))" if "x \<in> set (exports (saved w))" for x
    using export.keeps_run[OF export_job[OF spares_id] _ run, of x] that by (simp add: export.winv_def)
  then show ?thesis using deleted_stays[OF gone_job[OF assms(1) revives_none_id] run] by (simp add: later_def)
qed

lemma recorded_keeps:
  assumes "world_ok (ap_env A) w" and "inj (uuid (ap_env A))" and "plan_fits i d p (saved w) \<or> deleted (ap_env A) w i"
    and "get_session (record_export A i d p) w = (r, w')"
  shows "world_ok (ap_env A) w'" and "deleted (ap_env A) w j \<Longrightarrow> deleted (ap_env A) w' j"
    and "x \<in> set (exports (saved w)) \<Longrightarrow> export_key x \<noteq> (i, d) \<or> \<not> ex_is_demo x \<Longrightarrow> x \<in> set (exports (saved w'))"
proof -
  let ?E = "ap_env A" and ?w = "w\<lparr>live := saved w\<rparr>"
  obtain q w1 where run: "record_export A i d p ?w = (q, w1)" by (cases "record_export A i d p ?w")
  with assms(4) have w': "saved w' = saved w1" "w' = w1\<lparr>live := saved w1\<rparr>" by (auto simp: get_session_run)
  have reset: "get_session (record_export A i d p) ?w = (r, w')" using assms(4) by (simp add: get_session_run)
  have keeps: "gone.keeps ?E j (get_session (record_export A i d p))" for j
    by (intro gone.keeps_get_session gone_record_export assms(2))
  from deleted_stays[OF this reset] show "deleted ?E w j \<Longrightarrow> deleted ?E w' j" .
  have "world_ok ?E w' \<and> (x \<in> set (exports (saved w)) \<longrightarrow> export_key x \<noteq> (i, d) \<or> \<not> ex_is_demo x \<longrightarrow> x \<in> set (exports (saved w')))"
    using assms(3)
  proof
    assume gone: "deleted ?E w i"
    then have "gone.winv ?E i ?w" by (simp add: gone.winv_def deleted_def)
    from gone.keeps_run[OF keeps this reset] have "ids w \<le> ids w'" by simp
    moreover have "saved w' = saved w"
      by (rule record_deleted(1)[OF assms(4)]) (use gone in \<open>simp add: deleted_def incident_gone_def\<close>)
    moreover have "live w' = saved w'" by (simp add: w'(2))
    ultimately show ?thesis using assms(1) store.inv_ids_mono by (auto simp: world_ok_def)
  next
    assume "plan_fits i d p (saved w)"
    then have fits: "plan_fits i d p (live ?w)" by simp
    have ok: "store.winv ?E ?w" using assms(1) by (simp add: winv_world_ok world_ok_reset)
    from record_export_inv[OF ok assms(2) fits run] have "world_ok ?E w'"
      by (simp add: winv_world_ok w'(2) world_ok_reset)
    moreover have "x \<in> set (exports (saved w'))"
      if x: "x \<in> set (exports (saved w))" and other: "export_key x \<noteq> (i, d) \<or> \<not> ex_is_demo x"
    proof -
      have "distinct (map ex_id (exports (live ?w)))" using assms(1) by (simp add: world_ok_def db_inv_def primary_keys_def)
      moreover have "export.winv x ?w" using x by (simp add: export.winv_def)
      moreover have "\<forall>y pm r. p = Fresh (Some y) pm r \<longrightarrow> x \<noteq> y" using fits other by (auto simp: plan_fits_def)
      ultimately have "export.winv x w1" using export_record[OF _ _ fits _ run] by blast
      then show ?thesis by (simp add: export.winv_def w'(1))
    qed
    ultimately show ?thesis by blast
  qed
  then show "world_ok ?E w'"
    and "x \<in> set (exports (saved w)) \<Longrightarrow> export_key x \<noteq> (i, d) \<or> \<not> ex_is_demo x \<Longrightarrow> x \<in> set (exports (saved w'))"
    by blast+
qed

lemma final_later: "final E w i d \<Longrightarrow> later E w w' \<Longrightarrow> final E w' i d"
  by (auto simp: final_def later_def exported_def export_key_def)

lemma plan_fits_later:
  "plan_fits i d p (saved w) \<or> deleted E w i \<Longrightarrow> later E w w' \<Longrightarrow> plan_fits i d p (saved w') \<or> deleted E w' i"
  by (auto simp: plan_fits_def later_def export_key_def split: export_plan.splits)

lemma bound_mono: "(n :: nat) \<le> m + of_bool P \<Longrightarrow> (P \<Longrightarrow> Q) \<Longrightarrow> n \<le> m + of_bool Q"
  by (cases P; cases Q) auto

lemma accountedD: "accounted E s \<Longrightarrow> count_list (xs_made s) (i, d) \<le> count_list (xs_lost s) (i, d) + of_bool (settled E s i d)"
  by (simp add: accounted_def)

lemma accounted_mono:
  assumes "accounted E s" and "xs_made s' = xs_made s" and "xs_lost s' = xs_lost s" and "\<And>i d. settled E s i d \<Longrightarrow> settled E s' i d"
  shows "accounted E s'"
  unfolding accounted_def using bound_mono[OF accountedD[OF assms(1)] assms(4)] by (simp add: assms(2,3))

lemma mutexD: "mutex s \<Longrightarrow> holds s k i \<Longrightarrow> xs_lock s i = Some k"
  by (simp add: mutex_def)

lemma mutex_unique: "mutex s \<Longrightarrow> holds s k i \<Longrightarrow> holds s k' i \<Longrightarrow> k = k'"
  using mutexD[of s k i] mutexD[of s k' i] by simp

lemma holds_simps [simp]:
  "holds (acquire k i d s) k' j \<longleftrightarrow> (if k' = k then j = i else holds s k' j)"
  "holds (release k i s) k' j \<longleftrightarrow> k' \<noteq> k \<and> holds s k' j"
  "holds (s\<lparr>xs_world := w'\<rparr>) k' j = holds s k' j" "holds (s\<lparr>xs_lost := l\<rparr>) k' j = holds s k' j"
  "holds (s\<lparr>xs_made := l\<rparr>) k' j = holds s k' j"
  by (auto simp: holds_def acquire_def release_def)

lemma lock_simps [simp]:
  "xs_lock (acquire k i d s) = (xs_lock s)(i := Some k)" "xs_lock (release k i s) = (xs_lock s)(i := None)"
  by (simp_all add: acquire_def release_def)

lemma pending_simps [simp]:
  "pending (s\<lparr>xs_world := w'\<rparr>) i d = pending s i d" "pending (s\<lparr>xs_lost := l\<rparr>) i d = pending s i d"
  by (simp_all add: pending_def)

lemma pending_task:
  assumes "pending s j e" and "\<And>p. xs_task s k = Answered j e p \<Longrightarrow> creates p \<Longrightarrow> False"
    and "\<And>k'. k' \<noteq> k \<Longrightarrow> xs_task s' k' = xs_task s k'"
  shows "pending s' j e"
  using assms by (metis pending_def)

text \<open>A step of the world alone.\<close>

lemma world_step_inv:
  assumes "export_inv E s" and "world_ok E w'" and "later E (xs_world s) w'"
  shows "export_inv E (s\<lparr>xs_world := w'\<rparr>)"
proof -
  have "mutex (s\<lparr>xs_world := w'\<rparr>)" using assms(1) by (simp add: export_inv_def mutex_def)
  moreover have "plans_fit E (s\<lparr>xs_world := w'\<rparr>)"
    using assms(1) plan_fits_later[OF _ assms(3)] by (auto simp: export_inv_def plans_fit_def)
  moreover have "accounted E (s\<lparr>xs_world := w'\<rparr>)"
  proof (rule accounted_mono)
    show "accounted E s" using assms(1) by (simp add: export_inv_def)
    show "settled E (s\<lparr>xs_world := w'\<rparr>) i d" if "settled E s i d" for i d
      using that final_later[OF _ assms(3)] by (auto simp: settled_def)
  qed simp_all
  ultimately show ?thesis using assms(2) by (simp add: export_inv_def)
qed

text \<open>The steps of one request.\<close>

lemma enter_inv:
  assumes "export_inv E s" and "xs_task s k = Waiting i d" and "xs_lock s i = None"
  shows "export_inv E (acquire k i d s)"
proof -
  have inv: "mutex s" "plans_fit E s" "accounted E s" "world_ok E (xs_world s)" using assms(1) by (simp_all add: export_inv_def)
  have "xs_lock (acquire k i d s) j = Some k'" if "holds (acquire k i d s) k' j" for k' j
    using that mutexD[OF inv(1), of k' j] assms(3) by (auto split: if_splits)
  then have "mutex (acquire k i d s)" by (simp add: mutex_def)
  moreover have "plans_fit E (acquire k i d s)" using inv(2) by (auto simp: plans_fit_def acquire_def split: if_splits)
  moreover have "accounted E (acquire k i d s)"
  proof (rule accounted_mono[OF inv(3)])
    show "settled E (acquire k i d s) j e" if "settled E s j e" for j e
      using that pending_task[of s j e k "acquire k i d s"] assms(2) by (auto simp: settled_def acquire_def)
  qed (simp_all add: acquire_def)
  ultimately show ?thesis using inv(4) by (simp add: export_inv_def acquire_def)
qed

lemma mutex_release:
  assumes "mutex s" and "holds s k i"
  shows "mutex (release k i s)"
  unfolding mutex_def using mutexD[OF assms(1)] mutexD[OF assms] by force

lemma refuse_inv:
  assumes "export_inv E s" and "xs_task s k = Entered i d"
  shows "export_inv E (release k i s)"
proof -
  have inv: "mutex s" "plans_fit E s" "accounted E s" "world_ok E (xs_world s)" using assms(1) by (simp_all add: export_inv_def)
  have "mutex (release k i s)" using mutex_release[OF inv(1)] assms(2) by (auto simp: holds_def)
  moreover have "plans_fit E (release k i s)" using inv(2) by (auto simp: plans_fit_def release_def split: if_splits)
  moreover have "accounted E (release k i s)"
  proof (rule accounted_mono[OF inv(3)])
    show "settled E (release k i s) j e" if "settled E s j e" for j e
      using that pending_task[of s j e k "release k i s"] assms(2) by (auto simp: settled_def release_def)
  qed (simp_all add: release_def)
  ultimately show ?thesis using inv(4) by (simp add: export_inv_def release_def)
qed

lemma unanswered_inv:
  assumes "export_inv E s" and "xs_task s k = Entered i d"
  shows "export_inv E ((release k i s)\<lparr>xs_made := (i, d) # xs_made s, xs_lost := (i, d) # xs_lost s\<rparr>)"
proof -
  let ?s = "(release k i s)\<lparr>xs_made := (i, d) # xs_made s, xs_lost := (i, d) # xs_lost s\<rparr>"
  have inv: "export_inv E (release k i s)" by (rule refuse_inv[OF assms])
  have same: "holds ?s k' j = holds (release k i s) k' j" "settled E ?s j e = settled E (release k i s) j e" for k' j e
    by (simp_all add: holds_def settled_def pending_def)
  have "count_list (xs_made ?s) (j, e) \<le> count_list (xs_lost ?s) (j, e) + of_bool (settled E ?s j e)" for j e
  proof -
    have "accounted E (release k i s)" using inv by (simp add: export_inv_def)
    moreover have "xs_made (release k i s) = xs_made s" "xs_lost (release k i s) = xs_lost s" by (simp_all add: release_def)
    ultimately show ?thesis using accountedD[of E "release k i s" j e] unfolding same
      by (cases "settled E (release k i s) j e") auto
  qed
  then have "accounted E ?s" by (simp add: accounted_def)
  moreover have "mutex ?s" "plans_fit E ?s" using inv by (simp_all add: export_inv_def mutex_def plans_fit_def)
  ultimately show ?thesis using inv by (simp add: export_inv_def)
qed

text \<open>A real export that is recorded is the one the query finds.\<close>

lemma exported_found:
  assumes "export_inv E s" and "exported (saved (xs_world s)) i d"
  shows "\<exists>x. find_export i d (saved (xs_world s)) = Some x \<and> \<not> ex_is_demo x"
proof -
  obtain x where x: "x \<in> set (exports (saved (xs_world s)))" "export_key x = (i, d)" "\<not> ex_is_demo x"
    using assms(2) by (auto simp: exported_def)
  have "distinct (map export_key (exports (saved (xs_world s))))"
    using assms(1) by (simp add: export_inv_def world_ok_def db_inv_def unique_keys_def)
  from find_row_unique[OF this x(1)] x(2,3) show ?thesis by (auto simp: find_export_def)
qed

text \<open>A tracker is only asked when the incident is there, nothing real is recorded and nobody else has an answer at
  hand.\<close>

lemma asked_final:
  assumes "export_inv E s" and "has_incident i (saved (xs_world s))"
    and "\<forall>x. find_export i d (saved (xs_world s)) = Some x \<longrightarrow> ex_is_demo x"
  shows "\<not> final E (xs_world s) i d"
  using exported_found[OF assms(1)] assms(2,3) by (auto simp: final_def deleted_def incident_gone_def)

lemma answer_unsettled:
  assumes "export_inv E s" and "xs_task s k = Entered i d"
    and "plan_export A i d ((xs_world s)\<lparr>live := saved (xs_world s)\<rparr>) = (Inr p, w')" and "creates p"
  shows "\<not> settled E s i d"
proof -
  obtain q pm r where p: "p = Fresh q pm r" using assms(4) by (cases p) (auto simp: creates_def)
  have "has_incident i (saved (xs_world s))"
    using assms(3) by (auto simp: plan_export_def andthen_Inr require_incident_run has_incident_def split: option.splits)
  moreover have "\<forall>x. find_export i d (saved (xs_world s)) = Some x \<longrightarrow> ex_is_demo x"
    using plan_export_Fresh[OF assms(3)[unfolded p]] by simp
  ultimately have "\<not> final E (xs_world s) i d" by (rule asked_final[OF assms(1)])
  moreover have "\<not> pending s i d"
  proof
    assume "pending s i d"
    then obtain k' p' where k': "xs_task s k' = Answered i d p'" by (auto simp: pending_def)
    have "holds s k i" "holds s k' i" using assms(2) k' by (auto simp: holds_def)
    moreover have "mutex s" using assms(1) by (simp add: export_inv_def)
    ultimately have "k = k'" using mutex_unique by blast
    with assms(2) k' show False by simp
  qed
  ultimately show ?thesis by (simp add: settled_def)
qed

lemma answer_inv:
  assumes "export_inv E s" and "xs_task s k = Entered i d"
    and "plan_export A i d ((xs_world s)\<lparr>live := saved (xs_world s)\<rparr>) = (Inr p, w')"
  shows "export_inv E (s\<lparr>xs_task := (xs_task s)(k := Answered i d p),
    xs_made := (if creates p then (i, d) # xs_made s else xs_made s)\<rparr>)"
proof -
  let ?s = "s\<lparr>xs_task := (xs_task s)(k := Answered i d p), xs_made := (if creates p then (i, d) # xs_made s else xs_made s)\<rparr>"
  have inv: "mutex s" "plans_fit E s" "accounted E s" "world_ok E (xs_world s)" using assms(1) by (simp_all add: export_inv_def)
  have "holds ?s k' j = holds s k' j" for k' j using assms(2) by (auto simp: holds_def)
  with inv(1) have "mutex ?s" by (simp add: mutex_def)
  moreover have "plans_fit E ?s"
    using inv(2) plan_export_fits[OF assms(3)] by (auto simp: plans_fit_def)
  moreover have "count_list (xs_made ?s) (j, e) \<le> count_list (xs_lost ?s) (j, e) + of_bool (settled E ?s j e)" for j e
  proof (cases "creates p \<and> (j, e) = (i, d)")
    case True
    have "settled E ?s i d" using True by (auto simp: settled_def pending_def)
    with True accountedD[OF inv(3), of i d] answer_unsettled[OF assms] show ?thesis by simp
  next
    case False
    have "settled E ?s j e" if "settled E s j e"
      using that pending_task[of s j e k ?s] assms(2) by (auto simp: settled_def)
    note bound = bound_mono[OF accountedD[OF inv(3), of j e] this]
    have "count_list (xs_made ?s) (j, e) = count_list (xs_made s) (j, e)" using False by auto
    with bound show ?thesis by simp
  qed
  then have "accounted E ?s" by (simp add: accounted_def)
  ultimately show ?thesis using inv(4) by (simp add: export_inv_def)
qed

lemma recorded_inv:
  assumes "export_inv (ap_env A) s" and "inj (uuid (ap_env A))" and "xs_task s k = Answered i d p"
    and "get_session (record_export A i d p) (xs_world s) = (r, w')"
  shows "export_inv (ap_env A) ((release k i s)\<lparr>xs_world := w',
    xs_lost := (if creates p \<and> \<not> is_ok r then (i, d) # xs_lost s else xs_lost s)\<rparr>)"
proof -
  let ?s = "(release k i s)\<lparr>xs_world := w', xs_lost := (if creates p \<and> \<not> is_ok r then (i, d) # xs_lost s else xs_lost s)\<rparr>"
  have inv: "mutex s" "plans_fit (ap_env A) s" "accounted (ap_env A) s" "world_ok (ap_env A) (xs_world s)" using assms(1) by (simp_all add: export_inv_def)
  have fits: "plan_fits i d p (saved (xs_world s)) \<or> deleted (ap_env A) (xs_world s) i"
    using inv(2) assms(3) by (simp add: plans_fit_def)
  note kept = recorded_keeps[OF inv(4) assms(2) fits assms(4)]
  have k: "holds s k i" using assms(3) by (auto simp: holds_def)
  have alone: "k' = k" if "xs_task s k' = Answered i e p'" for k' e p'
  proof -
    from that have "holds s k' i" by (auto simp: holds_def)
    with mutex_unique[OF inv(1)] k show ?thesis by blast
  qed
  have "mutex ?s" using mutex_release[OF inv(1) k] by (simp add: mutex_def)
  moreover have "plan_fits j e p' (saved w') \<or> deleted (ap_env A) w' j" if "xs_task ?s k' = Answered j e p'" for k' j e p'
  proof -
    have "k' \<noteq> k" and task: "xs_task s k' = Answered j e p'" using that by (auto simp: release_def split: if_splits)
    then have "j \<noteq> i" using alone by auto
    moreover have "plan_fits j e p' (saved (xs_world s)) \<or> deleted (ap_env A) (xs_world s) j"
      using inv(2) task by (simp add: plans_fit_def)
    ultimately show ?thesis using kept(2,3) by (cases p') (auto simp: plan_fits_def)
  qed
  then have "plans_fit (ap_env A) ?s" by (auto simp: plans_fit_def)
  moreover have "count_list (xs_made ?s) (j, e) \<le> count_list (xs_lost ?s) (j, e) + of_bool (settled (ap_env A) ?s j e)" for j e
  proof (cases "creates p \<and> (j, e) = (i, d)")
    case True
    show ?thesis
    proof (cases r)
      case (Inl err)
      then have "count_list (xs_lost ?s) (i, d) = Suc (count_list (xs_lost s) (i, d))" using True by simp
      moreover have "xs_made ?s = xs_made s" by (simp add: release_def)
      ultimately show ?thesis using accountedD[OF inv(3), of i d] True by (auto simp: of_bool_def split: if_splits)
    next
      case (Inr y)
      then obtain w1 where "record_export A i d p ((xs_world s)\<lparr>live := saved (xs_world s)\<rparr>) = (Inr y, w1)" "saved w1 = saved w'"
        using assms(4) by (auto simp: get_session_run split: prod.splits)
      moreover have "plan_fits i d p (saved (xs_world s))"
        using fits record_deleted(2)[OF assms(4)] True Inr by (auto simp: deleted_def incident_gone_def is_ok_def)
      ultimately have "settled (ap_env A) ?s i d"
        using record_exported[of A i d p _ y w1] True by (simp add: settled_def final_def)
      note bound = bound_mono[OF accountedD[OF inv(3), of i d] this]
      have "xs_made ?s = xs_made s" "xs_lost ?s = xs_lost s" using Inr by (simp_all add: release_def)
      with bound True show ?thesis by simp
    qed
  next
    case False
    have "settled (ap_env A) ?s j e" if "settled (ap_env A) s j e"
    proof -
      have "final (ap_env A) w' j e" if "final (ap_env A) (xs_world s) j e"
        using that kept(2,3) by (auto simp: final_def exported_def)
      moreover have "pending ?s j e" if "pending s j e"
        using pending_task[OF that, of k ?s] assms(3) False by (auto simp: release_def)
      ultimately show ?thesis using that by (auto simp: settled_def)
    qed
    note bound = bound_mono[OF accountedD[OF inv(3), of j e] this]
    have "xs_made ?s = xs_made s" "count_list (xs_lost ?s) (j, e) = count_list (xs_lost s) (j, e)"
      using False by (auto simp: release_def)
    with bound show ?thesis by simp
  qed
  then have "accounted (ap_env A) ?s" by (simp add: accounted_def)
  ultimately show ?thesis using kept(1) by (simp add: export_inv_def)
qed

lemma export_step_inv:
  assumes "export_step A s s'" and "export_inv (ap_env A) s" and "app_ok A"
    and "\<And>x. spares (\<lambda>d. x \<in> set (exports d)) (ap_rival A)" and "revives_none (ap_env A) (ap_rival A)"
  shows "export_inv (ap_env A) s'"
  using assms(1)
proof cases
  case (other req x w')
  have ok: "world_ok (ap_env A) (xs_world s)" using assms(2) by (simp add: export_inv_def)
  have "world_ok (ap_env A) w'"
    by (rule keeps_world_ok[OF keeps_serve ok other(2)]) (use assms(3) in \<open>auto simp: app_ok_def\<close>)
  from world_step_inv[OF assms(2) this serve_later[OF assms(3-5) ok other(2,3)]] other(1) show ?thesis by simp
next
  case (job i x w')
  have inj: "inj (uuid (ap_env A))" using assms(3) by (simp add: app_ok_def)
  have "world_ok (ap_env A) w'"
    by (rule keeps_world_ok[OF keeps_execute_analysis_job _ job(2)])
      (use assms(2,3) in \<open>auto simp: app_ok_def export_inv_def harmless_def\<close>)
  from world_step_inv[OF assms(2) this job_later[OF inj job(2)]] job(1) show ?thesis by simp
qed (use assms(2,3) enter_inv answer_inv refuse_inv unanswered_inv recorded_inv in \<open>auto simp: app_ok_def\<close>)

text \<open>What is recorded stays recorded until its incident is deleted, and nothing is created for it any more.\<close>

lemma export_step_final:
  assumes "export_step A s s'" and "export_inv (ap_env A) s" and "app_ok A"
    and "\<And>x. spares (\<lambda>d. x \<in> set (exports d)) (ap_rival A)" and "revives_none (ap_env A) (ap_rival A)"
    and "final (ap_env A) (xs_world s) i d"
  shows "final (ap_env A) (xs_world s') i d \<and> count_list (xs_made s') (i, d) = count_list (xs_made s) (i, d)"
  using assms(1)
proof cases
  case (answer k j e p w')
  have "\<not> creates p" if "(j, e) = (i, d)"
    using answer_unsettled[OF assms(2) answer(2,3)] assms(6) that by (auto simp: settled_def)
  then show ?thesis using answer(1) assms(6) by auto
next
  case (unanswered k j e err w')
  have "(j, e) \<noteq> (i, d)"
    using asked_final[OF assms(2), of i d] assms(6) unanswered(4) by (auto simp: asks_tracker_def split: option.splits)
  then show ?thesis using unanswered(1) assms(6) by (auto simp: release_def)
next
  case (recorded k j e p r w')
  have inv: "world_ok (ap_env A) (xs_world s)"
      "plan_fits j e p (saved (xs_world s)) \<or> deleted (ap_env A) (xs_world s) j"
    using assms(2) recorded(2) by (auto simp: export_inv_def plans_fit_def)
  have "inj (uuid (ap_env A))" using assms(3) by (simp add: app_ok_def)
  from recorded_keeps(2,3)[OF inv(1) this inv(2) recorded(3)] assms(6) have "final (ap_env A) w' i d"
    by (auto simp: final_def exported_def)
  then show ?thesis using recorded(1) by (simp add: release_def)
next
  case (other req x w')
  have "world_ok (ap_env A) (xs_world s)" using assms(2) by (simp add: export_inv_def)
  from final_later[OF assms(6) serve_later[OF assms(3-5) this other(2,3)]] other(1) show ?thesis by simp
next
  case (job j x w')
  have "inj (uuid (ap_env A))" using assms(3) by (simp add: app_ok_def)
  from final_later[OF assms(6) job_later[OF this job(2)]] job(1) show ?thesis by simp
qed (use assms(6) in \<open>simp_all add: acquire_def release_def\<close>)

subsection \<open>An example\<close>

text \<open>A tracker that answers every request with the same key.\<close>

definition tracker :: network where
  "tracker = silent_network\<lparr>net_reply := (\<lambda>r n. Reply 201 None []), net_json := (\<lambda>b. Some (VDict [(''key'', VStr ''OPS-7'')]))\<rparr>"

definition tracker_app :: app where
  "tracker_app = sample_app\<lparr>ap_settings := jira_settings, ap_network := tracker\<rparr>"

definition sample_postmortem :: Postmortem where
  "sample_postmortem = \<lparr>pm_id = ''0'', pm_incident_id = ''1'', pm_markdown = ''text'', pm_version = 1, pm_created_at = 0,
     pm_updated_at = 0, pm_jira_issue_key = None, pm_jira_issue_url = None, pm_confluence_url = None\<rparr>"

definition tracker_world :: world where
  "tracker_world = new_world\<lparr>live := empty_db\<lparr>incidents := [sample_incident], postmortems := [sample_postmortem]\<rparr>,
     saved := empty_db\<lparr>incidents := [sample_incident], postmortems := [sample_postmortem]\<rparr>, ids := 2\<rparr>"

lemma tracker_world_ok: "world_ok sample_env tracker_world"
proof -
  have "''0'' = uuid sample_env 0" "''1'' = uuid sample_env 1" by (simp_all add: sample_env_def) code_simp+
  then have "''0'' \<in> uuid sample_env ` {..<2}" "''1'' \<in> uuid sample_env ` {..<2}" by auto
  then show ?thesis
    by (simp add: world_ok_def tracker_world_def db_inv_def db_inv_parts empty_db_def sample_incident_def
        incident_ok_def severity_texts_def status_texts_def new_world_def sample_postmortem_def)
qed

lemma tracker_call: "call tracker 0 req = Inr [(''key'', VStr ''OPS-7'')]"
  by (simp add: call_def tracker_def request_json_def request_attempt_def transient_def is_success_def decode_body_def
      MAX_RESPONSE_BYTES_def)

lemma tracker_plan:
  "plan_export tracker_app ''1'' ''jira'' tracker_world =
     (Inr (Fresh None sample_postmortem (jira_result ''https://jira.test'' ''OPS-7'')), tracker_world)"
proof -
  obtain x where x: "read_incident_row sample_incident = Inr x" using read_sample by blast
  have "fullmatch jira_key_rx ''OPS-7''" "base_url b ''https://jira.test'' = Inr ''https://jira.test''" for b
    by code_simp+
  then have run: "jira_export tracker b jira_settings (as_dict (incident_json x)) ''text'' = Inr (jira_result ''https://jira.test'' ''OPS-7'')" for b
    by (simp add: jira_export_def jira_settings_def incident_json_def as_dict_def get_def dict_item_def tracker_call jira_answer_def)
  have "get_exporter jira_settings ''jira'' = Inr JiraExporter"
    by (simp add: get_exporter_def required_settings_def jira_settings_def)
  moreover have "find_export ''1'' ''jira'' (live tracker_world) = None" "find_postmortem ''1'' (live tracker_world) = Some sample_postmortem"
      "find_row inc_id ''1'' (incidents (live tracker_world)) = Some sample_incident"
    by (simp_all add: find_export_def find_postmortem_def find_row_def tracker_world_def empty_db_def sample_postmortem_def sample_incident_def)
  ultimately show ?thesis
    using x run by (simp add: plan_export_def andthen_def require_incident_run tracker_app_def get_postmortem_def incident_dict_def
        sample_postmortem_def)
qed

subsection \<open>Properties\<close>

text \<open>C17. Concurrent exports create one document: however the export requests of any number of clients of one process
  interleave with each other and with the other requests and jobs, deletions of incidents included, the trackers are
  made to create at most one document for an incident and a destination, and one more for each creation that the
  service did not learn of, because the answer did not arrive, could not be used or could not be recorded; and from the
  moment that an export is recorded, no document is created for it any more. This starts with no export under way, for
  stored data that satisfy the invariant of the service, and with other sessions that keep it, remove no export and
  bring no deleted incident back.\<close>

theorem one_document_per_export:
  assumes "app_ok A" and "\<And>x. spares (\<lambda>d. x \<in> set (exports d)) (ap_rival A)" and "revives_none (ap_env A) (ap_rival A)"
    and "world_ok (ap_env A) (xs_world s)"
    and "export_start s" and "(export_step A)\<^sup>*\<^sup>* s s1" and "(export_step A)\<^sup>*\<^sup>* s1 s'"
  shows "count_list (xs_made s') (i, d) \<le> Suc (count_list (xs_lost s') (i, d)) \<and>
    (exported (saved (xs_world s1)) i d \<longrightarrow> count_list (xs_made s') (i, d) = count_list (xs_made s1) (i, d))"
proof -
  let ?E = "ap_env A"
  have waits: "xs_task s k \<noteq> Entered i d" "xs_task s k \<noteq> Answered i d p" for k i d p
    using assms(5) by (metis export_start_def export_phase.distinct(1), metis export_start_def export_phase.distinct(3))
  then have "mutex s" "plans_fit ?E s" by (auto simp: mutex_def holds_def plans_fit_def)
  moreover have "accounted ?E s" using assms(5) by (simp add: accounted_def export_start_def)
  ultimately have start: "export_inv ?E s" using assms(4) by (simp add: export_inv_def)
  note step = export_step_inv[OF _ _ assms(1-3)] export_step_final[OF _ _ assms(1-3)]
  from assms(6) have inv: "export_inv ?E s1"
    by (induction rule: rtranclp_induct) (use start step in auto)
  from assms(7) have "export_inv ?E s' \<and> (final ?E (xs_world s1) i d \<longrightarrow>
      final ?E (xs_world s') i d \<and> count_list (xs_made s') (i, d) = count_list (xs_made s1) (i, d))"
    by (induction rule: rtranclp_induct) (use inv step in auto)
  moreover from this have "accounted ?E s'" by (simp add: export_inv_def)
  from accountedD[OF this, of i d] have "count_list (xs_made s') (i, d) \<le> Suc (count_list (xs_lost s') (i, d))"
    by (cases "settled ?E s' i d") simp_all
  ultimately show ?thesis by (auto simp: final_def)
qed

text \<open>Two requests for the same export; the first one has its answer, the other waits.\<close>

theorem one_document_per_export_witness:
  "\<exists>s s'. export_start s \<and> (export_step tracker_app)\<^sup>*\<^sup>* s s' \<and> xs_made s' = [(''1'', ''jira'')] \<and>
     count_list (xs_made s') (''1'', ''jira'') \<le> Suc (count_list (xs_lost s') (''1'', ''jira''))"
proof -
  define s where "s = \<lparr>xs_world = tracker_world, xs_lock = (\<lambda>i. None), xs_task = (\<lambda>k. Waiting ''1'' ''jira''), xs_made = [], xs_lost = []\<rparr>"
  let ?a = "acquire 0 ''1'' ''jira'' s" and ?p = "Fresh None sample_postmortem (jira_result ''https://jira.test'' ''OPS-7'')"
  let ?b = "?a\<lparr>xs_task := (xs_task ?a)(0 := Answered ''1'' ''jira'' ?p), xs_made := (if creates ?p then (''1'', ''jira'') # xs_made ?a else xs_made ?a)\<rparr>"
  have start: "export_start s" by (simp add: export_start_def s_def)
  have "export_step tracker_app s ?a" by (rule export_step.enter) (simp_all add: s_def)
  moreover have "export_step tracker_app ?a ?b"
  proof (rule export_step.answer)
    have "tracker_world\<lparr>live := saved tracker_world\<rparr> = tracker_world" by (simp add: tracker_world_def)
    then show "plan_export tracker_app ''1'' ''jira'' ((xs_world ?a)\<lparr>live := saved (xs_world ?a)\<rparr>) = (Inr ?p, tracker_world)"
      using tracker_plan by (simp add: acquire_def s_def)
  qed (simp add: acquire_def)
  ultimately have steps: "(export_step tracker_app)\<^sup>*\<^sup>* s ?b" by (meson rtranclp.rtrancl_into_rtrancl rtranclp.rtrancl_refl)
  have "app_ok tracker_app" "spares (\<lambda>d. x \<in> set (exports d)) (ap_rival tracker_app)"
      "revives_none (ap_env tracker_app) (ap_rival tracker_app)" for x
    using sample_app_ok by (simp_all add: tracker_app_def app_ok_def sample_app_def)
  moreover have "world_ok (ap_env tracker_app) (xs_world s)"
    using tracker_world_ok by (simp add: tracker_app_def sample_app_def s_def)
  ultimately have bound: "count_list (xs_made ?b) (i, d) \<le> Suc (count_list (xs_lost ?b) (i, d))" for i d
    by (rule one_document_per_export[OF _ _ _ _ start _ steps, THEN conjunct1]) simp
  have "xs_made ?b = [(''1'', ''jira'')]" by (simp add: creates_def jira_result_def acquire_def s_def)
  with start steps bound show ?thesis by blast
qed

end
