(* ===== verification/Redelivery.thy ===== *)
theory Redelivery
  imports Growth Deliveries
begin

text \<open>
  What the delivery of a whole batch stores, answers and schedules, and what delivering it again does: ingestion only
  adds incidents and alerts, so the second delivery finds every alert of the first.
\<close>

subsection \<open>Actions that only add incidents and alerts\<close>

definition more_rows :: "db \<Rightarrow> db \<Rightarrow> bool" where
  "more_rows d d' = (set (incidents d) \<subseteq> set (incidents d') \<and> set (alerts d) \<subseteq> set (alerts d'))"

definition grows :: "'a act \<Rightarrow> bool" where
  "grows m = (\<forall>w. more_rows (live w) (live (snd (m w))))"

lemma more_rows_refl: "more_rows d d"
  by (simp add: more_rows_def)

lemma more_rows_trans: "more_rows d d' \<Longrightarrow> more_rows d' d'' \<Longrightarrow> more_rows d d''"
  by (auto simp: more_rows_def)

lemma growsD: "grows m \<Longrightarrow> m w = (r, w') \<Longrightarrow> more_rows (live w) (live w')"
  unfolding grows_def by (metis snd_conv)

lemma grows_pure:
  "grows (ret x)" "grows (raise e)" "grows (look f)" "grows (lift_res r)" "grows (utcnow E)"
  "grows (new_identifier E)" "grows session_commit"
  by (simp_all add: grows_def more_rows_refl)

lemma grows_andthen:
  assumes "grows m" and "\<And>x. grows (f x)"
  shows "grows (andthen m f)"
  unfolding grows_def
proof
  fix w
  obtain r w1 where m: "m w = (r, w1)" by (cases "m w")
  with growsD[OF assms(1) m] assms(2) show "more_rows (live w) (live (snd (andthen m f w)))"
    by (cases r) (auto simp: andthen_def grows_def intro: more_rows_trans)
qed

lemma grows_catch:
  assumes "grows m" and "\<And>e. grows (h e)"
  shows "grows (catch m h)"
  unfolding grows_def
proof
  fix w
  obtain r w1 where m: "m w = (r, w1)" by (cases "m w")
  with growsD[OF assms(1) m] assms(2) show "more_rows (live w) (live (snd (catch m h w)))"
    by (cases r) (auto simp: catch_def grows_def intro: more_rows_trans)
qed

lemma grows_begin_nested:
  assumes "grows m"
  shows "grows (begin_nested m)"
  unfolding grows_def
proof
  fix w
  obtain r w1 where m: "m w = (r, w1)" by (cases "m w")
  with growsD[OF assms m] show "more_rows (live w) (live (snd (begin_nested m w)))"
    by (cases r) (auto simp: begin_nested_def more_rows_refl)
qed

lemma grows_case_option:
  "(v = None \<Longrightarrow> grows m) \<Longrightarrow> (\<And>x. v = Some x \<Longrightarrow> grows (f x)) \<Longrightarrow> grows (case v of None \<Rightarrow> m | Some x \<Rightarrow> f x)"
  by (cases v) auto

lemma grows_if: "(b \<Longrightarrow> grows m) \<Longrightarrow> (\<not> b \<Longrightarrow> grows m') \<Longrightarrow> grows (if b then m else m')"
  by simp

lemma grows_case_prod: "(\<And>y z. grows (f y z)) \<Longrightarrow> grows (case p of (y, z) \<Rightarrow> f y z)"
  by (cases p) simp

lemma grows_map_act: "(\<And>x. grows (f x)) \<Longrightarrow> grows (map_act f xs)"
  by (induction xs) (auto intro!: grows_andthen grows_pure)

lemmas grows_rules = grows_pure grows_andthen grows_catch grows_begin_nested grows_case_option grows_if
  grows_case_prod grows_map_act

lemma grows_insert_new:
  assumes "\<And>d r. more_rows d (add r d)"
  shows "grows (insert_new E ok mk add)"
  unfolding insert_new_def using assms by (intro grows_rules) (simp add: grows_def)

lemma grows_inserts:
  "grows (insert_incident E a b c y)" "grows (insert_alert E i s e t v z u)" "grows (insert_log E i k l m)"
  "grows (insert_event E i k1 m1)"
  unfolding insert_incident_def insert_alert_def insert_log_def insert_event_def
  by (intro grows_rules grows_insert_new; simp add: more_rows_def subset_insertI)+

lemma grows_ingest_alert:
  assumes "\<And>w. more_rows (live w) (live (rival w))"
  shows "grows (ingest_alert E rs rival source a)"
proof -
  have r: "grows (interfere rival)" using assms by (simp add: grows_def interfere_def)
  have h: "grows (case e of IntegrityError \<Rightarrow> m | _ \<Rightarrow> raise e)" if "grows m" for e and m :: "'b act"
    using that by (cases e) (auto intro: grows_rules)
  show ?thesis
    unfolding ingest_alert_def ingest_new_def ingest_duplicate_def require_incident_def create_incident_def
      add_event_def add_logs_def add_log_def Let_def
    by (intro grows_rules grows_inserts r h)
qed

lemma grows_ingest_item:
  assumes "\<And>w. more_rows (live w) (live (ap_rival A w))"
  shows "grows (ingest_item A source a)"
proof -
  have "more_rows (live w) (live (ingestion_rival A w))" for w
    using assms by (simp add: ingestion_rival_def more_rows_refl)
  then show ?thesis unfolding ingest_item_def by (intro grows_rules grows_ingest_alert)
qed

subsection \<open>The second delivery of a batch\<close>

definition as_duplicate :: "IngestionItem \<Rightarrow> IngestionItem" where
  "as_duplicate i = i\<lparr>ii_duplicate := True\<rparr>"

text \<open>What an item of a batch names is stored: its incident, and an alert of the source under its identifier.\<close>

definition stored_item :: "str \<Rightarrow> db \<Rightarrow> NormalizedAlert \<Rightarrow> IngestionItem \<Rightarrow> Incident \<Rightarrow> bool" where
  "stored_item source d a i inc =
     (inc \<in> set (incidents d) \<and> read_incident_row inc = Inr (ii_incident i) \<and>
      (\<exists>al \<in> set (alerts d). alert_key al = (source, na_external_id a) \<and> al_incident_id al = inc_id inc))"

lemma stored_item_more: "more_rows d d' \<Longrightarrow> stored_item source d a i inc \<Longrightarrow> stored_item source d' a i inc"
  unfolding stored_item_def more_rows_def by blast

lemma item_stored:
  assumes "app_ok A" and "world_ok (ap_env A) w" and "ingest_item A source a w = (Inr (i, inc), w')"
  shows "world_ok (ap_env A) w'" and "stored_item source (live w') a i inc"
proof -
  note run = ingest_item_run[OF assms(3)]
  have h: "harmless (ap_env A) (ingestion_rival A)"
    using assms(1) by (simp add: app_ok_def ingestion_rival_harmless)
  have "store.keeps (ap_env A) (ingest_alert (ap_env A) (ap_stamp A) (ingestion_rival A) source a)"
    using assms(1) h by (intro keeps_ingest_alert) (simp_all add: app_ok_def)
  from keeps_world_ok[OF this assms(2) run[THEN conjunct1]] show "world_ok (ap_env A) w'" .
  obtain al where al: "alerts_of source (na_external_id a) (live w') = [al]" "al_incident_id al = inc_id inc"
      and inc: "inc \<in> set (incidents (live w'))"
    using ingest_alert_unique[OF h assms(2) run[THEN conjunct1]] by auto
  have "al \<in> set (alerts_of source (na_external_id a) (live w'))" by (simp add: al(1))
  then have "al \<in> set (alerts (live w'))" "alert_key al = (source, na_external_id a)"
    by (auto simp: alerts_of_def)
  with inc run al(2) show "stored_item source (live w') a i inc" by (auto simp: stored_item_def)
qed

lemma batch_stored:
  assumes "app_ok A" and "\<And>w. more_rows (live w) (live (ap_rival A w))"
  shows "world_ok (ap_env A) w \<Longrightarrow> map_act (ingest_item A source) as w = (Inr items, w') \<Longrightarrow>
    list_all2 (\<lambda>a (i, inc). stored_item source (live w') a i inc) as items"
proof (induction as arbitrary: w items)
  case (Cons a as)
  obtain i inc w2 rest where item: "ingest_item A source a w = (Inr (i, inc), w2)"
      and rest: "map_act (ingest_item A source) as w2 = (Inr rest, w')" and items: "items = (i, inc) # rest"
    using Cons.prems(2) by (auto simp: andthen_Inr)
  note stored = item_stored[OF assms(1) Cons.prems(1) item]
  have "more_rows (live w2) (live w')" using growsD[OF grows_map_act[OF grows_ingest_item[OF assms(2)]] rest] .
  from stored_item_more[OF this stored(2)] Cons.IH[OF stored(1) rest] show ?case by (simp add: items)
qed simp

text \<open>\<open>D\<close> is the world of the second delivery: every item of the batch is found.\<close>

lemma batch_again:
  assumes "world_ok (ap_env A) D" and "list_all2 (\<lambda>a (i, inc). stored_item source (live D) a i inc) as items"
  shows "map_act (ingest_item A source) as D = (Inr (map (\<lambda>(i, inc). (as_duplicate i, inc)) items), D)"
  using assms(2)
proof (induction rule: list_all2_induct)
  case (Cons a as p items)
  obtain i inc where p: "p = (i, inc)" by (cases p)
  with Cons.hyps(1) obtain al where al: "al \<in> set (alerts (live D))" "alert_key al = (source, na_external_id a)"
      "al_incident_id al = inc_id inc" and inc: "inc \<in> set (incidents (live D))" "read_incident_row inc = Inr (ii_incident i)"
    by (auto simp: stored_item_def)
  have "alerts_of source (na_external_id a) (live D) = [al]"
    using assms(1) alerts_of_unique al(1,2) by (auto simp: world_ok_def db_inv_def)
  then have "ingest_alert (ap_env A) (ap_stamp A) (ingestion_rival A) source a D = (Inr (inc, True), D)"
    using assms(1) al(3) inc(1) by (intro found_again) auto
  from ingest_item_Inr[OF this inc(2)] have "ingest_item A source a D = (Inr (as_duplicate i, inc), D)"
    by (simp add: as_duplicate_def)
  with Cons.IH show ?case by (simp add: andthen_def p)
qed simp

interpretation kept: append_closed "\<lambda>d. set is \<subseteq> set (incidents d) \<and> set as \<subseteq> set (alerts d)" for "is" "as"
  by unfold_locales auto

lemma ingest_batch_Inr:
  assumes "ingest_batch A source v w = (Inr items, w')"
  shows "\<exists>as w1. normalized_batch A source v = Inr as \<and> as \<noteq> [] \<and>
    map_act (ingest_item A source) as w = (Inr items, w1) \<and> w' = w1\<lparr>saved := live w1\<rparr>"
proof -
  have "andthen (lift_res (normalized_batch A source v)) (\<lambda>as. andthen (map_act (ingest_item A source) as) (\<lambda>items.
      andthen session_commit (\<lambda>_. ret items))) w = (Inr items, w')"
    using assms by (auto simp: ingest_batch_def catch_def split: prod.splits sum.splits if_splits)
  then show ?thesis
    by (auto simp: andthen_Inr normalized_batch_def bind_res_def split: sum.splits if_splits)
qed

lemma ingest_batch_run:
  assumes "normalized_batch A source v = Inr as" and "map_act (ingest_item A source) as w = (Inr items, w1)"
  shows "ingest_batch A source v w = (Inr items, w1\<lparr>saved := live w1\<rparr>)"
  using assms by (simp add: ingest_batch_def catch_def andthen_def)

lemma body_dict: "body dict_body v w = (Inr x, w') \<longleftrightarrow> (\<exists>d. v = VDict d) \<and> x = v \<and> w' = w"
  by (cases v) (auto simp: body_def dict_body_def)

text \<open>The parts of a delivery that succeeds, up to the rows that are stored.\<close>

lemma delivery_parts:
  assumes "app_ok A" and "\<And>w. more_rows (live w) (live (ap_rival A w))" and "world_ok (ap_env A) w"
    and "serve A (Ingest source v) w = (Inr (AIngestion r, ts), w')"
  obtains d as items w1 tss w2 where "v = VDict d" "normalized_batch A (lower source) v = Inr as" "as \<noteq> []"
    and "map_act (after_created A) (map snd (filter (\<lambda>(i, inc). \<not> ii_duplicate i) items)) w1 = (Inr tss, w2)"
    and "r = ingestion_response (map fst items)" "ts = concat tss" "live w' = saved w'"
    and "list_all2 (\<lambda>a (i, inc). stored_item (lower source) (saved w') a i inc) as items"
proof -
  let ?s = "lower source"
  let ?w = "w\<lparr>live := saved w\<rparr>"
  obtain d as items w1 tss w2 where v: "v = VDict d" and batch: "normalized_batch A ?s v = Inr as" and as: "as \<noteq> []"
      and run: "map_act (ingest_item A ?s) as ?w = (Inr items, w1)"
      and after: "map_act (after_created A) (map snd (filter (\<lambda>(i, inc). \<not> ii_duplicate i) items)) (w1\<lparr>saved := live w1\<rparr>) = (Inr tss, w2)"
      and r: "r = ingestion_response (map fst items)" and ts: "ts = concat tss" and w': "w' = w2\<lparr>live := saved w2\<rparr>"
    using assms(4)
    by (auto simp: serve_def get_session_run answer_with_def ingest_def Let_def andthen_Inr body_dict split: prod.splits
        dest!: ingest_batch_Inr)
  have "kept.keeps (incidents (live w1)) (alerts (live w1)) (map_act (after_created A) incs)" for incs
    by (intro kept.keeps_rules kept.keeps_after_created)
  from kept.keeps_run[OF this _ after] have "more_rows (live w1) (saved w')"
    by (simp add: kept.winv_def more_rows_def w')
  then have "list_all2 (\<lambda>a (i, inc). stored_item ?s (saved w') a i inc) as items"
    using batch_stored[OF assms(1,2) world_ok_reset[OF assms(3)] run] by (elim list_all2_mono) (auto elim: stored_item_more)
  with v batch as after r ts show thesis by (intro that) (simp_all add: w')
qed

subsection \<open>Properties\<close>

text \<open>C10. A webhook delivery that succeeded can be repeated: the second delivery of the whole batch names the
  same incidents, in the same order and with the same data, marks every alert as a duplicate, notifies nobody,
  queues nothing and stores nothing.\<close>

theorem webhook_redelivery:
  assumes "app_ok A" and "\<And>w. more_rows (live w) (live (ap_rival A w))" and "world_ok (ap_env A) w"
    and "serve A (Ingest source v) w = (Inr (AIngestion r, ts), w')"
  shows "serve A (Ingest source v) w' =
    (Inr (AIngestion \<lparr>in_incident = in_incident r, in_duplicate = True, in_results = map as_duplicate (in_results r)\<rparr>, []), w')"
proof -
  obtain d as items w1 tss w2 where v: "v = VDict d" and batch: "normalized_batch A (lower source) v = Inr as" and as: "as \<noteq> []"
      and r: "r = ingestion_response (map fst items)" and same: "live w' = saved w'"
      and stored: "list_all2 (\<lambda>a (i, inc). stored_item (lower source) (saved w') a i inc) as items"
    using delivery_parts[OF assms] by metis
  have ne: "items \<noteq> []" using stored as by auto
  have "store.keeps (ap_env A) (serve A (Ingest source v))" using keeps_serve assms(1) by (simp add: app_ok_def)
  from keeps_run_world[OF this assms(3)] assms(4) have ok: "world_ok (ap_env A) w'" by simp
  from ingest_batch_run[OF batch batch_again[OF ok stored[folded same]]] same
  have again: "ingest_batch A (lower source) v w' = (Inr (map (\<lambda>(i, inc). (as_duplicate i, inc)) items), w')" by simp
  have fresh: "w'\<lparr>live := saved w'\<rparr> = w'" using same by (metis world.surjective world.update_convs(1))
  have none: "filter (\<lambda>(i, inc). \<not> ii_duplicate i) (map (\<lambda>(i, inc). (as_duplicate i, inc)) items) = []"
    by (auto simp: filter_empty_conv as_duplicate_def)
  have "map fst (map (\<lambda>(i, inc). (as_duplicate i, inc)) items) = map as_duplicate (map fst items)" by auto
  then have "ingestion_response (map fst (map (\<lambda>(i, inc). (as_duplicate i, inc)) items)) =
      \<lparr>in_incident = in_incident r, in_duplicate = True, in_results = map as_duplicate (in_results r)\<rparr>"
    using ne by (cases items) (auto simp: r ingestion_response_def as_duplicate_def list_all_iff)
  with again none show ?thesis
    by (simp add: serve_def get_session_run fresh answer_with_def ingest_def Let_def andthen_def body_def dict_body_def v)
qed

theorem webhook_redelivery_witness:
  "\<exists>r ts w'. serve sample_app (Ingest ''zabbix'' sample_webhook) new_world = (Inr (AIngestion r, ts), w') \<and> \<not> in_duplicate r \<and>
     (\<exists>r'. serve sample_app (Ingest ''zabbix'' sample_webhook) w' = (Inr (AIngestion r', []), w') \<and> in_duplicate r')"
proof -
  obtain i ts w' where run: "serve sample_app (Ingest ''zabbix'' sample_webhook) new_world = (Inr (AIngestion (ingestion_response [i]), ts), w')"
      and i: "\<not> ii_duplicate i" using sample_delivery by blast
  have "\<And>w. more_rows (live w) (live (ap_rival sample_app w))" "world_ok (ap_env sample_app) new_world"
    using sample_hyps by (simp_all add: sample_app_def more_rows_refl)
  from webhook_redelivery[OF sample_app_ok this run] run i show ?thesis
    by (auto simp: ingestion_response_def)
qed



end
