(* ===== verification/Migration.thy ===== *)
theory Migration
  imports Models
begin

text \<open>
  \<open>migrations/versions/0001_initial.py\<close> and the metadata of \<open>app/repository/models.py\<close>: tables, columns,
  constraints and indexes as values, the operations of the migration as partial functions on a schema, and
  what relates the migrated schema to the declared one. \<open>create_demo_schema\<close> creates the latter.
\<close>

subsection \<open>Schemas\<close>

text \<open>\<open>VectorOrJson\<close> is \<open>Vector()\<close> with its SQLite variant; \<open>UTCDateTime\<close> is stored as its \<open>impl\<close>.\<close>

datatype sql_type = VarChar nat | TextType | TimestampTz | VectorOrJson | JsonType | FloatType | IntegerType | BooleanType

text \<open>A reference names the table, its column and what deletion does.\<close>

record column =
  col_name :: str
  col_type :: sql_type
  col_primary :: bool
  col_nullable :: bool
  col_unique :: bool
  col_reference :: "(str \<times> str \<times> str) option"

record sql_table =
  tb_name :: str
  tb_columns :: "column list"
  tb_uniques :: "(str \<times> str list) list"

record sql_index =
  ix_name :: str
  ix_table :: str
  ix_columns :: "str list"

record schema =
  sc_extensions :: "str list"
  sc_tables :: "sql_table list"
  sc_indexes :: "sql_index list"

definition empty_schema :: schema where
  "empty_schema = \<lparr>sc_extensions = [], sc_tables = [], sc_indexes = []\<rparr>"

definition table_names :: "schema \<Rightarrow> str set" where
  "table_names S = tb_name ` set (sc_tables S)"

text \<open>The tables that the columns of a table refer to.\<close>

definition references :: "sql_table \<Rightarrow> str set" where
  "references t = (\<Union>c \<in> set (tb_columns t). fst ` set_option (col_reference c))"

subsection \<open>Operations\<close>

text \<open>\<open>None\<close> is the error of the database, which aborts the transaction of the migration.\<close>

type_synonym operation = "schema \<Rightarrow> schema option"

definition create_table :: "sql_table \<Rightarrow> operation" where
  "create_table t S =
     (if tb_name t \<notin> table_names S \<and> references t \<subseteq> table_names S
      then Some (S\<lparr>sc_tables := sc_tables S @ [t]\<rparr>) else None)"

definition create_index :: "sql_index \<Rightarrow> operation" where
  "create_index i S =
     (if ix_name i \<notin> ix_name ` set (sc_indexes S) \<and>
         (\<exists>t \<in> set (sc_tables S). tb_name t = ix_table i \<and> set (ix_columns i) \<subseteq> col_name ` set (tb_columns t))
      then Some (S\<lparr>sc_indexes := sc_indexes S @ [i]\<rparr>) else None)"

text \<open>A table goes with its indexes, unless another table refers to it.\<close>

definition drop_table :: "str \<Rightarrow> operation" where
  "drop_table n S =
     (if n \<in> table_names S \<and> (\<forall>t \<in> set (sc_tables S). tb_name t = n \<or> n \<notin> references t)
      then Some (S\<lparr>sc_tables := filter (\<lambda>t. tb_name t \<noteq> n) (sc_tables S),
                   sc_indexes := filter (\<lambda>i. ix_table i \<noteq> n) (sc_indexes S)\<rparr>) else None)"

definition create_extension :: "str \<Rightarrow> operation" where
  "create_extension e S = Some (if e \<in> set (sc_extensions S) then S else S\<lparr>sc_extensions := sc_extensions S @ [e]\<rparr>)"

fun run_all :: "operation list \<Rightarrow> operation" where
  "run_all [] S = Some S"
| "run_all (f # fs) S = (case f S of None \<Rightarrow> None | Some S' \<Rightarrow> run_all fs S')"

subsection \<open>The migration\<close>

definition plain_column :: "str \<Rightarrow> sql_type \<Rightarrow> bool \<Rightarrow> column" where
  "plain_column n ty null = \<lparr>col_name = n, col_type = ty, col_primary = False, col_nullable = null,
     col_unique = False, col_reference = None\<rparr>"

definition key_column :: "str \<Rightarrow> nat \<Rightarrow> column" where
  "key_column n k = \<lparr>col_name = n, col_type = VarChar k, col_primary = True, col_nullable = False,
     col_unique = False, col_reference = None\<rparr>"

definition identifier_column :: column where
  "identifier_column = key_column ''id'' 36"

definition incident_id_column :: "bool \<Rightarrow> column" where
  "incident_id_column unique = \<lparr>col_name = ''incident_id'', col_type = VarChar 36, col_primary = False,
     col_nullable = False, col_unique = unique, col_reference = Some (''incidents'', ''id'', ''CASCADE'')\<rparr>"

definition timestamp_column :: "str \<Rightarrow> bool \<Rightarrow> column" where
  "timestamp_column n null = plain_column n TimestampTz null"

definition make_table :: "str \<Rightarrow> column list \<Rightarrow> (str \<times> str list) list \<Rightarrow> sql_table" where
  "make_table n cs us = \<lparr>tb_name = n, tb_columns = cs, tb_uniques = us\<rparr>"

definition index_on :: "str \<Rightarrow> str \<Rightarrow> str list \<Rightarrow> sql_index" where
  "index_on n t cs = \<lparr>ix_name = n, ix_table = t, ix_columns = cs\<rparr>"

definition upgrade_incidents :: "operation list" where
  "upgrade_incidents =
     create_table (make_table ''incidents''
       [identifier_column, plain_column ''title'' (VarChar 240) False, plain_column ''service'' (VarChar 120) False,
        plain_column ''severity'' (VarChar 16) False, plain_column ''status'' (VarChar 24) False,
        plain_column ''description'' TextType False, timestamp_column ''created_at'' False,
        timestamp_column ''updated_at'' False, timestamp_column ''acknowledged_at'' True,
        timestamp_column ''resolved_at'' True, plain_column ''embedding'' VectorOrJson True,
        plain_column ''embedding_model'' (VarChar 120) True] [])
     # map (\<lambda>c. create_index (index_on (''ix_incidents_'' @ c) ''incidents'' [c]))
         [''service'', ''severity'', ''status'', ''created_at'']"

definition upgrade_alerts :: "operation list" where
  "upgrade_alerts =
     [create_table (make_table ''alerts''
       [identifier_column, incident_id_column False, plain_column ''source'' (VarChar 32) False,
        plain_column ''external_id'' (VarChar 512) False, plain_column ''title'' (VarChar 240) False,
        plain_column ''service'' (VarChar 120) False, plain_column ''severity'' (VarChar 16) False,
        plain_column ''description'' TextType False, timestamp_column ''received_at'' False]
       [(''uq_alert_source_external'', [''source'', ''external_id''])]),
      create_index (index_on ''ix_alerts_incident_id'' ''alerts'' [''incident_id''])]"

definition upgrade_history :: "operation list" where
  "upgrade_history =
     [create_table (make_table ''log_entries''
       [identifier_column, incident_id_column False, timestamp_column ''timestamp'' False,
        plain_column ''level'' (VarChar 16) False, plain_column ''message'' TextType False] []),
      create_index (index_on ''ix_log_incident_timestamp'' ''log_entries'' [''incident_id'', ''timestamp'']),
      create_table (make_table ''timeline_events''
       [identifier_column, incident_id_column False, plain_column ''kind'' (VarChar 32) False,
        plain_column ''message'' TextType False, timestamp_column ''created_at'' False] []),
      create_index (index_on ''ix_timeline_events_incident_id'' ''timeline_events'' [''incident_id''])]"

definition upgrade_analyses :: "operation list" where
  "upgrade_analyses =
     [create_table (make_table ''analyses''
       [identifier_column, incident_id_column False, plain_column ''summary'' TextType False,
        plain_column ''probable_cause'' TextType False, plain_column ''confidence'' FloatType False,
        plain_column ''evidence'' JsonType False, plain_column ''remediation_steps'' JsonType False,
        plain_column ''caveats'' JsonType False, plain_column ''provider'' (VarChar 64) False,
        plain_column ''is_fallback'' BooleanType False, timestamp_column ''created_at'' False] []),
      create_index (index_on ''ix_analyses_incident_id'' ''analyses'' [''incident_id'']),
      create_index (index_on ''ix_analyses_created_at'' ''analyses'' [''created_at''])]"

definition upgrade_exports :: "operation list" where
  "upgrade_exports =
     [create_table (make_table ''postmortems''
       [identifier_column, incident_id_column True, plain_column ''markdown'' TextType False,
        plain_column ''version'' IntegerType False, timestamp_column ''created_at'' False,
        timestamp_column ''updated_at'' False, plain_column ''jira_issue_key'' (VarChar 120) True,
        plain_column ''jira_issue_url'' TextType True, plain_column ''confluence_url'' TextType True] []),
      create_table (make_table ''exports''
       [identifier_column, incident_id_column False, plain_column ''destination'' (VarChar 24) False,
        plain_column ''external_id'' (VarChar 120) False, plain_column ''url'' TextType False,
        plain_column ''is_demo'' BooleanType False, timestamp_column ''created_at'' False]
       [(''uq_export_destination'', [''incident_id'', ''destination''])]),
      create_index (index_on ''ix_exports_incident_id'' ''exports'' [''incident_id''])]"

definition upgrade_work :: "operation list" where
  "upgrade_work =
     [create_table (make_table ''devices''
       [key_column ''token'' 512, plain_column ''platform'' (VarChar 16) False,
        plain_column ''environment'' (VarChar 16) False, timestamp_column ''created_at'' False] []),
      create_table (make_table ''jobs''
       [identifier_column, incident_id_column False, plain_column ''status'' (VarChar 24) False,
        plain_column ''result'' JsonType True, plain_column ''error'' TextType True,
        timestamp_column ''created_at'' False, timestamp_column ''updated_at'' False] []),
      create_index (index_on ''ix_jobs_incident_id'' ''jobs'' [''incident_id''])]"

definition upgrade :: "str \<Rightarrow> operation" where
  "upgrade dialect = run_all
     ((if dialect = ''postgresql'' then [create_extension ''vector''] else []) @
      upgrade_incidents @ upgrade_alerts @ upgrade_history @ upgrade_analyses @ upgrade_exports @ upgrade_work)"

definition downgrade :: operation where
  "downgrade = run_all (map drop_table
     [''jobs'', ''devices'', ''exports'', ''postmortems'', ''analyses'', ''timeline_events'', ''log_entries'',
      ''alerts'', ''incidents''])"

subsection \<open>The declared schema\<close>

text \<open>A mapped class: its columns, those with \<open>index=True\<close> marked, and the constraints and indexes of
  \<open>__table_args__\<close>. SQLAlchemy names the index of a marked column after the table and the column.\<close>

record model =
  md_table :: str
  md_columns :: "(column \<times> bool) list"
  md_uniques :: "(str \<times> str list) list"
  md_indexes :: "(str \<times> str list) list"

definition mapped :: "str \<Rightarrow> sql_type \<Rightarrow> column \<times> bool" where
  "mapped n ty = (plain_column n ty False, False)"

definition mapped_optional :: "str \<Rightarrow> sql_type \<Rightarrow> column \<times> bool" where
  "mapped_optional n ty = (plain_column n ty True, False)"

definition indexed :: "column \<times> bool \<Rightarrow> column \<times> bool" where
  "indexed c = (fst c, True)"

definition foreign_key :: "bool \<Rightarrow> column \<times> bool" where
  "foreign_key unique = (incident_id_column unique, False)"

definition identifier_key :: "column \<times> bool" where
  "identifier_key = (key_column ''id'' 36, False)"

definition incident_model :: model where
  "incident_model = \<lparr>md_table = ''incidents'', md_columns =
     [identifier_key, mapped ''title'' (VarChar 240), indexed (mapped ''service'' (VarChar 120)),
      indexed (mapped ''severity'' (VarChar 16)), indexed (mapped ''status'' (VarChar 24)),
      mapped ''description'' TextType, indexed (mapped ''created_at'' TimestampTz), mapped ''updated_at'' TimestampTz,
      mapped_optional ''acknowledged_at'' TimestampTz, mapped_optional ''resolved_at'' TimestampTz,
      mapped_optional ''embedding'' VectorOrJson, mapped_optional ''embedding_model'' (VarChar 120)],
     md_uniques = [], md_indexes = []\<rparr>"

definition alert_model :: model where
  "alert_model = \<lparr>md_table = ''alerts'', md_columns =
     [identifier_key, indexed (foreign_key False), mapped ''source'' (VarChar 32), mapped ''external_id'' (VarChar 512),
      mapped ''title'' (VarChar 240), mapped ''service'' (VarChar 120), mapped ''severity'' (VarChar 16),
      mapped ''description'' TextType, mapped ''received_at'' TimestampTz],
     md_uniques = [(''uq_alert_source_external'', [''source'', ''external_id''])], md_indexes = []\<rparr>"

definition log_model :: model where
  "log_model = \<lparr>md_table = ''log_entries'', md_columns =
     [identifier_key, foreign_key False, mapped ''timestamp'' TimestampTz, mapped ''level'' (VarChar 16),
      mapped ''message'' TextType],
     md_uniques = [], md_indexes = [(''ix_log_incident_timestamp'', [''incident_id'', ''timestamp''])]\<rparr>"

definition event_model :: model where
  "event_model = \<lparr>md_table = ''timeline_events'', md_columns =
     [identifier_key, indexed (foreign_key False), mapped ''kind'' (VarChar 32), mapped ''message'' TextType,
      mapped ''created_at'' TimestampTz], md_uniques = [], md_indexes = []\<rparr>"

definition analysis_model :: model where
  "analysis_model = \<lparr>md_table = ''analyses'', md_columns =
     [identifier_key, indexed (foreign_key False), mapped ''summary'' TextType, mapped ''probable_cause'' TextType,
      mapped ''confidence'' FloatType, mapped ''evidence'' JsonType, mapped ''remediation_steps'' JsonType,
      mapped ''caveats'' JsonType, mapped ''provider'' (VarChar 64), mapped ''is_fallback'' BooleanType,
      indexed (mapped ''created_at'' TimestampTz)], md_uniques = [], md_indexes = []\<rparr>"

definition postmortem_model :: model where
  "postmortem_model = \<lparr>md_table = ''postmortems'', md_columns =
     [identifier_key, foreign_key True, mapped ''markdown'' TextType, mapped ''version'' IntegerType,
      mapped ''created_at'' TimestampTz, mapped ''updated_at'' TimestampTz,
      mapped_optional ''jira_issue_key'' (VarChar 120), mapped_optional ''jira_issue_url'' TextType,
      mapped_optional ''confluence_url'' TextType], md_uniques = [], md_indexes = []\<rparr>"

definition export_model :: model where
  "export_model = \<lparr>md_table = ''exports'', md_columns =
     [identifier_key, indexed (foreign_key False), mapped ''destination'' (VarChar 24),
      mapped ''external_id'' (VarChar 120), mapped ''url'' TextType, mapped ''is_demo'' BooleanType,
      mapped ''created_at'' TimestampTz],
     md_uniques = [(''uq_export_destination'', [''incident_id'', ''destination''])], md_indexes = []\<rparr>"

definition device_model :: model where
  "device_model = \<lparr>md_table = ''devices'', md_columns =
     [(key_column ''token'' 512, False), mapped ''platform'' (VarChar 16), mapped ''environment'' (VarChar 16),
      mapped ''created_at'' TimestampTz], md_uniques = [], md_indexes = []\<rparr>"

definition job_model :: model where
  "job_model = \<lparr>md_table = ''jobs'', md_columns =
     [identifier_key, indexed (foreign_key False), mapped ''status'' (VarChar 24), mapped_optional ''result'' JsonType,
      mapped_optional ''error'' TextType, mapped ''created_at'' TimestampTz, mapped ''updated_at'' TimestampTz],
     md_uniques = [], md_indexes = []\<rparr>"

definition metadata :: "model list" where
  "metadata = [incident_model, alert_model, log_model, event_model, analysis_model, postmortem_model, export_model,
     device_model, job_model]"

definition table_of :: "model \<Rightarrow> sql_table" where
  "table_of m = make_table (md_table m) (map fst (md_columns m)) (md_uniques m)"

definition indexes_of :: "model \<Rightarrow> sql_index list" where
  "indexes_of m =
     map (\<lambda>(c, i). index_on (''ix_'' @ md_table m @ ''_'' @ col_name c) (md_table m) [col_name c]) (filter snd (md_columns m)) @
     map (\<lambda>(n, cs). index_on n (md_table m) cs) (md_indexes m)"

text \<open>\<open>create_all\<close> creates the tables that are missing, each with its indexes.\<close>

definition create_missing :: "model \<Rightarrow> operation" where
  "create_missing m S =
     (if md_table m \<in> table_names S then Some S
      else run_all (create_table (table_of m) # map create_index (indexes_of m)) S)"

definition create_all :: operation where
  "create_all = run_all (map create_missing metadata)"

definition create_demo_schema :: "str \<Rightarrow> operation" where
  "create_demo_schema dialect S = (if dialect = ''sqlite'' then create_all S else Some S)"

subsection \<open>What the operations do\<close>

lemma run_all_append: "run_all (fs @ gs) S = (case run_all fs S of None \<Rightarrow> None | Some S' \<Rightarrow> run_all gs S')"
  by (induction fs arbitrary: S) (auto split: option.splits)

lemmas columns_defs = plain_column_def key_column_def identifier_column_def incident_id_column_def
  timestamp_column_def make_table_def index_on_def

lemmas upgrade_defs = upgrade_incidents_def upgrade_alerts_def upgrade_history_def upgrade_analyses_def
  upgrade_exports_def upgrade_work_def

lemmas model_defs = incident_model_def alert_model_def log_model_def event_model_def analysis_model_def
  postmortem_model_def export_model_def device_model_def job_model_def

text \<open>The schema a list of models declares.\<close>

definition declared :: "model list \<Rightarrow> schema" where
  "declared ms = \<lparr>sc_extensions = [], sc_tables = map table_of ms, sc_indexes = concat (map indexes_of ms)\<rparr>"

lemma create_table_Some:
  "create_table t S = Some S' \<longleftrightarrow>
     tb_name t \<notin> table_names S \<and> references t \<subseteq> table_names S \<and> S' = S\<lparr>sc_tables := sc_tables S @ [t]\<rparr>"
  by (auto simp: create_table_def)

lemma create_index_Some:
  "create_index i S = Some S' \<Longrightarrow> ix_table i \<in> table_names S \<and> S' = S\<lparr>sc_indexes := sc_indexes S @ [i]\<rparr>"
  by (simp add: create_index_def table_names_def split: if_splits) (metis imageI)

text \<open>References and indexes resolve.\<close>

definition closed :: "schema \<Rightarrow> bool" where
  "closed S = ((\<forall>t \<in> set (sc_tables S). references t \<subseteq> table_names S) \<and> (\<forall>i \<in> set (sc_indexes S). ix_table i \<in> table_names S))"

lemma closed_create_table: "closed S \<Longrightarrow> create_table t S = Some S' \<Longrightarrow> closed S'"
  by (auto simp: create_table_Some closed_def table_names_def)

text \<open>A table with its indexes.\<close>

definition add_table :: "sql_table \<Rightarrow> sql_index list \<Rightarrow> operation" where
  "add_table t is = run_all (create_table t # map create_index is)"

lemma create_indexes_Some:
  "run_all (map create_index is) S = Some S' \<Longrightarrow> S' = S\<lparr>sc_indexes := sc_indexes S @ is\<rparr> \<and> ix_table ` set is \<subseteq> table_names S"
proof (induction "is" arbitrary: S)
  case (Cons i is')
  obtain S1 where "create_index i S = Some S1" and run: "run_all (map create_index is') S1 = Some S'"
    using Cons.prems by (auto split: option.splits)
  then have "ix_table i \<in> table_names S" and "S1 = S\<lparr>sc_indexes := sc_indexes S @ [i]\<rparr>"
    by (auto dest: create_index_Some)
  with Cons.IH[OF run] show ?case by (simp add: table_names_def)
qed simp

lemma add_table_Some:
  "add_table t is S = Some S' \<Longrightarrow> tb_name t \<notin> table_names S \<and> references t \<subseteq> table_names S \<and>
     S' = S\<lparr>sc_tables := sc_tables S @ [t], sc_indexes := sc_indexes S @ is\<rparr> \<and>
     ix_table ` set is \<subseteq> insert (tb_name t) (table_names S)"
  by (auto simp: add_table_def create_table_Some table_names_def split: option.splits dest!: create_indexes_Some)

lemma closed_add_table: "closed S \<Longrightarrow> add_table t is S = Some S' \<Longrightarrow> closed S'"
  by (drule add_table_Some) (auto simp: closed_def table_names_def)

text \<open>Dropping the table that was added last gives the schema before.\<close>

lemma drop_added:
  assumes "closed S" and "add_table t is S = Some S'" and "\<forall>i \<in> set is. ix_table i = tb_name t"
  shows "drop_table (tb_name t) S' = Some S"
proof -
  note S' = add_table_Some[OF assms(2)]
  have "filter (\<lambda>u. tb_name u \<noteq> tb_name t) (sc_tables S) = sc_tables S"
    using S' by (simp add: filter_id_conv table_names_def) (metis imageI)
  moreover have "filter (\<lambda>i. ix_table i \<noteq> tb_name t) (sc_indexes S @ is) = sc_indexes S"
    using S' assms(1,3) by (auto simp: filter_id_conv closed_def filter_empty_conv)
  moreover have "tb_name t \<notin> references u" if "u \<in> set (sc_tables S)" for u
    using S' assms(1) that by (auto simp: closed_def)
  ultimately show ?thesis using S' by (auto simp: drop_table_def table_names_def)
qed

definition add_tables :: "(sql_table \<times> sql_index list) list \<Rightarrow> operation" where
  "add_tables ts = run_all (map (\<lambda>(t, is). add_table t is) ts)"

lemma drop_all_added:
  assumes "closed S" and "add_tables ts S = Some S'" and "\<forall>(t, is) \<in> set ts. \<forall>i \<in> set is. ix_table i = tb_name t"
  shows "run_all (map drop_table (rev (map (tb_name \<circ> fst) ts))) S' = Some S"
  using assms
proof (induction ts arbitrary: S)
  case (Cons p ts)
  obtain t "is" where p: "p = (t, is)" by (cases p)
  obtain S1 where S1: "add_table t is S = Some S1" "add_tables ts S1 = Some S'"
    using Cons.prems(2) by (auto simp: add_tables_def p split: option.splits)
  have "run_all (map drop_table (rev (map (tb_name \<circ> fst) ts))) S' = Some S1"
    by (rule Cons.IH[OF closed_add_table[OF Cons.prems(1) S1(1)] S1(2)]) (use Cons.prems(3) in simp)
  moreover have "drop_table (tb_name t) S1 = Some S"
    using drop_added[OF Cons.prems(1) S1(1)] Cons.prems(3) by (simp add: p)
  ultimately show ?case by (simp add: run_all_append p comp_def)
qed (simp add: add_tables_def)

text \<open>The migration adds the declared tables one after the other.\<close>

definition declared_tables :: "(sql_table \<times> sql_index list) list" where
  "declared_tables = map (\<lambda>m. (table_of m, indexes_of m)) metadata"

lemma run_concat: "run_all (concat (map f xs)) = run_all (map (\<lambda>x. run_all (f x)) xs)"
proof
  show "run_all (concat (map f xs)) S = run_all (map (\<lambda>x. run_all (f x)) xs) S" for S
    by (induction xs arbitrary: S) (auto simp: run_all_append split: option.splits)
qed

lemma add_tables_steps:
  "add_tables ts = run_all (concat (map (\<lambda>(t, is). create_table t # map create_index is) ts))"
  unfolding run_concat add_tables_def by (intro arg_cong[where f = run_all] map_cong refl) (auto simp: add_table_def)

lemma upgrade_steps:
  "upgrade_incidents @ upgrade_alerts @ upgrade_history @ upgrade_analyses @ upgrade_exports @ upgrade_work =
     concat (map (\<lambda>(t, is). create_table t # map create_index is) declared_tables)"
  by (simp add: upgrade_defs declared_tables_def metadata_def table_of_def indexes_of_def model_defs columns_defs
      mapped_def mapped_optional_def indexed_def foreign_key_def identifier_key_def)

lemma upgrade_run:
  "upgrade dialect S = add_tables declared_tables
     (if dialect = ''postgresql'' then the (create_extension ''vector'' S) else S)"
  by (simp add: upgrade_def upgrade_steps add_tables_steps create_extension_def)

lemma declared_added:
  "add_tables declared_tables \<lparr>sc_extensions = [], sc_tables = [], sc_indexes = []\<rparr> = Some (declared metadata)"
  "add_tables declared_tables \<lparr>sc_extensions = [''vector''], sc_tables = [], sc_indexes = []\<rparr> =
     Some ((declared metadata)\<lparr>sc_extensions := [''vector'']\<rparr>)"
  by code_simp+

lemma declared_names: "rev (map (tb_name \<circ> fst) declared_tables) =
    [''jobs'', ''devices'', ''exports'', ''postmortems'', ''analyses'', ''timeline_events'', ''log_entries'', ''alerts'', ''incidents'']"
  by code_simp

lemma declared_indexes: "\<forall>(t, is) \<in> set declared_tables. \<forall>i \<in> set is. ix_table i = tb_name t"
  by code_simp

lemma add_tables_extensions: "add_tables ts S = Some S' \<Longrightarrow> sc_extensions S' = sc_extensions S"
proof (induction ts arbitrary: S)
  case (Cons p ts)
  then show ?case
    by (cases p) (auto simp: add_tables_def split: option.splits dest!: add_table_Some)
qed (simp add: add_tables_def)

lemma demo_schema_present:
  assumes "md_table ` set metadata \<subseteq> table_names S"
  shows "create_demo_schema dialect S = Some S"
proof -
  have "run_all (map create_missing ms) S = Some S" if "md_table ` set ms \<subseteq> table_names S" for ms
    using that by (induction ms) (auto simp: create_missing_def)
  with assms show ?thesis by (simp add: create_demo_schema_def create_all_def)
qed

lemma migrated_schema:
  "\<exists>S. upgrade dialect empty_schema = Some S \<and> sc_tables S = map table_of metadata"
  using declared_added by (simp add: upgrade_run create_extension_def empty_schema_def declared_def)

subsection \<open>Properties\<close>

text \<open>C39. The migration and the mapped classes describe the same schema: every table with its columns, types,
  nullability, keys, unique constraints, references and indexes. A database that was migrated is left alone when
  the demonstration schema is created over it.\<close>

theorem migration_matches_models:
  "\<exists>S. upgrade dialect empty_schema = Some S \<and> sc_tables S = map table_of metadata \<and>
     sc_indexes S = concat (map indexes_of metadata) \<and> create_demo_schema dialect' S = Some S"
proof -
  let ?e = "if dialect = ''postgresql'' then [''vector''] else []"
  let ?S = "(declared metadata)\<lparr>sc_extensions := ?e\<rparr>"
  have "upgrade dialect empty_schema = Some ?S"
    using declared_added by (simp add: upgrade_run create_extension_def empty_schema_def) (simp add: declared_def)
  moreover have "create_demo_schema dialect' ?S = Some ?S"
    by (rule demo_schema_present) (force simp: declared_def table_names_def table_of_def make_table_def image_iff)
  ultimately show ?thesis by (auto simp: declared_def)
qed

text \<open>Going back undoes the migration: whatever a database holds, a migration that succeeds followed by its
  reversal succeeds and leaves the tables and indexes as they were, apart from the vector extension, which is
  left installed.\<close>

lemma migration_reverses:
  assumes "closed S" and "upgrade dialect S = Some S'"
  shows "\<exists>S''. downgrade S' = Some S'' \<and> sc_tables S'' = sc_tables S \<and> sc_indexes S'' = sc_indexes S \<and>
    sc_extensions S'' = sc_extensions S'"
proof -
  let ?S = "if dialect = ''postgresql'' then the (create_extension ''vector'' S) else S"
  have same: "sc_tables ?S = sc_tables S" "sc_indexes ?S = sc_indexes S" by (simp_all add: create_extension_def)
  have added: "add_tables declared_tables ?S = Some S'" using assms(2) by (simp add: upgrade_run)
  have "closed ?S" using assms(1) by (simp add: closed_def table_names_def same)
  from drop_all_added[OF this added declared_indexes] have "downgrade S' = Some ?S"
    by (simp add: downgrade_def declared_names)
  with same add_tables_extensions[OF added] show ?thesis by auto
qed

lemma migration_reverses_example:
  "\<exists>S' S''. upgrade ''postgresql'' empty_schema = Some S' \<and> length (sc_tables S') = 9 \<and>
     downgrade S' = Some S'' \<and> sc_tables S'' = []"
proof -
  obtain S' where S': "upgrade ''postgresql'' empty_schema = Some S'" "sc_tables S' = map table_of metadata"
    using migrated_schema by blast
  have "closed empty_schema" by (simp add: closed_def empty_schema_def)
  from migration_reverses[OF this S'(1)] S' show ?thesis
    by (auto simp: metadata_def empty_schema_def)
qed

end
