(* ===== verification/Telemetry.thy ===== *)
theory Telemetry
  imports Json PyTime
begin

text \<open>
  \<open>app/core/telemetry.py\<close>: the JSON log formatter, and the hook that keeps paths with their identifiers and
  tokens out of traces. The counters of \<open>Metrics\<close> are part of the middleware's state.
\<close>

subsection \<open>Log lines\<close>

text \<open>A \<open>LogRecord\<close> with its formatted message and the attributes that \<open>extra\<close> gave it.\<close>

record log_record =
  lr_level :: str
  lr_name :: str
  lr_message :: str
  lr_extra :: "(str \<times> pyval) list"

definition log_fields :: "str list" where
  "log_fields = [''correlation_id'', ''method'', ''path'', ''status'', ''duration_ms'', ''provider'', ''error_type'',
     ''destination'', ''status_code'', ''reason'', ''device_count'']"

definition log_payload :: "time \<Rightarrow> log_record \<Rightarrow> dict" where
  "log_payload now r =
     [(''timestamp'', VStr (isoformat now)), (''level'', VStr (lr_level r)), (''logger'', VStr (lr_name r)),
      (''message'', VStr (lr_message r))] @
     concat (map (\<lambda>n. case map_of (lr_extra r) n of None \<Rightarrow> [] | Some v \<Rightarrow> [(n, v)]) log_fields)"

definition format_record :: "time \<Rightarrow> log_record \<Rightarrow> str" where
  "format_record now r = dumps dump_default (VDict (log_payload now r))"

text \<open>The loggers, of which the set-up changes four: levels are 20 for \<open>INFO\<close>, 30 for \<open>WARNING\<close>; a handler is named by
  its formatter.\<close>

record logger =
  lo_disabled :: bool
  lo_level :: nat
  lo_handlers :: "str list"
  lo_propagate :: bool

definition configure_logging :: "(str \<Rightarrow> logger) \<Rightarrow> str \<Rightarrow> logger" where
  "configure_logging L = L(
     ''uvicorn.access'' := (L ''uvicorn.access'')\<lparr>lo_disabled := True\<rparr>,
     ''httpx'' := (L ''httpx'')\<lparr>lo_level := 30\<rparr>,
     ''httpcore'' := (L ''httpcore'')\<lparr>lo_level := 30\<rparr>,
     ''incident_ai'' := (L ''incident_ai'')\<lparr>lo_handlers := [''JSONFormatter''], lo_level := 20, lo_propagate := False\<rparr>)"

text \<open>Configured twice, every line of the service is still written once.\<close>

lemma configure_logging_idempotent: "configure_logging (configure_logging L) = configure_logging L"
  by (simp add: configure_logging_def fun_eq_iff)

lemma configure_logging_other:
  "k \<notin> {''uvicorn.access'', ''httpx'', ''httpcore'', ''incident_ai''} \<Longrightarrow> configure_logging L k = L k"
  by (simp add: configure_logging_def)

subsection \<open>Metrics\<close>

text \<open>The families of the registry with their labels; their values are the state of the middleware.\<close>

definition metric_families :: "(str \<times> str list) list" where
  "metric_families = [(''incident_ai_http_requests_total'', [''method'', ''path'', ''status'']),
     (''incident_ai_http_request_duration_seconds'', [''method'', ''path''])]"

subsection \<open>Traces\<close>

text \<open>How a route matches the scope of a request, the route table, and a span with its attributes.\<close>

datatype route_match = NoMatch | PartialMatch | FullMatch

record scope =
  scope_method :: "str option"
  scope_path :: str

type_synonym base_route = "(scope \<Rightarrow> route_match) \<times> str option"

record span =
  sp_recording :: bool
  sp_name :: str
  sp_attributes :: "str \<rightharpoonup> str"

text \<open>The template of the first route that matches, fully or in part; a route without a path counts as
  unmatched.\<close>

fun traced_path :: "base_route list \<Rightarrow> scope \<Rightarrow> str" where
  "traced_path [] s = ''/unmatched''"
| "traced_path ((matches, path) # rs) s =
     (if matches s = NoMatch then traced_path rs s
      else case path of None \<Rightarrow> ''/unmatched'' | Some p \<Rightarrow> p)"

definition scrub_trace_request :: "span \<Rightarrow> scope \<Rightarrow> base_route list \<Rightarrow> span" where
  "scrub_trace_request sp s rs =
     (if \<not> sp_recording sp then sp
      else let path = traced_path rs s; url = ''http://incident-ai'' @ path
        in sp\<lparr>sp_name := (case scope_method s of None \<Rightarrow> ''HTTP'' | Some m \<Rightarrow> m) @ '' '' @ path,
             sp_attributes := (sp_attributes sp)(''http.url'' \<mapsto> url, ''url.full'' \<mapsto> url, ''http.target'' \<mapsto> path,
               ''url.path'' \<mapsto> path, ''url.query'' \<mapsto> [])\<rparr>)"

subsection \<open>Lemmas\<close>

lemma log_payload_json_ok:
  assumes "\<forall>(n, v) \<in> set (lr_extra r). json_ok fl v"
  shows "json_ok fl (VDict (log_payload now r))"
proof -
  let ?f = "\<lambda>n. case map_of (lr_extra r) n of None \<Rightarrow> [] | Some v \<Rightarrow> [(n, v)]"
  have "map fst (concat (map ?f ns)) = filter (\<lambda>n. map_of (lr_extra r) n \<noteq> None) ns" for ns
    by (induction ns) (auto split: option.splits)
  then have names: "map fst (log_payload now r) = [''timestamp'', ''level'', ''logger'', ''message''] @
      filter (\<lambda>n. map_of (lr_extra r) n \<noteq> None) log_fields"
    by (simp add: log_payload_def)
  have fields: "distinct log_fields" "set [''timestamp'', ''level'', ''logger'', ''message''] \<inter> set log_fields = {}"
      "distinct [''timestamp'', ''level'', ''logger'', ''message'']"
    unfolding log_fields_def by simp_all
  have "distinct (map fst (log_payload now r))"
    unfolding names distinct_append using fields by (intro conjI distinct_filter) auto
  moreover have "json_ok fl v" if "(k, v) \<in> set (log_payload now r)" for k v
  proof -
    have "(\<exists>t. v = VStr t) \<or> (k, v) \<in> set (lr_extra r)"
      using that by (auto simp: log_payload_def dest: map_of_SomeD[OF sym] map_of_SomeD split: option.splits)
    with assms show ?thesis by auto
  qed
  ultimately show ?thesis by auto
qed

lemma plain_default: "plain_opts dump_default"
  by (simp add: plain_opts_def dump_default_def)

lemma traced_path_cong:
  "\<forall>(m, p) \<in> set rs. m s = m s' \<Longrightarrow> traced_path rs s = traced_path rs s'"
  by (induction rs) auto

subsection \<open>Properties\<close>

text \<open>A log record is written as one line, whatever its message and its attributes contain, and a reader of
  that line gets them back: a request cannot forge or split an entry of the log.\<close>

lemma log_line_faithful:
  assumes "\<forall>(n, v) \<in> set (lr_extra r). json_ok fl v"
  shows "nl \<notin> set (format_record now r) \<and>
    (\<exists>d. json_loads fl (format_record now r) = Some (VDict d) \<and> get d ''message'' = VStr (lr_message r) \<and>
      (\<forall>n \<in> set log_fields. get d n = (case map_of (lr_extra r) n of None \<Rightarrow> VNone | Some v \<Rightarrow> v)))"
proof -
  note ok = log_payload_json_ok[OF assms, of now]
  have "nl \<notin> set (format_record now r)" "json_loads fl (format_record now r) = Some (VDict (log_payload now r))"
    unfolding format_record_def using dumps_no_nl[OF plain_default ok] json_loads_dumps[OF plain_default ok] by auto
  moreover have "get (log_payload now r) ''message'' = VStr (lr_message r)"
    by (simp add: log_payload_def get_def)
  moreover have "get (log_payload now r) n = (case map_of (lr_extra r) n of None \<Rightarrow> VNone | Some v \<Rightarrow> v)"
    if n: "n \<in> set log_fields" for n
  proof -
    have "map_of (concat (map (\<lambda>n. case map_of e n of None \<Rightarrow> [] | Some v \<Rightarrow> [(n, v)]) ns)) n =
        (if n \<in> set ns then map_of e n else None)" for e :: "(str \<times> pyval) list" and ns
      by (induction ns) (auto split: option.splits)
    moreover have "n \<notin> {''timestamp'', ''level'', ''logger'', ''message''}" using n by (auto simp: log_fields_def)
    ultimately show ?thesis using n by (simp add: log_payload_def get_def)
  qed
  ultimately show ?thesis by blast
qed

lemma log_line_faithful_example:
  "let line = format_record 0 \<lparr>lr_level = ''INFO'', lr_name = ''incident_ai'', lr_message = ''a'' @ [nl] @ ''b'',
       lr_extra = [(''status'', VInt 200)]\<rparr>
   in nl \<notin> set line \<and> (\<exists>d. json_loads id line = Some (VDict d) \<and> get d ''message'' = VStr (''a'' @ [nl] @ ''b''))"
  using log_line_faithful[of "\<lparr>lr_level = ''INFO'', lr_name = ''incident_ai'', lr_message = ''a'' @ [nl] @ ''b'',
       lr_extra = [(''status'', VInt 200)]\<rparr>" id 0] by (auto simp: Let_def)

end
