(* ===== verification/Application.thy ===== *)
theory Application
  imports Service Middleware Telemetry
begin

text \<open>
  \<open>create_app\<close> in \<open>app/main.py\<close> with the route table of \<open>app/api/routes.py\<close>: an HTTP request goes through the
  middleware, is routed, authenticated, decoded, served in a session, and answered or turned into an error by
  the exception handlers. What FastAPI and Starlette do by themselves is a parameter.
\<close>

subsection \<open>The route table\<close>

datatype endpoint =
    Ep_list_incidents | Ep_create_incident | Ep_read_incident | Ep_update_incident | Ep_delete_incident
  | Ep_list_alerts | Ep_list_logs | Ep_attach_logs | Ep_timeline | Ep_add_timeline_event | Ep_get_analysis
  | Ep_run_analysis | Ep_read_postmortem | Ep_create_postmortem | Ep_edit_postmortem | Ep_download_markdown
  | Ep_export_postmortem | Ep_read_dashboard | Ep_register_device | Ep_unregister_device | Ep_search | Ep_similar
  | Ep_create_analysis_job | Ep_read_job | Ep_archive | Ep_ingest | Ep_health | Ep_ready | Ep_metrics

record route_spec =
  rs_endpoint :: endpoint
  rs_method :: str
  rs_path :: str
  rs_status :: int

definition api_route :: "endpoint \<Rightarrow> str \<Rightarrow> str \<Rightarrow> int \<Rightarrow> route_spec" where
  "api_route e m p s = \<lparr>rs_endpoint = e, rs_method = m, rs_path = ''/api/v1'' @ p, rs_status = s\<rparr>"

definition incident_routes :: "route_spec list" where
  "incident_routes =
     [api_route Ep_list_incidents ''GET'' ''/incidents'' 200, api_route Ep_create_incident ''POST'' ''/incidents'' 201,
      api_route Ep_read_incident ''GET'' ''/incidents/{incident_id}'' 200,
      api_route Ep_update_incident ''PATCH'' ''/incidents/{incident_id}'' 200,
      api_route Ep_delete_incident ''DELETE'' ''/incidents/{incident_id}'' 204]"

definition history_routes :: "route_spec list" where
  "history_routes =
     [api_route Ep_list_alerts ''GET'' ''/incidents/{incident_id}/alerts'' 200,
      api_route Ep_list_logs ''GET'' ''/incidents/{incident_id}/logs'' 200,
      api_route Ep_attach_logs ''POST'' ''/incidents/{incident_id}/logs'' 201,
      api_route Ep_timeline ''GET'' ''/incidents/{incident_id}/timeline'' 200,
      api_route Ep_add_timeline_event ''POST'' ''/incidents/{incident_id}/timeline'' 201]"

definition report_routes :: "route_spec list" where
  "report_routes =
     [api_route Ep_get_analysis ''GET'' ''/incidents/{incident_id}/analysis'' 200,
      api_route Ep_run_analysis ''POST'' ''/incidents/{incident_id}/analysis'' 200,
      api_route Ep_read_postmortem ''GET'' ''/incidents/{incident_id}/postmortem'' 200,
      api_route Ep_create_postmortem ''POST'' ''/incidents/{incident_id}/postmortem'' 200,
      api_route Ep_edit_postmortem ''PATCH'' ''/incidents/{incident_id}/postmortem'' 200,
      api_route Ep_download_markdown ''GET'' ''/incidents/{incident_id}/postmortem/markdown'' 200,
      api_route Ep_export_postmortem ''POST'' ''/incidents/{incident_id}/postmortem/export/{destination}'' 200]"

definition other_routes :: "route_spec list" where
  "other_routes =
     [api_route Ep_read_dashboard ''GET'' ''/dashboard'' 200, api_route Ep_register_device ''POST'' ''/devices'' 200,
      api_route Ep_unregister_device ''DELETE'' ''/devices/{token}'' 204, api_route Ep_search ''GET'' ''/search'' 200,
      api_route Ep_similar ''GET'' ''/incidents/{incident_id}/similar'' 200,
      api_route Ep_create_analysis_job ''POST'' ''/incidents/{incident_id}/analysis/jobs'' 202,
      api_route Ep_read_job ''GET'' ''/jobs/{job_id}'' 200,
      api_route Ep_archive ''POST'' ''/incidents/{incident_id}/archive'' 200]"

definition operation_routes :: "route_spec list" where
  "operation_routes =
     [\<lparr>rs_endpoint = Ep_health, rs_method = ''GET'', rs_path = ''/health'', rs_status = 200\<rparr>,
      \<lparr>rs_endpoint = Ep_ready, rs_method = ''GET'', rs_path = ''/ready'', rs_status = 200\<rparr>,
      \<lparr>rs_endpoint = Ep_metrics, rs_method = ''GET'', rs_path = ''/metrics'', rs_status = 200\<rparr>]"

text \<open>In the order of registration: the router, the webhooks, the operations.\<close>

definition route_table :: "route_spec list" where
  "route_table = incident_routes @ history_routes @ report_routes @ other_routes @
     [api_route Ep_ingest ''POST'' ''/webhooks/{source}'' 200] @ operation_routes"

text \<open>Which guard a router depends on; the operations have none.\<close>

definition guard :: "jwt_decode \<Rightarrow> settings \<Rightarrow> header_map \<Rightarrow> endpoint \<Rightarrow> (exc, unit) res" where
  "guard J S h e =
     (if e \<in> {Ep_health, Ep_ready, Ep_metrics} then Inr ()
      else if e = Ep_ingest then require_webhook_auth J S h else require_auth J S h)"

definition takes_body :: "endpoint \<Rightarrow> bool" where
  "takes_body e = (e \<in> {Ep_create_incident, Ep_update_incident, Ep_attach_logs, Ep_add_timeline_event,
     Ep_edit_postmortem, Ep_register_device, Ep_ingest})"

subsection \<open>What the framework provides\<close>

text \<open>What a page of another origin may do: the origins, the methods, the headers it may send, and the header it may
  read of the answer.\<close>

record cors_options =
  co_origins :: "str list"
  co_credentials :: bool
  co_methods :: "str list"
  co_headers :: "str list"
  co_exposed :: "str list"

definition cors_options_of :: "settings \<Rightarrow> cors_options" where
  "cors_options_of S =
     \<lparr>co_origins = allowed_origins S, co_credentials = False, co_methods = [''GET'', ''POST'', ''PATCH'', ''DELETE''],
      co_headers = [''X-API-Key'', ''X-Webhook-Key'', ''Authorization'', ''Content-Type'', ''X-Correlation-ID''],
      co_exposed = [''X-Correlation-ID'']\<rparr>"

text \<open>How a path matches a template, with the values of its parameters; the text of an UUID or an integer; the
  body as JSON; the rendering of an answer with its headers; what Starlette answers by itself where no
  route matches (the documentation pages, and redirects that add or drop a slash); and what its CORS middleware
  answers to a preflight request and adds to the headers of every other answer.\<close>

record framework =
  fw_match :: "str \<Rightarrow> str \<Rightarrow> str list option"
  fw_uuid :: "str \<Rightarrow> str option"
  fw_int :: "str \<Rightarrow> int option"
  fw_body :: "header_map \<Rightarrow> nat list \<Rightarrow> pyval option check"
  fw_render :: "answer \<Rightarrow> pyval \<times> (str \<times> str) list"
  fw_metrics :: "mw_state \<Rightarrow> str"
  fw_own :: "str \<Rightarrow> str \<Rightarrow> response option"
  fw_preflight :: "cors_options \<Rightarrow> header_map \<Rightarrow> response"
  fw_cors :: "cors_options \<Rightarrow> header_map \<Rightarrow> (str \<times> str) list"

text \<open>The decoded query string.\<close>

type_synonym query = "str \<Rightarrow> str option"

datatype routing = Matched route_spec "str list" | WrongMethod route_spec | Unmatched

text \<open>The first route that matches the path and the method; else the first that matches the path.\<close>

fun find_route :: "framework \<Rightarrow> str \<Rightarrow> str \<Rightarrow> route_spec option \<Rightarrow> route_spec list \<Rightarrow> routing" where
  "find_route F meth path partial [] = (case partial of None \<Rightarrow> Unmatched | Some s \<Rightarrow> WrongMethod s)"
| "find_route F meth path partial (s # ss) =
     (case fw_match F (rs_path s) path of
        None \<Rightarrow> find_route F meth path partial ss
      | Some ps \<Rightarrow> if rs_method s = meth then Matched s ps
          else find_route F meth path (if partial = None then Some s else partial) ss)"

definition routed_path :: "routing \<Rightarrow> str option" where
  "routed_path x = (case x of Matched s ps \<Rightarrow> Some (rs_path s) | WrongMethod s \<Rightarrow> Some (rs_path s) | Unmatched \<Rightarrow> None)"

subsection \<open>Decoding a request\<close>

definition path_uuid :: "framework \<Rightarrow> str \<Rightarrow> str \<Rightarrow> str check" where
  "path_uuid F name v = (case fw_uuid F v of None \<Rightarrow> Inl [[''path'', name]] | Some u \<Rightarrow> Inr u)"

definition query_int :: "framework \<Rightarrow> query \<Rightarrow> str \<Rightarrow> int \<Rightarrow> int option \<Rightarrow> int \<Rightarrow> nat check" where
  "query_int F q name lo hi dflt = (case q name of
      None \<Rightarrow> Inr (nat dflt)
    | Some s \<Rightarrow> (case fw_int F s of
        None \<Rightarrow> Inl [[''query'', name]]
      | Some i \<Rightarrow> if lo \<le> i \<and> (case hi of None \<Rightarrow> True | Some h \<Rightarrow> i \<le> h) then Inr (nat i) else Inl [[''query'', name]]))"

definition query_choice :: "query \<Rightarrow> str \<Rightarrow> (str \<Rightarrow> 'a option) \<Rightarrow> 'a option check" where
  "query_choice q name pick = (case q name of
      None \<Rightarrow> Inr None
    | Some s \<Rightarrow> (case pick s of None \<Rightarrow> Inl [[''query'', name]] | Some x \<Rightarrow> Inr (Some x)))"

definition status_filter :: "str \<Rightarrow> str option" where
  "status_filter s =
     (if s \<in> {''active'', ''open'', ''acknowledged'', ''investigating'', ''resolved''} then Some s else None)"

definition query_text :: "query \<Rightarrow> str \<Rightarrow> nat \<Rightarrow> nat \<Rightarrow> str check" where
  "query_text q name lo hi = (case q name of
      None \<Rightarrow> Inl [[''query'', name]]
    | Some s \<Rightarrow> if lo \<le> length s \<and> length s \<le> hi then Inr s else Inl [[''query'', name]])"

definition query_limit :: "framework \<Rightarrow> query \<Rightarrow> int \<Rightarrow> nat check" where
  "query_limit F q dflt = query_int F q ''limit'' 1 (Some 200) dflt"

definition query_offset :: "framework \<Rightarrow> query \<Rightarrow> nat check" where
  "query_offset F q = query_int F q ''offset'' 0 None 0"

text \<open>What is wrong with the body, its absence included, is reported together with what is wrong with the path.\<close>

definition body_check_of :: "(pyval \<Rightarrow> 'a check) \<Rightarrow> pyval option \<Rightarrow> pyval check" where
  "body_check_of f v = (case v of None \<Rightarrow> Inl [[''body'']] | Some b \<Rightarrow> at_field ''body'' (map_check (\<lambda>x. b) (f b)))"

definition with_incident :: "framework \<Rightarrow> str list \<Rightarrow> (str \<Rightarrow> api_request) \<Rightarrow> api_request check" where
  "with_incident F ps mk = map_check mk (path_uuid F ''incident_id'' (hd ps))"

definition with_incident_body ::
  "framework \<Rightarrow> str list \<Rightarrow> (pyval \<Rightarrow> 'a check) \<Rightarrow> pyval option \<Rightarrow> (str \<Rightarrow> pyval \<Rightarrow> api_request) \<Rightarrow> api_request check" where
  "with_incident_body F ps f v mk =
     map_check (\<lambda>(i, b). mk i b) (both (path_uuid F ''incident_id'' (hd ps)) (body_check_of f v))"

definition with_body :: "(pyval \<Rightarrow> 'a check) \<Rightarrow> pyval option \<Rightarrow> (pyval \<Rightarrow> api_request) \<Rightarrow> api_request check" where
  "with_body f v mk = map_check mk (body_check_of f v)"

definition export_destination :: "str \<Rightarrow> str check" where
  "export_destination d = (if d \<in> {''jira'', ''confluence''} then Inr d else Inl [[''path'', ''destination'']])"

definition list_query :: "framework \<Rightarrow> query \<Rightarrow> api_request check" where
  "list_query F q = map_check (\<lambda>(st, sv, s, n, k). ListIncidents st sv s n k)
     (both (query_choice q ''status'' status_filter) (both (query_choice q ''severity'' to_severity)
       (both (query_choice q ''search'' (\<lambda>s. if length s \<le> 200 then Some s else None))
       (both (query_limit F q 50) (query_offset F q)))))"

fun request_of :: "framework \<Rightarrow> read_stamp \<Rightarrow> endpoint \<Rightarrow> str list \<Rightarrow> query \<Rightarrow> pyval option \<Rightarrow> api_request check" where
  "request_of F rs Ep_list_incidents ps q v = list_query F q"
| "request_of F rs Ep_create_incident ps q v = with_body check_incident_create v CreateIncident"
| "request_of F rs Ep_read_incident ps q v = with_incident F ps ReadIncident"
| "request_of F rs Ep_update_incident ps q v = with_incident_body F ps check_incident_update v UpdateIncident"
| "request_of F rs Ep_delete_incident ps q v = with_incident F ps DeleteIncident"
| "request_of F rs Ep_list_alerts ps q v = with_incident F ps ListAlerts"
| "request_of F rs Ep_list_logs ps q v = map_check (\<lambda>(i, n, k). ListLogs i n k)
     (both (path_uuid F ''incident_id'' (hd ps)) (both (query_limit F q 100) (query_offset F q)))"
| "request_of F rs Ep_attach_logs ps q v = with_incident_body F ps (check_logs_create rs) v AttachLogs"
| "request_of F rs Ep_timeline ps q v = with_incident F ps Timeline"
| "request_of F rs Ep_add_timeline_event ps q v = with_incident_body F ps check_timeline_create v AddTimelineEvent"
| "request_of F rs Ep_get_analysis ps q v = with_incident F ps GetAnalysis"
| "request_of F rs Ep_run_analysis ps q v = with_incident F ps RunAnalysis"
| "request_of F rs Ep_read_postmortem ps q v = with_incident F ps ReadPostmortem"
| "request_of F rs Ep_create_postmortem ps q v = with_incident F ps CreatePostmortem"
| "request_of F rs Ep_edit_postmortem ps q v = with_incident_body F ps check_postmortem_update v EditPostmortem"
| "request_of F rs Ep_download_markdown ps q v = with_incident F ps DownloadMarkdown"
| "request_of F rs Ep_export_postmortem ps q v = map_check (\<lambda>(i, d). ExportPostmortem i d)
     (both (path_uuid F ''incident_id'' (hd ps)) (export_destination (last ps)))"
| "request_of F rs Ep_read_dashboard ps q v = map_check ReadDashboard (query_int F q ''days'' 1 (Some 365) 30)"
| "request_of F rs Ep_register_device ps q v = with_body check_device_create v RegisterDevice"
| "request_of F rs Ep_unregister_device ps q v = Inr (UnregisterDevice (hd ps))"
| "request_of F rs Ep_search ps q v = map_check (\<lambda>(s, n). SearchIncidents s n)
     (both (query_text q ''q'' 1 500) (query_int F q ''limit'' 1 (Some 50) 10))"
| "request_of F rs Ep_similar ps q v = map_check (\<lambda>(i, n). Similar i n)
     (both (path_uuid F ''incident_id'' (hd ps)) (query_int F q ''limit'' 1 (Some 50) 5))"
| "request_of F rs Ep_create_analysis_job ps q v = with_incident F ps CreateAnalysisJob"
| "request_of F rs Ep_read_job ps q v = map_check ReadJob (path_uuid F ''job_id'' (hd ps))"
| "request_of F rs Ep_archive ps q v = with_incident F ps Archive"
| "request_of F rs Ep_ingest ps q v = with_body dict_body v (Ingest (hd ps))"
| "request_of F rs _ ps q v = Inl []"

text \<open>A body that is not JSON is rejected before the guards run.\<close>

definition read_request :: "framework \<Rightarrow> header_map \<Rightarrow> endpoint \<Rightarrow> nat list \<Rightarrow> pyval option check" where
  "read_request F h e bytes = (if takes_body e then at_field ''body'' (fw_body F h bytes) else Inr None)"

definition decoded :: "framework \<Rightarrow> read_stamp \<Rightarrow> endpoint \<Rightarrow> str list \<Rightarrow> query \<Rightarrow> pyval option \<Rightarrow> (exc, api_request) res" where
  "decoded F rs e ps q parsed =
     (case request_of F rs e ps q parsed of
        Inl locs \<Rightarrow> Inl (RequestValidationError locs) | Inr req \<Rightarrow> Inr req)"

subsection \<open>The application\<close>

text \<open>What the readiness check finds: the database with its tables, and Redis when it is configured.\<close>

record runtime =
  rt_database :: bool
  rt_redis :: "bool option"
  rt_jwt :: jwt_decode

definition plain_response :: "int \<Rightarrow> pyval \<Rightarrow> response" where
  "plain_response st b = \<lparr>resp_status = st, resp_body = b, resp_headers = []\<rparr>"

definition health :: response where
  "health = plain_response 200 (VDict [(''status'', VStr ''ok''), (''version'', VStr ''1.0.0'')])"

definition ready :: "runtime \<Rightarrow> str \<Rightarrow> response" where
  "ready R cid =
     (if rt_database R \<and> rt_redis R \<noteq> Some False then plain_response 200 (VDict [(''status'', VStr ''ready'')])
      else error_response cid ''not_ready'' ''A required dependency or database migration is unavailable'' 503 [])"

definition metrics :: "framework \<Rightarrow> mw_state \<Rightarrow> response" where
  "metrics F m = plain_response 200 (VStr (fw_metrics F m))"

type_synonym outcome = "(exc, response) res \<times> task list \<times> world"

text \<open>An endpoint: the body is read, the guard decides, the request is decoded and served.\<close>

definition call_endpoint ::
  "framework \<Rightarrow> runtime \<Rightarrow> app \<Rightarrow> mw_state \<Rightarrow> str \<Rightarrow> route_spec \<Rightarrow> str list \<Rightarrow> query \<Rightarrow> header_map \<Rightarrow> nat list \<Rightarrow> world \<Rightarrow> outcome" where
  "call_endpoint F R A m cid s ps q h bytes w =
     (let e = rs_endpoint s in
      case read_request F h e bytes of
        Inl locs \<Rightarrow> (Inl (RequestValidationError locs), [], w)
      | Inr parsed \<Rightarrow>
          (case guard (rt_jwt R) (ap_settings A) h e of
             Inl err \<Rightarrow> (Inl err, [], w)
           | Inr _ \<Rightarrow>
               if e = Ep_health then (Inr health, [], w)
               else if e = Ep_ready then (Inr (ready R cid), [], w)
               else if e = Ep_metrics then (Inr (metrics F m), [], w)
               else (case decoded F (ap_stamp A) e ps q parsed of
                   Inl err \<Rightarrow> (Inl err, [], w)
                 | Inr req \<Rightarrow>
                     (case serve A req w of
                        (Inl err, w') \<Rightarrow> (Inl err, [], w')
                      | (Inr (x, ts), w') \<Rightarrow>
                          (Inr \<lparr>resp_status = rs_status s, resp_body = fst (fw_render F x),
                             resp_headers = snd (fw_render F x)\<rparr>, ts, w')))))"

text \<open>The exception handlers; what they do not handle reaches the middleware.\<close>

definition handled_response :: "str \<Rightarrow> (exc, response) res \<Rightarrow> (exc, response) res" where
  "handled_response cid r = (case r of
      Inr resp \<Rightarrow> Inr resp
    | Inl e \<Rightarrow> (case exception_handler cid e of Some resp \<Rightarrow> Inr resp | None \<Rightarrow> Inl e))"

definition route_request ::
  "framework \<Rightarrow> runtime \<Rightarrow> app \<Rightarrow> mw_state \<Rightarrow> str \<Rightarrow> request \<Rightarrow> query \<Rightarrow> nat list \<Rightarrow> world \<Rightarrow> outcome" where
  "route_request F R A m cid r q bytes w =
     (case (case find_route F (req_method r) (req_path r) None route_table of
          Matched s ps \<Rightarrow> call_endpoint F R A m cid s ps q (req_headers r) bytes w
        | WrongMethod s \<Rightarrow> (Inl (HTTPException 405 ''Method Not Allowed'' [(''Allow'', rs_method s)]), [], w)
        | Unmatched \<Rightarrow> (case fw_own F (req_method r) (req_path r) of
              Some resp \<Rightarrow> (Inr resp, [], w) | None \<Rightarrow> (Inl (HTTPException 404 ''Not Found'' []), [], w))) of
        (res, ts, w') \<Rightarrow> (handled_response cid res, ts, w'))"

text \<open>A request inside the CORS middleware: the response, the state of the middleware, the world and the
  background tasks. \<open>redis\<close> is what the shared counter answers, \<open>fresh\<close> a new identifier, \<open>t0\<close> and \<open>t1\<close> the clock.\<close>

definition handle_http ::
  "framework \<Rightarrow> runtime \<Rightarrow> app \<Rightarrow> (exc, int) res option \<Rightarrow> str \<Rightarrow> rat \<Rightarrow> rat \<Rightarrow> request \<Rightarrow> query \<Rightarrow> mw_state \<Rightarrow> world
     \<Rightarrow> response \<times> mw_state \<times> task list \<times> world" where
  "handle_http F R A redis fresh t0 t1 r0 q m w =
     (let S = ap_settings A; cid = correlation_id fresh (req_headers r0);
          r = r0\<lparr>req_route := routed_path (find_route F (req_method r0) (req_path r0) None route_table)\<rparr>;
          run = (\<lambda>bytes. route_request F R A m cid r q bytes w);
          (resp, m') = dispatch S redis fresh t0 t1 r m (\<lambda>c bytes. fst (run bytes));
          (ts, w') = (if routed S redis t0 cid r (mw_limiter m)
            then case body_check S cid r of Inr bytes \<Rightarrow> snd (run bytes) | Inl x \<Rightarrow> ([], w) else ([], w))
      in (resp, m', ts, w'))"

text \<open>The CORS middleware is added last, so it is the outermost: as its documentation says, it answers a preflight
  request itself, and passes every other one on and adds headers to the answer when the request names an origin.\<close>

definition is_preflight :: "request \<Rightarrow> bool" where
  "is_preflight r = (req_method r = ''OPTIONS'' \<and> req_headers r ''origin'' \<noteq> None \<and>
     req_headers r ''access-control-request-method'' \<noteq> None)"

definition with_cors :: "framework \<Rightarrow> settings \<Rightarrow> header_map \<Rightarrow> response \<Rightarrow> response" where
  "with_cors F S h resp = (if h ''origin'' = None then resp
     else resp\<lparr>resp_headers := resp_headers resp @ fw_cors F (cors_options_of S) h\<rparr>)"

definition answer_http ::
  "framework \<Rightarrow> runtime \<Rightarrow> app \<Rightarrow> (exc, int) res option \<Rightarrow> str \<Rightarrow> rat \<Rightarrow> rat \<Rightarrow> request \<Rightarrow> query \<Rightarrow> mw_state \<Rightarrow> world
     \<Rightarrow> response \<times> mw_state \<times> task list \<times> world" where
  "answer_http F R A redis fresh t0 t1 r0 q m w =
     (if is_preflight r0 then (fw_preflight F (cors_options_of (ap_settings A)) (req_headers r0), m, [], w)
      else case handle_http F R A redis fresh t0 t1 r0 q m w of
        (resp, m', ts, w') \<Rightarrow> (with_cors F (ap_settings A) (req_headers r0) resp, m', ts, w'))"

subsection \<open>Lemmas\<close>

lemma call_endpoint_refused:
  assumes "guard (rt_jwt R) (ap_settings A) h (rs_endpoint s) = Inl e"
  shows "\<exists>err. call_endpoint F R A m cid s ps q h bytes w = (Inl err, [], w) \<and>
    (err = e \<or> (\<exists>locs. err = RequestValidationError locs))"
  using assms by (auto simp: call_endpoint_def Let_def split: sum.splits)

lemma guard_error:
  "guard J S h e = Inl err \<Longrightarrow> \<exists>msg. err = AppError ''unauthorized'' msg 401"
  by (auto simp: guard_def require_webhook_auth_def Let_def dest!: require_auth_error split: if_splits)

text \<open>Without credentials, every endpoint but the operations is refused.\<close>

definition no_credentials :: "jwt_decode \<Rightarrow> settings \<Rightarrow> header_map \<Rightarrow> bool" where
  "no_credentials J S h = (\<not> is_ok (require_auth J S h) \<and> \<not> is_ok (require_webhook_auth J S h))"

lemma guard_refuses:
  assumes "no_credentials J S h" and "e \<notin> {Ep_health, Ep_ready, Ep_metrics}"
  shows "\<exists>err. guard J S h e = Inl err"
  using assms
  by (cases "require_auth J S h"; cases "require_webhook_auth J S h") (auto simp: guard_def no_credentials_def)

lemma call_endpoint_open:
  assumes "rs_endpoint s \<in> {Ep_health, Ep_ready, Ep_metrics}"
  shows "snd (call_endpoint F R A m cid s ps q h bytes w) = ([], w)"
  using assms by (auto simp: call_endpoint_def read_request_def guard_def takes_body_def Let_def)

lemma route_request_refused:
  assumes "no_credentials (rt_jwt R) (ap_settings A) (req_headers r)"
  shows "snd (route_request F R A m cid r q bytes w) = ([], w)"
proof -
  have "snd (call_endpoint F R A m cid s ps q (req_headers r) bytes w) = ([], w)" for s ps
  proof (cases "rs_endpoint s \<in> {Ep_health, Ep_ready, Ep_metrics}")
    case False
    from guard_refuses[OF assms this] obtain err where "guard (rt_jwt R) (ap_settings A) (req_headers r) (rs_endpoint s) = Inl err" ..
    from call_endpoint_refused[OF this, of F m cid ps q bytes w] show ?thesis by auto
  qed (rule call_endpoint_open)
  then show ?thesis
    by (cases "find_route F (req_method r) (req_path r) None route_table")
      (simp_all add: route_request_def split_def split: option.split)
qed

lemma dispatch_response_of:
  "fst (dispatch S redis fresh t0 t1 r m f) = finish_response (correlation_id fresh (req_headers r))
    (case fst (handle_request S redis t0 (correlation_id fresh (req_headers r)) r (mw_limiter m)
       (f (correlation_id fresh (req_headers r)))) of
       Inr resp \<Rightarrow> resp
     | Inl e \<Rightarrow> error_response (correlation_id fresh (req_headers r)) ''internal_error''
         ''The request could not be completed. Retry using the correlation ID for support.'' 500 [])"
  by (simp add: dispatch_def Let_def split: prod.splits)

lemma handle_http_run:
  assumes "handle_http F R A redis fresh t0 t1 r0 q m w = (resp, m', ts, w')"
  shows "\<exists>cid r. cid = correlation_id fresh (req_headers r0) \<and> req_headers r = req_headers r0 \<and>
    req_method r = req_method r0 \<and> req_path r = req_path r0 \<and>
    resp = finish_response cid
      (case fst (handle_request (ap_settings A) redis t0 cid r (mw_limiter m) (\<lambda>bytes. fst (route_request F R A m cid r q bytes w))) of
         Inr x \<Rightarrow> x
       | Inl e \<Rightarrow> error_response cid ''internal_error''
           ''The request could not be completed. Retry using the correlation ID for support.'' 500 []) \<and>
    ((ts, w') = ([], w) \<or> (\<exists>bytes. (ts, w') = snd (route_request F R A m cid r q bytes w)))"
proof -
  let ?cid = "correlation_id fresh (req_headers r0)"
  let ?r = "r0\<lparr>req_route := routed_path (find_route F (req_method r0) (req_path r0) None route_table)\<rparr>"
  have "resp = fst (dispatch (ap_settings A) redis fresh t0 t1 ?r m (\<lambda>c bytes. fst (route_request F R A m ?cid ?r q bytes w)))"
    using assms by (auto simp: handle_http_def Let_def split: prod.splits)
  moreover have "(ts, w') = ([], w) \<or> (\<exists>bytes. (ts, w') = snd (route_request F R A m ?cid ?r q bytes w))"
    using assms by (simp add: handle_http_def Let_def split: prod.splits if_splits sum.splits) metis+
  ultimately show ?thesis
    by (intro exI[of _ ?cid] exI[of _ ?r]) (simp add: dispatch_response_of cong: sum.case_cong)
qed

text \<open>What a response with an error status contains.\<close>

definition enveloped :: "str \<Rightarrow> response \<Rightarrow> bool" where
  "enveloped cid resp = (400 \<le> resp_status resp \<longrightarrow> envelope_cid (resp_body resp) = Some cid)"

lemma enveloped_error: "enveloped cid (error_response cid c msg st hs)"
  by (simp add: enveloped_def error_response_def)

lemma enveloped_small: "resp_status resp < 400 \<Longrightarrow> enveloped cid resp"
  by (simp add: enveloped_def)

lemma handled_enveloped:
  "(\<And>x. r = Inr x \<Longrightarrow> enveloped cid x) \<Longrightarrow> handled_response cid r = Inr resp \<Longrightarrow> enveloped cid resp"
  by (auto simp: handled_response_def enveloped_def dest: exception_handler_envelope split: sum.splits option.splits)

lemma handled_ok [simp]: "handled_response cid (Inr x) = Inr x"
  by (simp add: handled_response_def)

lemma find_route_in:
  "find_route F meth path partial ss = Matched s ps \<Longrightarrow> s \<in> set ss \<and> rs_method s = meth \<and> fw_match F (rs_path s) path = Some ps"
  by (induction F meth path partial ss rule: find_route.induct) (auto split: option.splits if_splits)

lemma table_status: "s \<in> set route_table \<Longrightarrow> rs_status s < 400"
  by (auto simp: route_table_def incident_routes_def history_routes_def report_routes_def other_routes_def
      operation_routes_def api_route_def)

lemma call_endpoint_enveloped:
  assumes "rs_status s < 400" and "call_endpoint F R A m cid s ps q h bytes w = (Inr x, ts, w')"
  shows "enveloped cid x"
  using assms
  by (auto simp: call_endpoint_def Let_def health_def ready_def metrics_def plain_response_def enveloped_def error_response_def
      split: sum.splits prod.splits if_splits)

text \<open>What the framework serves by itself where no route matches is its own.\<close>

definition framework_page :: "framework \<Rightarrow> request \<Rightarrow> response \<Rightarrow> bool" where
  "framework_page F r x \<longleftrightarrow> find_route F (req_method r) (req_path r) None route_table = Unmatched \<and>
     fw_own F (req_method r) (req_path r) = Some x"

lemma route_request_enveloped:
  assumes "fst (route_request F R A m cid r q bytes w) = Inr x"
  shows "enveloped cid x \<or> framework_page F r x"
proof (cases "find_route F (req_method r) (req_path r) None route_table")
  case (Matched s ps)
  obtain y ts w' where run: "call_endpoint F R A m cid s ps q (req_headers r) bytes w = (y, ts, w')"
    by (cases "call_endpoint F R A m cid s ps q (req_headers r) bytes w")
  have "rs_status s < 400" using find_route_in[OF Matched] table_status by blast
  from call_endpoint_enveloped[OF this] run have "y = Inr z \<Longrightarrow> enveloped cid z" for z by blast
  with assms Matched run show ?thesis
    by (auto simp: route_request_def intro: handled_enveloped)
next
  case (WrongMethod s)
  with assms show ?thesis by (auto simp: route_request_def intro: handled_enveloped)
next
  case Unmatched
  with assms show ?thesis
    by (auto simp: route_request_def framework_page_def intro: handled_enveloped split: option.splits)
qed

lemma rate_check_enveloped: "rate_check S redis now cid r l = (Inr (Some x), l') \<Longrightarrow> enveloped cid x"
  by (auto simp: rate_check_def Let_def enveloped_error split: if_splits option.splits sum.splits exc.splits prod.splits)

lemma body_check_enveloped: "body_check S cid r = Inl x \<Longrightarrow> enveloped cid x"
  by (auto simp: body_check_def Let_def too_large_def enveloped_error split: if_splits option.splits)

lemma handle_request_enveloped:
  assumes "\<And>bytes x. next_app bytes = Inr x \<Longrightarrow> enveloped cid x \<or> P x"
    and "fst (handle_request S redis now cid r l next_app) = Inr x"
  shows "enveloped cid x \<or> P x"
  using assms
  by (auto simp: handle_request_def dest: rate_check_enveloped body_check_enveloped
      split: prod.splits sum.splits option.splits)

lemma rate_check_status: "rate_check S redis now cid r l = (Inr (Some x), l') \<Longrightarrow> 400 \<le> resp_status x"
  by (auto simp: rate_check_def Let_def error_response_def split: if_splits option.splits sum.splits exc.splits prod.splits)

lemma body_check_status: "body_check S cid r = Inl x \<Longrightarrow> 400 \<le> resp_status x"
  by (auto simp: body_check_def Let_def too_large_def error_response_def split: if_splits option.splits)

lemma handle_request_small:
  assumes "fst (handle_request S redis now cid r l next_app) = Inr x" and "resp_status x < 400"
  shows "\<exists>bytes. next_app bytes = Inr x"
  using assms
  by (auto simp: handle_request_def dest: rate_check_status body_check_status
      split: prod.splits sum.splits option.splits)

lemma route_request_guarded:
  assumes "no_credentials (rt_jwt R) (ap_settings A) (req_headers r)"
    and "fst (route_request F R A m cid r q bytes w) = Inr x" and "resp_status x < 400"
  shows "framework_page F r x \<or> (\<exists>s ps. find_route F (req_method r) (req_path r) None route_table = Matched s ps \<and>
    rs_endpoint s \<in> {Ep_health, Ep_ready, Ep_metrics})"
proof (cases "find_route F (req_method r) (req_path r) None route_table")
  case (Matched s ps)
  have "400 \<le> resp_status x" if "rs_endpoint s \<notin> {Ep_health, Ep_ready, Ep_metrics}"
  proof -
    from guard_refuses[OF assms(1) that] obtain e where e: "guard (rt_jwt R) (ap_settings A) (req_headers r) (rs_endpoint s) = Inl e" ..
    from guard_error[OF e] call_endpoint_refused[OF e, of F m cid ps q bytes w] obtain err
      where "call_endpoint F R A m cid s ps q (req_headers r) bytes w = (Inl err, [], w)"
        and "(\<exists>msg. err = AppError ''unauthorized'' msg 401) \<or> (\<exists>locs. err = RequestValidationError locs)"
      by blast
    with assms(2) Matched show ?thesis
      by (auto simp: route_request_def handled_response_def app_error_handler_def validation_error_handler_def
          error_response_def Let_def)
  qed
  with Matched assms(3) show ?thesis by auto
qed (use assms in \<open>auto simp: route_request_def handled_response_def framework_page_def http_error_handler_def
      error_response_def Let_def split: option.splits\<close>)

subsection \<open>Bodies\<close>

text \<open>A route without a body does not look at it.\<close>

lemma table_bodies: "s \<in> set route_table \<Longrightarrow> takes_body (rs_endpoint s) \<Longrightarrow> rs_method s \<in> {''POST'', ''PATCH'', ''PUT''}"
  by (auto simp: route_table_def incident_routes_def history_routes_def report_routes_def other_routes_def
      operation_routes_def api_route_def takes_body_def)

lemma route_request_bodyless:
  assumes "req_method r \<notin> {''POST'', ''PATCH'', ''PUT''}"
  shows "route_request F R A m cid r q bytes w = route_request F R A m cid r q bytes' w"
proof (cases "find_route F (req_method r) (req_path r) None route_table")
  case (Matched s ps)
  then have "\<not> takes_body (rs_endpoint s)" using find_route_in[OF Matched] table_bodies[of s] assms by auto
  then have "call_endpoint F R A m cid s ps q h bytes w = call_endpoint F R A m cid s ps q h bytes' w" for h
    by (simp add: call_endpoint_def read_request_def)
  with Matched show ?thesis by (simp add: route_request_def)
qed (simp_all add: route_request_def)

end
