(* ===== verification/Http_Service.thy ===== *)
theory Http_Service
  imports Application
begin

text \<open>
  The application as its clients see it: what \<open>handle_http\<close> does with a request is what the service does with the
  decoded one (\<open>Service\<close>); with the CORS middleware around it (\<open>answer_http\<close>), every error has the same shape and a
  request without credentials has no effect; no body over the limit reaches a route; and what tracing records of a
  request is the template of its route.
\<close>

subsection \<open>A framework\<close>

text \<open>Path templates matched segment by segment, and requests decoded in the simplest way: an instance of the
  parameters, for the examples.\<close>

fun segments :: "str \<Rightarrow> str list" where
  "segments [] = [[]]"
| "segments (c # s) = (if c = CHR ''/'' then [] # segments s
     else case segments s of [] \<Rightarrow> [[c]] | x # xs \<Rightarrow> (c # x) # xs)"

fun match_segments :: "str list \<Rightarrow> str list \<Rightarrow> str list option" where
  "match_segments [] [] = Some []"
| "match_segments (t # ts) (x # xs) =
     (if prefix ''{'' t then (if x = [] then None else map_option (Cons x) (match_segments ts xs))
      else if t = x then match_segments ts xs else None)"
| "match_segments _ _ = None"

definition path_match :: "str \<Rightarrow> str \<Rightarrow> str list option" where
  "path_match template path = match_segments (segments template) (segments path)"

definition sample_framework :: framework where
  "sample_framework = \<lparr>fw_match = path_match, fw_uuid = Some, fw_int = parse_int,
     fw_body = (\<lambda>h bytes. Inr (if bytes = [] then None else Some sample_payload)),
     fw_render = (\<lambda>x. (VNone, [])), fw_metrics = (\<lambda>m. []), fw_own = (\<lambda>m p. None),
     fw_preflight = (\<lambda>c h. plain_response 200 (VStr ''OK'')), fw_cors = (\<lambda>c h. [])\<rparr>"

lemma sample_framework_simps [simp]:
  "fw_uuid sample_framework = Some" "fw_render sample_framework = (\<lambda>x. (VNone, []))" "fw_own sample_framework m p = None"
  "fw_body sample_framework h bytes = Inr (if bytes = [] then None else Some sample_payload)"
  by (simp_all add: sample_framework_def)

lemma sample_app_settings [simp]: "ap_settings sample_app = default_settings"
  by (simp add: sample_app_def)

definition sample_runtime :: runtime where
  "sample_runtime = \<lparr>rt_database = True, rt_redis = None, rt_jwt = (\<lambda>t s a i. False)\<rparr>"

definition sample_state :: mw_state where
  "sample_state = \<lparr>mw_limiter = new_limiter 0, mw_requests = (\<lambda>l. 0), mw_durations = []\<rparr>"

definition sample_request :: "str \<Rightarrow> str \<Rightarrow> header_map \<Rightarrow> request" where
  "sample_request meth path h =
     \<lparr>req_path = path, req_method = meth, req_client = None, req_headers = h, req_chunks = [[123, 125]], req_route = None\<rparr>"

definition sample_http :: "str \<Rightarrow> str \<Rightarrow> header_map \<Rightarrow> world \<Rightarrow> response \<times> mw_state \<times> task list \<times> world" where
  "sample_http meth path h w =
     handle_http sample_framework sample_runtime sample_app None ''id-1'' 1 2 (sample_request meth path h) (\<lambda>n. None) sample_state w"

subsection \<open>From a request to the service\<close>

lemma handle_request_routed:
  assumes "routed S redis now cid r l" and "body_check S cid r = Inr bytes"
  shows "fst (handle_request S redis now cid r l f) = f bytes"
  using assms by (auto simp: routed_def handle_request_def split: prod.splits)

definition unhandled_response :: "str \<Rightarrow> response" where
  "unhandled_response cid = error_response cid ''internal_error''
     ''The request could not be completed. Retry using the correlation ID for support.'' 500 []"

lemma call_endpoint_serves:
  assumes "call_endpoint F R A m cid s ps q h bytes w = (res, ts, w')"
  shows "(w', ts) = (w, []) \<or>
    (\<exists>req r. guard (rt_jwt R) (ap_settings A) h (rs_endpoint s) = Inr () \<and> serve A req w = (r, w') \<and> ts = new_tasks r \<and>
       res = (case r of Inl e \<Rightarrow> Inl e
         | Inr (x, ts) \<Rightarrow> Inr \<lparr>resp_status = rs_status s, resp_body = fst (fw_render F x), resp_headers = snd (fw_render F x)\<rparr>))"
proof (cases "(w', ts) = (w, [])")
  case False
  obtain parsed where parsed: "read_request F h (rs_endpoint s) bytes = Inr parsed"
    using assms False by (auto simp: call_endpoint_def Let_def split: sum.splits)
  moreover have guard: "guard (rt_jwt R) (ap_settings A) h (rs_endpoint s) = Inr ()"
    using assms False parsed by (auto simp: call_endpoint_def Let_def split: sum.splits)
  moreover have closed: "rs_endpoint s \<notin> {Ep_health, Ep_ready, Ep_metrics}"
    using assms False call_endpoint_open[of s F R A m cid ps q h bytes w] by auto
  moreover obtain req where "decoded F (ap_stamp A) (rs_endpoint s) ps q parsed = Inr req"
    using assms False parsed guard closed by (auto simp: call_endpoint_def Let_def split: sum.splits)
  moreover obtain r v where run: "serve A req w = (r, v)" by (cases "serve A req w")
  ultimately have "w' = v \<and> ts = new_tasks r \<and>
      res = (case r of Inl e \<Rightarrow> Inl e
         | Inr (x, ts) \<Rightarrow> Inr \<lparr>resp_status = rs_status s, resp_body = fst (fw_render F x), resp_headers = snd (fw_render F x)\<rparr>)"
    using assms by (cases r) (auto simp: call_endpoint_def Let_def new_tasks_def)
  with guard run show ?thesis by blast
qed simp

lemma route_request_serves:
  assumes "route_request F R A m cid r q bytes w = (res, ts, w')"
  shows "(w', ts) = (w, []) \<or>
    (\<exists>s ps req x. find_route F (req_method r) (req_path r) None route_table = Matched s ps \<and>
       guard (rt_jwt R) (ap_settings A) (req_headers r) (rs_endpoint s) = Inr () \<and> serve A req w = (x, w') \<and> ts = new_tasks x \<and>
       res = handled_response cid (case x of Inl e \<Rightarrow> Inl e
         | Inr (y, ts) \<Rightarrow> Inr \<lparr>resp_status = rs_status s, resp_body = fst (fw_render F y), resp_headers = snd (fw_render F y)\<rparr>))"
proof (cases "find_route F (req_method r) (req_path r) None route_table")
  case (Matched s ps)
  obtain y us v where run: "call_endpoint F R A m cid s ps q (req_headers r) bytes w = (y, us, v)"
    by (cases "call_endpoint F R A m cid s ps q (req_headers r) bytes w")
  with assms Matched have "us = ts" "v = w'" "res = handled_response cid y" by (auto simp: route_request_def)
  with call_endpoint_serves[OF run] Matched show ?thesis by blast
qed (use assms in \<open>auto simp: route_request_def split: option.splits\<close>)

lemma handle_http_eq:
  assumes "cid = correlation_id fresh (req_headers r0)"
    and "r = r0\<lparr>req_route := routed_path (find_route F (req_method r0) (req_path r0) None route_table)\<rparr>"
    and "routed (ap_settings A) redis t0 cid r (mw_limiter m)" and "body_check (ap_settings A) cid r = Inr bytes"
    and "route_request F R A m cid r q bytes w = (res, ts, w')"
  shows "\<exists>m'. handle_http F R A redis fresh t0 t1 r0 q m w =
    (finish_response cid (case res of Inr x \<Rightarrow> x | Inl e \<Rightarrow> unhandled_response cid), m', ts, w')"
proof -
  let ?d = "dispatch (ap_settings A) redis fresh t0 t1 r m (\<lambda>c bytes. fst (route_request F R A m cid r q bytes w))"
  have "fst ?d = finish_response cid (case res of Inr x \<Rightarrow> x | Inl e \<Rightarrow> unhandled_response cid)"
  proof -
    have "correlation_id fresh (req_headers r) = cid" by (simp add: assms(1,2))
    then show ?thesis
      by (simp add: dispatch_response_of handle_request_routed[OF assms(3,4)] assms(5) unhandled_response_def cong: sum.case_cong)
  qed
  moreover have "handle_http F R A redis fresh t0 t1 r0 q m w = (fst ?d, snd ?d, ts, w')"
    using assms(3-5) by (simp add: handle_http_def Let_def assms(1,2)[symmetric] split: prod.splits)
  ultimately show ?thesis by simp
qed

lemma handle_http_routed:
  assumes "handle_http F R A redis fresh t0 t1 r0 q m w = (resp, m', ts, w')" and "(w', ts) \<noteq> (w, [])"
  shows "\<exists>cid r bytes res. req_headers r = req_headers r0 \<and> req_method r = req_method r0 \<and> req_path r = req_path r0 \<and>
    cid = correlation_id fresh (req_headers r0) \<and> route_request F R A m cid r q bytes w = (res, ts, w') \<and>
    resp = finish_response cid (case res of Inr x \<Rightarrow> x | Inl e \<Rightarrow> unhandled_response cid)"
proof -
  define cid where "cid = correlation_id fresh (req_headers r0)"
  define r where "r = r0\<lparr>req_route := routed_path (find_route F (req_method r0) (req_path r0) None route_table)\<rparr>"
  have routed: "routed (ap_settings A) redis t0 cid r (mw_limiter m)"
    using assms by (auto simp: handle_http_def Let_def cid_def r_def split: if_splits prod.splits)
  then obtain bytes where bytes: "body_check (ap_settings A) cid r = Inr bytes"
    by (cases "body_check (ap_settings A) cid r") (auto simp: routed_def)
  obtain res us v where run: "route_request F R A m cid r q bytes w = (res, us, v)"
    by (cases "route_request F R A m cid r q bytes w")
  obtain n where "handle_http F R A redis fresh t0 t1 r0 q m w =
      (finish_response cid (case res of Inr x \<Rightarrow> x | Inl e \<Rightarrow> unhandled_response cid), n, us, v)"
    using handle_http_eq[OF cid_def r_def routed bytes run] by blast
  with assms(1) have "resp = finish_response cid (case res of Inr x \<Rightarrow> x | Inl e \<Rightarrow> unhandled_response cid)" "us = ts" "v = w'"
    by auto
  with run show ?thesis
    by (intro exI[of _ cid] exI[of _ r] exI[of _ bytes] exI[of _ res]) (simp add: cid_def r_def)
qed

subsection \<open>Properties\<close>

text \<open>C2. The HTTP layer refines the service: a request either changes nothing and starts no task, or it was routed,
  passed its guard and was served as one request of the service, whose effect on the world and background tasks are
  the ones of the HTTP request and whose result determines the response; so HTTP requests only lead from
  reachable states to reachable states.\<close>

theorem http_refines_service:
  assumes "handle_http F R A redis fresh t0 t1 r0 q m w = (resp, m', ts, w')"
  shows "((w', ts) = (w, []) \<or>
     (\<exists>s ps req x cid. find_route F (req_method r0) (req_path r0) None route_table = Matched s ps \<and>
        guard (rt_jwt R) (ap_settings A) (req_headers r0) (rs_endpoint s) = Inr () \<and>
        serve A req w = (x, w') \<and> ts = new_tasks x \<and>
        resp = finish_response cid (case x of
            Inr (y, us) \<Rightarrow> \<lparr>resp_status = rs_status s, resp_body = fst (fw_render F y), resp_headers = snd (fw_render F y)\<rparr>
          | Inl e \<Rightarrow> (case exception_handler cid e of Some err \<Rightarrow> err | None \<Rightarrow> unhandled_response cid)))) \<and>
    (\<forall>p. reachable A (w, p) \<longrightarrow> reachable A (w', p @ ts))"
proof (cases "(w', ts) = (w, [])")
  case False
  from handle_http_routed[OF assms this] obtain cid r bytes res where r: "req_headers r = req_headers r0"
      "req_method r = req_method r0" "req_path r = req_path r0"
    and run: "route_request F R A m cid r q bytes w = (res, ts, w')"
    and resp: "resp = finish_response cid (case res of Inr x \<Rightarrow> x | Inl e \<Rightarrow> unhandled_response cid)" by blast
  from route_request_serves[OF run] False r obtain s ps req x where
      s: "find_route F (req_method r0) (req_path r0) None route_table = Matched s ps"
        "guard (rt_jwt R) (ap_settings A) (req_headers r0) (rs_endpoint s) = Inr ()"
      and serve: "serve A req w = (x, w')" "ts = new_tasks x"
      and res: "res = handled_response cid (case x of Inl e \<Rightarrow> Inl e
         | Inr (y, ts) \<Rightarrow> Inr \<lparr>resp_status = rs_status s, resp_body = fst (fw_render F y), resp_headers = snd (fw_render F y)\<rparr>)"
    by auto
  have "resp = finish_response cid (case x of
            Inr (y, us) \<Rightarrow> \<lparr>resp_status = rs_status s, resp_body = fst (fw_render F y), resp_headers = snd (fw_render F y)\<rparr>
          | Inl e \<Rightarrow> (case exception_handler cid e of Some err \<Rightarrow> err | None \<Rightarrow> unhandled_response cid))"
    unfolding resp res by (cases x) (auto simp: handled_response_def split: option.split)
  moreover have "reachable A (w', p @ ts)" if "reachable A (w, p)" for p
    unfolding serve(2) by (rule reachable.step[OF that api_step.request[OF serve(1)]])
  ultimately show ?thesis using s serve by blast
qed simp

lemma sample_create_route:
  "find_route sample_framework ''POST'' ''/api/v1/incidents'' None route_table =
     Matched (api_route Ep_create_incident ''POST'' ''/incidents'' 201) []"
  by code_simp

lemma sample_create_http:
  "\<exists>resp m t w. sample_http ''POST'' ''/api/v1/incidents'' [''x-api-key'' \<mapsto> ''incident-ai-demo-key''] new_world = (resp, m, [t], w) \<and>
     incidents (saved w) = [new_incident sample_env sample_create new_world]"
proof -
  obtain x t w where run: "serve sample_app (CreateIncident sample_payload) new_world = (Inr (AIncident x, [t]), w)"
      "incidents (saved w) = [new_incident sample_env sample_create new_world]"
    using sample_created by blast
  define r where "r = (sample_request ''POST'' ''/api/v1/incidents'' [''x-api-key'' \<mapsto> ''incident-ai-demo-key''])
    \<lparr>req_route := Some ''/api/v1/incidents''\<rparr>"
  have checks: "routed default_settings None 1 ''id-1'' r (mw_limiter sample_state)" "body_check default_settings ''id-1'' r = Inr [123, 125]"
    unfolding r_def by code_simp+
  have "guard J default_settings [''x-api-key'' \<mapsto> ''incident-ai-demo-key''] Ep_create_incident = Inr ()" for J
    by (simp add: guard_def require_auth_def header_def default_settings_def)
  then have "\<exists>resp. route_request sample_framework sample_runtime sample_app sample_state ''id-1'' r (\<lambda>n. None) [123, 125] new_world = (resp, [t], w)"
    using run(1) by (simp add: r_def sample_request_def route_request_def sample_create_route call_endpoint_def api_route_def
        read_request_def takes_body_def decoded_def with_body_def body_check_of_def sample_payload_ok at_field_def map_check_def)
  then obtain resp where route: "route_request sample_framework sample_runtime sample_app sample_state ''id-1'' r (\<lambda>n. None)
      [123, 125] new_world = (resp, [t], w)" ..
  have "''id-1'' = correlation_id ''id-1'' (req_headers (sample_request ''POST'' ''/api/v1/incidents'' [''x-api-key'' \<mapsto> ''incident-ai-demo-key'']))"
    by code_simp
  from handle_http_eq[where redis = None and ?t0.0 = 1 and ?t1.0 = 2, OF this _ _ _ route] show ?thesis
    using checks run(2) by (auto simp: sample_http_def r_def sample_request_def sample_create_route api_route_def routed_path_def)
qed

theorem http_refines_service_witness:
  "\<exists>resp m t w. sample_http ''POST'' ''/api/v1/incidents'' [''x-api-key'' \<mapsto> ''incident-ai-demo-key''] new_world = (resp, m, [t], w) \<and>
     reachable sample_app (w, [t]) \<and> incidents (saved w) \<noteq> []"
proof -
  obtain resp m t w where run: "sample_http ''POST'' ''/api/v1/incidents'' [''x-api-key'' \<mapsto> ''incident-ai-demo-key''] new_world = (resp, m, [t], w)"
      "incidents (saved w) = [new_incident sample_env sample_create new_world]"
    using sample_create_http by blast
  from http_refines_service[OF run(1)[unfolded sample_http_def]] reachable.start[of sample_app]
  have "reachable sample_app (w, [] @ [t])" by blast
  with run show ?thesis by auto
qed

text \<open>C3. A request that carries neither the API key, a valid bearer token nor the webhook key changes nothing:
  whatever its method, path, query and body, the stored world is the same afterwards and no background task is
  started; and it is answered with an error, unless it asks for one of the three operations of the service, for a
  page that the framework serves by itself (its documentation, a redirect to the path with or without a slash), or is
  a preflight request, which the CORS middleware answers.\<close>

theorem unauthenticated_request_harmless:
  assumes "no_credentials (rt_jwt R) (ap_settings A) (req_headers r0)"
    and "answer_http F R A redis fresh t0 t1 r0 q m w = (resp, m', ts, w')"
  shows "w' = w \<and> ts = [] \<and>
    (400 \<le> resp_status resp \<or> is_preflight r0 \<or>
     (\<exists>s ps. find_route F (req_method r0) (req_path r0) None route_table = Matched s ps \<and>
        rs_endpoint s \<in> {Ep_health, Ep_ready, Ep_metrics}) \<or>
     find_route F (req_method r0) (req_path r0) None route_table = Unmatched \<and> fw_own F (req_method r0) (req_path r0) \<noteq> None)"
proof (cases "is_preflight r0")
  case False
  then obtain resp0 where inner: "handle_http F R A redis fresh t0 t1 r0 q m w = (resp0, m', ts, w')"
      and status: "resp_status resp = resp_status resp0"
    using assms(2) by (auto simp: answer_http_def with_cors_def split: prod.splits)
  from handle_http_run[OF inner] obtain cid r x where r: "req_headers r = req_headers r0" "req_method r = req_method r0"
      "req_path r = req_path r0"
    and resp: "resp0 = finish_response cid x" and x: "x = (case fst (handle_request (ap_settings A) redis t0 cid r (mw_limiter m)
       (\<lambda>bytes. fst (route_request F R A m cid r q bytes w))) of Inr x \<Rightarrow> x
       | Inl e \<Rightarrow> error_response cid ''internal_error''
           ''The request could not be completed. Retry using the correlation ID for support.'' 500 [])"
    and run: "(ts, w') = ([], w) \<or> (\<exists>bytes. (ts, w') = snd (route_request F R A m cid r q bytes w))"
    by blast
  note refused = assms(1)[folded r(1)]
  have "framework_page F r x \<or> (\<exists>s ps. find_route F (req_method r) (req_path r) None route_table = Matched s ps \<and>
      rs_endpoint s \<in> {Ep_health, Ep_ready, Ep_metrics})" if small: "resp_status x < 400"
  proof -
    have "fst (handle_request (ap_settings A) redis t0 cid r (mw_limiter m)
        (\<lambda>bytes. fst (route_request F R A m cid r q bytes w))) = Inr x"
      using small x by (auto simp: error_response_def split: sum.splits)
    from handle_request_small[OF this small] route_request_guarded[OF refused _ small] show ?thesis by blast
  qed
  moreover have "resp_status resp = resp_status x" by (simp add: status resp finish_response_def)
  moreover have "w' = w \<and> ts = []" using run route_request_refused[OF refused] by auto
  ultimately show ?thesis unfolding framework_page_def r by force
qed (use assms(2) in \<open>simp add: answer_http_def\<close>)

text \<open>A request to create an incident without credentials is refused.\<close>

lemma handled_plain: "\<not> is_preflight r0 \<Longrightarrow> req_headers r0 ''origin'' = None \<Longrightarrow>
  answer_http F R A redis fresh t0 t1 r0 q m w = handle_http F R A redis fresh t0 t1 r0 q m w"
  by (simp add: answer_http_def with_cors_def split: prod.split)

lemma sample_answer:
  assumes "h ''origin'' = None"
  shows "answer_http sample_framework sample_runtime sample_app None ''id-1'' 1 2 (sample_request meth path h) (\<lambda>n. None) sample_state w =
    sample_http meth path h w"
  unfolding sample_http_def by (rule handled_plain) (use assms in \<open>simp_all add: is_preflight_def sample_request_def\<close>)

theorem unauthenticated_request_harmless_witness:
  "\<exists>resp m. sample_http ''POST'' ''/api/v1/incidents'' (\<lambda>n. None) new_world = (resp, m, [], new_world) \<and> 400 \<le> resp_status resp"
proof -
  obtain resp m ts w where run: "sample_http ''POST'' ''/api/v1/incidents'' (\<lambda>n. None) new_world = (resp, m, ts, w)"
    by (cases "sample_http ''POST'' ''/api/v1/incidents'' (\<lambda>n. None) new_world")
  have "no_credentials (rt_jwt sample_runtime) (ap_settings sample_app) (req_headers (sample_request ''POST'' ''/api/v1/incidents'' (\<lambda>n. None)))"
    by (simp add: no_credentials_def require_auth_def require_webhook_auth_def header_def sample_app_def default_settings_def
        sample_request_def)
  from unauthenticated_request_harmless[OF this trans[OF sample_answer run]]
  have "w = new_world \<and> ts = [] \<and> 400 \<le> resp_status resp"
    by (simp add: sample_request_def sample_create_route api_route_def is_preflight_def)
  with run show ?thesis by blast
qed

text \<open>C4. Every error that the service answers has the same shape: when the status is 400 or more, the body is the
  error envelope, and its correlation identifier is a safe one and is that of the \<open>X-Correlation-ID\<close> header;
  this holds for the refusals of the middleware, the router, the guards, the decoding of a request, the exceptions
  of the routes, and the exceptions that nothing handles. Two kinds of answers are not the service's own: the one to a
  preflight request, which is that of the CORS middleware and reaches nothing behind it, and a page that the framework
  serves by itself where no route matches, which gets the header but keeps its body.\<close>

theorem http_errors_enveloped:
  assumes "safe_id fresh" and "answer_http F R A redis fresh t0 t1 r0 q m w = (resp, m', ts, w')"
    and "400 \<le> resp_status resp"
  shows "if is_preflight r0
    then (resp, m', ts, w') = (fw_preflight F (cors_options_of (ap_settings A)) (req_headers r0), m, [], w)
    else \<exists>cid. safe_id cid \<and> (''X-Correlation-ID'', cid) \<in> set (resp_headers resp) \<and>
      (envelope_cid (resp_body resp) = Some cid \<or>
       find_route F (req_method r0) (req_path r0) None route_table = Unmatched \<and>
         (\<exists>x. fw_own F (req_method r0) (req_path r0) = Some x \<and> resp_body resp = resp_body x \<and> resp_status resp = resp_status x))"
proof (cases "is_preflight r0")
  case False
  then obtain resp0 where inner: "handle_http F R A redis fresh t0 t1 r0 q m w = (resp0, m', ts, w')"
      and outer: "resp_status resp = resp_status resp0" "resp_body resp = resp_body resp0"
        "set (resp_headers resp0) \<subseteq> set (resp_headers resp)"
    using assms(2) by (auto simp: answer_http_def with_cors_def split: prod.splits)
  from handle_http_run[OF inner] obtain cid r x where cid: "cid = correlation_id fresh (req_headers r0)"
    and r: "req_method r = req_method r0" "req_path r = req_path r0"
    and resp: "resp0 = finish_response cid x" and x: "x = (case fst (handle_request (ap_settings A) redis t0 cid r (mw_limiter m)
       (\<lambda>bytes. fst (route_request F R A m cid r q bytes w))) of Inr x \<Rightarrow> x
       | Inl e \<Rightarrow> error_response cid ''internal_error''
           ''The request could not be completed. Retry using the correlation ID for support.'' 500 [])"
    by blast
  have "enveloped cid x \<or> framework_page F r x"
  proof (cases "fst (handle_request (ap_settings A) redis t0 cid r (mw_limiter m) (\<lambda>bytes. fst (route_request F R A m cid r q bytes w)))")
    case (Inr y)
    from handle_request_enveloped[OF route_request_enveloped this] show ?thesis by (simp add: x Inr)
  qed (simp add: x enveloped_error)
  moreover have "resp_status resp = resp_status x" "resp_body resp = resp_body x"
    by (simp_all add: outer resp finish_response_def)
  moreover have "safe_id cid"
    using assms(1) by (simp add: cid correlation_id_def fullmatch_correlation Let_def)
  moreover have "(''X-Correlation-ID'', cid) \<in> set (resp_headers resp)"
    using finish_response_headers[of cid x] resp outer(3) by auto
  ultimately show ?thesis using assms(3) False by (auto simp: enveloped_def framework_page_def r)
qed (use assms(2) in \<open>simp add: answer_http_def\<close>)

theorem http_errors_enveloped_witness:
  "\<exists>resp m. sample_http ''GET'' ''/nowhere'' (\<lambda>n. None) new_world = (resp, m, [], new_world) \<and>
     envelope_cid (resp_body resp) = Some ''id-1'' \<and> (''X-Correlation-ID'', ''id-1'') \<in> set (resp_headers resp)"
proof -
  define r where "r = sample_request ''GET'' ''/nowhere'' (\<lambda>n. None)"
  have unmatched: "find_route sample_framework ''GET'' ''/nowhere'' None route_table = Unmatched" by code_simp
  have checks: "routed default_settings None 1 ''id-1'' r (mw_limiter sample_state)" "body_check default_settings ''id-1'' r = Inr [123, 125]"
    unfolding r_def by code_simp+
  let ?e = "http_error_handler ''id-1'' 404 ''Not Found'' []"
  have route: "route_request sample_framework sample_runtime sample_app sample_state ''id-1'' r (\<lambda>n. None) [123, 125] new_world = (Inr ?e, [], new_world)"
    by (simp add: route_request_def r_def sample_request_def unmatched handled_response_def)
  have cid: "''id-1'' = correlation_id ''id-1'' (req_headers r)"
    unfolding r_def by code_simp
  have "r = r\<lparr>req_route := routed_path (find_route sample_framework (req_method r) (req_path r) None route_table)\<rparr>"
    by (simp add: r_def sample_request_def unmatched routed_path_def)
  from handle_http_eq[OF cid this _ _ route] checks obtain resp m
    where run: "sample_http ''GET'' ''/nowhere'' (\<lambda>n. None) new_world = (resp, m, [], new_world)" and "resp_status resp = 404"
      and "resp_body resp = resp_body ?e"
    unfolding sample_http_def r_def[symmetric] by (force simp: finish_response_def http_error_handler_def error_response_def)
  have safe: "safe_id ''id-1''" by code_simp
  have "\<not> is_preflight (sample_request ''GET'' ''/nowhere'' (\<lambda>n. None))" by (simp add: is_preflight_def sample_request_def)
  with \<open>resp_status resp = 404\<close> obtain cid where "envelope_cid (resp_body resp) = Some cid" "(''X-Correlation-ID'', cid) \<in> set (resp_headers resp)"
    using http_errors_enveloped[OF safe trans[OF sample_answer run]] by auto
  moreover from this have "cid = ''id-1''" using \<open>resp_body resp = resp_body ?e\<close> by (simp add: http_error_handler_def error_response_def)
  ultimately show ?thesis using run by blast
qed

text \<open>C38. A body over the limit never reaches a route: for the methods that have one (POST, PATCH and PUT), whatever
  the declared length says, it is refused with an error of the middleware that does not depend on the application
  behind, and a body that does reach the application is the whole body within the limit; for every other method,
  whose body the middleware does not check, no route looks at it.\<close>

theorem body_limit_enforced:
  assumes "0 \<le> max_request_bytes (ap_settings A)"
  shows "if req_method r \<in> {''POST'', ''PATCH'', ''PUT''}
    then (case body_check (ap_settings A) cid r of
        Inr bytes \<Rightarrow> bytes = concat (req_chunks r) \<and> int (length bytes) \<le> max_request_bytes (ap_settings A)
      | Inl resp \<Rightarrow> resp_status resp \<in> {400, 413} \<and>
          (\<forall>f g. handle_request (ap_settings A) redis now cid r l f = handle_request (ap_settings A) redis now cid r l g))
    else (\<forall>bytes bytes'. route_request F R A m cid r q bytes w = route_request F R A m cid r q bytes' w)"
  using body_check_limit[OF _ assms] route_request_bodyless by auto

theorem body_limit_enforced_witness:
  "case body_check (default_settings\<lparr>max_request_bytes := 3\<rparr>) ''c'' (sample_request ''POST'' ''/api/v1/logs'' (\<lambda>n. None)
      \<lparr>req_chunks := [[1, 2], [3, 4]]\<rparr>) of
      Inr bytes \<Rightarrow> False
    | Inl resp \<Rightarrow> resp_status resp \<in> {400, 413}"
  using body_limit_enforced[where A = "sample_app\<lparr>ap_settings := default_settings\<lparr>max_request_bytes := 3\<rparr>\<rparr>"
      and r = "sample_request ''POST'' ''/api/v1/logs'' (\<lambda>n. None)\<lparr>req_chunks := [[1, 2], [3, 4]]\<rparr>" and cid = "''c''"]
  by (simp add: body_check_def header_def sample_request_def split: sum.splits)

subsection \<open>Traces\<close>

text \<open>The routes of the application as the trace hook sees them: the documentation pages that FastAPI adds, then the
  route table. A route that matches the path but not the method matches in part.\<close>

definition trace_routes :: "framework \<Rightarrow> base_route list \<Rightarrow> base_route list" where
  "trace_routes F docs = docs @ map (\<lambda>s.
     ((\<lambda>x. case fw_match F (rs_path s) (scope_path x) of
          None \<Rightarrow> NoMatch
        | Some ps \<Rightarrow> if scope_method x = Some (rs_method s) then FullMatch else PartialMatch), Some (rs_path s))) route_table"

lemma traced_path_skip: "\<forall>(f, p) \<in> set rs. f x = NoMatch \<Longrightarrow> traced_path (rs @ rs') x = traced_path rs' x"
  by (induction rs) auto

text \<open>Tracing never records a device token: a request for a device is traced under the template of its route, so
  the name and every attribute that the hook sets are those of any other device, for every token and every method.\<close>

lemma trace_hides_token:
  assumes "\<And>p path. fw_match F p path = None \<longleftrightarrow> path_match p path = None"
    and "token \<noteq> []" and "CHR ''/'' \<notin> set token" and "sp_recording sp"
    and "\<forall>(f, p) \<in> set docs. f \<lparr>scope_method = Some meth, scope_path = ''/api/v1/devices/'' @ token\<rparr> = NoMatch"
  shows "let sp' = scrub_trace_request sp \<lparr>scope_method = Some meth, scope_path = ''/api/v1/devices/'' @ token\<rparr> (trace_routes F docs)
    in sp_name sp' = meth @ '' /api/v1/devices/{token}'' \<and>
       (\<forall>key \<in> {''http.target'', ''url.path''}. sp_attributes sp' key = Some ''/api/v1/devices/{token}'') \<and>
       (\<forall>key \<in> {''http.url'', ''url.full''}. sp_attributes sp' key = Some ''http://incident-ai/api/v1/devices/{token}'') \<and>
       sp_attributes sp' ''url.query'' = Some []"
proof -
  have seg: "segments token = [token]" using assms(3) by (induction token) auto
  have matches: "(case fw_match F p path of None \<Rightarrow> NoMatch | Some ps \<Rightarrow> g ps) = NoMatch \<longleftrightarrow> path_match p path = None"
    if "\<And>ps. g ps \<noteq> NoMatch" for p path and g :: "str list \<Rightarrow> route_match"
    using assms(1)[of p path] that by (cases "fw_match F p path") auto
  have "traced_path (trace_routes F docs) \<lparr>scope_method = Some meth, scope_path = ''/api/v1/devices/'' @ token\<rparr> = ''/api/v1/devices/{token}''"
    unfolding trace_routes_def traced_path_skip[OF assms(5)]
    by (simp add: route_table_def incident_routes_def history_routes_def report_routes_def other_routes_def
        api_route_def matches path_match_def seg assms(2))
  then show ?thesis
    using assms(4) by (simp add: scrub_trace_request_def Let_def)
qed

lemma trace_hides_token_example:
  "sp_attributes (scrub_trace_request \<lparr>sp_recording = True, sp_name = [], sp_attributes = [''url.path'' \<mapsto> ''/api/v1/devices/secret'']\<rparr>
     \<lparr>scope_method = Some ''DELETE'', scope_path = ''/api/v1/devices/secret''\<rparr> (trace_routes sample_framework [])) ''url.path''
   = Some ''/api/v1/devices/{token}''"
  using trace_hides_token[of sample_framework "''secret''" "\<lparr>sp_recording = True, sp_name = [],
      sp_attributes = [''url.path'' \<mapsto> ''/api/v1/devices/secret'']\<rparr>" "[]" "''DELETE''"]
  by (simp add: sample_framework_def Let_def)

end
