(* ===== verification/Worker.thy ===== *)
theory Worker
  imports Jobs
begin

text \<open>
  \<open>app/worker.py\<close>: the Celery task that executes a queued analysis job, and the queue it is consumed from as the
  task's configuration sets it up. Celery and Redis are represented by what their documentation says of the
  settings that the module chooses: when a message leaves the queue, and what becomes of it when a worker dies.
\<close>

subsection \<open>The task\<close>

record celery_conf =
  cc_task_serializer :: str
  cc_accept_content :: "str list"
  cc_result_serializer :: str
  cc_ignore_result :: bool
  cc_acks_late :: bool
  cc_reject_on_worker_lost :: bool
  cc_prefetch_multiplier :: nat
  cc_retry_on_startup :: bool
  cc_soft_time_limit :: nat
  cc_time_limit :: nat

definition celery_settings :: celery_conf where
  "celery_settings = \<lparr>cc_task_serializer = ''json'', cc_accept_content = [''json''], cc_result_serializer = ''json'',
     cc_ignore_result = True, cc_acks_late = True, cc_reject_on_worker_lost = True, cc_prefetch_multiplier = 1,
     cc_retry_on_startup = True, cc_soft_time_limit = 300, cc_time_limit = 360\<rparr>"

definition broker_url :: "settings \<Rightarrow> str" where
  "broker_url S = (if redis_url S = [] then ''redis://localhost:6379/0'' else redis_url S)"

text \<open>The task connects to the database, selects the client of the model and executes the job; the connection is
  closed in the end, so that nothing uncommitted remains.\<close>

definition analyze_job :: "network \<Rightarrow> env \<Rightarrow> settings \<Rightarrow> str \<Rightarrow> unit act" where
  "analyze_job N E S i w =
     (case get_llm_client N S of
        Inl e \<Rightarrow> (Inl e, w\<lparr>live := saved w\<rparr>)
      | Inr llm \<Rightarrow> (case execute_analysis_job E llm S id i w of (r, w') \<Rightarrow> (r, w'\<lparr>live := saved w'\<rparr>)))"

subsection \<open>The queue\<close>

text \<open>The messages in the queue, the data, and the jobs whose task was ended by a time limit.\<close>

type_synonym worker_state = "str list \<times> world \<times> str list"

text \<open>A message that is acknowledged late leaves the queue when its task has ended, with or without an exception.
  A worker may die before it has committed anything or after; its message is then delivered again, provided it
  was not acknowledged before and the loss of a worker rejects it. A task that exceeds a time limit is acknowledged
  too, which is the default and not configured otherwise. The soft limit raises an exception: where it meets the code
  of the job, this is the failure of the job; where it meets the event loop, the task is cancelled, and the transaction
  is rolled back, as it is when the hard limit kills the process. The executions of one job do not overlap: a task
  ends after six minutes at the latest, and a message that is not acknowledged waits longer for its next delivery.\<close>

definition redelivers :: "celery_conf \<Rightarrow> bool" where
  "redelivers c = (cc_acks_late c \<and> cc_reject_on_worker_lost c)"

inductive worker_step :: "network \<Rightarrow> env \<Rightarrow> settings \<Rightarrow> worker_state \<Rightarrow> worker_state \<Rightarrow> bool" for N E S where
  publish: "worker_step N E S (q, w, x) (i # q, w, x)"
| finish: "i \<in> set q \<Longrightarrow> analyze_job N E S i w = (r, w') \<Longrightarrow> worker_step N E S (q, w, x) (remove1 i q, w', x)"
| lost_early: "i \<in> set q \<Longrightarrow>
    worker_step N E S (q, w, x) (if redelivers celery_settings then q else remove1 i q, w\<lparr>live := saved w\<rparr>, x)"
| lost_late: "i \<in> set q \<Longrightarrow> analyze_job N E S i w = (r, w') \<Longrightarrow>
    worker_step N E S (q, w, x) (if redelivers celery_settings then q else remove1 i q, w', x)"
| interrupted: "i \<in> set q \<Longrightarrow> find_job i (saved w) = Some j \<Longrightarrow> jb_status j \<noteq> ''succeeded'' \<Longrightarrow>
    get_session (fail_job E i) w = (r, w') \<Longrightarrow> worker_step N E S (q, w, x) (remove1 i q, w', x)"
| stopped: "i \<in> set q \<Longrightarrow> worker_step N E S (q, w, x) (remove1 i q, w\<lparr>live := saved w\<rparr>, i # x)"

subsection \<open>Lemmas\<close>


definition job_ended :: "str \<Rightarrow> db \<Rightarrow> bool" where
  "job_ended i d = (\<exists>j. find_job i d = Some j \<and> jb_status j \<in> {''succeeded'', ''failed''})"












subsection \<open>Properties\<close>



text \<open>What the time limit leaves behind: the job is still marked as queued, but no message will execute it.\<close>

lemma time_limit_strands_job:
  assumes "find_job i (saved w) = Some j" and "jb_status j = ''queued''"
  shows "\<exists>w'. worker_step N E S ([i], w, []) ([], w', [i]) \<and> find_job i (saved w') = Some j \<and> \<not> job_ended i (saved w')"
  using worker_step.stopped[of i "[i]" N E S w "[]"] assms
  by (intro exI[of _ "w\<lparr>live := saved w\<rparr>"]) (simp add: job_ended_def)

end
