(* ===== verification/Startup.thy ===== *)
theory Startup
  imports Http_Service Migration
begin

text \<open>
  \<open>build_engine\<close> in \<open>app/repository/database.py\<close> and the start-up of \<open>create_app\<close> in \<open>app/main.py\<close>: which directory is
  made for the database file, what every connection executes, what the application keeps, and when the schema is
  created. SQLAlchemy tells the dialect of a database address; that is a parameter.
\<close>

subsection \<open>The engine\<close>

text \<open>\<open>url.split("///", 1)[-1]\<close>.\<close>

fun after_slashes :: "str \<Rightarrow> str option" where
  "after_slashes [] = None"
| "after_slashes (c # s) = (if prefix ''///'' (c # s) then Some (drop 3 (c # s)) else after_slashes s)"

definition sqlite_path :: "str \<Rightarrow> str" where
  "sqlite_path url = (case after_slashes url of None \<Rightarrow> url | Some p \<Rightarrow> p)"

text \<open>\<open>Path(p).parent\<close>: empty parts and single dots are dropped, the last part is cut off.\<close>

definition path_parts :: "str \<Rightarrow> str list" where
  "path_parts p = filter (\<lambda>s. s \<noteq> [] \<and> s \<noteq> ''.'') (segments p)"

definition path_parent :: "str \<Rightarrow> str" where
  "path_parent p = (let parts = butlast (path_parts p)
     in if prefix ''/'' p then ''/'' @ join ''/'' parts else if parts = [] then ''.'' else join ''/'' parts)"

record engine =
  en_url :: str
  en_dialect :: str
  en_on_connect :: "str list"

text \<open>The engine, with the directories that are made so that the database file can be created.\<close>

definition build_engine :: "(str \<Rightarrow> str) \<Rightarrow> settings \<Rightarrow> engine \<times> str list" where
  "build_engine dialect_of S =
     (let url = database_url S; path = sqlite_path url; d = dialect_of url
      in (\<lparr>en_url = url, en_dialect = d,
           en_on_connect = (if d = ''sqlite'' then [''PRAGMA foreign_keys=ON'', ''PRAGMA busy_timeout=10000''] else [])\<rparr>,
          if prefix ''sqlite'' url \<and> path \<noteq> '':memory:'' then [path_parent path] else []))"

subsection \<open>Starting the application\<close>

record app_state =
  st_engine :: engine
  st_llm :: llm
  st_redis :: "(str \<times> int \<times> int) option"

text \<open>The start of \<open>lifespan\<close>; \<open>schema\<close> is that of the database before and after.\<close>

definition lifespan :: "(str \<Rightarrow> str) \<Rightarrow> network \<Rightarrow> settings \<Rightarrow> schema \<Rightarrow> (exc, app_state \<times> schema) res" where
  "lifespan dialect_of N S schema =
     (let e = fst (build_engine dialect_of S) in
      case get_llm_client N S of
        Inl err \<Rightarrow> Inl err
      | Inr llm \<Rightarrow>
          (let st = \<lparr>st_engine = e, st_llm = llm,
             st_redis = (if redis_url S = [] then None else Some (redis_url S, 3, 3))\<rparr>
           in if demo_mode S then (case create_demo_schema (en_dialect e) schema of
                None \<Rightarrow> Inl OtherError | Some schema' \<Rightarrow> Inr (st, schema'))
              else Inr (st, schema)))"

text \<open>What the \<open>finally\<close> of \<open>lifespan\<close> closes, in this order.\<close>

definition shutdown :: "app_state \<Rightarrow> str list" where
  "shutdown st = (if st_redis st = None then [] else [''redis'']) @ [''engine'']"

text \<open>The instrumentation when tracing is enabled: the name of the service, the headers whose values are not recorded,
  and the routes that are not traced; the hook is \<open>scrub_trace_request\<close>.\<close>

record tracing =
  tr_service :: str
  tr_sanitized :: "str list"
  tr_excluded :: str

definition tracing_of :: "settings \<Rightarrow> tracing option" where
  "tracing_of S = (if otel_enabled S
     then Some \<lparr>tr_service = otel_service_name S, tr_sanitized = [''.*''], tr_excluded = ''health,ready,metrics''\<rparr> else None)"

text \<open>What the readiness check finds: its query succeeds when the database answers and has the table.\<close>

definition runtime_of :: "app_state \<Rightarrow> schema \<Rightarrow> bool \<Rightarrow> bool \<Rightarrow> jwt_decode \<Rightarrow> runtime" where
  "runtime_of st schema database_up redis_up J =
     \<lparr>rt_database = (database_up \<and> ''incidents'' \<in> table_names schema),
      rt_redis = (if st_redis st = None then None else Some redis_up), rt_jwt = J\<rparr>"

subsection \<open>Lemmas\<close>

lemma demo_schema_fresh: "create_demo_schema ''sqlite'' empty_schema = Some (declared metadata)"
  by code_simp

lemma declared_present: "sc_tables S = map table_of metadata \<Longrightarrow> md_table ` set metadata \<subseteq> table_names S"
  by (force simp: table_names_def table_of_def make_table_def)

lemma upgraded_schema: "upgrade ''sqlite'' empty_schema = Some (declared metadata)"
  using declared_added by (simp add: upgrade_run empty_schema_def)

lemma ready_status:
  "resp_status (ready (runtime_of st schema up redis_up J) cid) =
     (if up \<and> ''incidents'' \<in> table_names schema \<and> (st_redis st \<noteq> None \<longrightarrow> redis_up) then 200 else 503)"
  by (auto simp: ready_def runtime_of_def plain_response_def error_response_def)

lemma build_engine_dialect [simp]: "en_dialect (fst (build_engine D S)) = D (database_url S)"
  by (simp add: build_engine_def Let_def)

lemma sqlite_demo_path: "build_engine (\<lambda>u. ''sqlite'') default_settings =
    (\<lparr>en_url = ''sqlite+aiosqlite:///./var/incident-ai.db'', en_dialect = ''sqlite'',
      en_on_connect = [''PRAGMA foreign_keys=ON'', ''PRAGMA busy_timeout=10000'']\<rparr>, [''var''])"
  by code_simp

text \<open>A page of an allowed origin can use every route, with every kind of credentials: the methods are those of the
  routes, and a guard looks at no other header.\<close>

lemma cors_covers_methods: "rs_method ` set route_table = set (co_methods (cors_options_of S))"
  by (auto simp: route_table_def incident_routes_def history_routes_def report_routes_def other_routes_def
      operation_routes_def api_route_def cors_options_of_def)

lemma cors_covers_guards:
  assumes "\<forall>k \<in> lower ` set (co_headers (cors_options_of S)). h k = h' k"
  shows "guard J S h e = guard J S h' e"
proof -
  have "lower ''X-API-Key'' = ''x-api-key''" "lower ''X-Webhook-Key'' = ''x-webhook-key''"
    "lower ''Authorization'' = ''authorization''" by code_simp+
  then have "h ''x-api-key'' = h' ''x-api-key''" "h ''x-webhook-key'' = h' ''x-webhook-key''"
    "h ''authorization'' = h' ''authorization''" using assms by (auto simp: cors_options_of_def)
  then show ?thesis
    by (simp add: guard_def require_webhook_auth_def require_auth_def header_def Let_def)
qed

text \<open>The operations are the routes that are not traced.\<close>

lemma untraced_operations:
  "tracing_of S = Some x \<Longrightarrow> join '','' (map (drop 1 \<circ> rs_path) operation_routes) = tr_excluded x"
  by (auto simp: tracing_of_def operation_routes_def split: if_splits)

subsection \<open>Properties\<close>

text \<open>A demonstration on a new SQLite file, or on one that was migrated, starts with exactly the declared tables
  and indexes, is ready once it runs, and starting it again changes nothing. Without the demonstration mode a start
  never touches the schema: the service answers 503 on \<open>/ready\<close> until the migration has been applied, and a
  migration makes it ready.\<close>

lemma start_up_ready:
  assumes "get_llm_client N S = Inr llm" and "redis_url S \<noteq> [] \<longrightarrow> redis_up" and "D (database_url S) = ''sqlite''"
  shows "\<exists>st. (demo_mode S \<longrightarrow> (\<forall>schema \<in> {empty_schema, declared metadata}. lifespan D N S schema = Inr (st, declared metadata))) \<and>
    (\<not> demo_mode S \<longrightarrow> (\<forall>schema. lifespan D N S schema = Inr (st, schema))) \<and>
    upgrade ''sqlite'' empty_schema = Some (declared metadata) \<and>
    resp_status (ready (runtime_of st empty_schema True redis_up J) cid) = 503 \<and>
    resp_status (ready (runtime_of st (declared metadata) True redis_up J) cid) = 200"
proof -
  define st where "st = \<lparr>st_engine = fst (build_engine D S), st_llm = llm,
    st_redis = (if redis_url S = [] then None else Some (redis_url S, 3, 3))\<rparr>"
  have "lifespan D N S schema = Inr (st, declared metadata)"
    if "demo_mode S" "schema \<in> {empty_schema, declared metadata}" for schema
    using that assms(1,3) demo_schema_fresh demo_schema_present[OF declared_present, of "declared metadata" "''sqlite''"]
    by (auto simp: lifespan_def Let_def st_def declared_def)
  moreover have "lifespan D N S schema = Inr (st, schema)" if "\<not> demo_mode S" for schema
    using that assms(1) by (simp add: lifespan_def Let_def st_def)
  moreover have "''incidents'' \<in> table_names (declared metadata)" "''incidents'' \<notin> table_names empty_schema"
    by code_simp+
  moreover have "st_redis st \<noteq> None \<longrightarrow> redis_up" using assms(2) by (simp add: st_def)
  ultimately show ?thesis by (auto simp: upgraded_schema ready_status)
qed

lemma start_up_ready_example:
  "\<exists>st. lifespan (\<lambda>u. ''sqlite'') silent_network default_settings empty_schema = Inr (st, declared metadata) \<and>
     resp_status (ready (runtime_of st (declared metadata) True False (\<lambda>t s a i. False)) ''c'') = 200"
proof -
  have "lower (llm_provider default_settings) = ''demo''" by code_simp
  then have "get_llm_client silent_network default_settings = Inr (demo_llm silent_network)" by (simp add: get_llm_client_def)
  from start_up_ready[OF this, of False "\<lambda>u. ''sqlite''" "\<lambda>t s a i. False" "''c''"] show ?thesis
    by (auto simp: default_settings_def)
qed

end
