(* ===== verification/Timestamps.thy ===== *)
theory Timestamps
  imports PyTime Errors
begin

text \<open>
  \<open>UTCDateTime\<close> of \<open>app/repository/models.py\<close> and the same conversion in \<open>LogInput\<close> of \<open>app/schemas/api.py\<close>: every
  \<open>datetime\<close> is stored and read in UTC. The other theories have a point in time as its instant; this one has the
  wall clock and the offset that Python computes with, and the range in which it can.
\<close>

subsection \<open>Python's \<open>datetime\<close>\<close>

text \<open>The wall clock in microseconds since that of the epoch, and the offset to UTC of an aware value.\<close>

record datetime =
  dt_wall :: int
  dt_offset :: "int option"

definition utc :: "int \<Rightarrow> datetime" where
  "utc t = \<lparr>dt_wall = t, dt_offset = Some 0\<rparr>"

text \<open>From the first day of year 1 to the last of year 9999.\<close>

definition in_calendar :: "int \<Rightarrow> bool" where
  "in_calendar t = (1 \<le> day_ordinal t \<and> day_ordinal t \<le> 3652059)"

definition instant :: "datetime \<Rightarrow> int" where
  "instant d = dt_wall d - (case dt_offset d of None \<Rightarrow> 0 | Some z \<Rightarrow> z)"

text \<open>\<open>astimezone(UTC)\<close> of an aware value: an \<open>OverflowError\<close> outside the years that there are.\<close>

definition astimezone_utc :: "int \<Rightarrow> int \<Rightarrow> (exc, datetime) res" where
  "astimezone_utc wall z = (if in_calendar (wall - z) then Inr (utc (wall - z)) else Inl OtherError)"

subsection \<open>The conversion\<close>

definition to_utc :: "datetime \<Rightarrow> (exc, datetime) res" where
  "to_utc d = (case dt_offset d of None \<Rightarrow> Inr (d\<lparr>dt_offset := Some 0\<rparr>) | Some z \<Rightarrow> astimezone_utc (dt_wall d) z)"

definition optional_utc :: "datetime option \<Rightarrow> (exc, datetime option) res" where
  "optional_utc v = (case v of None \<Rightarrow> Inr None | Some d \<Rightarrow> map_sum id Some (to_utc d))"

definition process_bind_param :: "datetime option \<Rightarrow> (exc, datetime option) res" where
  "process_bind_param v = optional_utc v"

definition process_result_value :: "datetime option \<Rightarrow> (exc, datetime option) res" where
  "process_result_value v = optional_utc v"

definition log_timestamp :: "datetime option \<Rightarrow> (exc, datetime option) res" where
  "log_timestamp v = optional_utc v"

text \<open>What the databases give back: SQLite the wall clock without an offset, PostgreSQL the instant in the zone of
  the connection.\<close>

definition sqlite_gives :: "datetime \<Rightarrow> datetime" where
  "sqlite_gives d = d\<lparr>dt_offset := None\<rparr>"

definition postgres_gives :: "int \<Rightarrow> datetime \<Rightarrow> datetime" where
  "postgres_gives zone d = \<lparr>dt_wall = instant d + zone, dt_offset = Some zone\<rparr>"

subsection \<open>Properties\<close>

lemma to_utc_cases:
  assumes "in_calendar (dt_wall d)"
  shows "to_utc d = (if in_calendar (instant d) then Inr (utc (instant d)) else Inl OtherError)"
  using assms by (cases d) (auto simp: to_utc_def instant_def astimezone_utc_def utc_def split: option.split)

text \<open>C40. A timestamp is stored as its instant in UTC and read back as the same instant, from either database and
  whatever the zone of the connection, and converting it again changes nothing; except that one whose instant falls
  outside the years 1 to 9999, as the first hours of year 1 in an eastern zone do, is not rejected as
  invalid: the conversion raises an error that is no validation error, so that the client gets a 500.\<close>

theorem timestamps_keep_instant:
  assumes "in_calendar (dt_wall d)"
  shows "if in_calendar (instant d)
    then log_timestamp (Some d) = Inr (Some (utc (instant d))) \<and>
      process_bind_param (Some (utc (instant d))) = Inr (Some (utc (instant d))) \<and>
      process_result_value (Some (sqlite_gives (utc (instant d)))) = Inr (Some (utc (instant d))) \<and>
      process_result_value (Some (postgres_gives zone (utc (instant d)))) = Inr (Some (utc (instant d)))
    else log_timestamp (Some d) = Inl OtherError \<and> exception_handler cid OtherError = None"
  using assms
  by (simp add: log_timestamp_def process_bind_param_def process_result_value_def optional_utc_def to_utc_cases)
    (simp add: to_utc_def astimezone_utc_def utc_def sqlite_gives_def postgres_gives_def instant_def)

text \<open>The first of January of year 1, midnight, fourteen hours east of Greenwich.\<close>

theorem timestamps_keep_instant_witness:
  "log_timestamp (Some \<lparr>dt_wall = -62135596800000000, dt_offset = Some 50400000000\<rparr>) = Inl OtherError \<and>
   log_timestamp (Some \<lparr>dt_wall = -62135596800000000, dt_offset = Some 0\<rparr>) = Inr (Some (utc (-62135596800000000)))"
proof -
  let ?d = "\<lparr>dt_wall = -62135596800000000, dt_offset = Some 50400000000\<rparr>"
  let ?e = "\<lparr>dt_wall = -62135596800000000, dt_offset = Some 0\<rparr>"
  have facts: "in_calendar (-62135596800000000)" "\<not> in_calendar (instant ?d)" "instant ?e = -62135596800000000"
    by code_simp+
  then show ?thesis
    using timestamps_keep_instant[of ?d] timestamps_keep_instant[of ?e] by simp
qed

end
