(* ===== verification/Redis_Limiter.thy ===== *)
theory Redis_Limiter
  imports Middleware
begin

text \<open>
  The shared rate limiter of \<open>app/core/middleware.py\<close>: the Lua script \<open>RATE_SCRIPT\<close> that Redis runs
  atomically for a request, and what a sequence of requests of many clients gets from it. Redis itself is a
  parameter with the documented behaviour of its two commands. The counter opens a window of sixty seconds with
  a client's first request, so it bounds the requests of a window, and twice as many in any sixty seconds.
\<close>

subsection \<open>Redis\<close>

text \<open>The two commands the script calls, at a time, on the state of the server: \<open>INCR\<close> returns the new
  count, \<open>EXPIRE\<close> sets how many seconds a key has to live.\<close>

record 's redis =
  incr :: "rat \<Rightarrow> str \<Rightarrow> 's \<Rightarrow> int \<times> 's"
  expire :: "rat \<Rightarrow> str \<Rightarrow> rat \<Rightarrow> 's \<Rightarrow> 's"

type_synonym entries = "str \<Rightarrow> (int \<times> rat option) option"

text \<open>The entry of a key that has not expired, a key without a deadline never does.\<close>

definition alive :: "rat \<Rightarrow> entries \<Rightarrow> entries" where
  "alive now m k = (case m k of
      Some (n, Some deadline) \<Rightarrow> if now < deadline then m k else None | _ \<Rightarrow> m k)"

definition counted :: "rat \<Rightarrow> entries \<Rightarrow> str \<Rightarrow> int \<times> rat option" where
  "counted now m k = (case alive now m k of None \<Rightarrow> (0, None) | Some e \<Rightarrow> e)"

text \<open>The documented behaviour, over the entries that a state of the server holds: a missing or expired
  key counts from zero without a deadline, the deadline of a counted key stays, no other key changes.\<close>

definition redis_laws :: "'s redis \<Rightarrow> ('s \<Rightarrow> entries) \<Rightarrow> bool" where
  "redis_laws ops view \<longleftrightarrow>
     (\<forall>now k s. fst (incr ops now k s) = fst (counted now (view s) k) + 1
        \<and> view (snd (incr ops now k s)) = (view s)(k \<mapsto> (fst (counted now (view s) k) + 1, snd (counted now (view s) k)))
        \<and> (\<forall>seconds. view (expire ops now k seconds s) =
              (view s)(k := map_option (\<lambda>(n, _). (n, Some (now + seconds))) (alive now (view s) k))))"

subsection \<open>The script\<close>

definition redis_script :: "'s redis \<Rightarrow> rat \<Rightarrow> str \<Rightarrow> 's \<Rightarrow> int \<times> 's" where
  "redis_script ops now key s =
     (let (used, s') = incr ops now key s
      in (used, if used = 1 then expire ops now key 60 s' else s'))"

definition rate_key :: "str \<Rightarrow> str" where
  "rate_key host = ''incident-ai:rate:'' @ host"

text \<open>The decision of \<open>handle_request\<close> for one request, and the decisions for a sequence of requests.\<close>

definition redis_exceeded :: "'s redis \<Rightarrow> rat \<Rightarrow> str \<Rightarrow> int \<Rightarrow> 's \<Rightarrow> bool \<times> 's" where
  "redis_exceeded ops now host limit s =
     (let (used, s') = redis_script ops now (rate_key host) s in (used > limit, s'))"

fun redis_run :: "'s redis \<Rightarrow> int \<Rightarrow> 's \<Rightarrow> (rat \<times> str) list \<Rightarrow> bool list" where
  "redis_run ops limit s [] = []"
| "redis_run ops limit s ((now, host) # rs) =
     (let (limited, s') = redis_exceeded ops now host limit s in limited # redis_run ops limit s' rs)"

text \<open>It is the decision of the middleware: the request passes the check exactly when it is not exceeded.\<close>

lemma rate_check_redis:
  assumes "prefix ''/api/'' (req_path r)"
  shows "fst (rate_check S (Some (Inr (fst (redis_script ops now (rate_key host) s)))) now cid r l) = Inr None
    \<longleftrightarrow> \<not> fst (redis_exceeded ops now host (rate_limit_per_minute S) s)"
  using assms by (simp add: rate_check_def redis_exceeded_def Let_def split_def)

lemma rate_key_inject [simp]: "rate_key a = rate_key b \<longleftrightarrow> a = b"
  by (simp add: rate_key_def)

subsection \<open>One step over the entries\<close>

text \<open>The window of a client after a request: the count and its deadline.\<close>

definition opened :: "rat \<Rightarrow> entries \<Rightarrow> str \<Rightarrow> int \<times> rat option" where
  "opened now m k = (let (n, deadline) = counted now m k in
     (n + 1, if n = 0 then Some (now + 60) else deadline))"

lemma redis_script_run:
  assumes "redis_laws ops view" and "\<forall>d. snd (counted now (view s) k) = Some d \<longrightarrow> now < d"
  shows "fst (redis_script ops now k s) = fst (opened now (view s) k)
    \<and> view (snd (redis_script ops now k s)) = (view s)(k \<mapsto> opened now (view s) k)"
  using assms unfolding redis_laws_def
  by (auto simp: redis_script_def opened_def Let_def split_def alive_def split: option.splits)

lemma counted_deadline: "snd (counted now m k) = Some d \<Longrightarrow> now < d"
  by (auto simp: counted_def alive_def split: option.splits if_splits)

lemma redis_exceeded_run:
  assumes "redis_laws ops view"
  shows "fst (redis_exceeded ops now host limit s) = (fst (opened now (view s) (rate_key host)) > limit)
    \<and> view (snd (redis_exceeded ops now host limit s)) = (view s)(rate_key host \<mapsto> opened now (view s) (rate_key host))"
  using redis_script_run[OF assms, of now s "rate_key host"] counted_deadline
  by (simp add: redis_exceeded_def split_def Let_def)

subsection \<open>The bound\<close>

text \<open>The entries the script itself makes: counted at least once, with a deadline at most a minute ahead.\<close>

definition windows_ok :: "rat \<Rightarrow> entries \<Rightarrow> bool" where
  "windows_ok now m \<longleftrightarrow> (\<forall>host. case m (rate_key host) of None \<Rightarrow> True
     | Some (n, deadline) \<Rightarrow> 1 \<le> n \<and> (case deadline of None \<Rightarrow> False | Some d \<Rightarrow> d \<le> now + 60))"

lemma windows_ok_later: "windows_ok now m \<Longrightarrow> now \<le> later \<Longrightarrow> windows_ok later m"
  unfolding windows_ok_def by (fastforce split: option.splits)

lemma windows_okD:
  assumes "windows_ok now m"
  shows "m (rate_key host) = None \<or> (\<exists>n d. m (rate_key host) = Some (n, Some d) \<and> 1 \<le> n \<and> d \<le> now + 60)"
proof (cases "m (rate_key host)")
  case (Some e)
  with assms show ?thesis
    unfolding windows_ok_def by (cases e; cases "snd e") (auto dest!: spec[of _ host])
qed simp

lemma counted_cases:
  assumes "windows_ok now m"
  obtains (missing) "counted now m (rate_key host) = (0, None)"
    | (live) n d where "counted now m (rate_key host) = (n, Some d)" "1 \<le> n" "now < d" "d \<le> now + 60"
proof (cases "alive now m (rate_key host)")
  case None
  then show thesis by (intro missing) (simp add: counted_def)
next
  case (Some e)
  with windows_okD[OF assms, of host] show thesis
    by (intro live[of "fst e" "the (snd e)"]) (auto simp: counted_def alive_def split: if_splits)
qed

lemma windows_ok_opened:
  assumes "windows_ok now m"
  shows "windows_ok now (m(rate_key host \<mapsto> opened now m (rate_key host)))"
  unfolding windows_ok_def
proof
  fix other
  show "case (m(rate_key host \<mapsto> opened now m (rate_key host))) (rate_key other) of None \<Rightarrow> True
     | Some (n, deadline) \<Rightarrow> 1 \<le> n \<and> (case deadline of None \<Rightarrow> False | Some d \<Rightarrow> d \<le> now + 60)"
  proof (cases "other = host")
    case True
    show ?thesis by (rule counted_cases[OF assms, of host]) (auto simp: True opened_def Let_def)
  qed (use assms in \<open>auto simp: windows_ok_def\<close>)
qed

text \<open>How many requests of a client can still be accepted in the sixty seconds up to \<open>T\<close>: what is left in
  its window, and a whole window for every further one that can open before \<open>T\<close>.\<close>

definition allowance :: "rat \<Rightarrow> int \<Rightarrow> rat \<Rightarrow> int \<times> rat option \<Rightarrow> int" where
  "allowance T limit now e =
     (if T < now then 0
      else case e of
          (n, None) \<Rightarrow> if T - 60 < now then limit else 2 * limit - 1
        | (n, Some d) \<Rightarrow>
            if T < d then max 0 (limit - n) else if T - 60 < d then max 0 (limit - n) + limit else 2 * limit - 1)"

lemma counted_later:
  assumes "windows_ok now m" and "now \<le> later"
  shows "counted later m (rate_key host) = counted now m (rate_key host)
    \<or> counted later m (rate_key host) = (0, None) \<and>
        (\<forall>n d. counted now m (rate_key host) = (n, Some d) \<longrightarrow> d \<le> later)"
  using assms unfolding counted_def alive_def by (auto split: option.splits if_splits)

lemma allowance_later:
  assumes "windows_ok now m" and "now \<le> later" and "1 \<le> limit"
  shows "allowance T limit later (counted later m (rate_key host)) \<le> allowance T limit now (counted now m (rate_key host))"
  using counted_later[OF assms(1,2), of host] assms(2,3)
  by (cases rule: counted_cases[OF assms(1), of host]) (auto simp: allowance_def)

lemma allowance_step:
  assumes "windows_ok now m" and "1 \<le> limit"
  shows "of_bool (fst (opened now m (rate_key host)) \<le> limit \<and> T - 60 < now \<and> now \<le> T)
      + allowance T limit now (opened now m (rate_key host)) \<le> allowance T limit now (counted now m (rate_key host))"
  using assms(2)
  by (cases rule: counted_cases[OF assms(1), of host]) (auto simp: allowance_def opened_def Let_def max_def)

lemma counted_opened:
  assumes "windows_ok now m"
  shows "counted now (m(rate_key host \<mapsto> opened now m (rate_key host))) (rate_key host) = opened now m (rate_key host)"
  by (cases rule: counted_cases[OF assms, of host]) (auto simp: opened_def counted_def alive_def Let_def)

lemma counted_other: "k \<noteq> k' \<Longrightarrow> counted now (m(k' \<mapsto> e)) k = counted now m k"
  by (auto simp: counted_def alive_def split: option.splits)

lemma redis_run_budget:
  assumes "redis_laws ops view" and "windows_ok start (view s)" and "times_ok start rs" and "1 \<le> limit"
  shows "int (accepted_in T host rs (redis_run ops limit s rs)) \<le> allowance T limit start (counted start (view s) (rate_key host))"
  using assms(2,3)
proof (induction rs arbitrary: s start)
  case Nil
  then show ?case using assms(4) by (auto simp: accepted_in_def allowance_def split: prod.splits option.splits)
next
  case (Cons r rs)
  obtain now k where r: "r = (now, k)" by (cases r)
  have start: "start \<le> now" and ok: "times_ok now rs" using Cons.prems(2) r by (auto simp: times_ok_def)
  have w: "windows_ok now (view s)" using Cons.prems(1) start by (rule windows_ok_later)
  obtain limited s' where step: "redis_exceeded ops now k limit s = (limited, s')" by fastforce
  let ?e = "opened now (view s) (rate_key k)"
  have limited: "limited = (fst ?e > limit)" and s': "view s' = (view s)(rate_key k \<mapsto> ?e)"
    using redis_exceeded_run[OF assms(1), of now k limit s] by (simp_all add: step)
  have IH: "int (accepted_in T host rs (redis_run ops limit s' rs)) \<le> allowance T limit now (counted now (view s') (rate_key host))"
    using windows_ok_opened[OF w, of k] ok by (intro Cons.IH) (simp_all add: s' del: fun_upd_apply)
  have cons: "int (accepted_in T host (r # rs) (redis_run ops limit s (r # rs))) =
      of_bool (\<not> limited \<and> k = host \<and> T - 60 < now \<and> now \<le> T) + int (accepted_in T host rs (redis_run ops limit s' rs))"
    by (simp add: r step accepted_in_def)
  have "int (accepted_in T host (r # rs) (redis_run ops limit s (r # rs))) \<le> allowance T limit now (counted now (view s) (rate_key host))"
  proof (cases "k = host")
    case True
    with allowance_step[OF w assms(4), of host T] IH cons counted_opened[OF w, of host] show ?thesis
      by (simp add: s' limited not_less)
  next
    case False
    with IH cons show ?thesis by (simp add: s' counted_other)
  qed
  also have "\<dots> \<le> allowance T limit start (counted start (view s) (rate_key host))"
    by (rule allowance_later[OF Cons.prems(1) start assms(4)])
  finally show ?case .
qed

text \<open>A server that behaves as documented, for the concrete runs.\<close>

definition plain_redis :: "entries redis" where
  "plain_redis = \<lparr>
     incr = (\<lambda>now k m. let (n, d) = counted now m k in (n + 1, m(k \<mapsto> (n + 1, d)))),
     expire = (\<lambda>now k seconds m. m(k := map_option (\<lambda>(n, _). (n, Some (now + seconds))) (alive now m k)))\<rparr>"

lemma plain_redis_laws: "redis_laws plain_redis (\<lambda>m. m)"
  by (simp add: redis_laws_def plain_redis_def Let_def split_def)

lemma redis_run_other:
  assumes "redis_laws ops view" and "view s (rate_key host) = None" and "k \<noteq> host"
  shows "view (snd (redis_exceeded ops now k limit s)) (rate_key host) = None"
  using redis_exceeded_run[OF assms(1), of now k limit s] assms(2,3) by simp

text \<open>A client's first request opens its window, whatever the others did before.\<close>

lemma redis_run_window:
  assumes "redis_laws ops view" and "windows_ok start (view s)" and "times_ok start rs" and "1 \<le> limit"
    and "view s (rate_key host) = None" and "\<forall>(t, h) \<in> set rs. h = host \<longrightarrow> T - 60 < t"
  shows "int (accepted_in T host rs (redis_run ops limit s rs)) \<le> limit"
  using assms(2,3,5,6)
proof (induction rs arbitrary: s start)
  case Nil
  then show ?case using assms(4) by (simp add: accepted_in_def)
next
  case (Cons r rs)
  obtain now k where r: "r = (now, k)" by (cases r)
  have start: "start \<le> now" and ok: "times_ok now rs" using Cons.prems(2) r by (auto simp: times_ok_def)
  have w: "windows_ok now (view s)" using Cons.prems(1) start by (rule windows_ok_later)
  show ?case
  proof (cases "k = host")
    case True
    have "times_ok now (r # rs)" using ok r by (simp add: times_ok_def)
    from redis_run_budget[OF assms(1) w this assms(4), of T host]
    have "int (accepted_in T host (r # rs) (redis_run ops limit s (r # rs))) \<le> allowance T limit now (0, None)"
      using Cons.prems(3) by (simp add: counted_def alive_def)
    moreover have "T - 60 < now" using Cons.prems(4) r True by simp
    ultimately show ?thesis using assms(4) by (simp add: allowance_def split: if_splits)
  next
    case False
    obtain limited s' where step: "redis_exceeded ops now k limit s = (limited, s')" by fastforce
    have "view s' = (view s)(rate_key k \<mapsto> opened now (view s) (rate_key k))"
      using redis_exceeded_run[OF assms(1), of now k limit s] by (simp add: step)
    then have "windows_ok now (view s')" using windows_ok_opened[OF w] by simp
    moreover have "view s' (rate_key host) = None"
      using redis_run_other[OF assms(1) Cons.prems(3) False, of now limit] by (simp add: step)
    ultimately have "int (accepted_in T host rs (redis_run ops limit s' rs)) \<le> limit"
      using Cons.IH ok Cons.prems(4) by simp
    then show ?thesis using False by (simp add: r step accepted_in_def)
  qed
qed

text \<open>C37. In any sixty seconds the shared limiter accepts fewer than twice the configured number of
  requests of a client, and at most the configured number in the sixty seconds that begin with the client's first
  request, whenever that comes and whatever the other clients do; on a Redis with the documented commands that held
  no counter when the requests began, with a limit of at least one and a clock that does not go back.\<close>

theorem redis_limiter_bound:
  assumes "redis_laws ops view" and "\<forall>k. view s (rate_key k) = None" and "times_ok start rs" and "1 \<le> limit"
  shows "int (accepted_in T host rs (redis_run ops limit s rs)) < 2 * limit
    \<and> ((\<forall>(t, h) \<in> set rs. h = host \<longrightarrow> T - 60 < t) \<longrightarrow> int (accepted_in T host rs (redis_run ops limit s rs)) \<le> limit)"
proof -
  have ok: "windows_ok start (view s)" using assms(2) by (simp add: windows_ok_def)
  from redis_run_budget[OF assms(1) this assms(3,4), of T host]
  have "int (accepted_in T host rs (redis_run ops limit s rs)) \<le> allowance T limit start (0, None)"
    using assms(2) by (simp add: counted_def alive_def)
  then show ?thesis using redis_run_window[OF assms(1) ok assms(3,4)] assms(2,4) by (auto simp: allowance_def split: if_splits)
qed

lemma boundary_run:
  "redis_run plain_redis 2 (\<lambda>_. None)
     [(0, ''a''), (59, ''a''), (59, ''a''), (59, ''b''), (60, ''a''), (60, ''a''), (60, ''a'')]
   = [False, False, True, False, False, False, True]"
  by (simp add: redis_exceeded_def redis_script_def plain_redis_def counted_def alive_def rate_key_def)

text \<open>The bound is reached: around the end of a window, three requests pass with a limit of two.\<close>

theorem redis_limiter_bound_witness:
  "let rs = [(0, ''a''), (59, ''a''), (59, ''a''), (59, ''b''), (60, ''a''), (60, ''a''), (60, ''a'')];
       accepted = accepted_in 60 ''a'' rs (redis_run plain_redis 2 (\<lambda>_. None) rs)
   in accepted = 3 \<and> int accepted < 2 * 2"
proof -
  let ?rs = "[(0, ''a''), (59, ''a''), (59, ''a''), (59, ''b''), (60, ''a''), (60, ''a''), (60, ''a'')]"
  have "int (accepted_in 60 ''a'' ?rs (redis_run plain_redis 2 (\<lambda>_. None) ?rs)) < 2 * 2"
    using redis_limiter_bound[OF plain_redis_laws, of "\<lambda>_. None" 0 ?rs 2 60 "''a''"]
    by (simp add: times_ok_def)
  moreover have "accepted_in 60 ''a'' ?rs (redis_run plain_redis 2 (\<lambda>_. None) ?rs) = 3"
    unfolding boundary_run by (simp add: accepted_in_def)
  ultimately show ?thesis by (simp add: Let_def)
qed

subsection \<open>Retrying\<close>

text \<open>What the refusal promises with \<open>Retry-After: 60\<close>: a client that waits sixty seconds after any request
  passes, with either limiter.\<close>

lemma redis_retry:
  assumes "redis_laws ops view" and "windows_ok t (view s)" and "t + 60 \<le> later" and "1 \<le> limit"
  shows "\<not> fst (redis_exceeded ops later host limit (snd (redis_exceeded ops t host limit s)))"
proof -
  let ?s = "snd (redis_exceeded ops t host limit s)"
  have w: "windows_ok t (view ?s)"
    using windows_ok_opened[OF assms(2), of host] redis_exceeded_run[OF assms(1)] by simp
  have "alive later (view ?s) (rate_key host) = None"
    using windows_okD[OF w, of host] assms(3) by (auto simp: alive_def)
  then have "fst (opened later (view ?s) (rate_key host)) = 1"
    by (simp add: opened_def counted_def)
  with redis_exceeded_run[OF assms(1), of later host limit ?s] assms(4) show ?thesis by simp
qed

lemma memory_retry:
  assumes "limiter_sim t l hist" and "t + 60 \<le> later" and "1 \<le> limit"
  shows "\<not> fst (exceeded later host limit (snd (exceeded t host limit l)))"
proof -
  let ?l = "snd (exceeded t host limit l)" and ?h = "snd (spec_exceeded t host limit hist)"
  have sim: "limiter_sim t ?l ?h" using exceeded_refines[OF assms(1)] by simp
  have "limiter_sim later ?l ?h" using sim by (rule limiter_sim_later) (use assms(2) in simp)
  moreover have "recent later (?h host) = []"
  proof -
    have "recent later (window_of ?l host) = recent later (?h host)"
      using \<open>limiter_sim later ?l ?h\<close> by (simp add: limiter_sim_def)
    moreover have "recent later (window_of ?l host) = []"
      using sim assms(2) by (fastforce simp: limiter_sim_def recent_def filter_empty_conv)
    ultimately show ?thesis by simp
  qed
  ultimately show ?thesis
    using exceeded_refines[of later ?l ?h host limit] assms(3) by (simp add: spec_exceeded_def Let_def)
qed

end
