(* ===== verification/Plain_Text.thy ===== *)
theory Plain_Text
  imports Prose
begin

text \<open>
  Which texts the privacy filter leaves alone, beyond prose: a text with digits, dashes, slashes and assignments
  is unchanged when it has nothing that starts a credential. The check is executable; addresses are left to the
  evaluation of their pattern.
\<close>

definition markless :: "str \<Rightarrow> bool" where
  "markless s =
     (CHR ''+'' \<notin> set s \<and> \<not> contains ''--'' s \<and> \<not> contains ''bearer'' (lower s) \<and> \<not> contains ''basic'' (lower s) \<and>
      \<not> contains ''http'' (lower s) \<and> \<not> contains ''/3/'' (lower s) \<and> \<not> contains ''AKIA'' s \<and> \<not> contains ''ASIA'' s \<and>
      \<not> contains ''sk-'' s \<and> \<not> contains ''gh'' s \<and> \<not> contains ''eyJ'' s)"

definition plain_text :: "str \<Rightarrow> bool" where
  "plain_text s =
     (markless s \<and> CHR ''@'' \<notin> set s \<and> dq \<notin> set s \<and> sq \<notin> set s \<and>
      (CHR '':'' \<in> set s \<or> CHR ''='' \<in> set s \<longrightarrow> list_all (\<lambda>w. \<not> contains w (lower s)) credential_words))"

lemma match_private_key: "\<not> prefix ''--'' s \<Longrightarrow> match_at private_key_rx pv s = None"
proof -
  assume "\<not> prefix ''--'' s"
  then have "\<not> prefix ''-----BEGIN '' s" using prefix_appendD[of "''--''" "''---BEGIN ''" s] by auto
  then show ?thesis unfolding match_at_def private_key_rx_def by (simp add: mt_seqs_Cons mt_lit)
qed

lemma match_url: "\<not> prefix ''http'' (lower s) \<Longrightarrow> match_at url_userinfo_rx pv s = None"
  unfolding match_at_def url_userinfo_rx_def by (simp add: mt_seqs_Cons mt_liti cong: option.case_cong)

lemma match_slack: "\<not> prefix ''http'' (lower s) \<Longrightarrow> match_at slack_rx pv s = None"
proof -
  assume "\<not> prefix ''http'' (lower s)"
  then have "\<not> prefix ''https://hooks.'' (lower s)"
    using prefix_appendD[of "''http''" "''s://hooks.''" "lower s"] by auto
  then show ?thesis unfolding match_at_def slack_rx_def by (simp add: mt_seqs_Cons mt_liti cong: option.case_cong)
qed

lemma match_device: "\<not> prefix ''/3/'' (lower s) \<Longrightarrow> match_at device_rx pv s = None"
proof -
  assume "\<not> prefix ''/3/'' (lower s)"
  then have "\<not> prefix ''/3/device/'' (lower s)"
    using prefix_appendD[of "''/3/''" "''device/''" "lower s"] by auto
  then show ?thesis unfolding match_at_def device_rx_def by (simp add: mt_seqs_Cons mt_liti cong: option.case_cong)
qed

lemma match_api_key: "\<not> prefix ''sk-'' s \<Longrightarrow> \<not> prefix ''gh'' s \<Longrightarrow> match_at api_key_rx pv s = None"
  unfolding match_at_def api_key_rx_def
  by (simp add: mt_seqs_Cons wordb_def mt_alts_Cons mt_alts_single mt_lit cong: option.case_cong)

lemma match_assignment_plain:
  assumes "\<forall>w \<in> set credential_words. \<not> prefix w (lower s)" and "dq \<notin> set s" "sq \<notin> set s"
  shows "match_at assignment_rx pv s = None"
proof -
  have "s = [] \<or> \<not> (hd s = dq \<or> hd s = sq)" using assms(2,3) by (cases s) auto
  then show ?thesis
    unfolding match_at_def assignment_rx_def
    by (simp add: mt_seqs_Cons wordb_def mt_opt_skip mt_no_credential[OF assms(1)] cong: option.case_cong)
qed

lemma plain_assignment: "plain_text s \<Longrightarrow> sub assignment_rx t None s = s"
proof (cases "CHR '':'' \<in> set s \<or> CHR ''='' \<in> set s")
  case True
  assume plain: "plain_text s"
  have no: "\<forall>w \<in> set credential_words. \<not> contains w (lower s)"
    using plain True by (simp add: plain_text_def list_all_iff)
  have quotes: "dq \<notin> set s" "sq \<notin> set s" using plain by (simp_all add: plain_text_def)
  show ?thesis
  proof (rule sub_id)
    fix pv u assume u: "suffix u s"
    then have "set u \<subseteq> set s" by (auto simp: suffix_def)
    with u no quotes show "match_at assignment_rx pv u = None"
      by (intro match_assignment_plain ballI not_contains_suffix[OF _ u]) auto
  qed
next
  case False
  have "needs (\<lambda>c. c = CHR '':'' \<or> c = CHR ''='') assignment_rx"
    by (auto simp add: assignment_rx_def needs_simps)
  then show ?thesis by (rule sub_id_needs) (use False in auto)
qed

lemma markless_subs:
  assumes "markless s"
  shows "sub private_key_rx t None s = s" "sub bearer_rx t None s = s" "sub url_userinfo_rx t None s = s"
    "sub slack_rx t None s = s" "sub device_rx t None s = s" "sub aws_key_rx t None s = s" "sub jwt_rx t None s = s"
    "sub api_key_rx t None s = s" "sub phone_rx t None s = s"
proof -
  note p = assms[unfolded markless_def]
  show "sub private_key_rx t None s = s"
    by (rule sub_id) (use p in \<open>auto intro: match_private_key dest: not_contains_suffix'\<close>)
  show "sub bearer_rx t None s = s"
    by (rule sub_id) (use p not_contains_suffix in \<open>auto intro!: match_bearer\<close>)
  show "sub url_userinfo_rx t None s = s" "sub slack_rx t None s = s" "sub device_rx t None s = s"
    using p not_contains_suffix by (auto intro!: sub_id match_url match_slack match_device)
  show "sub aws_key_rx t None s = s" "sub jwt_rx t None s = s" "sub api_key_rx t None s = s"
    using p not_contains_suffix' by (auto intro!: sub_id match_aws match_jwt match_api_key)
  show "sub phone_rx t None s = s"
    by (rule sub_id_needs[of "\<lambda>c. c = CHR ''+''"]) (use p in \<open>auto simp: phone_rx_def needs_simps ch_def\<close>)
qed

lemma email_needs_at: "CHR ''@'' \<notin> set s \<Longrightarrow> sub email_rx t None s = s"
  by (rule sub_id_needs[of "\<lambda>c. c = CHR ''@''"]) (auto simp: email_rx_def needs_simps ch_def)

lemma ip_needs_digit: "\<forall>c \<in> set s. \<not> is_digit c \<Longrightarrow> sub ip_rx t None s = s"
  by (rule sub_id_needs[of is_digit]) (auto simp: ip_rx_def octet_rx_def needs_simps is_digit_def ord_def)

lemma ip_needs_dot: "CHR ''.'' \<notin> set s \<Longrightarrow> sub ip_rx t None s = s"
  by (rule sub_id_needs[of "\<lambda>c. c = CHR ''.''"]) (auto simp: ip_rx_def needs_simps ch_def)

lemma redact_plain:
  assumes "plain_text s" and "sub ip_rx (\<lambda>cs. ''[REDACTED IP]'') None s = s"
  shows "redact s = s"
proof -
  have "markless s" "CHR ''@'' \<notin> set s" using assms(1) by (simp_all add: plain_text_def)
  with assms markless_subs email_needs_at plain_assignment show ?thesis
    by (simp add: redact_def redaction_patterns_def)
qed

end
