(* ===== verification/Demo_Client.thy ===== *)
theory Demo_Client
  imports Json
begin

text \<open>
  \<open>src/scripts/demo.py\<close>: the client that seeds a demonstration through the public API and asserts what it gets
  back. The program is a sequence of requests over a transport, an arbitrary server with its state; it ends
  with the JSON value it prints last, or with the reason for which it stops. Theory \<open>Demo_Run\<close> runs it
  against the model of the service.
\<close>

subsection \<open>Programs\<close>

text \<open>A program works on the state of the server and the lines printed so far. It stops with \<open>SystemExit\<close>, with
  a failed assertion, because an answer does not have the shape it indexes, or (in \<open>Smoke_Client\<close>) with an exception of
  the HTTP client.\<close>

datatype stop = SystemExit str | AssertionError | BadAnswer | HTTPStatusError int | ConnectError str

type_synonym ('s, 'a) prog = "'s \<times> str list \<Rightarrow> (stop + 'a) \<times> 's \<times> str list"

definition give :: "'a \<Rightarrow> ('s, 'a) prog" where
  "give x = (\<lambda>s. (Inr x, s))"

definition stop_with :: "stop \<Rightarrow> ('s, 'a) prog" where
  "stop_with e = (\<lambda>s. (Inl e, s))"

definition after :: "('s, 'a) prog \<Rightarrow> ('a \<Rightarrow> ('s, 'b) prog) \<Rightarrow> ('s, 'b) prog" where
  "after m f = (\<lambda>s. case m s of (Inl e, s') \<Rightarrow> (Inl e, s') | (Inr x, s') \<Rightarrow> f x s')"

definition say :: "str \<Rightarrow> ('s, unit) prog" where
  "say line = (\<lambda>(s, printed). (Inr (), s, printed @ [line]))"

definition assert_that :: "bool \<Rightarrow> ('s, unit) prog" where
  "assert_that b = (if b then give () else stop_with AssertionError)"

text \<open>\<open>v[key]\<close>.\<close>

definition item :: "pyval \<Rightarrow> str \<Rightarrow> ('s, pyval) prog" where
  "item v key = (case v of
      VDict d \<Rightarrow> (case map_of d key of Some x \<Rightarrow> give x | None \<Rightarrow> stop_with BadAnswer)
    | _ \<Rightarrow> stop_with BadAnswer)"

definition at_least :: "pyval \<Rightarrow> int \<Rightarrow> ('s, bool) prog" where
  "at_least v n = (case v of VInt i \<Rightarrow> give (n \<le> i) | _ \<Rightarrow> stop_with BadAnswer)"

fun for_each :: "('a \<Rightarrow> ('s, 'b) prog) \<Rightarrow> 'a list \<Rightarrow> ('s, 'b list) prog" where
  "for_each f [] = give []"
| "for_each f (x # xs) = after (f x) (\<lambda>y. after (for_each f xs) (\<lambda>ys. give (y # ys)))"

lemma prog_simps [simp]:
  "give x s = (Inr x, s)" "stop_with e s = (Inl e, s)" "say line (t, printed) = (Inr (), t, printed @ [line])"
  "assert_that True = give ()"
  by (simp_all add: give_def stop_with_def say_def assert_that_def)

lemma after_simps [simp]:
  "after (give x) f = f x" "after (stop_with e) g = stop_with e"
  "after (say line) h (t, printed) = h () (t, printed @ [line])"
  by (simp_all add: after_def give_def stop_with_def say_def fun_eq_iff)

lemma after_run: "m s = (Inr x, s') \<Longrightarrow> after m f s = f x s'"
  by (simp add: after_def)

lemma item_simp [simp]: "map_of d key = Some x \<Longrightarrow> item (VDict d) key = give x"
  by (simp add: item_def)

subsection \<open>Requests\<close>

record client_request =
  cr_method :: str
  cr_url :: str
  cr_headers :: "(str \<times> str) list"
  cr_data :: "str option"

text \<open>What \<open>urlopen\<close> gives: a status with the text of the answer, or the reason for which there is none.\<close>

datatype answered = Answered int str | Unreachable str

type_synonym 's transport = "client_request \<Rightarrow> 's \<Rightarrow> answered \<times> 's"

text \<open>The function \<open>request\<close> of \<open>main\<close>, for the arguments \<open>--url\<close> and \<open>--key\<close>; a status other than success is
  urllib's \<open>HTTPError\<close>.\<close>

definition demo_request ::
  "(str \<Rightarrow> str) \<Rightarrow> str \<Rightarrow> str \<Rightarrow> 's transport \<Rightarrow> str \<Rightarrow> str \<Rightarrow> pyval \<Rightarrow> ('s, pyval) prog" where
  "demo_request fl url key send meth path json = (\<lambda>(s, printed).
     let payload = (if json \<noteq> VNone then Some (dumps dump_default json) else None);
         (got, s') = send \<lparr>cr_method = meth,
            cr_url = rstrip_by (\<lambda>c. c = CHR ''/'') url @ ''/api/v1'' @ path,
            cr_headers = [(''X-API-Key'', key), (''Content-Type'', ''application/json'')], cr_data = payload\<rparr> s
     in (case got of
           Unreachable reason \<Rightarrow>
             Inl (SystemExit (''Cannot reach '' @ url @ ''. Start the backend and check the URL: '' @ reason))
         | Answered status content \<Rightarrow>
             if status < 200 \<or> 299 < status
             then Inl (SystemExit (meth @ '' '' @ path @ '': '' @ int_text status @ '' '' @ content))
             else if content = [] then Inr VNone
             else (case json_loads fl content of Some v \<Rightarrow> Inr v | None \<Rightarrow> Inl BadAnswer), s', printed))"

subsection \<open>The scenarios\<close>

definition demo_log :: "str \<Rightarrow> str \<Rightarrow> pyval" where
  "demo_log level message = VDict [(''level'', VStr level), (''message'', VStr message)]"

definition scenario :: "str \<Rightarrow> str \<Rightarrow> str \<Rightarrow> str \<Rightarrow> str \<Rightarrow> pyval list \<Rightarrow> pyval" where
  "scenario external_id title service severity description logs = VDict
     [(''external_id'', VStr external_id), (''title'', VStr title), (''service'', VStr service),
      (''severity'', VStr severity), (''description'', VStr description), (''logs'', VList logs)]"

definition checkout_scenario :: pyval where
  "checkout_scenario = scenario ''demo-checkout-pool-v1'' ''Checkout error rate above 5%'' ''checkout-api'' ''critical''
     ''Checkout requests are timing out after the 14:32 deployment.''
     [demo_log ''info'' ''deployment v2.8.1 completed; pool_size=10'',
      demo_log ''error'' ''database connection pool exhausted; waiting=84'',
      demo_log ''error'' ''POST /checkout 503 timeout after 30000ms'',
      demo_log ''warn'' ''user=customer@example.com token=demo-secret-value'']"

definition worker_scenario :: pyval where
  "worker_scenario = scenario ''demo-worker-memory-v1'' ''Worker memory usage increasing'' ''notification-worker'' ''high''
     ''Delivery queue is growing and retries exceed normal thresholds.''
     [demo_log ''warn'' ''RSS 1.8GB; queue_depth=12450; retry_count=5'']"

definition cache_scenario :: pyval where
  "cache_scenario = scenario ''demo-cache-latency-v1'' ''Elevated cache latency'' ''catalog-api'' ''medium''
     ''Brief cache miss spike during a scheduled catalog refresh.''
     [demo_log ''info'' ''cache warmup completed; p99=12ms'']"

definition scenarios :: "pyval list" where
  "scenarios = [checkout_scenario, worker_scenario, cache_scenario]"

subsection \<open>The program\<close>

type_synonym 's caller = "str \<Rightarrow> str \<Rightarrow> pyval \<Rightarrow> ('s, pyval) prog"

definition seed_scenario :: "'s caller \<Rightarrow> pyval \<Rightarrow> ('s, pyval) prog" where
  "seed_scenario request payload =
     after (request ''POST'' ''/webhooks/generic'' payload) (\<lambda>result.
     after (item result ''incident'') (\<lambda>incident.
     after (item incident ''id'') (\<lambda>i.
     after (item result ''duplicate'') (\<lambda>duplicate.
     after (item payload ''title'') (\<lambda>title.
     after (say ((if truthy duplicate then ''Existing'' else ''Created'') @ '': '' @ py_str title)) (\<lambda>_. give i))))))"

definition incident_path :: "pyval \<Rightarrow> str" where
  "incident_path i = ''/incidents/'' @ py_str i"

text \<open>The deliveries with the assertions on deduplication and redaction.\<close>

definition demo_ingestion :: "'s caller \<Rightarrow> ('s, pyval list) prog" where
  "demo_ingestion request =
     after (for_each (seed_scenario request) scenarios) (\<lambda>incident_ids.
     after (request ''POST'' ''/webhooks/generic'' (hd scenarios)) (\<lambda>duplicate.
     after (item duplicate ''duplicate'') (\<lambda>again.
     after (assert_that (truthy again)) (\<lambda>_.
     after (item duplicate ''incident'') (\<lambda>incident.
     after (item incident ''id'') (\<lambda>i.
     after (assert_that (i = hd incident_ids)) (\<lambda>_.
     after (request ''GET'' (incident_path (hd incident_ids) @ ''/logs'') VNone) (\<lambda>logs.
     after (assert_that (\<not> contains ''demo-secret-value'' (dumps dump_default logs))) (\<lambda>_.
     after (assert_that (\<not> contains ''customer@example.com'' (dumps dump_default logs))) (\<lambda>_.
       give incident_ids))))))))))"

text \<open>One step of the primary incident: when it has the first status, it gets the second.\<close>

definition advance :: "'s caller \<Rightarrow> str \<Rightarrow> str \<Rightarrow> str \<Rightarrow> ('s, unit) prog" where
  "advance request primary from_status to_status =
     after (request ''GET'' primary VNone) (\<lambda>incident.
     after (item incident ''status'') (\<lambda>status.
       if status = VStr from_status
       then after (request ''PATCH'' primary (VDict [(''status'', VStr to_status)])) (\<lambda>_. give ())
       else give ()))"

definition demo_triage :: "'s caller \<Rightarrow> str \<Rightarrow> ('s, unit) prog" where
  "demo_triage request primary =
     after (advance request primary ''open'' ''acknowledged'') (\<lambda>_.
     after (advance request primary ''acknowledged'' ''investigating'') (\<lambda>_.
     after (request ''POST'' (primary @ ''/timeline'')
       (VDict [(''message'', VStr ''On-call is comparing pool settings with v2.8.0.'')])) (\<lambda>_. give ())))"

definition demo_postmortem_export :: "'s caller \<Rightarrow> str \<Rightarrow> str \<Rightarrow> ('s, unit) prog" where
  "demo_postmortem_export request primary destination =
     after (request ''POST'' (primary @ ''/postmortem/export/'' @ destination) VNone) (\<lambda>result.
     after (item result ''url'') (\<lambda>url.
     after (item result ''is_demo'') (\<lambda>is_demo.
       say (destination @ '': '' @ py_str url @ '' (demo='' @ py_str is_demo @ '')''))))"

definition demo_reports :: "'s caller \<Rightarrow> bool \<Rightarrow> str \<Rightarrow> ('s, unit) prog" where
  "demo_reports request exports primary =
     after (request ''POST'' (primary @ ''/analysis'') VNone) (\<lambda>analysis.
     after (item analysis ''remediation_steps'') (\<lambda>steps.
     after (assert_that (truthy steps)) (\<lambda>_.
     after (request ''POST'' (primary @ ''/postmortem'') VNone) (\<lambda>postmortem.
     after (item postmortem ''markdown'') (\<lambda>markdown.
     after (assert_that (truthy markdown)) (\<lambda>_.
       if exports
       then after (for_each (demo_postmortem_export request primary) [''jira'', ''confluence'']) (\<lambda>_. give ())
       else give ()))))))"

definition demo_recovery :: "'s caller \<Rightarrow> str \<Rightarrow> ('s, unit) prog" where
  "demo_recovery request recovered =
     after (request ''GET'' recovered VNone) (\<lambda>incident.
     after (item incident ''status'') (\<lambda>status.
       if status \<noteq> VStr ''resolved''
       then after (request ''PATCH'' recovered (VDict [(''status'', VStr ''resolved'')])) (\<lambda>_. give ())
       else give ()))"

definition demo_dashboard :: "'s caller \<Rightarrow> pyval \<Rightarrow> ('s, pyval) prog" where
  "demo_dashboard request primary_id =
     after (request ''GET'' ''/dashboard'' VNone) (\<lambda>dashboard.
     after (item dashboard ''total_incidents'') (\<lambda>total.
     after (at_least total 3) (\<lambda>enough.
     after (assert_that enough) (\<lambda>_.
     after (item dashboard ''resolved_incidents'') (\<lambda>resolved.
     after (at_least resolved 1) (\<lambda>some.
     after (assert_that some) (\<lambda>_.
       give (VDict [(''incident_id'', primary_id), (''dashboard'', dashboard)]))))))))"

definition demo_main :: "'s caller \<Rightarrow> bool \<Rightarrow> ('s, pyval) prog" where
  "demo_main request exports =
     after (demo_ingestion request) (\<lambda>incident_ids.
     let primary = incident_path (hd incident_ids) in
     after (demo_triage request primary) (\<lambda>_.
     after (demo_reports request exports primary) (\<lambda>_.
     after (demo_recovery request (incident_path (incident_ids ! 2))) (\<lambda>_.
     after (demo_dashboard request (hd incident_ids)) (\<lambda>summary.
     after (say ''Verified ingestion, deduplication, redaction, analysis, timeline, postmortem and metrics.'') (\<lambda>_.
       give summary))))))"

end
