(* ===== verification/Demo_Texts.thy ===== *)
theory Demo_Texts
  imports Demo_Client Plain_Text Deliveries
begin

text \<open>
  The texts of \<open>src/scripts/demo.py\<close> behind the privacy filter: every one is left alone, except for the line of the
  log with an address and a token. The scenarios are accepted by the generic adapter.
\<close>

subsection \<open>Substituting from left to right\<close>

lemma sub_copy:
  assumes "\<And>a b pv'. x = a @ b \<Longrightarrow> b \<noteq> [] \<Longrightarrow> match_at r pv' (b @ s) = None"
  shows "sub r t pv (x @ s) = x @ sub r t (if x = [] then pv else Some (last x)) s"
  using assms
proof (induction x arbitrary: pv)
  case (Cons c x)
  have "match_at r pv (c # x @ s) = None" using Cons.prems[of "[]" "c # x"] by simp
  moreover have "sub r t (Some c) (x @ s) = x @ sub r t (if x = [] then Some c else Some (last x)) s"
    by (rule Cons.IH) (use Cons.prems[of "c # a" for a] in auto)
  ultimately show ?case by (subst sub.simps) auto
qed simp

text \<open>No credential word starts inside of \<open>x\<close>.\<close>

fun no_word_in :: "str \<Rightarrow> str \<Rightarrow> bool" where
  "no_word_in [] s = True"
| "no_word_in (c # x) s =
     (c \<noteq> dq \<and> c \<noteq> sq \<and> list_all (\<lambda>w. \<not> prefix w (lower (c # x @ s))) credential_words \<and> no_word_in x s)"

lemma no_word_in_suffix: "no_word_in (a @ b) s \<Longrightarrow> no_word_in b s"
  by (induction a) auto

lemma match_assignment_in:
  assumes "no_word_in b s" and "b \<noteq> []"
  shows "match_at assignment_rx pv (b @ s) = None"
proof -
  obtain c x where b: "b = c # x" using assms(2) by (cases b) auto
  have no: "\<forall>w \<in> set credential_words. \<not> prefix w (lower (c # x @ s))" using assms(1) by (simp add: b list_all_iff)
  show ?thesis
    using assms(1) unfolding match_at_def assignment_rx_def
    by (simp add: b mt_no_credential[OF no] mt_seqs_Cons wordb_def mt_opt_skip cong: option.case_cong)
qed

lemma sub_assignment_copy:
  "no_word_in x s \<Longrightarrow> sub assignment_rx t pv (x @ s) = x @ sub assignment_rx t (if x = [] then pv else Some (last x)) s"
  by (rule sub_copy) (auto intro: match_assignment_in no_word_in_suffix)

lemma sub_all: "match_at r pv s = Some (pv', [], cs) \<Longrightarrow> s \<noteq> [] \<Longrightarrow> 0 < minlen r \<Longrightarrow> sub r t pv s = t cs"
  by (subst sub.simps) (simp add: sub_Nil)

subsection \<open>The line with the secrets\<close>

definition secret_line :: str where
  "secret_line = ''user=customer@example.com token=demo-secret-value''"

definition filtered_line :: str where
  "filtered_line = ''[REDACTED EMAIL] token=[REDACTED]''"

lemma token_matches:
  "match_at assignment_rx (Some CHR '' '') ''token=demo-secret-value'' = Some (Some CHR ''e'', [], [(1, ''token='')])"
  "match_at assignment_rx (Some CHR '' '') ''token=[REDACTED]'' = Some (Some CHR '']'', [], [(1, ''token='')])"
  by code_simp+

lemma secret_assignment:
  "sub assignment_rx (\<lambda>cs. group (Suc 0) cs @ ''[REDACTED]'') None secret_line = ''user=customer@example.com token=[REDACTED]''"
proof -
  have "no_word_in ''user=customer@example.com '' ''token=demo-secret-value''" by code_simp
  from sub_assignment_copy[OF this, of "\<lambda>cs. group (Suc 0) cs @ ''[REDACTED]''" None] show ?thesis
    by (simp add: secret_line_def sub_all[OF token_matches(1)] assignment_rx_minlen group_def)
qed

lemma filtered_assignment: "sub assignment_rx (\<lambda>cs. group (Suc 0) cs @ ''[REDACTED]'') None filtered_line = filtered_line"
proof -
  have "no_word_in ''[REDACTED EMAIL] '' ''token=[REDACTED]''" by code_simp
  from sub_assignment_copy[OF this, of "\<lambda>cs. group (Suc 0) cs @ ''[REDACTED]''" None] show ?thesis
    by (simp add: filtered_line_def sub_all[OF token_matches(2)] assignment_rx_minlen group_def)
qed

lemma redact_secret_line: "redact secret_line = filtered_line"
proof -
  let ?s = "''user=customer@example.com token=[REDACTED]''"
  have marks: "markless secret_line" "markless ?s" "markless filtered_line"
    unfolding secret_line_def filtered_line_def by code_simp+
  have ip: "sub ip_rx t None filtered_line = filtered_line" for t
    by (rule ip_needs_digit) (simp add: filtered_line_def is_digit_def ord_def)
  have email: "sub email_rx (\<lambda>cs. ''[REDACTED EMAIL]'') None ?s = filtered_line"
    unfolding filtered_line_def by code_simp
  show ?thesis
    by (simp add: redact_def redaction_patterns_def markless_subs[OF marks(1)] markless_subs[OF marks(2)]
        markless_subs[OF marks(3)] secret_assignment email ip)
qed

lemma redact_filtered_line: "redact filtered_line = filtered_line"
proof -
  have marks: "markless filtered_line" unfolding filtered_line_def by code_simp
  have "sub ip_rx t None filtered_line = filtered_line" "sub email_rx t None filtered_line = filtered_line" for t
    by (auto intro!: ip_needs_digit email_needs_at simp: filtered_line_def is_digit_def ord_def)
  with filtered_assignment show ?thesis
    by (simp add: redact_def redaction_patterns_def markless_subs[OF marks])
qed

subsection \<open>Texts that stay\<close>

definition fixed_text :: "str \<Rightarrow> bool" where
  "fixed_text s = (redact s = s \<and> trim s = s)"

lemma fixed_redacted_str:
  "fixed_text s \<Longrightarrow> lo \<le> length s \<Longrightarrow> length s \<le> hi \<Longrightarrow> redacted_str lo hi (VStr s) = Inr s"
  by (simp add: fixed_text_def redacted_str_def redact_strings_def constrained_str_def)

text \<open>No address: without a dot or without a digit there is nothing to look for.\<close>

definition no_address :: "str \<Rightarrow> bool" where
  "no_address s = (if CHR ''.'' \<notin> set s then True else if list_all (\<lambda>c. \<not> is_digit c) s then True
     else sub ip_rx (\<lambda>cs. ''[REDACTED IP]'') None s = s)"

lemma redact_no_address: "plain_text s \<Longrightarrow> no_address s \<Longrightarrow> redact s = s"
  by (rule redact_plain)
    (auto simp: no_address_def list_all_iff intro: ip_needs_dot ip_needs_digit split: if_splits)

definition demo_texts :: "str list" where
  "demo_texts =
     [''Checkout error rate above 5%'', ''checkout-api'', ''Checkout requests are timing out after the 14:32 deployment.'',
      ''Worker memory usage increasing'', ''notification-worker'',
      ''Delivery queue is growing and retries exceed normal thresholds.'', ''Elevated cache latency'', ''catalog-api'',
      ''Brief cache miss spike during a scheduled catalog refresh.'', ''deployment v2.8.1 completed; pool_size=10'',
      ''database connection pool exhausted; waiting=84'', ''POST /checkout 503 timeout after 30000ms'',
      ''RSS 1.8GB; queue_depth=12450; retry_count=5'', ''cache warmup completed; p99=12ms'',
      ''On-call is comparing pool settings with v2.8.0.'']"

lemma demo_texts_fixed: "s \<in> set demo_texts \<Longrightarrow> fixed_text s"
proof -
  have "list_all plain_text demo_texts" by code_simp
  moreover have "list_all no_address demo_texts" by code_simp
  moreover have "list_all (\<lambda>s. trim s = s) demo_texts" by code_simp
  ultimately show "s \<in> set demo_texts \<Longrightarrow> fixed_text s"
    by (auto simp: list_all_iff fixed_text_def intro: redact_no_address)
qed

lemma filtered_line_fixed: "fixed_text filtered_line"
proof -
  have "trim filtered_line = filtered_line" unfolding filtered_line_def by code_simp
  then show ?thesis by (simp add: fixed_text_def redact_filtered_line)
qed

end
