(* ===== verification/Demo_Run.thy ===== *)
theory Demo_Run
  imports Demo_Texts Http_Service
begin

text \<open>
  The demonstration script against the service: its deliveries and the triage of the primary incident pass through
  the middleware, the router, the guards, the adapter, the privacy filter and the database, and every assertion the
  script makes on the way holds.
\<close>

subsection \<open>The scenarios as alerts\<close>

text \<open>The lines of a log as (level, message).\<close>

definition demo_logs :: "(str \<times> str) list \<Rightarrow> pyval list" where
  "demo_logs ls = map (\<lambda>(l, m). demo_log l m) ls"

definition entry :: "str \<Rightarrow> str \<Rightarrow> dict" where
  "entry l m = [(''level'', VStr l), (''message'', VStr m)]"

definition demo_levels :: "str list" where
  "demo_levels = [''info'', ''error'', ''warn'']"

lemma lower_words: "l \<in> set demo_levels \<Longrightarrow> \<forall>c \<in> set l. is_lower c"
  by (auto simp: demo_levels_def is_lower_def ord_def)

lemma entry_keys: "\<not> is_secret_key ''level''" "\<not> is_secret_key ''message''"
  by code_simp+

lemma redact_demo_entry:
  assumes "l \<in> set demo_levels"
  shows "redact_entry (strip_keys (entry l m)) = entry l (redact m)"
proof -
  have "redact ''level'' = ''level''" "redact ''message'' = ''message''" "redact l = l"
    using lower_words[OF assms] by (auto intro!: redact_lower_word simp: is_lower_def ord_def)
  moreover have "trim ''level'' = ''level''" "trim ''message'' = ''message''" by code_simp+
  ultimately show ?thesis
    by (simp add: redact_entry_def strip_keys_def entry_def dict_of_def entry_keys)
qed

lemma entry_accepted: "length m \<le> 20000 \<Longrightarrow> log_entry_ok (strip_keys (entry l m))"
proof -
  have "trim ''level'' = ''level''" "trim ''message'' = ''message''" by code_simp+
  then show "length m \<le> 20000 \<Longrightarrow> log_entry_ok (strip_keys (entry l m))"
    by (simp add: log_entry_ok_def strip_keys_def entry_def dict_of_def get_def has_key_def)
qed

lemma demo_logs_check:
  assumes "\<forall>(l, m) \<in> set ls. l \<in> set demo_levels \<and> length m \<le> 20000" and "length ls \<le> 1000"
  shows "logs_check (VList (demo_logs ls)) = Inr (map (\<lambda>(l, m). entry l (redact m)) ls)"
proof -
  have items: "dict_items_of (demo_logs ls) = Some (map (\<lambda>(l, m). entry l m) ls)"
    by (induction ls) (auto simp: demo_logs_def demo_log_def entry_def)
  have ok: "list_all log_entry_ok (map strip_keys (map (\<lambda>(l, m). entry l m) ls))"
    using assms(1) entry_accepted by (auto simp: list_all_iff)
  have "map redact_entry (map strip_keys (map (\<lambda>(l, m). entry l m) ls)) = map (\<lambda>(l, m). entry l (redact m)) ls"
    using assms(1) redact_demo_entry by auto
  with items ok assms(2) show ?thesis by (simp add: logs_check_def Let_def del: map_map)
qed

lemma log_level_check: "l \<in> set demo_levels \<Longrightarrow> \<exists>L. one_of log_levels (normalize_level (VStr l)) = Inr L"
proof -
  have "list_all (\<lambda>l. is_ok (one_of log_levels (normalize_level (VStr l)))) demo_levels" by code_simp
  then have "is_ok (one_of log_levels (normalize_level (VStr l)))" if "l \<in> set demo_levels"
    using that by (simp add: list_all_iff)
  then show "l \<in> set demo_levels \<Longrightarrow> \<exists>L. one_of log_levels (normalize_level (VStr l)) = Inr L"
    by (cases "one_of log_levels (normalize_level (VStr l))") (simp_all add: is_ok_def del: one_of_Inr)
qed

lemma entry_input:
  assumes "l \<in> set demo_levels" and "fixed_text m" and "1 \<le> length m" and "length m \<le> 32768"
  shows "\<exists>e. check_log_input rs (VDict (entry l m)) = Inr e \<and> li_message e = m \<and> li_level e \<in> set log_levels"
proof -
  obtain L where "one_of log_levels (normalize_level (VStr l)) = Inr L" using log_level_check[OF assms(1)] ..
  with fixed_redacted_str[OF assms(2-4)] have "\<exists>e. check_log_input rs (VDict (entry l m)) = Inr e \<and> li_message e = m"
    by (auto simp: check_log_input_def log_input_fields_def entry_def simp del: one_of_Inr)
  then show ?thesis using log_input_valid(1) by blast
qed

text \<open>A scenario whose texts stay is one alert with these texts, and its log messages filtered.\<close>

definition demo_alert :: "str \<Rightarrow> str \<Rightarrow> str \<Rightarrow> Severity \<Rightarrow> str \<Rightarrow> (str \<times> str) list \<Rightarrow> NormalizedAlert" where
  "demo_alert ext title service sev desc ls =
     \<lparr>na_external_id = ext, na_title = title, na_service = service, na_severity = sev, na_description = desc,
      na_logs = map (\<lambda>(l, m). entry l (redact m)) ls\<rparr>"

definition texts_stay :: "str \<Rightarrow> str \<Rightarrow> str \<Rightarrow> bool" where
  "texts_stay title service desc =
     (fixed_text title \<and> 1 \<le> length title \<and> length title \<le> 240 \<and> fixed_text service \<and> 1 \<le> length service \<and>
      length service \<le> 120 \<and> fixed_text desc \<and> length desc \<le> 20000)"

definition logs_stay :: "(str \<times> str) list \<Rightarrow> bool" where
  "logs_stay ls =
     (length ls \<le> 1000 \<and> (\<forall>(l, m) \<in> set ls. l \<in> set demo_levels \<and> length m \<le> 20000 \<and>
        fixed_text (redact m) \<and> 1 \<le> length (redact m) \<and> length (redact m) \<le> 32768))"

lemma texts_stay_checks:
  assumes "texts_stay t s x"
  shows "redacted_str 1 240 (VStr t) = Inr t" "redacted_str 1 120 (VStr s) = Inr s" "redacted_str 0 20000 (VStr x) = Inr x"
  using assms by (auto intro!: fixed_redacted_str simp: texts_stay_def)

lemma scenario_alert:
  assumes "texts_stay t s x" and "logs_stay ls" and "severity_of (VStr v) True = Inr sev"
    and "trim ext = ext" "1 \<le> length ext" "length ext \<le> 255"
  shows "generic_normalize (scenario ext t s v x (demo_logs ls)) = Inr [demo_alert ext t s sev x ls]"
proof -
  have logs: "logs_check (VList (demo_logs ls)) = Inr (map (\<lambda>(l, m). entry l (redact m)) ls)"
    by (rule demo_logs_check) (use assms(2) in \<open>auto simp: logs_stay_def\<close>)
  have ext: "constrained_str 1 255 (VStr ext) = Inr ext" using assms(4-6) by (simp add: constrained_str_def)
  have "ext \<noteq> []" using assms(5) by auto
  then have "make_id ''generic'' d [VStr ext] = ext" for d using assms(6) by (simp add: make_id_def present_def)
  with assms(3) logs ext texts_stay_checks[OF assms(1)] show ?thesis
    by (simp add: generic_normalize_def to_mapping_def scenario_def get_def get_or_def has_key_def normalized_alert_def
        both_def map_check_def read_field_def demo_alert_def)
qed

lemma demo_alert_data:
  "texts_stay t s x \<Longrightarrow> alert_data (demo_alert ext t s sev x ls) =
     Inr \<lparr>ic_title = t, ic_service = s, ic_severity = sev, ic_description = x\<rparr>"
  using texts_stay_checks[of t s x]
  by (simp add: alert_data_def check_incident_create_def incident_create_fields_def demo_alert_def severity_check_def)

lemma demo_alert_logs:
  assumes "logs_stay ls"
  shows "\<exists>es. map_res (\<lambda>d. read_field (check_log_input rs (VDict d))) (na_logs (demo_alert ext t s sev x ls)) = Inr es \<and>
    length es = length ls \<and> map li_message es = map (\<lambda>(l, m). redact m) ls \<and> (\<forall>e \<in> set es. li_level e \<in> set log_levels)"
proof -
  have "\<exists>es. map_res (\<lambda>d. read_field (check_log_input rs (VDict d))) (map (\<lambda>(l, m). entry l (redact m)) ls) = Inr es \<and>
    length es = length ls \<and> map li_message es = map (\<lambda>(l, m). redact m) ls \<and> (\<forall>e \<in> set es. li_level e \<in> set log_levels)"
    if "\<forall>(l, m) \<in> set ls. l \<in> set demo_levels \<and> fixed_text (redact m) \<and> 1 \<le> length (redact m) \<and> length (redact m) \<le> 32768"
    using that
  proof (induction ls)
    case (Cons lm ls)
    obtain l m where lm: "lm = (l, m)" by (cases lm)
    with Cons.prems entry_input[of l "redact m" rs] obtain e where
      "check_log_input rs (VDict (entry l (redact m))) = Inr e" "li_message e = redact m" "li_level e \<in> set log_levels" by auto
    with Cons lm show ?case by auto
  qed simp
  with assms show ?thesis by (auto simp: demo_alert_def logs_stay_def)
qed

lemma read_fixed_row:
  assumes "texts_stay (inc_title r) (inc_service r) (inc_description r)"
    and "inc_severity r = severity_value sev" and "inc_status r = status_value st"
  shows "\<exists>x. read_incident_row r = Inr x"
  using assms texts_stay_checks[OF assms(1)]
  by (simp add: read_incident_row_def severity_check_def status_check_def)

subsection \<open>Ingesting them\<close>

lemma insert_log_run:
  "has_incident iid (live w) \<Longrightarrow> insert_log E iid t level m w =
     (let l = \<lparr>lg_id = uuid E (ids w), lg_incident_id = iid, lg_timestamp = t, lg_level = level, lg_message = m\<rparr>
      in (Inr l, w\<lparr>live := (live w)\<lparr>log_entries := log_entries (live w) @ [l]\<rparr>, ids := Suc (ids w)\<rparr>))"
  by (simp add: insert_log_def insert_new_def Let_def)

text \<open>A row of the log comes from an entry.\<close>

definition log_from :: "env \<Rightarrow> str \<Rightarrow> LogInput list \<Rightarrow> LogEntry \<Rightarrow> bool" where
  "log_from E iid entries l =
     (lg_incident_id l = iid \<and> lg_id l \<in> range (uuid E) \<and>
      (\<exists>e \<in> set entries. lg_message l = redact (li_message e) \<and> lg_level l = li_level e))"

definition grows_logs :: "(LogEntry \<Rightarrow> bool) \<Rightarrow> world \<Rightarrow> world \<Rightarrow> bool" where
  "grows_logs P w w' =
     (\<exists>ls. log_entries (live w') = log_entries (live w) @ ls \<and> list_all P ls \<and> incidents (live w') = incidents (live w) \<and>
        alerts (live w') = alerts (live w) \<and> saved w' = saved w)"

lemma grows_logs_trans: "grows_logs P w w1 \<Longrightarrow> grows_logs P w1 w2 \<Longrightarrow> grows_logs P w w2"
  unfolding grows_logs_def by fastforce

lemma add_log_run:
  assumes "has_incident iid (live w)"
  shows "\<exists>l w'. add_log E iid e w = (Inr l, w') \<and> grows_logs (log_from E iid [e]) w w'"
proof -
  let ?t = "case li_timestamp e of Some t \<Rightarrow> ret t | None \<Rightarrow> utcnow E"
  obtain t w1 where t: "?t w = (Inr t, w1)" "live w1 = live w" "saved w1 = saved w"
    by (cases "li_timestamp e") auto
  with assms show ?thesis
    by (auto simp: add_log_def andthen_def insert_log_run Let_def grows_logs_def log_from_def)
qed

lemma grows_logs_mono: "grows_logs P w w' \<Longrightarrow> (\<And>l. P l \<Longrightarrow> Q l) \<Longrightarrow> grows_logs Q w w'"
  unfolding grows_logs_def by (metis list.pred_mono_strong)

lemma add_log_map_run:
  "has_incident iid (live w) \<Longrightarrow> \<exists>ls w'. map_act (add_log E iid) es w = (Inr ls, w') \<and> grows_logs (log_from E iid es) w w'"
proof (induction es arbitrary: w)
  case Nil
  then show ?case by (simp add: grows_logs_def)
next
  case (Cons e es)
  obtain l w1 where l: "add_log E iid e w = (Inr l, w1)" "grows_logs (log_from E iid [e]) w w1"
    using add_log_run[OF Cons.prems] by blast
  then have "has_incident iid (live w1)" using Cons.prems by (auto simp: grows_logs_def has_incident_iff)
  from Cons.IH[OF this] obtain ls w2 where
    ls: "map_act (add_log E iid) es w1 = (Inr ls, w2)" "grows_logs (log_from E iid es) w1 w2" by blast
  have "grows_logs (log_from E iid (e # es)) w w2"
    by (rule grows_logs_trans[OF grows_logs_mono[OF l(2)] grows_logs_mono[OF ls(2)]]) (auto simp: log_from_def)
  with l ls show ?case by (auto simp: andthen_def)
qed

lemma add_logs_run:
  assumes "has_incident iid (live w)"
  shows "\<exists>ls w'. add_logs E iid es w = (Inr ls, w') \<and> grows_logs (log_from E iid es) w w'"
proof -
  obtain ls w1 where ls: "map_act (add_log E iid) es w = (Inr ls, w1)" "grows_logs (log_from E iid es) w w1"
    using add_log_map_run[OF assms] by blast
  then have "has_incident iid (live w1)" using assms by (auto simp: grows_logs_def has_incident_iff)
  with ls show ?thesis
    by (auto simp: add_logs_def andthen_def add_event_run grows_logs_def)
qed

text \<open>What a first delivery leaves behind.\<close>

definition first_delivery :: "env \<Rightarrow> str \<Rightarrow> str \<Rightarrow> IncidentCreate \<Rightarrow> LogInput list \<Rightarrow> world \<Rightarrow> world \<Rightarrow> bool" where
  "first_delivery E source ext data es w w' =
     (\<exists>al ls. incidents (live w') = incidents (live w) @ [new_incident E data w] \<and>
        alerts (live w') = alerts (live w) @ [al] \<and> alert_key al = (source, ext) \<and>
        al_incident_id al = uuid E (ids w) \<and>
        log_entries (live w') = log_entries (live w) @ ls \<and> list_all (log_from E (uuid E (ids w)) es) ls)"

lemma ingest_new_delivers:
  assumes "\<not> (\<exists>a \<in> set (alerts (live w)). alert_key a = (source, ext))"
  shows "\<exists>w'. ingest_new E source ext data es w = (Inr (new_incident E data w), w') \<and> first_delivery E source ext data es w w'"
proof -
  let ?r = "new_incident E data w"
  obtain w1 where c: "create_incident E data source w = (Inr ?r, w1)"
    and w1: "incidents (live w1) = incidents (live w) @ [?r]" "alerts (live w1) = alerts (live w)"
      "log_entries (live w1) = log_entries (live w)"
    by (simp add: create_incident_run Let_def)
  have has: "has_incident (inc_id ?r) (live w1)" by (simp add: has_incident_iff w1)
  obtain a w2 where a: "insert_alert E (inc_id ?r) source ext (inc_title ?r) (inc_service ?r)
        (inc_severity ?r) (inc_description ?r) w1 = (Inr a, w2)"
      and w2: "live w2 = (live w1)\<lparr>alerts := alerts (live w1) @ [a]\<rparr>"
      and key: "alert_key a = (source, ext)" "al_incident_id a = inc_id ?r"
    using insert_alert_run[OF has, of E source ext "inc_title ?r" "inc_service ?r" "inc_severity ?r" "inc_description ?r"]
      assms by (auto simp: Let_def alert_key_def w1)
  have "has_incident (inc_id ?r) (live w2)" using has by (simp add: w2 has_incident_iff)
  from add_logs_run[OF this] obtain ls w3 where
    l: "add_logs E (inc_id ?r) es w2 = (Inr ls, w3)" "grows_logs (log_from E (inc_id ?r) es) w2 w3" by blast
  have "ingest_new E source ext data es w = (Inr ?r, w3)"
    by (simp add: ingest_new_def andthen_def c a l(1))
  moreover have "inc_id ?r = uuid E (ids w)" by (simp add: new_incident_def)
  ultimately show ?thesis
    using l(2) w1 w2 key by (auto simp: first_delivery_def grows_logs_def)
qed

lemma ingest_alert_delivers:
  assumes "alert_data a = Inr data" and "map_res (\<lambda>d. read_field (check_log_input rs (VDict d))) (na_logs a) = Inr es"
    and "length es \<le> 1000" and "alerts_of source (na_external_id a) (live w) = []"
  shows "\<exists>w'. ingest_alert E rs id source a w = (Inr (new_incident E data w, False), w') \<and>
    first_delivery E source (na_external_id a) data es w w'"
proof -
  have "\<not> (\<exists>x \<in> set (alerts (live w)). alert_key x = (source, na_external_id a))"
    using assms(4) by (auto simp: alerts_of_def filter_empty_conv)
  from ingest_new_delivers[OF this, of E data es] obtain w' where
    "ingest_new E source (na_external_id a) data es w = (Inr (new_incident E data w), w')"
    "first_delivery E source (na_external_id a) data es w w'" by blast
  with assms show ?thesis
    by (auto simp: ingest_alert_def find_alert_None[symmetric] andthen_def interfere_def catch_def begin_nested_def)
qed

text \<open>The service as the script meets it, on either database: no other session inserts what the script delivers while it
  does, and if new incidents are analysed automatically, their jobs are queued in the process or the queue is up.\<close>

definition plain_app :: "app \<Rightarrow> bool" where
  "plain_app A = (ingestion_rival A = id \<and> app_ok A \<and>
     (auto_analyze (ap_settings A) \<and> celery_enabled (ap_settings A) \<longrightarrow> (\<forall>j. ap_publish A j)))"

lemma lower_generic: "lower ''generic'' = ''generic''"
  by code_simp

lemma generic_batch:
  assumes "generic_normalize p = Inr [a]"
  shows "normalized_batch A (lower ''generic'') p = Inr [a]"
proof -
  have "get_source fl ''generic'' = Inr generic_normalize" for fl
    by (simp add: get_source_def source_table_def lower_generic)
  with assms show ?thesis by (simp add: normalized_batch_def lower_generic)
qed

text \<open>Queueing an analysis adds a job and leaves the other rows alone.\<close>

definition same_rows :: "db \<Rightarrow> db \<Rightarrow> bool" where
  "same_rows d d' = (incidents d' = incidents d \<and> alerts d' = alerts d \<and> log_entries d' = log_entries d)"

lemma queue_analysis_up:
  assumes "celery_enabled (ap_settings A) \<longrightarrow> (\<forall>j. ap_publish A j)" and "has_incident i (live w)"
  shows "\<exists>j ts w'. queue_analysis A i w = (Inr (j, ts), w') \<and> same_rows (live w) (live w') \<and> live w' = saved w'"
proof -
  obtain r where "find_row inc_id i (incidents (live w)) = Some r"
    using assms(2) by (auto simp: has_incident_def)
  with assms show ?thesis
    by (simp add: queue_analysis_def andthen_def require_incident_run insert_job_def insert_new_def finish_def same_rows_def)
qed

lemma after_created_plain:
  assumes "plain_app A" and "read_incident_row inc = Inr x" and "has_incident (inc_id inc) (live w)" and "live w = saved w"
  shows "\<exists>ts w'. after_created A inc w = (Inr ts, w') \<and> same_rows (live w) (live w') \<and> live w' = saved w'"
proof (cases "auto_analyze (ap_settings A)")
  case True
  with assms(1) have "celery_enabled (ap_settings A) \<longrightarrow> (\<forall>j. ap_publish A j)" by (simp add: plain_app_def)
  from queue_analysis_up[OF this assms(3)] True assms(2) show ?thesis
    by (auto simp: after_created_def schedule_created_def incident_dict_def andthen_def)
qed (use assms(2,4) in \<open>simp add: after_created_def schedule_created_def incident_dict_def andthen_def same_rows_def\<close>)

lemma serve_new_scenario:
  assumes "plain_app A" and "texts_stay t s x" and "logs_stay ls" and "severity_of (VStr v) True = Inr sev"
    and "trim ext = ext" "1 \<le> length ext" "length ext \<le> 255"
    and "alerts_of ''generic'' ext (saved w) = []"
  shows "\<exists>it ts w' es. serve A (Ingest ''generic'' (scenario ext t s v x (demo_logs ls))) w =
      (Inr (AIngestion (ingestion_response [it]), ts), w') \<and> \<not> ii_duplicate it \<and>
    read_incident_row (new_incident (ap_env A) \<lparr>ic_title = t, ic_service = s, ic_severity = sev, ic_description = x\<rparr> w)
      = Inr (ii_incident it) \<and> live w' = saved w' \<and>
    map li_message es = map (\<lambda>(l, m). redact m) ls \<and> (\<forall>e \<in> set es. li_level e \<in> set log_levels) \<and>
    first_delivery (ap_env A) ''generic'' ext \<lparr>ic_title = t, ic_service = s, ic_severity = sev, ic_description = x\<rparr> es
      (w\<lparr>live := saved w\<rparr>) w'"
proof -
  let ?data = "\<lparr>ic_title = t, ic_service = s, ic_severity = sev, ic_description = x\<rparr>"
  let ?a = "demo_alert ext t s sev x ls" and ?w = "w\<lparr>live := saved w\<rparr>" and ?E = "ap_env A"
  let ?r = "new_incident ?E ?data ?w"
  obtain es where es: "map_res (\<lambda>d. read_field (check_log_input (ap_stamp A) (VDict d))) (na_logs ?a) = Inr es"
    "length es = length ls" "map li_message es = map (\<lambda>(l, m). redact m) ls" "\<forall>e \<in> set es. li_level e \<in> set log_levels"
    using demo_alert_logs[OF assms(3)] by blast
  have len: "length es \<le> 1000" using es(2) assms(3) by (simp add: logs_stay_def)
  have none: "alerts_of ''generic'' (na_external_id ?a) (live ?w) = []" using assms(8) by (simp add: demo_alert_def)
  have "na_external_id ?a = ext" by (simp add: demo_alert_def)
  then obtain w1 where run: "ingest_alert ?E (ap_stamp A) id ''generic'' ?a ?w = (Inr (?r, False), w1)"
    "first_delivery ?E ''generic'' ext ?data es ?w w1"
    using ingest_alert_delivers[OF demo_alert_data[OF assms(2)] es(1) len none, of ?E] by metis
  have same: "new_incident ?E ?data w = ?r" by (simp add: new_incident_def)
  have fixed: "redact t = t" "redact s = s" "redact x = x" using assms(2) by (simp_all add: texts_stay_def fixed_text_def)
  obtain y where y: "read_incident_row ?r = Inr y"
    using read_fixed_row[of ?r sev Status.Open] assms(2) fixed by (auto simp: new_incident_def)
  have rival: "ingestion_rival A = id" using assms(1) by (simp add: plain_app_def)
  have item: "ingest_item A (lower ''generic'') ?a ?w = (Inr (\<lparr>ii_incident = y, ii_duplicate = False\<rparr>, ?r), w1)"
    using run(1) y by (intro ingest_item_Inr) (simp_all add: rival lower_generic)
  have batch: "normalized_batch A (lower ''generic'') (scenario ext t s v x (demo_logs ls)) = Inr [?a]"
    by (rule generic_batch, rule scenario_alert) (use assms in auto)
  let ?saved = "w1\<lparr>saved := live w1\<rparr>"
  have "has_incident (inc_id ?r) (live ?saved)" using run(2) by (auto simp: first_delivery_def has_incident_iff)
  from after_created_plain[OF assms(1) y this] obtain ts w2 where after: "after_created A ?r ?saved = (Inr ts, w2)"
      "same_rows (live w1) (live w2)" "live w2 = saved w2" by auto
  have "serve A (Ingest ''generic'' (scenario ext t s v x (demo_logs ls))) w =
      (Inr (AIngestion (ingestion_response [\<lparr>ii_incident = y, ii_duplicate = False\<rparr>]), ts), w2\<lparr>live := saved w2\<rparr>)"
    using ingest_one[OF scenario_def batch item] after(1) by (simp add: andthen_def)
  moreover have "first_delivery ?E ''generic'' ext ?data es ?w (w2\<lparr>live := saved w2\<rparr>)"
    using run(2) after(2,3) by (simp add: first_delivery_def same_rows_def)
  ultimately show ?thesis using y es(3,4) unfolding same by fastforce
qed

end
