(* ===== verification/Demo_Cases.thy ===== *)
theory Demo_Cases
  imports Demo_Run
begin

text \<open>
  The scenarios of \<open>src/scripts/demo.py\<close> as cases: their texts are within the limits of the schemas and stay the
  same behind the privacy filter, so that each is accepted, and the lines their logs leave are known.
\<close>

subsection \<open>The cases\<close>

record demo_case =
  ds_external_id :: str
  ds_title :: str
  ds_service :: str
  ds_severity :: Severity
  ds_description :: str
  ds_logs :: "(str \<times> str) list"

definition checkout_case :: demo_case where
  "checkout_case = \<lparr>ds_external_id = ''demo-checkout-pool-v1'', ds_title = ''Checkout error rate above 5%'',
     ds_service = ''checkout-api'', ds_severity = Critical,
     ds_description = ''Checkout requests are timing out after the 14:32 deployment.'',
     ds_logs = [(''info'', ''deployment v2.8.1 completed; pool_size=10''),
       (''error'', ''database connection pool exhausted; waiting=84''),
       (''error'', ''POST /checkout 503 timeout after 30000ms''), (''warn'', secret_line)]\<rparr>"

definition worker_case :: demo_case where
  "worker_case = \<lparr>ds_external_id = ''demo-worker-memory-v1'', ds_title = ''Worker memory usage increasing'',
     ds_service = ''notification-worker'', ds_severity = High,
     ds_description = ''Delivery queue is growing and retries exceed normal thresholds.'',
     ds_logs = [(''warn'', ''RSS 1.8GB; queue_depth=12450; retry_count=5'')]\<rparr>"

definition cache_case :: demo_case where
  "cache_case = \<lparr>ds_external_id = ''demo-cache-latency-v1'', ds_title = ''Elevated cache latency'',
     ds_service = ''catalog-api'', ds_severity = Medium,
     ds_description = ''Brief cache miss spike during a scheduled catalog refresh.'',
     ds_logs = [(''info'', ''cache warmup completed; p99=12ms'')]\<rparr>"

definition demo_cases :: "demo_case list" where
  "demo_cases = [checkout_case, worker_case, cache_case]"

lemmas demo_case_defs = checkout_case_def worker_case_def cache_case_def

definition payload_of :: "demo_case \<Rightarrow> pyval" where
  "payload_of c = scenario (ds_external_id c) (ds_title c) (ds_service c) (severity_value (ds_severity c))
     (ds_description c) (demo_logs (ds_logs c))"

lemma scenarios_payloads: "scenarios = map payload_of demo_cases"
  by (simp add: scenarios_def demo_cases_def payload_of_def demo_case_defs checkout_scenario_def worker_scenario_def
      cache_scenario_def demo_logs_def secret_line_def)

text \<open>The messages that are stored.\<close>

definition demo_lines :: "str list" where
  "demo_lines = [''deployment v2.8.1 completed; pool_size=10'', ''database connection pool exhausted; waiting=84'',
     ''POST /checkout 503 timeout after 30000ms'', filtered_line, ''RSS 1.8GB; queue_depth=12450; retry_count=5'',
     ''cache warmup completed; p99=12ms'']"

definition case_ok :: "demo_case \<Rightarrow> bool" where
  "case_ok c = (texts_stay (ds_title c) (ds_service c) (ds_description c) \<and> logs_stay (ds_logs c) \<and>
     severity_of (VStr (severity_value (ds_severity c))) True = Inr (ds_severity c) \<and>
     trim (ds_external_id c) = ds_external_id c \<and> 1 \<le> length (ds_external_id c) \<and> length (ds_external_id c) \<le> 255)"

lemma demo_text_stays: "s \<in> set demo_texts \<Longrightarrow> redact s = s"
  using demo_texts_fixed by (simp add: fixed_text_def)

lemma demo_lines_fixed:
  assumes "s \<in> set demo_lines"
  shows "fixed_text s \<and> 1 \<le> length s \<and> length s \<le> 32768"
proof -
  have "list_all (\<lambda>s. 1 \<le> length s \<and> length s \<le> 32768) demo_lines" by (simp add: demo_lines_def filtered_line_def)
  then have "1 \<le> length s \<and> length s \<le> 32768" using assms unfolding list_all_iff by blast
  moreover have "set demo_lines \<subseteq> insert filtered_line (set demo_texts)"
    by (simp only: demo_lines_def demo_texts_def list.set insert_subset insert_iff empty_subsetI simp_thms)
  then have "fixed_text s" using assms demo_texts_fixed filtered_line_fixed by blast
  ultimately show ?thesis by blast
qed

lemma demo_case_lines:
  assumes "c \<in> set demo_cases" and "(l, m) \<in> set (ds_logs c)"
  shows "redact m \<in> set demo_lines"
proof -
  have "m = secret_line \<or> m \<in> set demo_texts \<and> m \<in> set demo_lines"
    using assms by (auto simp: demo_cases_def demo_case_defs demo_lines_def demo_texts_def)
  then show ?thesis using demo_text_stays by (auto simp: redact_secret_line demo_lines_def)
qed

lemma demo_case_texts:
  assumes "c \<in> set demo_cases"
  shows "texts_stay (ds_title c) (ds_service c) (ds_description c)"
proof -
  have "list_all (\<lambda>c. length (ds_title c) \<in> {1..240} \<and> length (ds_service c) \<in> {1..120} \<and> length (ds_description c) \<le> 20000)
      demo_cases" by (simp add: demo_cases_def demo_case_defs)
  moreover have "{ds_title c, ds_service c, ds_description c} \<subseteq> set demo_texts"
    using assms by (auto simp: demo_cases_def demo_case_defs demo_texts_def)
  ultimately show ?thesis using assms demo_texts_fixed by (auto simp: texts_stay_def list_all_iff)
qed

lemma demo_case_logs:
  assumes "c \<in> set demo_cases"
  shows "logs_stay (ds_logs c)"
proof -
  have "list_all (\<lambda>c. length (ds_logs c) \<le> 1000 \<and> list_all (\<lambda>(l, m). l \<in> set demo_levels \<and> length m \<le> 20000) (ds_logs c))
      demo_cases" by (simp add: demo_cases_def demo_case_defs demo_levels_def secret_line_def)
  then show ?thesis using assms demo_case_lines[OF assms] demo_lines_fixed by (auto simp: logs_stay_def list_all_iff)
qed

lemma demo_case_ok:
  assumes "c \<in> set demo_cases"
  shows "case_ok c"
proof -
  have "list_all (\<lambda>s. severity_of (VStr (severity_value s)) True = Inr s) [Critical, High, Medium, Low]" by code_simp
  then have "severity_of (VStr (severity_value s)) True = Inr s" for s by (cases s) simp_all
  moreover have "list_all (\<lambda>c. trim (ds_external_id c) = ds_external_id c) demo_cases" by code_simp
  moreover have "list_all (\<lambda>c. 1 \<le> length (ds_external_id c) \<and> length (ds_external_id c) \<le> 255) demo_cases"
    by (simp add: demo_cases_def demo_case_defs)
  ultimately show ?thesis using assms demo_case_texts[OF assms] demo_case_logs[OF assms] by (simp add: case_ok_def list_all_iff)
qed

end
