(* ===== verification/Demo_World.thy ===== *)
theory Demo_World
  imports Demo_Cases
begin

text \<open>
  What the service stores of the demonstration scenarios, first_delivery any number of times and in any order: one alert
  and one readable incident each, whose log has the filtered lines and nothing else.
\<close>

subsection \<open>The invariant\<close>

text \<open>Identifiers as \<open>str(uuid4())\<close> writes them.\<close>

definition uuid_text :: "str \<Rightarrow> bool" where
  "uuid_text u = (u \<noteq> [] \<and> list_all (\<lambda>c. is_digit c \<or> c \<in> set ''abcdef-'') u)"

definition uuids_written :: "env \<Rightarrow> bool" where
  "uuids_written E = (\<forall>n. uuid_text (uuid E n))"

definition demo_row :: "env \<Rightarrow> LogEntry \<Rightarrow> bool" where
  "demo_row E l = (lg_id l \<in> range (uuid E) \<and> lg_incident_id l \<in> range (uuid E) \<and> lg_level l \<in> set log_levels \<and>
     lg_message l \<in> set demo_lines)"

definition known_case :: "env \<Rightarrow> db \<Rightarrow> str \<Rightarrow> bool" where
  "known_case E d i = (\<exists>inc \<in> set (incidents d). inc_id inc = i \<and>
     texts_stay (inc_title inc) (inc_service inc) (inc_description inc) \<and>
     (\<forall>l \<in> set (log_entries d). lg_incident_id l = i \<longrightarrow> demo_row E l))"

text \<open>The incident a scenario is stored as.\<close>

definition stored_as :: "world \<Rightarrow> demo_case \<Rightarrow> str option" where
  "stored_as w c = map_option al_incident_id (find_alert ''generic'' (ds_external_id c) (saved w))"

definition demo_world :: "app \<Rightarrow> world \<Rightarrow> bool" where
  "demo_world A w = (world_ok (ap_env A) w \<and>
     (\<forall>c \<in> set demo_cases. \<forall>i. stored_as w c = Some i \<longrightarrow> known_case (ap_env A) (saved w) i))"

text \<open>A database that no scenario was first_delivery to.\<close>

lemma demo_world_new:
  assumes "world_ok (ap_env A) w" and "\<And>c. c \<in> set demo_cases \<Longrightarrow> alerts_of ''generic'' (ds_external_id c) (saved w) = []"
  shows "demo_world A w" and "c \<in> set demo_cases \<Longrightarrow> stored_as w c = None"
proof -
  have "stored_as w c = None" if "c \<in> set demo_cases" for c
    using assms(2)[OF that] by (simp add: stored_as_def find_alert_None)
  with assms(1) show "demo_world A w" and "c \<in> set demo_cases \<Longrightarrow> stored_as w c = None" by (auto simp: demo_world_def)
qed

lemma trim_uuid: "uuid_text u \<Longrightarrow> trim u = u"
  unfolding trim_def by (rule strip_by_id) (auto simp: uuid_text_def list_all_iff is_white_def is_digit_def Let_def ord_def)

lemma find_alert_iff:
  assumes "unique_keys d"
  shows "find_alert s x d = Some a \<longleftrightarrow> a \<in> set (alerts d) \<and> alert_key a = (s, x)"
proof
  show "find_alert s x d = Some a \<Longrightarrow> a \<in> set (alerts d) \<and> alert_key a = (s, x)" by (rule find_alert_Some)
  assume a: "a \<in> set (alerts d) \<and> alert_key a = (s, x)"
  then have u: "alerts_of s x d = [a]" using alerts_of_unique[OF assms] by blast
  then obtain b where b: "find_alert s x d = Some b" using find_alert_None[of s x d] by auto
  then have "b \<in> set (alerts_of s x d)" using find_alert_Some[OF b] by (simp add: alerts_of_def)
  with u b show "find_alert s x d = Some a" by simp
qed

lemma demo_externals: "c \<in> set demo_cases \<Longrightarrow> c' \<in> set demo_cases \<Longrightarrow> ds_external_id c = ds_external_id c' \<Longrightarrow> c = c'"
proof -
  have "distinct (map ds_external_id demo_cases)" by code_simp
  then show "c \<in> set demo_cases \<Longrightarrow> c' \<in> set demo_cases \<Longrightarrow> ds_external_id c = ds_external_id c' \<Longrightarrow> c = c'"
    by (simp add: distinct_map inj_on_def)
qed

lemma serve_world_ok: "app_ok A \<Longrightarrow> world_ok (ap_env A) w \<Longrightarrow> serve A req w = (r, w') \<Longrightarrow> world_ok (ap_env A) w'"
  using keeps_run_world[OF keeps_serve, of A w req] by (simp add: app_ok_def)

subsection \<open>A delivery\<close>

lemma allowed_texts:
  "severity_texts = map severity_value [Critical, High, Medium, Low]"
  "status_texts = map status_value [Status.Open, Acknowledged, Investigating, Resolved]"
  by (simp_all add: severity_texts_def status_texts_def)

lemma read_known:
  assumes "world_ok E w" and "inc \<in> set (incidents (saved w))"
    and "texts_stay (inc_title inc) (inc_service inc) (inc_description inc)"
  shows "\<exists>x. read_incident_row inc = Inr x"
proof -
  have "incident_ok inc" using assms(1,2) by (simp add: world_ok_def db_inv_def rows_ok_def)
  then have "inc_severity inc \<in> set severity_texts" "inc_status inc \<in> set status_texts" by (simp_all add: incident_ok_def)
  then obtain sev st where "inc_severity inc = severity_value sev" "inc_status inc = status_value st"
    unfolding allowed_texts set_map by blast
  then show ?thesis using read_fixed_row[OF assms(3)] by blast
qed

lemma incident_row_id: "read_incident_row inc = Inr x \<Longrightarrow> ir_id x = trim (inc_id inc)"
  by (auto simp: read_incident_row_def map_check_def split: sum.splits)

lemma serve_known_case:
  assumes "plain_app A" and "demo_world A w" and "c \<in> set demo_cases" and "stored_as w c = Some i"
  shows "\<exists>it. serve A (Ingest ''generic'' (payload_of c)) w =
      (Inr (AIngestion (ingestion_response [it]), []), w\<lparr>live := saved w\<rparr>) \<and> ii_duplicate it \<and> ir_id (ii_incident it) = trim i"
proof -
  let ?w = "w\<lparr>live := saved w\<rparr>"
  let ?a = "demo_alert (ds_external_id c) (ds_title c) (ds_service c) (ds_severity c) (ds_description c) (ds_logs c)"
  note ok = demo_case_ok[OF assms(3), unfolded case_ok_def]
  have world: "world_ok (ap_env A) ?w" using assms(2) by (simp add: demo_world_def world_ok_reset)
  then have unique: "unique_keys (saved w)" by (simp add: world_ok_def db_inv_def)
  obtain al where al: "find_alert ''generic'' (ds_external_id c) (saved w) = Some al" "al_incident_id al = i"
    using assms(4) by (auto simp: stored_as_def)
  have als: "alerts_of ''generic'' (ds_external_id c) (live ?w) = [al]"
    using alerts_of_unique[OF unique] find_alert_Some[OF al(1)] by simp
  have "known_case (ap_env A) (saved w) i" using assms(2-4) by (simp add: demo_world_def)
  then obtain inc where inc: "inc \<in> set (incidents (saved w))" "inc_id inc = i"
      "texts_stay (inc_title inc) (inc_service inc) (inc_description inc)" by (auto simp: known_case_def)
  obtain x where x: "read_incident_row inc = Inr x" using read_known[OF world _ inc(3)] inc(1) by auto
  have "ingest_alert (ap_env A) (ap_stamp A) (ingestion_rival A) (lower ''generic'') ?a ?w = (Inr (inc, True), ?w)"
    unfolding lower_generic by (rule found_again[OF world als]) (use inc al(2) in \<open>simp_all add: demo_alert_def\<close>)
  from ingest_item_Inr[OF this x] have item:
    "ingest_item A (lower ''generic'') ?a ?w = (Inr (\<lparr>ii_incident = x, ii_duplicate = True\<rparr>, inc), ?w)" .
  have batch: "normalized_batch A (lower ''generic'') (payload_of c) = Inr [?a]"
    unfolding payload_of_def by (rule generic_batch, rule scenario_alert) (use ok in auto)
  show ?thesis
    using ingest_one[OF payload_of_def[unfolded scenario_def] batch item] incident_row_id[OF x] inc(2)
    by (intro exI[of _ "\<lparr>ii_incident = x, ii_duplicate = True\<rparr>"]) simp
qed

text \<open>A first delivery: the other scenarios stay as they are.\<close>

definition only_adds :: "demo_case \<Rightarrow> str \<Rightarrow> world \<Rightarrow> world \<Rightarrow> bool" where
  "only_adds c i w w' = (\<forall>c' \<in> set demo_cases. stored_as w' c' = (if c' = c then Some i else stored_as w c'))"

lemma first_stored:
  assumes "unique_keys (saved w')" and "unique_keys (saved w)" and "c \<in> set demo_cases"
    and "alerts (saved w') = alerts (saved w) @ [al]" and "alert_key al = (''generic'', ds_external_id c)"
  shows "only_adds c (al_incident_id al) w w'"
  unfolding only_adds_def
proof
  fix c' assume c': "c' \<in> set demo_cases"
  show "stored_as w' c' = (if c' = c then Some (al_incident_id al) else stored_as w c')"
  proof (cases "c' = c")
    case True
    then have "find_alert ''generic'' (ds_external_id c') (saved w') = Some al"
      using assms(4,5) by (simp add: find_alert_iff[OF assms(1)])
    with True show ?thesis by (simp add: stored_as_def)
  next
    case False
    then have "ds_external_id c \<noteq> ds_external_id c'" using demo_externals assms(3) c' by blast
    then have "find_alert ''generic'' (ds_external_id c') (saved w') = Some a \<longleftrightarrow>
        find_alert ''generic'' (ds_external_id c') (saved w) = Some a" for a
      using assms(4,5) by (auto simp: find_alert_iff[OF assms(1)] find_alert_iff[OF assms(2)])
    then have "find_alert ''generic'' (ds_external_id c') (saved w') = find_alert ''generic'' (ds_external_id c') (saved w)"
      by (metis option.exhaust)
    with False show ?thesis by (simp add: stored_as_def)
  qed
qed

text \<open>The incident of a first delivery is known: no row of the log had its identifier before.\<close>

lemma first_known:
  assumes "app_ok A" and "world_ok (ap_env A) w" and "c \<in> set demo_cases"
    and "first_delivery (ap_env A) ''generic'' ext \<lparr>ic_title = ds_title c, ic_service = ds_service c,
      ic_severity = ds_severity c, ic_description = ds_description c\<rparr> es (w\<lparr>live := saved w\<rparr>) w'"
    and "live w' = saved w'" and "map li_message es = map (\<lambda>(l, m). redact m) (ds_logs c)"
    and "\<forall>e \<in> set es. li_level e \<in> set log_levels"
  shows "known_case (ap_env A) (saved w') (uuid (ap_env A) (ids w))"
proof -
  let ?E = "ap_env A"
  let ?i = "uuid ?E (ids w)"
  obtain ls where inc: "incidents (saved w') = incidents (saved w) @ [new_incident ?E \<lparr>ic_title = ds_title c,
        ic_service = ds_service c, ic_severity = ds_severity c, ic_description = ds_description c\<rparr> (w\<lparr>live := saved w\<rparr>)]"
      (is "_ = _ @ [?r]")
    and ls: "log_entries (saved w') = log_entries (saved w) @ ls" "list_all (log_from ?E ?i es) ls"
    using assms(4,5) by (auto simp: first_delivery_def)
  have texts: "texts_stay (ds_title c) (ds_service c) (ds_description c)" using demo_case_texts[OF assms(3)] .
  then have r: "?r \<in> set (incidents (saved w'))" "inc_id ?r = ?i" "texts_stay (inc_title ?r) (inc_service ?r) (inc_description ?r)"
    by (simp_all add: inc new_incident_def texts_stay_def fixed_text_def)
  have "demo_row ?E l" if "l \<in> set (log_entries (saved w'))" "lg_incident_id l = ?i" for l
  proof -
    have "?i \<notin> inc_id ` set (incidents (saved w))"
      using drawn_fresh(1)[of ?E "saved w" "ids w"] assms(1,2) by (simp add: app_ok_def world_ok_def db_inv_def)
    moreover have "lg_incident_id ` set (log_entries (saved w)) \<subseteq> inc_id ` set (incidents (saved w))"
      using assms(2) by (simp add: world_ok_def db_inv_def foreign_keys_def child_parents_def)
    ultimately have "l \<notin> set (log_entries (saved w))" using that(2) by (metis image_eqI subsetD)
    then have "l \<in> set ls" using that(1) ls(1) by simp
    then obtain e where e: "e \<in> set es" "lg_message l = redact (li_message e)" "lg_level l = li_level e" "lg_id l \<in> range (uuid ?E)"
      using ls(2) by (auto simp: list_all_iff log_from_def)
    then have "li_message e \<in> set (map (\<lambda>(l, m). redact m) (ds_logs c))" using assms(6) by (metis image_eqI set_map)
    then obtain k m where "(k, m) \<in> set (ds_logs c)" "li_message e = redact m" by auto
    then have "li_message e \<in> set demo_lines" using demo_case_lines[OF assms(3)] by simp
    moreover from this have "redact (li_message e) = li_message e" using demo_lines_fixed by (simp add: fixed_text_def)
    ultimately show ?thesis using e that(2) assms(7) by (simp add: demo_row_def)
  qed
  with r show ?thesis unfolding known_case_def by blast
qed

lemma known_case_grows:
  assumes "known_case E d i" and "set (incidents d) \<subseteq> set (incidents d')"
    and "\<And>l. l \<in> set (log_entries d') \<Longrightarrow> lg_incident_id l = i \<Longrightarrow> l \<in> set (log_entries d)"
  shows "known_case E d' i"
  using assms unfolding known_case_def by blast

lemma serve_new_case:
  assumes "plain_app A" and "demo_world A w" and "c \<in> set demo_cases" and "stored_as w c = None"
  shows "\<exists>it ts w' i. serve A (Ingest ''generic'' (payload_of c)) w = (Inr (AIngestion (ingestion_response [it]), ts), w') \<and>
    \<not> ii_duplicate it \<and> ir_id (ii_incident it) = trim i \<and> demo_world A w' \<and> only_adds c i w w'"
proof -
  let ?E = "ap_env A"
  let ?i = "uuid ?E (ids w)"
  note ok = demo_case_ok[OF assms(3), unfolded case_ok_def]
  have app: "app_ok A" using assms(1) by (simp add: plain_app_def)
  have world: "world_ok ?E w" using assms(2) by (simp add: demo_world_def)
  have none: "alerts_of ''generic'' (ds_external_id c) (saved w) = []"
    using assms(4) by (simp add: stored_as_def find_alert_None)
  let ?data = "\<lparr>ic_title = ds_title c, ic_service = ds_service c, ic_severity = ds_severity c, ic_description = ds_description c\<rparr>"
  obtain it ts w' es where run: "serve A (Ingest ''generic'' (payload_of c)) w = (Inr (AIngestion (ingestion_response [it]), ts), w')"
      and it: "\<not> ii_duplicate it" "read_incident_row (new_incident ?E ?data w) = Inr (ii_incident it)"
      and live: "live w' = saved w'" and es: "map li_message es = map (\<lambda>(l, m). redact m) (ds_logs c)"
        "\<forall>e \<in> set es. li_level e \<in> set log_levels"
      and del: "first_delivery ?E ''generic'' (ds_external_id c) ?data es (w\<lparr>live := saved w\<rparr>) w'"
    using serve_new_scenario[OF assms(1) _ _ _ _ _ _ none, of "ds_title c" "ds_service c" "ds_description c" "ds_logs c"
        "severity_value (ds_severity c)" "ds_severity c"] ok unfolding payload_of_def by blast
  obtain al ls where al: "alerts (saved w') = alerts (saved w) @ [al]" "alert_key al = (''generic'', ds_external_id c)"
      "al_incident_id al = ?i" and incs: "set (incidents (saved w)) \<subseteq> set (incidents (saved w'))"
      and ls: "log_entries (saved w') = log_entries (saved w) @ ls" "list_all (log_from ?E ?i es) ls"
    using del live by (auto simp: first_delivery_def)
  have world': "world_ok ?E w'" using serve_world_ok[OF app world run] .
  have adds: "only_adds c ?i w w'"
    using first_stored[OF _ _ assms(3) al(1,2)] world world' al(3) by (simp add: world_ok_def db_inv_def)
  have "known_case ?E (saved w') j" if c': "c' \<in> set demo_cases" "stored_as w' c' = Some j" for c' j
  proof (cases "c' = c")
    case True
    then show ?thesis using first_known[OF app world assms(3) del live es] adds that by (simp add: only_adds_def)
  next
    case False
    then have "stored_as w c' = Some j" using adds c' by (simp add: only_adds_def)
    then have known: "known_case ?E (saved w) j" using assms(2) c'(1) by (simp add: demo_world_def)
    then have "j \<in> inc_id ` set (incidents (saved w))" by (auto simp: known_case_def)
    moreover have "?i \<notin> inc_id ` set (incidents (saved w))"
      using drawn_fresh(1)[of ?E "saved w" "ids w"] app world by (simp add: app_ok_def world_ok_def db_inv_def)
    ultimately have "j \<noteq> ?i" by metis
    then show ?thesis
      using ls by (intro known_case_grows[OF known incs]) (auto simp: list_all_iff log_from_def)
  qed
  with world' have "demo_world A w'" by (simp add: demo_world_def)
  moreover have "ir_id (ii_incident it) = trim ?i" using incident_row_id[OF it(2)] by (simp add: new_incident_def)
  ultimately show ?thesis using run it(1) adds by blast
qed

text \<open>Both together.\<close>

lemma stored_uuid:
  assumes "demo_world A w" and "c \<in> set demo_cases" and "stored_as w c = Some i"
  shows "i \<in> range (uuid (ap_env A))"
proof -
  have "i \<in> inc_id ` set (incidents (saved w))" 
    using assms unfolding demo_world_def known_case_def by blast
  then show ?thesis using assms(1) by (auto simp: demo_world_def world_ok_def db_inv_def drawn_ids_def)
qed

lemma serve_case:
  assumes "plain_app A" and "uuids_written (ap_env A)" and "demo_world A w" and "c \<in> set demo_cases"
  shows "\<exists>it ts w'. serve A (Ingest ''generic'' (payload_of c)) w = (Inr (AIngestion (ingestion_response [it]), ts), w') \<and>
    ii_duplicate it = (stored_as w c \<noteq> None) \<and> stored_as w c \<in> {None, Some (ir_id (ii_incident it))} \<and>
    demo_world A w' \<and> only_adds c (ir_id (ii_incident it)) w w'"
proof -
  have trimmed: "trim i = i" if "i \<in> range (uuid (ap_env A))" for i
    using assms(2) that by (auto simp: uuids_written_def trim_uuid)
  show ?thesis
  proof (cases "stored_as w c")
    case None
    from serve_new_case[OF assms(1,3,4) None] obtain it ts w' i where
      run: "serve A (Ingest ''generic'' (payload_of c)) w = (Inr (AIngestion (ingestion_response [it]), ts), w')"
        "\<not> ii_duplicate it" "ir_id (ii_incident it) = trim i" "demo_world A w'" "only_adds c i w w'" by blast
    then have "stored_as w' c = Some i" using assms(4) by (simp add: only_adds_def)
    from stored_uuid[OF run(4) assms(4) this] have "trim i = i" by (rule trimmed)
    with run None show ?thesis by (intro exI[of _ it] exI[of _ ts] exI[of _ w']) simp
  next
    case (Some i)
    have i: "trim i = i" using stored_uuid[OF assms(3,4) Some] by (rule trimmed)
    have same: "stored_as (w\<lparr>live := saved w\<rparr>) c' = stored_as w c'" for c' by (simp add: stored_as_def)
    have "demo_world A (w\<lparr>live := saved w\<rparr>)"
      using assms(3) by (simp add: demo_world_def same world_ok_reset)
    moreover have "only_adds c i w (w\<lparr>live := saved w\<rparr>)" using Some by (simp add: only_adds_def same)
    ultimately show ?thesis using serve_known_case[OF assms(1,3,4) Some] Some i by fastforce
  qed
qed

end
