(* ===== verification/Demo_Secrets.thy ===== *)
theory Demo_Secrets
  imports Demo_World
begin

text \<open>
  The log the demonstration reads back: its JSON, with the identifiers, the times and the filtered lines of the
  rows, contains neither the address nor the token.
\<close>

subsection \<open>Texts that keep a word out\<close>

text \<open>A text that no occurrence of the word touches, whatever is put before and after it.\<close>

definition apart :: "str \<Rightarrow> str \<Rightarrow> bool" where
  "apart w s = (\<forall>x y. contains w (x @ s @ y) \<longrightarrow> contains w x \<or> contains w y)"

lemma contains_split:
  assumes "c \<notin> set w"
  shows "contains w (x @ c # y) \<longleftrightarrow> contains w x \<or> contains w y"
proof -
  have none: "w2 = []" if "w = w1 @ w2" "prefix w2 (c # y)" for w1 w2
    using that assms by (cases w2) auto
  have "sublist w (x @ c # y) \<longleftrightarrow> sublist w x \<or> sublist w y"
  proof
    assume "sublist w (x @ c # y)"
    then consider "sublist w x" | "sublist w (c # y)" | w1 w2 where "w = w1 @ w2" "suffix w1 x" "prefix w2 (c # y)"
      unfolding sublist_append by blast
    then show "sublist w x \<or> sublist w y"
    proof cases
      case 2
      then show ?thesis using none[of "[]" w] by (auto simp: sublist_Cons_right)
    next
      case 3
      then show ?thesis using none[of w1 w2] suffix_imp_sublist by auto
    qed simp
  next
    show "sublist w x \<or> sublist w y \<Longrightarrow> sublist w (x @ c # y)" by (auto simp: sublist_append sublist_Cons_right)
  qed
  then show ?thesis by (simp add: contains_iff_sublist)
qed

lemma apart_char: "c \<notin> set w \<Longrightarrow> apart w [c]"
  by (simp add: apart_def contains_split)

lemma apart_append:
  assumes "w \<noteq> []" and "apart w s" and "apart w t"
  shows "apart w (s @ t)"
  unfolding apart_def
proof (intro allI impI)
  fix x y assume "contains w (x @ (s @ t) @ y)"
  then consider "contains w x" | "contains w ([] @ t @ y)" using assms(2) unfolding apart_def by fastforce
  then show "contains w x \<or> contains w y"
    using assms(1,3) unfolding apart_def by cases (auto dest: spec[of _ "[]"])
qed

lemma apart_Cons: "w \<noteq> [] \<Longrightarrow> c \<notin> set w \<Longrightarrow> apart w s \<Longrightarrow> apart w (c # s)"
  using apart_append[of w "[c]" s] by (simp add: apart_char)

text \<open>Between quotes, a text without the word is enough.\<close>

lemma apart_quoted:
  assumes "dq \<notin> set w" and "\<not> contains w s"
  shows "apart w (dq # s @ [dq])"
proof -
  have "contains w (x @ dq # s @ dq # y) \<Longrightarrow> contains w x \<or> contains w y" for x y
    using contains_split[OF assms(1), of x "s @ dq # y"] contains_split[OF assms(1), of s y] assms(2) by simp
  then show ?thesis by (simp add: apart_def)
qed

lemma apart_join:
  assumes "w \<noteq> []" and "apart w sep" and "\<And>x. x \<in> set xs \<Longrightarrow> apart w x" and "xs \<noteq> []"
  shows "apart w (join sep xs)"
  using assms(2-4)
proof (induction sep xs rule: join.induct)
  case (3 s x y xs)
  then show ?case using assms(1) by (auto intro!: apart_append)
qed simp_all

lemma apart_contains: "w \<noteq> [] \<Longrightarrow> apart w s \<Longrightarrow> \<not> contains w s"
  unfolding apart_def by (metis append.left_neutral append.right_neutral contains.simps(1))

subsection \<open>JSON\<close>

definition leak_words :: "str list" where
  "leak_words = [''demo-secret-value'', ''customer@example.com'']"

text \<open>What the syntax of JSON is made of, and a letter that identifiers and times do not have.\<close>

lemma leak_word:
  assumes "w \<in> set leak_words"
  shows "w \<noteq> []" and "c \<in> set ''{}[]:, '' \<Longrightarrow> c \<notin> set w" and "dq \<notin> set w" and "CHR ''m'' \<in> set w"
proof -
  have "list_all (\<lambda>w. w \<noteq> [] \<and> list_all (\<lambda>c. c \<notin> set w) ''{}[]:, '' \<and> dq \<notin> set w \<and> CHR ''m'' \<in> set w) leak_words"
    by code_simp
  then show "w \<noteq> []" and "c \<in> set ''{}[]:, '' \<Longrightarrow> c \<notin> set w" and "dq \<notin> set w" and "CHR ''m'' \<in> set w"
    using assms by (auto simp: list_all_iff)
qed

definition escaped :: "str \<Rightarrow> str" where
  "escaped s = concat (map (json_escape True) s)"

lemma apart_string:
  "w \<in> set leak_words \<Longrightarrow> \<not> contains w (escaped s) \<Longrightarrow> apart w (json_string True s)"
  using apart_quoted[OF leak_word(3)] by (simp add: json_string_def escaped_def)

lemma apart_dumps_list:
  assumes "w \<in> set leak_words" and "\<And>v. v \<in> set vs \<Longrightarrow> apart w (dumps dump_default v)"
  shows "apart w (dumps dump_default (VList vs))"
proof (cases "vs = []")
  case False
  note word = leak_word(1,2)[OF assms(1)]
  have "apart w (join (item_sep dump_default) (map (dumps dump_default) vs))"
    using False assms(2) word by (intro apart_join) (auto simp: dump_default_def intro!: apart_Cons apart_char)
  then show ?thesis using word by (auto intro!: apart_Cons apart_append[where t = "'']''"] apart_char)
qed (use leak_word(1,2)[OF assms(1)] in \<open>auto intro!: apart_Cons apart_char\<close>)

lemma apart_dumps_dict:
  assumes "w \<in> set leak_words" and "d \<noteq> []"
    and "\<And>k v. (k, v) \<in> set d \<Longrightarrow> \<not> contains w (escaped k) \<and> apart w (dumps dump_default v)"
  shows "apart w (dumps dump_default (VDict d))"
proof -
  note word = leak_word(1,2)[OF assms(1)]
  have "apart w (json_string (ascii dump_default) k @ key_sep dump_default @ dumps dump_default v)" if "(k, v) \<in> set d" for k v
    using assms(3)[OF that] apart_string[OF assms(1)] word
    by (intro apart_append) (auto simp: dump_default_def intro!: apart_Cons apart_char)
  then have "apart w (join (item_sep dump_default) (map (\<lambda>(k, v). json_string (ascii dump_default) k @ key_sep dump_default @
      dumps dump_default v) (dict_items (sort_keys dump_default) d)))"
    using assms(2) word
    by (intro apart_join) (auto simp: dict_items_def dump_default_def intro!: apart_Cons apart_char)
  then show ?thesis using word by (auto intro!: apart_Cons apart_append[where t = "''}''"] apart_char)
qed

subsection \<open>The rows of the log\<close>

definition plain_char :: "char \<Rightarrow> bool" where
  "plain_char c = (32 \<le> ord c \<and> ord c \<le> 126 \<and> ord c \<noteq> 34 \<and> ord c \<noteq> 92)"

lemma escape_plain: "plain_char c \<Longrightarrow> json_escape True c = [c]"
  by (auto simp: plain_char_def json_escape_def Let_def)

lemma escaped_plain: "(\<And>c. c \<in> set s \<Longrightarrow> plain_char c) \<Longrightarrow> escaped s = s"
  by (induction s) (simp_all add: escaped_def escape_plain)

lemma plain_chars: "is_digit c \<Longrightarrow> plain_char c" "c \<in> set ''abcdef-:.TZ'' \<Longrightarrow> plain_char c"
  by (auto simp: plain_char_def is_digit_def ord_def)

lemma no_m:
  assumes "w \<in> set leak_words" and "CHR ''m'' \<notin> set s"
  shows "\<not> contains w s"
  using leak_word(4)[OF assms(1)] assms(2) set_mono_sublist[of w s] by (auto simp: contains_iff_sublist)

lemma uuid_free:
  assumes "w \<in> set leak_words" and "uuid_text u"
  shows "\<not> contains w (escaped u)"
proof -
  have u: "is_digit c \<or> c \<in> set ''abcdef-''" if "c \<in> set u" for c
    using assms(2) that by (simp add: uuid_text_def list_all_iff)
  have "escaped u = u" by (rule escaped_plain) (use u plain_chars in auto)
  moreover have "CHR ''m'' \<notin> set u" using u[of "CHR ''m''"] by (auto simp: is_digit_def ord_def)
  ultimately show ?thesis using no_m[OF assms(1)] by simp
qed

lemma time_char: "c \<in> set (json_time t) \<Longrightarrow> is_digit c \<or> c \<in> set ''-:.TZ''"
  by (auto simp: json_time_def iso_date_def iso_ymd_def iso_clock_def Let_def dest: padded_digit split: prod.splits if_splits)

lemma time_free:
  assumes "w \<in> set leak_words"
  shows "\<not> contains w (escaped (json_time t))"
proof -
  have "escaped (json_time t) = json_time t" by (rule escaped_plain) (use time_char plain_chars in auto)
  moreover have "CHR ''m'' \<notin> set (json_time t)" using time_char[of "CHR ''m''" t] by (auto simp: is_digit_def ord_def)
  ultimately show ?thesis using no_m[OF assms] by simp
qed

text \<open>The keys, the levels and the lines: a leaked word has a dash or an at sign, and they have neither.\<close>

definition harmless_char :: "char \<Rightarrow> bool" where
  "harmless_char c = (plain_char c \<and> c \<noteq> CHR ''-'' \<and> c \<noteq> CHR ''@'')"

lemma leak_word_marked:
  assumes "w \<in> set leak_words"
  shows "\<exists>c \<in> set w. \<not> harmless_char c"
proof -
  have "list_all (\<lambda>w. \<not> list_all harmless_char w) leak_words" by code_simp
  with assms show ?thesis unfolding list_all_iff by blast
qed

lemma harmless_free:
  assumes "w \<in> set leak_words" and "list_all harmless_char s"
  shows "\<not> contains w (escaped s)"
proof -
  have "escaped s = s" by (rule escaped_plain) (use assms(2) in \<open>auto simp: list_all_iff harmless_char_def\<close>)
  moreover have "\<not> set w \<subseteq> set s" using leak_word_marked[OF assms(1)] assms(2) by (auto simp: list_all_iff)
  ultimately show ?thesis using set_mono_sublist[of w s] by (auto simp: contains_iff_sublist)
qed

lemma fixed_free:
  assumes "w \<in> set leak_words" and "s \<in> set (demo_lines @ log_levels @ [''id'', ''incident_id'', ''timestamp'', ''level'', ''message''])"
  shows "\<not> contains w (escaped s)"
proof -
  have "list_all (list_all harmless_char) (demo_lines @ log_levels @ [''id'', ''incident_id'', ''timestamp'', ''level'', ''message''])"
    by code_simp
  from this[unfolded list_all_iff[of "list_all harmless_char"]] assms(2) have "list_all harmless_char s" by blast
  then show ?thesis by (rule harmless_free[OF assms(1)])
qed

lemma row_free:
  assumes "w \<in> set leak_words" and "uuids_written E" and "demo_row E l"
  shows "apart w (dumps dump_default (log_json l))"
proof -
  have ids: "uuid_text (lg_id l)" "uuid_text (lg_incident_id l)"
    using assms(2,3) by (auto simp: demo_row_def uuids_written_def)
  have "apart w (dumps dump_default (VStr s))" if "\<not> contains w (escaped s)" for s
    using apart_string[OF assms(1) that] by (simp add: dump_default_def)
  then show ?thesis
    unfolding log_json_def using assms(3) ids uuid_free[OF assms(1)] time_free[OF assms(1)] fixed_free[OF assms(1)]
    by (intro apart_dumps_dict[OF assms(1)]) (auto simp: demo_row_def)
qed

lemma logs_free:
  assumes "w \<in> set leak_words" and "uuids_written E" and "list_all (demo_row E) ls"
  shows "\<not> contains w (dumps dump_default (VList (map log_json ls)))"
  by (rule apart_contains[OF leak_word(1)[OF assms(1)]], rule apart_dumps_list[OF assms(1)])
    (use row_free[OF assms(1,2)] assms(3) in \<open>auto simp: list_all_iff\<close>)

subsection \<open>Reading the log\<close>

lemma read_demo_row:
  assumes "uuids_written E" and "demo_row E l"
  shows "read_log_row l = l"
proof -
  have "uuid_text (lg_id l)" "uuid_text (lg_incident_id l)" using assms by (auto simp: demo_row_def uuids_written_def)
  then have "trim (lg_id l) = lg_id l" "trim (lg_incident_id l) = lg_incident_id l" by (simp_all add: trim_uuid)
  moreover have "list_all (\<lambda>s. trim s = s) log_levels" by code_simp
  then have "trim (lg_level l) = lg_level l" using assms(2) by (simp add: demo_row_def list_all_iff)
  moreover have "trim (lg_message l) = lg_message l"
    using assms(2) demo_lines_fixed by (simp add: demo_row_def fixed_text_def)
  ultimately show ?thesis by (simp add: read_log_row_def)
qed

lemma serve_case_logs:
  assumes "uuids_written (ap_env A)" and "demo_world A w" and "c \<in> set demo_cases" and "stored_as w c = Some i"
  shows "\<exists>ls. serve A (ListLogs i n k) w = (Inr (ALogs ls, []), w\<lparr>live := saved w\<rparr>) \<and> list_all (demo_row (ap_env A)) ls"
proof -
  let ?rows = "take n (drop k (sort_key (\<lambda>l. (lg_timestamp l, lg_id l))
     (filter (\<lambda>l. lg_incident_id l = i) (log_entries (saved w)))))"
  have known: "known_case (ap_env A) (saved w) i" using assms(2-4) by (simp add: demo_world_def)
  then obtain r where r: "find_row inc_id i (incidents (saved w)) = Some r"
    by (cases "find_row inc_id i (incidents (saved w))") (auto simp: known_case_def find_row_None)
  have rows: "demo_row (ap_env A) l" if "l \<in> set ?rows" for l
    using known in_set_takeD[OF that, THEN in_set_dropD] by (auto simp: known_case_def)
  then have "map read_log_row ?rows = ?rows" using read_demo_row[OF assms(1)] by (intro map_idI) blast
  then have "serve A (ListLogs i n k) w = (Inr (ALogs ?rows, []), w\<lparr>live := saved w\<rparr>)"
    using r by (simp add: serve_def get_session_run answer_with_def andthen_def list_logs_def require_incident_run finish_def)
  with rows show ?thesis by (auto simp: list_all_iff)
qed

end
