(* ===== verification/Http_Wire.thy ===== *)
theory Http_Wire
  imports Http_Service Demo_Client
begin

text \<open>
  The application as a server for the client programs: a request as urllib writes it, the JSON of the answers as
  \<open>JSONResponse\<close> writes it, and a turn of the server between the two, with either rate limiter. For the requests
  that a route serves, the answer is the JSON of what the service returns.
\<close>

subsection \<open>A deployment\<close>

text \<open>The application with its framework; what the client program is given, and what urllib and the network add to
  its requests: the address, further headers, and for each turn the fresh identifier, the count of the shared rate
  limiter, when Redis is configured, and the clock.\<close>

record deployment =
  dp_framework :: framework
  dp_runtime :: runtime
  dp_app :: app
  dp_url :: str
  dp_key :: str
  dp_floats :: "str \<Rightarrow> str"
  dp_host :: str
  dp_headers :: "(str \<times> str) list"
  dp_fresh :: "nat \<Rightarrow> str"
  dp_counter :: "(nat \<Rightarrow> int) option"
  dp_clock :: "nat \<Rightarrow> rat \<times> rat"

text \<open>The background tasks of the answered requests wait in \<open>sv_tasks\<close>.\<close>

record server =
  sv_world :: world
  sv_mw :: mw_state
  sv_tasks :: "task list"
  sv_turn :: nat

definition length_headers :: "client_request \<Rightarrow> (str \<times> str) list" where
  "length_headers c = (case cr_data c of
      Some s \<Rightarrow> [(''Content-length'', nat_text (length (utf8 s)))]
    | None \<Rightarrow> if cr_method c \<in> {''POST'', ''PATCH'', ''PUT''} then [(''Content-Length'', ''0'')] else [])"

definition wire_request :: "deployment \<Rightarrow> client_request \<Rightarrow> request" where
  "wire_request D c =
     \<lparr>req_path = drop (length (rstrip_by (\<lambda>c. c = CHR ''/'') (dp_url D))) (cr_url c), req_method = cr_method c,
      req_client = Some (dp_host D),
      req_headers = map_of (map (\<lambda>(k, v). (lower k, v)) (cr_headers c @ length_headers c @ dp_headers D)),
      req_chunks = (case cr_data c of None \<Rightarrow> [] | Some s \<Rightarrow> [utf8 s]), req_route = None\<rparr>"

text \<open>Starlette renders compact JSON.\<close>

definition dump_wire :: dump_opts where
  "dump_wire = \<lparr>ascii = False, sort_keys = False, item_sep = '','', key_sep = '':''\<rparr>"

definition http_turn :: "deployment \<Rightarrow> server transport" where
  "http_turn D c sv =
     (let n = sv_turn sv;
          (resp, m, ts, w) = answer_http (dp_framework D) (dp_runtime D) (dp_app D) (map_option (\<lambda>f. Inr (f n)) (dp_counter D)) (dp_fresh D n)
             (fst (dp_clock D n)) (snd (dp_clock D n)) (wire_request D c) (\<lambda>name. None) (sv_mw sv) (sv_world sv)
      in (Answered (resp_status resp) (dumps dump_wire (resp_body resp)),
          \<lparr>sv_world = w, sv_mw = m, sv_tasks = sv_tasks sv @ ts, sv_turn = Suc n\<rparr>))"

subsection \<open>The limiter\<close>

text \<open>Room for \<open>k\<close> more requests of the client, with either limiter.\<close>

definition room :: "deployment \<Rightarrow> nat \<Rightarrow> server \<Rightarrow> bool" where
  "room D k sv = (let limit = rate_limit_per_minute (ap_settings (dp_app D)) in case dp_counter D of
      None \<Rightarrow> int (length (window_of (mw_limiter (sv_mw sv)) (dp_host D)) + k) \<le> limit
    | Some f \<Rightarrow> \<forall>j < k. f (sv_turn sv + j) \<le> limit)"

lemma room_less: "room D (Suc k) sv \<Longrightarrow> room D k sv"
  by (auto simp: room_def Let_def split: option.splits)

lemma room_world: "room D k (sv\<lparr>sv_world := w\<rparr>) = room D k sv"
  by (simp add: room_def Let_def split: option.splits)

lemma length_window_sweep: "length (window_of (sweep now l) k) \<le> length (window_of l k)"
  by (auto simp: sweep_def window_of_def split: option.splits)

lemma exceeded_room:
  assumes "int (length (window_of l k) + Suc n) \<le> limit"
  shows "\<exists>l'. exceeded now k limit l = (False, l') \<and> int (length (window_of l' k) + n) \<le> limit"
proof -
  let ?w = "dropWhile (\<lambda>t. t \<le> now - 60) (window_of (sweep now l) k)"
  have "length ?w \<le> length (window_of l k)"
    using length_dropWhile_le length_window_sweep le_trans by blast
  with assms show ?thesis by (auto simp: exceeded_def Let_def window_of_def)
qed

text \<open>A request with room passes the rate limit, and leaves the rest of the room to the next turn.\<close>

lemma rate_check_room:
  assumes "room D (Suc k) sv" and "prefix ''/api/'' (req_path r)" and "req_client r = Some (dp_host D)"
  shows "\<exists>l'. rate_check (ap_settings (dp_app D)) (map_option (\<lambda>f. Inr (f (sv_turn sv))) (dp_counter D)) now cid r (mw_limiter (sv_mw sv)) =
      (Inr None, l') \<and>
    (\<forall>sv'. mw_limiter (sv_mw sv') = l' \<longrightarrow> sv_turn sv' = Suc (sv_turn sv) \<longrightarrow> room D k sv')"
proof (cases "dp_counter D")
  case None
  with exceeded_room[of "mw_limiter (sv_mw sv)" "dp_host D" k "rate_limit_per_minute (ap_settings (dp_app D))" now] assms
  show ?thesis by (auto simp: rate_check_def room_def)
next
  case (Some f)
  then have "\<forall>j < Suc k. f (sv_turn sv + j) \<le> rate_limit_per_minute (ap_settings (dp_app D))"
    using assms(1) by (simp add: room_def Let_def)
  then have "f (sv_turn sv) \<le> rate_limit_per_minute (ap_settings (dp_app D))"
    "\<forall>j < k. f (Suc (sv_turn sv) + j) \<le> rate_limit_per_minute (ap_settings (dp_app D))"
    by (auto dest: spec[of _ 0] spec[of _ "Suc _"])
  with Some assms(2) show ?thesis by (auto simp: rate_check_def room_def Let_def)
qed

lemma dispatch_limiter:
  "mw_limiter (snd (dispatch S redis fresh t0 t1 r m f)) =
     snd (rate_check S redis t0 (correlation_id fresh (req_headers r)) r (mw_limiter m))"
  by (auto simp: dispatch_def handle_request_def Let_def split: prod.splits sum.splits option.splits)

subsection \<open>Bodies within the limit\<close>

lemma digits_groups: "s \<noteq> [] \<Longrightarrow> list_all is_digit s \<Longrightarrow> digit_groups s"
  by (induction s rule: digit_groups.induct) (auto simp: is_digit_def ord_def)

lemma parse_nat_text: "parse_int (nat_text n) = Some (int n)"
proof -
  have d: "list_all is_digit (nat_text n)" using nat_text_digits by (auto simp: list_all_iff)
  have "\<not> is_space c" if "is_digit c" for c using that by (auto simp: is_space_def is_digit_def)
  then have "strip (nat_text n) = nat_text n" using d by (auto simp: list_all_iff strip_def intro!: strip_by_id)
  moreover have "hd (nat_text n) \<noteq> CHR ''-''" "hd (nat_text n) \<noteq> CHR ''+''"
    using nat_text_digits[of "hd (nat_text n)" n] by (auto simp: is_digit_def ord_def)
  moreover have "filter is_digit (nat_text n) = nat_text n" using d by (simp add: filter_id_conv list_all_iff)
  ultimately show ?thesis using digits_groups[OF _ d] by (simp add: parse_int_def)
qed

text \<open>The body of a client program reaches the application.\<close>

definition within_limit :: "deployment \<Rightarrow> client_request \<Rightarrow> bool" where
  "within_limit D c = (case cr_data c of None \<Rightarrow> 0 \<le> max_request_bytes (ap_settings (dp_app D))
     | Some s \<Rightarrow> int (length (utf8 s)) \<le> max_request_bytes (ap_settings (dp_app D)))"

definition sent_bytes :: "client_request \<Rightarrow> nat list" where
  "sent_bytes c = (case cr_data c of None \<Rightarrow> [] | Some s \<Rightarrow> utf8 s)"

definition plain_headers :: "client_request \<Rightarrow> bool" where
  "plain_headers c = (\<forall>(k, v) \<in> set (cr_headers c). lower k \<noteq> ''content-length'')"

lemma wire_length:
  assumes "plain_headers c" and "length_headers c = (k, v) # hs" and "lower k = ''content-length''"
  shows "header (req_headers (wire_request D c)) ''content-length'' = v"
proof -
  have "map_of (map (\<lambda>(k, v). (lower k, v)) (cr_headers c)) ''content-length'' = None"
    using assms(1) by (auto simp: plain_headers_def map_of_eq_None_iff image_iff)
  then show ?thesis using assms(2,3) by (simp add: wire_request_def header_def map_add_def)
qed

lemma body_reaches:
  assumes "within_limit D c" and "plain_headers c"
  shows "body_check (ap_settings (dp_app D)) cid ((wire_request D c)\<lparr>req_route := p\<rparr>) = Inr (sent_bytes c)"
proof (cases "cr_method c \<in> {''POST'', ''PATCH'', ''PUT''}")
  case True
  define n where "n = (case cr_data c of None \<Rightarrow> 0 | Some s \<Rightarrow> length (utf8 s))"
  have low: "lower ''Content-length'' = ''content-length''" "lower ''Content-Length'' = ''content-length''" by code_simp+
  have n: "int n \<le> max_request_bytes (ap_settings (dp_app D))" using assms(1) by (auto simp: n_def within_limit_def split: option.splits)
  have zero: "nat_text 0 = ''0''" by code_simp
  have "header (req_headers (wire_request D c)) ''content-length'' = nat_text n"
    using True low zero by (cases "cr_data c") (auto intro!: wire_length[OF assms(2)] simp: length_headers_def n_def)
  moreover have "read_body (max_request_bytes (ap_settings (dp_app D))) 0 [] (req_chunks (wire_request D c)) = Some (sent_bytes c)"
    using n by (subst read_body_small) (auto simp: wire_request_def sent_bytes_def n_def split: option.splits)
  ultimately show ?thesis
    using True n by (simp add: body_check_def parse_nat_text wire_request_def)
next
  case False
  then show ?thesis by (simp add: body_check_def wire_request_def sent_bytes_def split: option.split)
qed

subsection \<open>A served request\<close>

lemma find_route_cong: "fw_match F = fw_match G \<Longrightarrow> find_route F m p x ss = find_route G m p x ss"
  by (induction F m p x ss rule: find_route.induct) (auto split: option.split)

lemma table_methods: "s \<in> set route_table \<Longrightarrow> rs_method s \<noteq> ''OPTIONS''"
  by (auto simp: route_table_def incident_routes_def history_routes_def report_routes_def other_routes_def
      operation_routes_def api_route_def)

text \<open>What a request has to satisfy so that a route serves it.\<close>

definition accepted_as :: "deployment \<Rightarrow> client_request \<Rightarrow> route_spec \<Rightarrow> api_request \<Rightarrow> bool" where
  "accepted_as D c s req =
     (let F = dp_framework D; A = dp_app D; r = wire_request D c; e = rs_endpoint s
      in prefix ''/api/'' (req_path r) \<and> within_limit D c \<and> plain_headers c \<and>
         guard (rt_jwt (dp_runtime D)) (ap_settings A) (req_headers r) e = Inr () \<and>
         e \<notin> {Ep_health, Ep_ready, Ep_metrics} \<and>
         (\<exists>ps parsed. find_route F (cr_method c) (req_path r) None route_table = Matched s ps \<and>
            read_request F (req_headers r) e (sent_bytes c) = Inr parsed \<and>
            decoded F (ap_stamp A) e ps (\<lambda>name. None) parsed = Inr req))"

lemma http_turn_serves:
  assumes "accepted_as D c s req" and "room D (Suc k) sv"
    and "serve (dp_app D) req (sv_world sv) = (Inr (x, ts), w)"
  shows "\<exists>sv'. http_turn D c sv = (Answered (rs_status s) (dumps dump_wire (fst (fw_render (dp_framework D) x))), sv') \<and>
    sv_world sv' = w \<and> room D k sv'"
proof -
  let ?F = "dp_framework D" and ?R = "dp_runtime D" and ?A = "dp_app D" and ?n = "sv_turn sv" and ?r0 = "wire_request D c"
  let ?t = "fst (dp_clock D ?n)" and ?u = "snd (dp_clock D ?n)" and ?m = "sv_mw sv"
  note acc = assms(1)[unfolded accepted_as_def Let_def]
  obtain ps parsed where route: "find_route ?F (req_method ?r0) (req_path ?r0) None route_table = Matched s ps"
      and parsed: "read_request ?F (req_headers ?r0) (rs_endpoint s) (sent_bytes c) = Inr parsed"
      "decoded ?F (ap_stamp ?A) (rs_endpoint s) ps (\<lambda>name. None) parsed = Inr req"
    using acc by (auto simp: wire_request_def)
  define cid where "cid = correlation_id (dp_fresh D ?n) (req_headers ?r0)"
  define r where "r = ?r0\<lparr>req_route := routed_path (find_route ?F (req_method ?r0) (req_path ?r0) None route_table)\<rparr>"
  have r: "req_client r = Some (dp_host D)" "req_path r = req_path ?r0" "req_headers r = req_headers ?r0" "req_method r = req_method ?r0"
    by (simp_all add: r_def wire_request_def)
  let ?redis = "map_option (\<lambda>f. Inr (f ?n)) (dp_counter D) :: (exc, int) res option"
  obtain l' where rate: "rate_check (ap_settings ?A) ?redis ?t cid r (mw_limiter ?m) = (Inr None, l')"
      and left: "\<forall>sv'. mw_limiter (sv_mw sv') = l' \<longrightarrow> sv_turn sv' = Suc ?n \<longrightarrow> room D k sv'"
    using rate_check_room[OF assms(2), of r ?t cid] acc r by auto
  have body: "body_check (ap_settings ?A) cid r = Inr (sent_bytes c)"
    unfolding r_def using acc by (intro body_reaches) auto
  have routed: "routed (ap_settings ?A) ?redis ?t cid r (mw_limiter ?m)" by (simp add: routed_def rate body)
  let ?resp = "\<lparr>resp_status = rs_status s, resp_body = fst (fw_render ?F x), resp_headers = snd (fw_render ?F x)\<rparr>"
  have "call_endpoint ?F ?R ?A ?m cid s ps (\<lambda>name. None) (req_headers r) (sent_bytes c) (sv_world sv) = (Inr ?resp, ts, w)"
    using acc parsed assms(3) r by (simp add: call_endpoint_def)
  then have run: "route_request ?F ?R ?A ?m cid r (\<lambda>name. None) (sent_bytes c) (sv_world sv) = (Inr ?resp, ts, w)"
    using route r by (simp add: route_request_def)
  obtain m' where turn: "handle_http ?F ?R ?A ?redis (dp_fresh D ?n) ?t ?u ?r0 (\<lambda>name. None) ?m (sv_world sv) =
      (finish_response cid ?resp, m', ts, w)"
    using handle_http_eq[OF cid_def r_def routed body run] by auto
  have "m' = snd (dispatch (ap_settings ?A) ?redis (dp_fresh D ?n) ?t ?u r ?m
      (\<lambda>c' bytes. fst (route_request ?F ?R ?A ?m cid r (\<lambda>name. None) bytes (sv_world sv))))"
    using turn unfolding handle_http_def by (auto simp: Let_def cid_def r_def split: prod.splits)
  moreover have "correlation_id (dp_fresh D ?n) (req_headers r) = cid" by (simp add: cid_def r)
  ultimately have "mw_limiter m' = l'" by (simp add: dispatch_limiter rate)
  moreover have "s \<in> set route_table" "rs_method s = req_method ?r0" using find_route_in[OF route] by auto
  then have "\<not> is_preflight ?r0" using table_methods by (auto simp: is_preflight_def)
  ultimately show ?thesis using left by (simp add: http_turn_def answer_http_def turn with_cors_def finish_response_def)
qed

end
