(* ===== verification/Demo_Inbox.thy ===== *)
theory Demo_Inbox
  imports Demo_Client
begin

text \<open>
  The interface that the deliveries of \<open>src/scripts/demo.py\<close> rely on, and what the script does with any service that
  has it: every assertion of the phase holds, and its output says which scenarios were there before.
\<close>

definition external_id :: "pyval \<Rightarrow> str" where
  "external_id p = (case p of VDict d \<Rightarrow> (case map_of d ''external_id'' of Some (VStr s) \<Rightarrow> s | _ \<Rightarrow> []) | _ \<Rightarrow> [])"

text \<open>\<open>stored s x\<close> is the incident of the external identifier \<open>x\<close>; the service is ready for a number of requests.
  A delivery answers with the incident of the scenario and whether it was there; the log read back from it is
  without the secrets.\<close>

locale alert_inbox =
  fixes request :: "'s caller" and ready :: "nat \<Rightarrow> 's \<Rightarrow> bool" and stored :: "'s \<Rightarrow> str \<Rightarrow> str option"
  assumes deliver: "ready (Suc k) s \<Longrightarrow> p \<in> set scenarios \<Longrightarrow>
      \<exists>d e i s'. request ''POST'' ''/webhooks/generic'' p (s, printed) = (Inr (VDict d), s', printed) \<and> ready k s' \<and>
        map_of d ''incident'' = Some (VDict e) \<and> map_of e ''id'' = Some (VStr i) \<and>
        map_of d ''duplicate'' = Some (VBool (stored s (external_id p) \<noteq> None)) \<and>
        stored s (external_id p) \<in> {None, Some i} \<and>
        (\<forall>q \<in> set scenarios. stored s' (external_id q) = (if q = p then Some i else stored s (external_id q)))"
    and read_logs: "ready (Suc k) s \<Longrightarrow> p \<in> set scenarios \<Longrightarrow> stored s (external_id p) = Some i \<Longrightarrow>
      \<exists>v s'. request ''GET'' (incident_path (VStr i) @ ''/logs'') VNone (s, printed) = (Inr v, s', printed) \<and> ready k s' \<and>
        (\<forall>q \<in> set scenarios. stored s' (external_id q) = stored s (external_id q)) \<and>
        \<not> contains ''demo-secret-value'' (dumps dump_default v) \<and> \<not> contains ''customer@example.com'' (dumps dump_default v)"

text \<open>The line that is printed for a scenario.\<close>

definition seed_line :: "str option \<Rightarrow> pyval \<Rightarrow> str" where
  "seed_line before p = (if before = None then ''Created'' else ''Existing'') @ '': '' @
     (case p of VDict d \<Rightarrow> (case map_of d ''title'' of Some v \<Rightarrow> py_str v | None \<Rightarrow> []) | _ \<Rightarrow> [])"

lemma scenario_title:
  assumes "p \<in> set scenarios"
  shows "\<exists>d t. p = VDict d \<and> map_of d ''title'' = Some (VStr t) \<and> seed_line b p = (if b = None then ''Created'' else ''Existing'') @ '': '' @ t"
  using assms
  by (auto simp: scenarios_def checkout_scenario_def worker_scenario_def cache_scenario_def scenario_def seed_line_def)

lemma scenarios_differ: "distinct scenarios" "scenarios \<noteq> []" "length scenarios = 3"
  by (simp_all add: scenarios_def checkout_scenario_def worker_scenario_def cache_scenario_def scenario_def)

context alert_inbox
begin

lemma seed_run:
  assumes "ready (Suc k) s" and "p \<in> set scenarios"
  shows "\<exists>i s'. seed_scenario request p (s, printed) =
      (Inr (VStr i), s', printed @ [seed_line (stored s (external_id p)) p]) \<and> ready k s' \<and>
    (\<forall>q \<in> set scenarios. stored s' (external_id q) = (if q = p then Some i else stored s (external_id q)))"
proof -
  obtain d e i s' where run: "request ''POST'' ''/webhooks/generic'' p (s, printed) = (Inr (VDict d), s', printed)"
      and ready: "ready k s'" and d: "map_of d ''incident'' = Some (VDict e)" "map_of e ''id'' = Some (VStr i)"
        "map_of d ''duplicate'' = Some (VBool (stored s (external_id p) \<noteq> None))"
      and s': "\<forall>q \<in> set scenarios. stored s' (external_id q) = (if q = p then Some i else stored s (external_id q))"
    using deliver[OF assms] by blast
  obtain f t where t: "p = VDict f" "map_of f ''title'' = Some (VStr t)" "seed_line (stored s (external_id p)) p =
      (if stored s (external_id p) = None then ''Created'' else ''Existing'') @ '': '' @ t"
    using scenario_title[OF assms(2), of "stored s (external_id p)"] by metis
  have title: "item p ''title'' u = (Inr (VStr t), u)" for u :: "'s \<times> str list"
    unfolding t(1) by (simp add: t(2))
  have "seed_scenario request p (s, printed) =
      (Inr (VStr i), s', printed @ [seed_line (stored s (external_id p)) p])"
    by (simp add: seed_scenario_def after_def run d title t(3))
  with ready s' show ?thesis by blast
qed

lemma seed_all:
  assumes "ready (length ps + k) s" and "set ps \<subseteq> set scenarios" and "distinct ps"
  shows "\<exists>ids s'. for_each (seed_scenario request) ps (s, printed) =
      (Inr (map VStr ids), s', printed @ map (\<lambda>p. seed_line (stored s (external_id p)) p) ps) \<and> ready k s' \<and>
    map (\<lambda>p. stored s' (external_id p)) ps = map Some ids \<and>
    (\<forall>q \<in> set scenarios - set ps. stored s' (external_id q) = stored s (external_id q))"
  using assms
proof (induction ps arbitrary: s printed)
  case Nil
  then show ?case by simp
next
  case (Cons p ps)
  let ?line = "seed_line (stored s (external_id p)) p"
  obtain i s1 where p: "seed_scenario request p (s, printed) = (Inr (VStr i), s1, printed @ [?line])" "ready (length ps + k) s1"
      and s1: "\<forall>q \<in> set scenarios. stored s1 (external_id q) = (if q = p then Some i else stored s (external_id q))"
    using seed_run[of "length ps + k" s p printed] Cons.prems by auto
  have same: "stored s1 (external_id q) = stored s (external_id q)" if "q \<in> set ps" for q
    using s1 that Cons.prems by auto
  obtain ids s' where ps: "for_each (seed_scenario request) ps (s1, printed @ [?line]) =
        (Inr (map VStr ids), s', (printed @ [?line]) @ map (\<lambda>p. seed_line (stored s1 (external_id p)) p) ps)"
      "ready k s'" and s': "map (\<lambda>p. stored s' (external_id p)) ps = map Some ids"
      "\<forall>q \<in> set scenarios - set ps. stored s' (external_id q) = stored s1 (external_id q)"
    using Cons.IH[OF p(2), of "printed @ [?line]"] Cons.prems by auto
  have lines: "map (\<lambda>p. seed_line (stored s1 (external_id p)) p) ps =
      map (\<lambda>p. seed_line (stored s (external_id p)) p) ps" using same by simp
  have "for_each (seed_scenario request) (p # ps) (s, printed) =
      (Inr (map VStr (i # ids)), s', printed @ map (\<lambda>p. seed_line (stored s (external_id p)) p) (p # ps))"
    by (simp add: after_def p(1) ps(1) lines)
  moreover have "stored s' (external_id p) = Some i" using s'(2) s1 Cons.prems by auto
  moreover have "\<forall>q \<in> set scenarios - set (p # ps). stored s' (external_id q) = stored s (external_id q)"
    using s'(2) s1 by auto
  ultimately show ?case using ps(2) s'(1) by (intro exI[of _ "i # ids"] exI[of _ s']) simp
qed

text \<open>The phase as a whole.\<close>

lemma ingestion_run:
  assumes "ready (5 + k) s"
  shows "\<exists>ids s'. demo_ingestion request (s, printed) =
      (Inr (map VStr ids), s', printed @ map (\<lambda>p. seed_line (stored s (external_id p)) p) scenarios) \<and> ready k s' \<and>
    map (\<lambda>p. stored s' (external_id p)) scenarios = map Some ids"
proof -
  let ?p = "hd scenarios"
  let ?lines = "map (\<lambda>p. seed_line (stored s (external_id p)) p) scenarios"
  have p: "?p \<in> set scenarios" using scenarios_differ(2) by simp
  have "ready (length scenarios + Suc (Suc k)) s" using assms by (simp add: scenarios_differ)
  from seed_all[OF this subset_refl scenarios_differ(1), of printed] obtain ids s1 where
    seed: "for_each (seed_scenario request) scenarios (s, printed) = (Inr (map VStr ids), s1, printed @ ?lines)" "ready (Suc (Suc k)) s1"
      "map (\<lambda>p. stored s1 (external_id p)) scenarios = map Some ids" by blast
  obtain i js where ids: "ids = i # js" using seed(3) scenarios_differ(2) by (cases "ids") auto
  have "hd (map (\<lambda>p. stored s1 (external_id p)) scenarios) = Some i" unfolding seed(3) by (simp add: ids)
  then have i: "stored s1 (external_id ?p) = Some i" using scenarios_differ(2) by (simp add: hd_map)
  from deliver[OF seed(2) p, of "printed @ ?lines"] i obtain d e s2 where
    again: "request ''POST'' ''/webhooks/generic'' ?p (s1, printed @ ?lines) = (Inr (VDict d), s2, printed @ ?lines)"
      and ready2: "ready (Suc k) s2" and d: "map_of d ''incident'' = Some (VDict e)" "map_of e ''id'' = Some (VStr i)"
        "map_of d ''duplicate'' = Some (VBool True)"
      and s2: "\<forall>q \<in> set scenarios. stored s2 (external_id q) = (if q = ?p then Some i else stored s1 (external_id q))"
    by auto
  have "stored s2 (external_id ?p) = Some i" using s2 p by simp
  then obtain v s3 where logs: "request ''GET'' (incident_path (VStr i) @ ''/logs'') VNone (s2, printed @ ?lines) =
      (Inr v, s3, printed @ ?lines)" "ready k s3"
      "\<not> contains ''demo-secret-value'' (dumps dump_default v)" "\<not> contains ''customer@example.com'' (dumps dump_default v)"
      and s3: "\<forall>q \<in> set scenarios. stored s3 (external_id q) = stored s2 (external_id q)"
    using read_logs[OF ready2 p, of i "printed @ ?lines"] by blast
  have "demo_ingestion request (s, printed) = (Inr (map VStr ids), s3, printed @ ?lines)"
    using logs(3,4) by (simp add: demo_ingestion_def after_def seed(1) again d ids logs(1))
  moreover have "map (\<lambda>p. stored s3 (external_id p)) scenarios = map Some ids"
    unfolding seed(3)[symmetric] using s2 s3 i by auto
  ultimately show ?thesis using logs(2) by blast
qed

end

end
