(* ===== verification/Demo_Service.thy ===== *)
theory Demo_Service
  imports Demo_Inbox Demo_Secrets Http_Wire
begin

text \<open>
  The application has the interface of \<open>Demo_Inbox\<close>: behind the middleware, the guards, the router, the generic
  adapter, the privacy filter and the database, every assertion that \<open>src/scripts/demo.py\<close> makes on ingestion,
  deduplication and redaction holds, on the first run and on every later one.
\<close>

subsection \<open>What the answers are as JSON\<close>

definition ingestion_json :: "IngestionResponse \<Rightarrow> pyval" where
  "ingestion_json r = VDict
     [(''incident'', incident_json (in_incident r)), (''duplicate'', VBool (in_duplicate r)),
      (''results'', VList (map (\<lambda>i. VDict [(''incident'', incident_json (ii_incident i)), (''duplicate'', VBool (ii_duplicate i))])
         (in_results r)))]"

lemma json_ok_ingestion: "json_ok fl (ingestion_json r)"
  by (simp add: ingestion_json_def json_ok_incident)

lemma json_ok_logs: "json_ok fl (VList (map log_json ls))"
  by (simp add: log_json_def)

lemma plain_wire: "plain_opts dump_wire"
  by (simp add: plain_opts_def dump_wire_def)

subsection \<open>The deployments the script is for\<close>

text \<open>FastAPI reads a body of ASCII JSON, and renders the models of the answers.\<close>

definition framework_ok :: "(str \<Rightarrow> str) \<Rightarrow> env \<Rightarrow> framework \<Rightarrow> bool" where
  "framework_ok fl E F =
     (fw_match F = path_match \<and> (\<forall>n. fw_uuid F (uuid E n) = Some (uuid E n)) \<and>
      (\<forall>h s v. h ''content-type'' = Some ''application/json'' \<longrightarrow> list_all (\<lambda>c. ord c < 128) s \<longrightarrow> json_loads fl s = Some v \<longrightarrow>
         fw_body F h (utf8 s) = Inr (Some v)) \<and>
      (\<forall>r. fst (fw_render F (AIngestion r)) = ingestion_json r) \<and>
      (\<forall>ls. fst (fw_render F (ALogs ls)) = VList (map log_json ls)))"

text \<open>A demonstration configuration whose API key the script has.\<close>

definition demo_deployment :: "deployment \<Rightarrow> bool" where
  "demo_deployment D =
     (let A = dp_app D; S = ap_settings A
      in plain_app A \<and> uuids_written (ap_env A) \<and> demo_mode S \<and> api_key S = dp_key D \<and> dp_key D \<noteq> [] \<and>
         1024 \<le> max_request_bytes S \<and> framework_ok (dp_floats D) (ap_env A) (dp_framework D))"

definition demo_caller :: "deployment \<Rightarrow> server caller" where
  "demo_caller D = demo_request (dp_floats D) (dp_url D) (dp_key D) (http_turn D)"

definition stored_incident :: "server \<Rightarrow> str \<Rightarrow> str option" where
  "stored_incident sv x = map_option al_incident_id (find_alert ''generic'' x (saved (sv_world sv)))"

definition demo_ready :: "deployment \<Rightarrow> nat \<Rightarrow> server \<Rightarrow> bool" where
  "demo_ready D k sv = (demo_world (dp_app D) (sv_world sv) \<and> room D k sv)"

text \<open>The request that the script makes.\<close>

definition sent :: "deployment \<Rightarrow> str \<Rightarrow> str \<Rightarrow> pyval \<Rightarrow> client_request" where
  "sent D m path json = \<lparr>cr_method = m, cr_url = rstrip_by (\<lambda>c. c = CHR ''/'') (dp_url D) @ ''/api/v1'' @ path,
     cr_headers = [(''X-API-Key'', dp_key D), (''Content-Type'', ''application/json'')],
     cr_data = (if json \<noteq> VNone then Some (dumps dump_default json) else None)\<rparr>"

lemma demo_caller_run:
  assumes "http_turn D (sent D m path json) sv = (Answered st (dumps dump_wire v), sv')" and "200 \<le> st \<and> st \<le> 299" and "json_ok (dp_floats D) v"
  shows "demo_caller D m path json (sv, printed) = (Inr v, sv', printed)"
proof -
  have "dumps dump_wire v \<noteq> []"
    using json_loads_dumps[OF plain_wire assms(3)] by (auto simp: json_loads_def)
  moreover note json_loads_dumps[OF plain_wire assms(3)]
  ultimately show ?thesis
    using assms(1,2) by (cases "json = VNone") (simp_all add: demo_caller_def demo_request_def sent_def)
qed

lemma sent_path: "req_path (wire_request D (sent D m path json)) = ''/api/v1'' @ path"
  by (simp add: wire_request_def sent_def)

lemma sent_headers:
  "plain_headers (sent D m path json)"
  "header (req_headers (wire_request D (sent D m path json))) ''x-api-key'' = dp_key D"
  "req_headers (wire_request D (sent D m path json)) ''content-type'' = Some ''application/json''"
proof -
  have low: "lower ''X-API-Key'' = ''x-api-key''" "lower ''Content-Type'' = ''content-type''" by code_simp+
  then show "plain_headers (sent D m path json)"
    "header (req_headers (wire_request D (sent D m path json))) ''x-api-key'' = dp_key D"
    "req_headers (wire_request D (sent D m path json)) ''content-type'' = Some ''application/json''"
    by (simp_all add: plain_headers_def sent_def wire_request_def header_def)
qed

lemma sent_guard:
  assumes "demo_deployment D"
  shows "guard J (ap_settings (dp_app D)) (req_headers (wire_request D (sent D m path json))) e = Inr ()"
  using assms sent_headers(2)[of D m path json]
  by (auto simp: demo_deployment_def Let_def guard_def require_webhook_auth_def require_auth_def)

text \<open>A request that the router matches and whose body and parameters are in order.\<close>

lemma sent_accepted:
  assumes "demo_deployment D" and "find_route (dp_framework D) m (''/api/v1'' @ path) None route_table = Matched s ps"
    and "rs_endpoint s \<notin> {Ep_health, Ep_ready, Ep_metrics}" and "within_limit D (sent D m path json)"
    and "read_request (dp_framework D) (req_headers (wire_request D (sent D m path json))) (rs_endpoint s)
      (sent_bytes (sent D m path json)) = Inr parsed"
    and "decoded (dp_framework D) (ap_stamp (dp_app D)) (rs_endpoint s) ps (\<lambda>name. None) parsed = Inr req"
  shows "accepted_as D (sent D m path json) s req"
proof -
  have "cr_method (sent D m path json) = m" by (simp add: sent_def)
  then show ?thesis
    using assms(2-) sent_path[of D m path json] sent_headers(1) sent_guard[OF assms(1)] by (auto simp: accepted_as_def Let_def)
qed

lemma no_body_read:
  assumes "demo_deployment D" and "\<not> takes_body e"
  shows "read_request (dp_framework D) (req_headers (wire_request D (sent D m path VNone))) e (sent_bytes (sent D m path VNone)) = Inr None"
    and "within_limit D (sent D m path VNone)"
  using assms by (simp_all add: read_request_def within_limit_def sent_def demo_deployment_def Let_def)

lemma plain_default_dump: "plain_opts dump_default"
  by (simp add: plain_opts_def dump_default_def)

text \<open>A small ASCII body is read as the value it was written from.\<close>

definition small_body :: "pyval \<Rightarrow> bool" where
  "small_body v = (list_all (\<lambda>c. ord c < 128) (dumps dump_default v) \<and> length (utf8 (dumps dump_default v)) \<le> 1024 \<and> v \<noteq> VNone)"

lemma small_body_read:
  assumes "demo_deployment D" and "small_body v" and "json_ok (dp_floats D) v" and "takes_body e"
  shows "read_request (dp_framework D) (req_headers (wire_request D (sent D m path v))) e (sent_bytes (sent D m path v)) = Inr (Some v)"
    and "within_limit D (sent D m path v)"
proof -
  note dep = assms(1)[unfolded demo_deployment_def Let_def] and small = assms(2)[unfolded small_body_def]
  have data: "cr_data (sent D m path v) = Some (dumps dump_default v)" using small by (simp add: sent_def)
  have "fw_body (dp_framework D) (req_headers (wire_request D (sent D m path v))) (sent_bytes (sent D m path v)) = Inr (Some v)"
    using dep small sent_headers(3) json_loads_dumps[OF plain_default_dump assms(3)]
    by (auto simp: framework_ok_def sent_bytes_def data)
  then show "read_request (dp_framework D) (req_headers (wire_request D (sent D m path v))) e (sent_bytes (sent D m path v)) =
      Inr (Some v)" using assms(4) by (simp add: read_request_def at_field_def)
  show "within_limit D (sent D m path v)" using dep small by (simp add: within_limit_def data)
qed

subsection \<open>A delivery\<close>

lemma scenario_sent:
  assumes "p \<in> set scenarios"
  shows "small_body p" and "json_ok fl p" and "dict_body p = Inr p"
proof -
  have "list_all small_body scenarios" by code_simp
  then show "small_body p" using assms by (simp add: list_all_iff)
  obtain d where "p = VDict d" using scenario_title[OF assms] by blast
  then show "dict_body p = Inr p" by (simp add: dict_body_def)
  show "json_ok fl p"
    using assms by (auto simp: scenarios_def checkout_scenario_def worker_scenario_def cache_scenario_def scenario_def demo_log_def)
qed

lemma webhook_route:
  assumes "fw_match F = path_match"
  shows "find_route F ''POST'' ''/api/v1/webhooks/generic'' None route_table =
    Matched (api_route Ep_ingest ''POST'' ''/webhooks/{source}'' 200) [''generic'']"
proof -
  have "find_route sample_framework ''POST'' ''/api/v1/webhooks/generic'' None route_table =
    Matched (api_route Ep_ingest ''POST'' ''/webhooks/{source}'' 200) [''generic'']" by code_simp
  then show ?thesis using find_route_cong[of F sample_framework] assms by (simp add: sample_framework_def)
qed

lemma delivery_accepted:
  assumes "demo_deployment D" and "p \<in> set scenarios"
  shows "accepted_as D (sent D ''POST'' ''/webhooks/generic'' p)
    (api_route Ep_ingest ''POST'' ''/webhooks/{source}'' 200) (Ingest ''generic'' p)"
proof -
  have "takes_body Ep_ingest" by (simp add: takes_body_def)
  note read = small_body_read[OF assms(1) scenario_sent(1,2)[OF assms(2)] this, of "''POST''" "''/webhooks/generic''"]
  have "fw_match (dp_framework D) = path_match"
    using assms(1) by (simp add: demo_deployment_def framework_ok_def Let_def)
  then show ?thesis
    using read webhook_route scenario_sent(3)[OF assms(2)]
    by (intro sent_accepted[OF assms(1), where parsed = "Some p" and ps = "[''generic'']"])
      (simp_all add: api_route_def decoded_def with_body_def body_check_of_def map_check_def at_field_def)
qed

subsection \<open>The log\<close>

lemma segments_end: "CHR ''/'' \<notin> set u \<Longrightarrow> segments u = [u]"
  by (induction u) auto

lemma segments_plain: "CHR ''/'' \<notin> set u \<Longrightarrow> u \<noteq> [] \<Longrightarrow> segments (u @ CHR ''/'' # s) = u # segments s"
proof (induction u)
  case (Cons c u)
  then show ?case by (cases "u = []") auto
qed simp

lemma logs_route:
  assumes "fw_match F = path_match" and "uuid_text u"
  shows "find_route F ''GET'' (''/api/v1/incidents/'' @ u @ ''/logs'') None route_table =
    Matched (api_route Ep_list_logs ''GET'' ''/incidents/{incident_id}/logs'' 200) [u]"
proof -
  have u: "CHR ''/'' \<notin> set u" "u \<noteq> []" using assms(2) by (auto simp: uuid_text_def list_all_iff is_digit_def ord_def)
  then have "segments (''/api/v1/incidents/'' @ u @ ''/logs'') = [[], ''api'', ''v1'', ''incidents'', u, ''logs'']"
    using segments_plain[OF u, of "''logs''"] by simp
  with u(2) show ?thesis
    by (simp add: route_table_def incident_routes_def history_routes_def api_route_def assms(1) path_match_def)
qed

lemma deployed_framework:
  assumes "demo_deployment D" and "i \<in> range (uuid (ap_env (dp_app D)))"
  shows "fw_match (dp_framework D) = path_match" and "uuid_text i" and "fw_uuid (dp_framework D) i = Some i"
  using assms by (auto simp: demo_deployment_def framework_ok_def uuids_written_def Let_def)

lemma logs_accepted:
  assumes "demo_deployment D" and "i \<in> range (uuid (ap_env (dp_app D)))" and "path = ''/incidents/'' @ i @ ''/logs''"
  shows "accepted_as D (sent D ''GET'' path VNone)
    (api_route Ep_list_logs ''GET'' ''/incidents/{incident_id}/logs'' 200) (ListLogs i 100 0)"
  using deployed_framework[OF assms(1,2)] logs_route assms(3) no_body_read[OF assms(1), of Ep_list_logs]
  by (intro sent_accepted[OF assms(1), where parsed = None and ps = "[i]"])
    (simp_all add: api_route_def takes_body_def decoded_def path_uuid_def query_limit_def query_offset_def query_int_def
      both_def map_check_def)

end
