(* ===== verification/Demo_Triage.thy ===== *)
theory Demo_Triage
  imports Demo_Service
begin

text \<open>
  The triage of \<open>src/scripts/demo.py\<close>: the interface it relies on, what it does with any service that has it, and
  the application, which has it for the incident of every scenario.
\<close>

subsection \<open>The interface\<close>

definition triage_note :: pyval where
  "triage_note = VDict [(''message'', VStr ''On-call is comparing pool settings with v2.8.0.'')]"

text \<open>An incident at its path: its status can be read and set, and a note added; \<open>noted\<close> counts them.\<close>

locale incident_desk =
  fixes request :: "'s caller" and ready :: "nat \<Rightarrow> 's \<Rightarrow> bool" and status :: "'s \<Rightarrow> str" and noted :: "'s \<Rightarrow> nat"
    and path :: str
  assumes reading: "ready (Suc k) s \<Longrightarrow> \<exists>d s'. request ''GET'' path VNone (s, printed) = (Inr (VDict d), s', printed) \<and>
      ready k s' \<and> map_of d ''status'' = Some (VStr (status s)) \<and> status s' = status s \<and> noted s' = noted s"
    and moving: "ready (Suc k) s \<Longrightarrow> x \<in> set status_texts \<Longrightarrow>
      \<exists>v s'. request ''PATCH'' path (VDict [(''status'', VStr x)]) (s, printed) = (Inr v, s', printed) \<and>
        ready k s' \<and> status s' = x \<and> noted s' = noted s"
    and noting: "ready (Suc k) s \<Longrightarrow>
      \<exists>v s'. request ''POST'' (path @ ''/timeline'') triage_note (s, printed) = (Inr v, s', printed) \<and>
        ready k s' \<and> status s' = status s \<and> noted s' = Suc (noted s)"
    and fewer: "ready (Suc k) s \<Longrightarrow> ready k s"
begin

lemma advance_run:
  assumes "ready (Suc (Suc k)) s" and "b \<in> set status_texts"
  shows "\<exists>s'. advance request path a b (s, printed) = (Inr (), s', printed) \<and> ready k s' \<and>
    status s' = (if status s = a then b else status s) \<and> noted s' = noted s"
proof -
  obtain d s1 where get: "request ''GET'' path VNone (s, printed) = (Inr (VDict d), s1, printed)" "ready (Suc k) s1"
      "map_of d ''status'' = Some (VStr (status s))" "status s1 = status s" "noted s1 = noted s"
    using reading[OF assms(1)] by blast
  show ?thesis
  proof (cases "status s = a")
    case True
    from moving[OF get(2) assms(2)] obtain v s2 where
      "request ''PATCH'' path (VDict [(''status'', VStr b)]) (s1, printed) = (Inr v, s2, printed)" "ready k s2" "status s2 = b"
      "noted s2 = noted s1" by blast
    with get True show ?thesis by (simp add: advance_def after_def)
  next
    case False
    with get fewer[OF get(2)] show ?thesis by (simp add: advance_def after_def)
  qed
qed

lemma triage_run:
  assumes "ready (5 + k) s"
  shows "\<exists>s'. demo_triage request path (s, printed) = (Inr (), s', printed) \<and> ready k s' \<and>
    status s' = (if status s \<in> {''open'', ''acknowledged''} then ''investigating'' else status s) \<and> noted s' = Suc (noted s)"
proof -
  have "ready (Suc (Suc (3 + k))) s" using assms by simp
  from advance_run[OF this, of "''acknowledged''" "''open''" printed] obtain s1 where
    s1: "advance request path ''open'' ''acknowledged'' (s, printed) = (Inr (), s1, printed)" "ready (3 + k) s1"
      "status s1 = (if status s = ''open'' then ''acknowledged'' else status s)" "noted s1 = noted s"
    by (auto simp: status_texts_def)
  have "ready (Suc (Suc (1 + k))) s1" using s1(2) by (simp add: numeral_3_eq_3)
  from advance_run[OF this, of "''investigating''" "''acknowledged''" printed] obtain s2 where
    s2: "advance request path ''acknowledged'' ''investigating'' (s1, printed) = (Inr (), s2, printed)" "ready (1 + k) s2"
      "status s2 = (if status s1 = ''acknowledged'' then ''investigating'' else status s1)" "noted s2 = noted s1"
    by (auto simp: status_texts_def)
  have "ready (Suc k) s2" using s2(2) by simp
  from noting[OF this, of printed] obtain v s3 where
    s3: "request ''POST'' (path @ ''/timeline'') triage_note (s2, printed) = (Inr v, s3, printed)" "ready k s3"
      "status s3 = status s2" "noted s3 = Suc (noted s2)" by blast
  have "demo_triage request path (s, printed) = (Inr (), s3, printed)"
    using s3(1) by (simp add: demo_triage_def after_def s1(1) s2(1) triage_note_def)
  moreover have "status s3 = (if status s \<in> {''open'', ''acknowledged''} then ''investigating'' else status s)"
    using s1(3) s2(3) s3(3) by auto
  ultimately show ?thesis using s3(2,4) s1(4) s2(4) by simp
qed

lemma recovery_run:
  assumes "ready (2 + k) s"
  shows "\<exists>s'. demo_recovery request path (s, printed) = (Inr (), s', printed) \<and> ready k s' \<and> status s' = ''resolved'' \<and>
    noted s' = noted s"
proof -
  have "ready (Suc (Suc k)) s" using assms by simp
  from reading[OF this, of printed] obtain d s1 where get: "request ''GET'' path VNone (s, printed) = (Inr (VDict d), s1, printed)"
      "ready (Suc k) s1" "map_of d ''status'' = Some (VStr (status s))" "status s1 = status s" "noted s1 = noted s" by blast
  show ?thesis
  proof (cases "status s = ''resolved''")
    case True
    with get fewer[OF get(2)] show ?thesis by (simp add: demo_recovery_def after_def)
  next
    case False
    from moving[OF get(2), of "''resolved''" printed] obtain v s2 where
      "request ''PATCH'' path (VDict [(''status'', VStr ''resolved'')]) (s1, printed) = (Inr v, s2, printed)" "ready k s2"
      "status s2 = ''resolved''" "noted s2 = noted s1" by (auto simp: status_texts_def)
    with get False show ?thesis by (simp add: demo_recovery_def after_def)
  qed
qed

end

subsection \<open>What the service stores\<close>

definition status_of :: "world \<Rightarrow> str \<Rightarrow> str" where
  "status_of w i = (case find_row inc_id i (incidents (saved w)) of Some r \<Rightarrow> inc_status r | None \<Rightarrow> [])"

definition notes_of :: "world \<Rightarrow> str \<Rightarrow> nat" where
  "notes_of w i = length (filter (\<lambda>e. ev_incident_id e = i \<and> ev_kind e = ''manual'') (timeline_events (saved w)))"

text \<open>A world that differs in what the incidents of scenarios do not depend on.\<close>

lemma demo_world_change:
  assumes "demo_world A w" and "world_ok (ap_env A) w'" and "alerts (saved w') = alerts (saved w)"
    and "log_entries (saved w') = log_entries (saved w)"
    and "\<And>r. r \<in> set (incidents (saved w)) \<Longrightarrow> \<exists>r' \<in> set (incidents (saved w')). inc_id r' = inc_id r \<and>
      inc_title r' = inc_title r \<and> inc_service r' = inc_service r \<and> inc_description r' = inc_description r"
  shows "demo_world A w'" and "stored_as w' c = stored_as w c"
proof -
  have same: "stored_as w' c = stored_as w c" for c by (simp add: stored_as_def find_alert_def assms(3))
  have "known_case E (saved w) i \<Longrightarrow> known_case E (saved w') i" for E i
    using assms(4,5) unfolding known_case_def by fastforce
  then show "demo_world A w'" and "stored_as w' c = stored_as w c" using assms(1,2) by (auto simp: demo_world_def same)
qed

lemma stored_row:
  assumes "demo_world A w" and "c \<in> set demo_cases" and "stored_as w c = Some i"
  shows "\<exists>r. find_row inc_id i (incidents (saved w)) = Some r \<and> texts_stay (inc_title r) (inc_service r) (inc_description r) \<and>
    inc_severity r \<in> set severity_texts \<and> inc_status r \<in> set status_texts"
proof -
  have world: "world_ok (ap_env A) w" and "known_case (ap_env A) (saved w) i" using assms by (auto simp: demo_world_def)
  then obtain r where r: "r \<in> set (incidents (saved w))" "inc_id r = i" "texts_stay (inc_title r) (inc_service r) (inc_description r)"
    by (auto simp: known_case_def)
  moreover have "incident_ok r" using world r(1) by (simp add: world_ok_def db_inv_def rows_ok_def)
  moreover have "find_row inc_id i (incidents (saved w)) = Some r"
    using find_row_unique[of inc_id "incidents (saved w)" r] world r(1,2) by (simp add: world_ok_def db_inv_def primary_keys_def)
  ultimately show ?thesis by (auto simp: incident_ok_def)
qed

lemma read_row_status:
  assumes "texts_stay (inc_title r) (inc_service r) (inc_description r)" and "inc_severity r \<in> set severity_texts"
    and "inc_status r \<in> set status_texts"
  shows "\<exists>x. read_incident_row r = Inr x \<and> status_value (ir_status x) = inc_status r"
proof -
  obtain sev st where st: "inc_severity r = severity_value sev" "inc_status r = status_value st"
    using assms(2,3) unfolding allowed_texts set_map by blast
  then obtain x where x: "read_incident_row r = Inr x" using read_fixed_row[OF assms(1)] by blast
  then have "status_check (VStr (status_value st)) = Inr (ir_status x)" using st(2) by (auto simp: read_incident_row_def)
  then have "ir_status x = st" by (cases st) (simp_all add: status_check_def to_status_def)
  with x st(2) show ?thesis by simp
qed

lemma serve_read_stored:
  assumes "demo_world A w" and "c \<in> set demo_cases" and "stored_as w c = Some i"
  shows "\<exists>x. serve A (ReadIncident i) w = (Inr (AIncident x, []), w\<lparr>live := saved w\<rparr>) \<and> status_value (ir_status x) = status_of w i"
proof -
  obtain r where r: "find_row inc_id i (incidents (saved w)) = Some r" "texts_stay (inc_title r) (inc_service r) (inc_description r)"
      "inc_severity r \<in> set severity_texts" "inc_status r \<in> set status_texts" using stored_row[OF assms] by blast
  obtain x where x: "read_incident_row r = Inr x" "status_value (ir_status x) = inc_status r"
    using read_row_status[OF r(2-4)] by blast
  then show ?thesis
    using r(1) by (simp add: serve_def get_session_run answer_with_def andthen_def read_incident_def require_incident_run
        respond_def finish_def status_of_def)
qed

text \<open>A change of status, and nothing else.\<close>

definition status_update :: "Status \<Rightarrow> IncidentUpdate" where
  "status_update st = \<lparr>iu_title = None, iu_severity = None, iu_status = Some st, iu_description = None\<rparr>"

lemma status_update_check: "check_incident_update (VDict [(''status'', VStr (status_value st))]) = Inr (status_update st)"
proof -
  have "status_check (VStr (status_value st)) = Inr st" by (cases st) (simp_all add: status_check_def to_status_def)
  then have fields: "nullable [(''status'', VStr (status_value st))] ''status'' status_check = Inr (Some (Some st))"
    "nullable [(''status'', VStr (status_value st))] ''title'' f = Inr None"
    "nullable [(''status'', VStr (status_value st))] ''description'' f = Inr None"
    "nullable [(''status'', VStr (status_value st))] ''severity'' h = Inr None" for f :: "pyval \<Rightarrow> str check"
    and h :: "pyval \<Rightarrow> Severity check"
    by (simp_all add: nullable_def at_field_def map_check_def)
  then show ?thesis
    by (simp add: check_incident_update_def bind_res_def model_fields_def both_def map_check_def
        no_extra_def prohibit_explicit_nulls_def join_option_def status_update_def)
qed

lemma status_updated_row:
  "inc_title (updated_row (status_update st) now r) = inc_title r"
  "inc_service (updated_row (status_update st) now r) = inc_service r"
  "inc_description (updated_row (status_update st) now r) = inc_description r"
  "inc_severity (updated_row (status_update st) now r) = inc_severity r"
  "inc_status (updated_row (status_update st) now r) = status_value st"
  by (simp_all add: updated_row_def status_update_def drop_embedding_def set_lifecycle_def set_fields_def status_changes_def
      split: option.split)

lemma serve_move_stored:
  assumes "app_ok A" and "demo_world A w" and "c \<in> set demo_cases" and "stored_as w c = Some i"
  shows "\<exists>x w'. serve A (UpdateIncident i (VDict [(''status'', VStr (status_value st))])) w = (Inr (AIncident x, []), w') \<and>
    demo_world A w' \<and> (\<forall>b. stored_as w' b = stored_as w b) \<and> status_of w' i = status_value st \<and> notes_of w' i = notes_of w i"
proof -
  let ?v = "VDict [(''status'', VStr (status_value st))]" and ?u = "status_update st" and ?w = "w\<lparr>live := saved w\<rparr>"
  let ?now = "clock (ap_env A) (ticks w)"
  obtain r where r: "find_row inc_id i (incidents (saved w)) = Some r" "texts_stay (inc_title r) (inc_service r) (inc_description r)"
      "inc_severity r \<in> set severity_texts" "inc_status r \<in> set status_texts" using stored_row[OF assms(2-4)] by blast
  have "status_value st \<in> set status_texts" by (cases st) (simp_all add: status_texts_def)
  then obtain x where x: "read_incident_row (updated_row ?u ?now r) = Inr x"
    using read_row_status[of "updated_row ?u ?now r"] r(2,3) by (auto simp: status_updated_row)
  define ev where "ev = new_event (ap_env A) i (fst (update_event ?u r)) (snd (update_event ?u r)) (ids w) (Suc (ticks w))"
  define d where "d = (saved w)\<lparr>incidents := update_row inc_id i (updated_row ?u ?now) (incidents (saved w)),
     timeline_events := timeline_events (saved w) @ [ev]\<rparr>"
  have run: "serve A (UpdateIncident i ?v) w =
      (Inr (AIncident x, []), w\<lparr>live := d, saved := d, ticks := Suc (Suc (ticks w)), ids := Suc (ids w)\<rparr>)" (is "_ = (_, ?w')")
    using r(1) x by (simp add: serve_def get_session_run answer_with_def andthen_def
        update_incident_run[OF status_update_check, of i ?w r] Let_def d_def ev_def)
  have world: "world_ok (ap_env A) ?w'"
    using serve_world_ok[OF assms(1) _ run] assms(2) by (simp add: demo_world_def)
  have rows: "\<exists>r' \<in> set (incidents (saved ?w')). inc_id r' = inc_id r \<and> inc_title r' = inc_title r \<and>
      inc_service r' = inc_service r \<and> inc_description r' = inc_description r" if "r \<in> set (incidents (saved w))" for r
    using that by (intro bexI[of _ "if inc_id r = i then updated_row ?u ?now r else r"])
      (auto simp: d_def update_row_def updated_row_id status_updated_row)
  note change = demo_world_change[OF assms(2) world _ _ rows]
  have "status_of ?w' i = status_value st"
    using r(1) by (simp add: status_of_def d_def find_row_update updated_row_id status_updated_row)
  moreover have "ev_kind ev \<noteq> ''manual''"
    by (simp add: ev_def new_event_def update_event_def split: option.split)
  then have "notes_of ?w' i = notes_of w i" by (simp add: notes_of_def d_def)
  ultimately show ?thesis using run change by (fastforce simp: d_def)
qed

text \<open>A note.\<close>

lemma note_checked: "check_timeline_create triage_note = Inr ''On-call is comparing pool settings with v2.8.0.''"
proof -
  let ?m = "''On-call is comparing pool settings with v2.8.0.''"
  have "?m \<in> set demo_texts" by (simp add: demo_texts_def)
  then have "redacted_str 1 10000 (VStr ?m) = Inr ?m" by (intro fixed_redacted_str demo_texts_fixed) simp_all
  then show ?thesis
    by (simp only: check_timeline_create_def triage_note_def model_fields_def required_def)
      (simp add: at_field_def both_def map_check_def no_extra_def)
qed

lemma serve_note_stored:
  assumes "app_ok A" and "demo_world A w" and "c \<in> set demo_cases" and "stored_as w c = Some i"
  shows "\<exists>e w'. serve A (AddTimelineEvent i triage_note) w = (Inr (AEvent e, []), w') \<and>
    demo_world A w' \<and> (\<forall>b. stored_as w' b = stored_as w b) \<and> status_of w' i = status_of w i \<and> notes_of w' i = Suc (notes_of w i)"
proof -
  let ?m = "''On-call is comparing pool settings with v2.8.0.''" and ?w = "w\<lparr>live := saved w\<rparr>"
  have "?m \<in> set demo_texts" by (simp add: demo_texts_def)
  then have fixed: "fixed_text ?m" by (rule demo_texts_fixed)
  then have message: "redacted_str 1 10000 (VStr ?m) = Inr ?m" by (rule fixed_redacted_str) simp_all
  have "redact ?m = ?m" using fixed unfolding fixed_text_def ..
  define ev where "ev = new_event (ap_env A) i ''manual'' ?m (ids w) (ticks w)"
  define d where "d = (saved w)\<lparr>timeline_events := timeline_events (saved w) @ [ev]\<rparr>"
  have ev: "ev_message ev = ?m" "ev_kind ev = ''manual''" "ev_incident_id ev = i"
    unfolding ev_def new_event_def using \<open>redact ?m = ?m\<close> by (simp_all only: TimelineEvent.simps)
  obtain e where e: "read_event_row ev = Inr e"
    unfolding read_event_row_def ev(1) message by (simp add: read_field_def bind_res_def)
  obtain r where r: "find_row inc_id i (incidents (saved w)) = Some r" using stored_row[OF assms(2-4)] by blast
  then have has: "has_incident i (saved w)" by (simp add: has_incident_def)
  have "add_timeline_event A i triage_note ?w =
      (Inr (e, []), w\<lparr>live := d, saved := d, ticks := Suc (ticks w), ids := Suc (ids w)\<rparr>)"
    using r has e unfolding add_timeline_event_def andthen_def body_run note_checked
    by (simp add: require_incident_run add_event_run ev_def[symmetric] d_def respond_def finish_def andthen_def)
  then have run: "serve A (AddTimelineEvent i triage_note) w =
      (Inr (AEvent e, []), w\<lparr>live := d, saved := d, ticks := Suc (ticks w), ids := Suc (ids w)\<rparr>)" (is "_ = (_, ?w')")
    by (simp add: serve_def get_session_run answer_with_def andthen_def)
  have world: "world_ok (ap_env A) ?w'"
    using serve_world_ok[OF assms(1) _ run] assms(2) by (simp add: demo_world_def)
  have "demo_world A ?w'" "stored_as ?w' b = stored_as w b" for b
    by (rule demo_world_change[OF assms(2) world]; simp add: d_def; blast)+
  moreover have "status_of ?w' i = status_of w i" "notes_of ?w' i = Suc (notes_of w i)"
    by (simp_all add: status_of_def notes_of_def d_def ev)
  ultimately show ?thesis using run by blast
qed

subsection \<open>Through HTTP\<close>

definition event_json :: "TimelineEvent \<Rightarrow> pyval" where
  "event_json e = VDict
     [(''message'', VStr (ev_message e)), (''id'', VStr (ev_id e)), (''incident_id'', VStr (ev_incident_id e)),
      (''kind'', VStr (ev_kind e)), (''created_at'', VStr (json_time (ev_created_at e)))]"

definition renders_incidents :: "framework \<Rightarrow> bool" where
  "renders_incidents F = ((\<forall>x. fst (fw_render F (AIncident x)) = incident_json x) \<and>
     (\<forall>e. fst (fw_render F (AEvent e)) = event_json e))"

text \<open>The requests to an incident.\<close>

lemma incident_route:
  assumes "fw_match F = path_match" and "uuid_text u"
  shows "find_route F ''GET'' (''/api/v1/incidents/'' @ u) None route_table =
      Matched (api_route Ep_read_incident ''GET'' ''/incidents/{incident_id}'' 200) [u]"
    and "find_route F ''PATCH'' (''/api/v1/incidents/'' @ u) None route_table =
      Matched (api_route Ep_update_incident ''PATCH'' ''/incidents/{incident_id}'' 200) [u]"
    and "find_route F ''POST'' (''/api/v1/incidents/'' @ u @ ''/timeline'') None route_table =
      Matched (api_route Ep_add_timeline_event ''POST'' ''/incidents/{incident_id}/timeline'' 201) [u]"
proof -
  have u: "CHR ''/'' \<notin> set u" "u \<noteq> []" using assms(2) by (auto simp: uuid_text_def list_all_iff is_digit_def ord_def)
  then have "segments (''/api/v1/incidents/'' @ u) = [[], ''api'', ''v1'', ''incidents'', u]"
      "segments (''/api/v1/incidents/'' @ u @ ''/timeline'') = [[], ''api'', ''v1'', ''incidents'', u, ''timeline'']"
    using segments_end[OF u(1)] segments_plain[OF u, of "''timeline''"] by simp_all
  with u(2) show "find_route F ''GET'' (''/api/v1/incidents/'' @ u) None route_table =
      Matched (api_route Ep_read_incident ''GET'' ''/incidents/{incident_id}'' 200) [u]"
    and "find_route F ''PATCH'' (''/api/v1/incidents/'' @ u) None route_table =
      Matched (api_route Ep_update_incident ''PATCH'' ''/incidents/{incident_id}'' 200) [u]"
    and "find_route F ''POST'' (''/api/v1/incidents/'' @ u @ ''/timeline'') None route_table =
      Matched (api_route Ep_add_timeline_event ''POST'' ''/incidents/{incident_id}/timeline'' 201) [u]"
    by (simp_all add: route_table_def incident_routes_def history_routes_def api_route_def assms(1) path_match_def)
qed

text \<open>The bodies are read as they were sent.\<close>

lemma small_bodies: "x \<in> set status_texts \<Longrightarrow> small_body (VDict [(''status'', VStr x)])" "small_body triage_note"
proof -
  have "list_all (\<lambda>x. small_body (VDict [(''status'', VStr x)])) status_texts" by code_simp
  then show "x \<in> set status_texts \<Longrightarrow> small_body (VDict [(''status'', VStr x)])" by (simp only: list_all_iff)
  show "small_body triage_note" by code_simp
qed

lemma incident_accepted:
  assumes "demo_deployment D" and "i \<in> range (uuid (ap_env (dp_app D)))" and "path = ''/incidents/'' @ i"
  shows "accepted_as D (sent D ''GET'' path VNone)
      (api_route Ep_read_incident ''GET'' ''/incidents/{incident_id}'' 200) (ReadIncident i)"
    and "accepted_as D (sent D ''PATCH'' path (VDict [(''status'', VStr (status_value st))]))
      (api_route Ep_update_incident ''PATCH'' ''/incidents/{incident_id}'' 200) (UpdateIncident i (VDict [(''status'', VStr (status_value st))]))"
    and "accepted_as D (sent D ''POST'' (path @ ''/timeline'') triage_note)
      (api_route Ep_add_timeline_event ''POST'' ''/incidents/{incident_id}/timeline'' 201) (AddTimelineEvent i triage_note)"
proof -
  note framework = deployed_framework[OF assms(1,2)] and route = incident_route[OF deployed_framework(1,2)[OF assms(1,2)]]
  show "accepted_as D (sent D ''GET'' path VNone)
      (api_route Ep_read_incident ''GET'' ''/incidents/{incident_id}'' 200) (ReadIncident i)"
    using framework route(1) assms(3) no_body_read[OF assms(1), of Ep_read_incident]
    by (intro sent_accepted[OF assms(1), where parsed = None and ps = "[i]"])
      (simp_all add: api_route_def takes_body_def decoded_def with_incident_def path_uuid_def map_check_def)
  let ?v = "VDict [(''status'', VStr (status_value st))]"
  have st: "status_value st \<in> set status_texts" by (cases st) (simp_all add: status_texts_def)
  have "takes_body Ep_update_incident" by (simp add: takes_body_def)
  note read = small_body_read[OF assms(1) small_bodies(1)[OF st] _ this, of "''PATCH''" path]
  show "accepted_as D (sent D ''PATCH'' path ?v)
      (api_route Ep_update_incident ''PATCH'' ''/incidents/{incident_id}'' 200) (UpdateIncident i ?v)"
    using framework route(2) assms(3) read
    by (intro sent_accepted[OF assms(1), where parsed = "Some ?v" and ps = "[i]"])
      (simp_all add: api_route_def decoded_def with_incident_body_def body_check_of_def path_uuid_def status_update_check
        both_def map_check_def at_field_def)
  have "takes_body Ep_add_timeline_event" "json_ok fl triage_note" for fl by (simp_all add: takes_body_def triage_note_def)
  note read = small_body_read[OF assms(1) small_bodies(2) this(2,1), of "''POST''" "path @ ''/timeline''"]
  show "accepted_as D (sent D ''POST'' (path @ ''/timeline'') triage_note)
      (api_route Ep_add_timeline_event ''POST'' ''/incidents/{incident_id}/timeline'' 201) (AddTimelineEvent i triage_note)"
    using framework route(3) assms(3) read note_checked
    by (intro sent_accepted[OF assms(1), where parsed = "Some triage_note" and ps = "[i]"])
      (simp_all add: api_route_def decoded_def with_incident_body_def body_check_of_def path_uuid_def
        both_def map_check_def at_field_def)
qed

text \<open>The interface, for the incident a scenario is stored as.\<close>

definition desk_ready :: "deployment \<Rightarrow> demo_case \<Rightarrow> str \<Rightarrow> nat \<Rightarrow> server \<Rightarrow> bool" where
  "desk_ready D c i k sv = (demo_ready D k sv \<and> stored_as (sv_world sv) c = Some i)"

definition incident_status :: "str \<Rightarrow> server \<Rightarrow> str" where
  "incident_status i sv = status_of (sv_world sv) i"

definition incident_notes :: "str \<Rightarrow> server \<Rightarrow> nat" where
  "incident_notes i sv = notes_of (sv_world sv) i"

text \<open>A request that is served keeps the service ready.\<close>

lemma demo_call:
  assumes "accepted_as D (sent D m path json) s req" and "desk_ready D c i (Suc k) sv"
    and "serve (dp_app D) req (sv_world sv) = (Inr (x, ts), w)" and "demo_world (dp_app D) w" and "stored_as w c = Some i"
    and "fst (fw_render (dp_framework D) x) = v" and "json_ok (dp_floats D) v" and "200 \<le> rs_status s \<and> rs_status s \<le> 299"
  shows "\<exists>sv'. demo_caller D m path json (sv, printed) = (Inr v, sv', printed) \<and> sv_world sv' = w \<and> desk_ready D c i k sv'"
proof -
  have "room D (Suc k) sv" using assms(2) by (simp add: desk_ready_def demo_ready_def)
  from http_turn_serves[OF assms(1) this assms(3)] obtain sv' where
    "http_turn D (sent D m path json) sv = (Answered (rs_status s) (dumps dump_wire v), sv')" "sv_world sv' = w" "room D k sv'"
    using assms(6) by blast
  with demo_caller_run[OF this(1) assms(8,7)] assms(4,5) show ?thesis by (auto simp: desk_ready_def demo_ready_def)
qed

lemma incident_object: "map_of (as_dict (incident_json x)) ''status'' = Some (VStr (status_value (ir_status x)))"
    "incident_json x = VDict (as_dict (incident_json x))"
  by (simp_all add: incident_json_def as_dict_def)

lemma demo_desk:
  assumes "demo_deployment D" and "renders_incidents (dp_framework D)" and "c \<in> set demo_cases"
  shows "incident_desk (demo_caller D) (desk_ready D c i) (incident_status i) (incident_notes i) (incident_path (VStr i))"
proof unfold_locales
  let ?A = "dp_app D" and ?p = "incident_path (VStr i)"
  have p: "?p = ''/incidents/'' @ i" by (simp add: incident_path_def)
  note render = assms(2)[unfolded renders_incidents_def]
  fix k sv printed
  assume ready: "desk_ready D c i (Suc k) sv"
  then have world: "demo_world ?A (sv_world sv)" "stored_as (sv_world sv) c = Some i"
    by (simp_all add: desk_ready_def demo_ready_def)
  have app: "app_ok ?A" using assms(1) by (simp add: demo_deployment_def plain_app_def Let_def)
  note accepted = incident_accepted[OF assms(1) stored_uuid[OF world(1) assms(3) world(2)] p]
  show "desk_ready D c i k sv" using ready by (simp add: desk_ready_def demo_ready_def room_less)
  show "\<exists>d s'. demo_caller D ''GET'' ?p VNone (sv, printed) = (Inr (VDict d), s', printed) \<and> desk_ready D c i k s' \<and>
      map_of d ''status'' = Some (VStr (incident_status i sv)) \<and> incident_status i s' = incident_status i sv \<and>
      incident_notes i s' = incident_notes i sv"
  proof -
    obtain x where x: "serve ?A (ReadIncident i) (sv_world sv) = (Inr (AIncident x, []), (sv_world sv)\<lparr>live := saved (sv_world sv)\<rparr>)"
        "status_value (ir_status x) = status_of (sv_world sv) i"
      using serve_read_stored[OF world(1) assms(3) world(2)] by blast
    have "demo_world ?A ((sv_world sv)\<lparr>live := saved (sv_world sv)\<rparr>)"
      using world(1) by (simp add: demo_world_def stored_as_def world_ok_reset)
    from demo_call[OF accepted(1) ready x(1) this _ refl, of printed] world(2) show ?thesis
      using render x(2) json_ok_incident incident_object[of x]
      by (auto simp: stored_as_def api_route_def incident_status_def incident_notes_def status_of_def notes_of_def)
  qed
  show "\<exists>v s'. demo_caller D ''PATCH'' ?p (VDict [(''status'', VStr y)]) (sv, printed) = (Inr v, s', printed) \<and>
      desk_ready D c i k s' \<and> incident_status i s' = y \<and> incident_notes i s' = incident_notes i sv"
    if y: "y \<in> set status_texts" for y
  proof -
    obtain st where st: "y = status_value st" using y unfolding allowed_texts set_map by blast
    obtain x w where x: "serve ?A (UpdateIncident i (VDict [(''status'', VStr (status_value st))])) (sv_world sv) = (Inr (AIncident x, []), w)"
        "demo_world ?A w" "\<forall>b. stored_as w b = stored_as (sv_world sv) b" "status_of w i = status_value st"
        "notes_of w i = notes_of (sv_world sv) i"
      using serve_move_stored[OF app world(1) assms(3) world(2)] by blast
    have "stored_as w c = Some i" using x(3) world(2) by simp
    from demo_call[OF accepted(2) ready x(1,2) this refl, of printed] show ?thesis
      using render json_ok_incident x(4,5) st by (auto simp: api_route_def incident_status_def incident_notes_def)
  qed
  show "\<exists>v s'. demo_caller D ''POST'' (?p @ ''/timeline'') triage_note (sv, printed) = (Inr v, s', printed) \<and>
      desk_ready D c i k s' \<and> incident_status i s' = incident_status i sv \<and> incident_notes i s' = Suc (incident_notes i sv)"
  proof -
    obtain e w where e: "serve ?A (AddTimelineEvent i triage_note) (sv_world sv) = (Inr (AEvent e, []), w)"
        "demo_world ?A w" "\<forall>b. stored_as w b = stored_as (sv_world sv) b" "status_of w i = status_of (sv_world sv) i"
        "notes_of w i = Suc (notes_of (sv_world sv) i)"
      using serve_note_stored[OF app world(1) assms(3) world(2)] by blast
    have "stored_as w c = Some i" using e(3) world(2) by simp
    moreover have "json_ok (dp_floats D) (event_json e)" by (simp add: event_json_def)
    ultimately show ?thesis
      using demo_call[OF accepted(3) ready e(1,2) _ refl, of printed] render e(4,5)
      by (auto simp: api_route_def incident_status_def incident_notes_def)
  qed
qed

end
