(* ===== verification/Demo_Verified.thy ===== *)
theory Demo_Verified
  imports Demo_Triage Reporting
begin

text \<open>
  The phases of \<open>src/scripts/demo.py\<close> that are proved, run through HTTP against the application: ingestion, on the
  first run and on every later one, and the last assertions on the dashboard, which hold only while the incidents
  of the first run are in its window.
\<close>

subsection \<open>The interface, provided\<close>

lemma stored_incident_case: "stored_incident sv (ds_external_id c) = stored_as (sv_world sv) c"
  by (simp add: stored_incident_def stored_as_def)

lemma scenario_case: "p \<in> set scenarios \<Longrightarrow> \<exists>c \<in> set demo_cases. p = payload_of c \<and> external_id p = ds_external_id c"
  by (auto simp: scenarios_payloads external_id_def payload_of_def scenario_def)

lemma delivers:
  assumes "demo_deployment D" and "demo_ready D (Suc k) sv" and "p \<in> set scenarios"
  shows "\<exists>d e i sv'. demo_caller D ''POST'' ''/webhooks/generic'' p (sv, printed) = (Inr (VDict d), sv', printed) \<and>
    demo_ready D k sv' \<and> map_of d ''incident'' = Some (VDict e) \<and> map_of e ''id'' = Some (VStr i) \<and>
    map_of d ''duplicate'' = Some (VBool (stored_incident sv (external_id p) \<noteq> None)) \<and>
    stored_incident sv (external_id p) \<in> {None, Some i} \<and>
    (\<forall>q \<in> set scenarios. stored_incident sv' (external_id q) = (if q = p then Some i else stored_incident sv (external_id q)))"
proof -
  let ?A = "dp_app D" and ?w = "sv_world sv"
  note dep = assms(1)[unfolded demo_deployment_def Let_def]
  obtain c where c: "c \<in> set demo_cases" "p = payload_of c" "external_id p = ds_external_id c"
    using scenario_case[OF assms(3)] by blast
  have "plain_app ?A" "uuids_written (ap_env ?A)" "demo_world ?A ?w" using dep assms(2) by (simp_all add: demo_ready_def)
  from serve_case[OF this c(1)] obtain it ts w' where
    run: "serve ?A (Ingest ''generic'' p) ?w = (Inr (AIngestion (ingestion_response [it]), ts), w')"
      and it: "ii_duplicate it = (stored_as ?w c \<noteq> None)" "stored_as ?w c \<in> {None, Some (ir_id (ii_incident it))}"
      and w': "demo_world ?A w'" "only_adds c (ir_id (ii_incident it)) ?w w'" unfolding c(2) by blast
  let ?v = "ingestion_json (ingestion_response [it])"
  have "room D (Suc k) sv" using assms(2) by (simp add: demo_ready_def)
  from http_turn_serves[OF delivery_accepted[OF assms(1,3)] this run] dep obtain sv' where
    sv': "http_turn D (sent D ''POST'' ''/webhooks/generic'' p) sv = (Answered 200 (dumps dump_wire ?v), sv')"
      "sv_world sv' = w'" "room D k sv'"
    by (auto simp: api_route_def framework_ok_def)
  have "demo_caller D ''POST'' ''/webhooks/generic'' p (sv, printed) = (Inr ?v, sv', printed)"
    by (rule demo_caller_run[OF sv'(1) _ json_ok_ingestion]) simp
  moreover obtain e where e: "incident_json (ii_incident it) = VDict e" "map_of e ''id'' = Some (VStr (ir_id (ii_incident it)))"
    by (simp add: incident_json_def)
  moreover have "stored_incident sv' (external_id q) =
      (if q = p then Some (ir_id (ii_incident it)) else stored_incident sv (external_id q))" if "q \<in> set scenarios" for q
  proof -
    obtain b where b: "b \<in> set demo_cases" "q = payload_of b" "external_id q = ds_external_id b"
      using scenario_case \<open>q \<in> set scenarios\<close> by blast
    have "q = p \<longleftrightarrow> b = c" using b c demo_externals by metis
    then show ?thesis using w'(2) b(1,3) by (simp add: stored_incident_case only_adds_def sv'(2))
  qed
  ultimately show ?thesis
    using sv'(2,3) w'(1) it
    by (simp add: ingestion_json_def ingestion_response_def demo_ready_def c(3) stored_incident_case)
qed

lemma reads_logs:
  assumes "demo_deployment D" and "demo_ready D (Suc k) sv" and "p \<in> set scenarios"
    and "stored_incident sv (external_id p) = Some i"
  shows "\<exists>v sv'. demo_caller D ''GET'' (incident_path (VStr i) @ ''/logs'') VNone (sv, printed) = (Inr v, sv', printed) \<and>
    demo_ready D k sv' \<and> (\<forall>q \<in> set scenarios. stored_incident sv' (external_id q) = stored_incident sv (external_id q)) \<and>
    \<not> contains ''demo-secret-value'' (dumps dump_default v) \<and> \<not> contains ''customer@example.com'' (dumps dump_default v)"
proof -
  let ?A = "dp_app D" and ?w = "sv_world sv"
  note dep = assms(1)[unfolded demo_deployment_def Let_def]
  define path where "path = incident_path (VStr i) @ ''/logs''"
  obtain c where c: "c \<in> set demo_cases" "stored_as ?w c = Some i"
    using scenario_case[OF assms(3)] assms(4) by (auto simp: stored_incident_case)
  have world: "uuids_written (ap_env ?A)" "demo_world ?A ?w" using dep assms(2) by (simp_all add: demo_ready_def)
  from serve_case_logs[OF this c, of 100 0] obtain ls where
    run: "serve ?A (ListLogs i 100 0) ?w = (Inr (ALogs ls, []), ?w\<lparr>live := saved ?w\<rparr>)" "list_all (demo_row (ap_env ?A)) ls"
    by blast
  have "path = ''/incidents/'' @ i @ ''/logs''" by (simp add: path_def incident_path_def)
  note accepted = logs_accepted[OF assms(1) stored_uuid[OF world(2) c] this]
  have "room D (Suc k) sv" using assms(2) by (simp add: demo_ready_def)
  from http_turn_serves[OF accepted this run(1)] dep obtain sv' where
    sv': "http_turn D (sent D ''GET'' path VNone) sv = (Answered 200 (dumps dump_wire (VList (map log_json ls))), sv')"
      "sv_world sv' = ?w\<lparr>live := saved ?w\<rparr>" "room D k sv'"
    by (auto simp: api_route_def framework_ok_def)
  have "demo_caller D ''GET'' path VNone (sv, printed) = (Inr (VList (map log_json ls)), sv', printed)"
    by (rule demo_caller_run[OF sv'(1) _ json_ok_logs]) simp
  moreover have "demo_world ?A (sv_world sv')"
    using world(2) by (simp add: sv'(2) demo_world_def stored_as_def world_ok_reset)
  moreover have "stored_incident sv' x = stored_incident sv x" for x by (simp add: stored_incident_def sv'(2))
  moreover have "\<not> contains w (dumps dump_default (VList (map log_json ls)))" if "w \<in> set leak_words" for w
    by (rule logs_free[OF that world(1) run(2)])
  ultimately show ?thesis using sv'(3) unfolding path_def[symmetric] by (auto simp: demo_ready_def leak_words_def)
qed

lemma demo_inbox:
  assumes "demo_deployment D"
  shows "alert_inbox (demo_caller D) (demo_ready D) stored_incident"
  by unfold_locales (fact delivers[OF assms], fact reads_logs[OF assms])

subsection \<open>The dashboard\<close>

text \<open>Of the dashboard, the script looks at two counts.\<close>

definition renders_dashboard :: "(str \<Rightarrow> str) \<Rightarrow> framework \<Rightarrow> bool" where
  "renders_dashboard fl F = (\<forall>x. \<exists>d. fst (fw_render F (ADashboard x)) = VDict d \<and> json_ok fl (VDict d) \<and>
     map_of d ''total_incidents'' = Some (VInt (int (da_total x))) \<and>
     map_of d ''resolved_incidents'' = Some (VInt (int (da_resolved x))))"

lemma dashboard_route:
  assumes "fw_match F = path_match"
  shows "find_route F ''GET'' ''/api/v1/dashboard'' None route_table =
    Matched (api_route Ep_read_dashboard ''GET'' ''/dashboard'' 200) []"
proof -
  have "find_route sample_framework ''GET'' ''/api/v1/dashboard'' None route_table =
    Matched (api_route Ep_read_dashboard ''GET'' ''/dashboard'' 200) []" by code_simp
  then show ?thesis using find_route_cong[of F sample_framework] assms by (simp add: sample_framework_def)
qed

lemma dashboard_accepted:
  assumes "demo_deployment D" and "path = ''/dashboard''"
  shows "accepted_as D (sent D ''GET'' path VNone) (api_route Ep_read_dashboard ''GET'' ''/dashboard'' 200) (ReadDashboard 30)"
proof -
  have "fw_match (dp_framework D) = path_match"
    using assms(1) by (simp add: demo_deployment_def framework_ok_def Let_def)
  then show ?thesis
    using dashboard_route no_body_read[OF assms(1), of Ep_read_dashboard]
    by (intro sent_accepted[OF assms(1), where parsed = None and ps = "[]"])
      (simp_all add: assms(2) api_route_def takes_body_def decoded_def query_int_def map_check_def)
qed

text \<open>What the service counts for the script: the incidents of the last thirty days.\<close>

definition counted_incidents :: "deployment \<Rightarrow> server \<Rightarrow> Incident list" where
  "counted_incidents D sv =
     (let E = ap_env (dp_app D); w = sv_world sv in in_window (clock E (ticks w)) 30 (incidents (saved w)))"

lemma reads_dashboard:
  assumes "demo_deployment D" and "renders_dashboard (dp_floats D) (dp_framework D)" and "room D (Suc k) sv"
  shows "\<exists>d sv'. demo_caller D ''GET'' ''/dashboard'' VNone (sv, printed) = (Inr (VDict d), sv', printed) \<and>
    map_of d ''total_incidents'' = Some (VInt (int (length (counted_incidents D sv)))) \<and>
    map_of d ''resolved_incidents'' = Some (VInt (int (length (filter is_resolved (counted_incidents D sv)))))"
proof -
  let ?A = "dp_app D" and ?w = "sv_world sv"
  define path where "path = ''/dashboard''"
  define x where "x = dashboard_of (clock (ap_env ?A) (ticks ?w)) 30 (sla_target_minutes (ap_settings ?A)) (incidents (saved ?w))"
  obtain w' where run: "serve ?A (ReadDashboard 30) ?w = (Inr (ADashboard x, []), w')"
    by (simp add: serve_def get_session_run answer_with_def andthen_def read_dashboard_def dashboard_def finish_def
        utcnow_def x_def)
  obtain d where d: "fst (fw_render (dp_framework D) (ADashboard x)) = VDict d" "json_ok (dp_floats D) (VDict d)"
      "map_of d ''total_incidents'' = Some (VInt (int (da_total x)))"
      "map_of d ''resolved_incidents'' = Some (VInt (int (da_resolved x)))"
    using assms(2) unfolding renders_dashboard_def by blast
  obtain sv' where sv': "http_turn D (sent D ''GET'' path VNone) sv = (Answered 200 (dumps dump_wire (VDict d)), sv')"
    using http_turn_serves[OF dashboard_accepted[OF assms(1) path_def] assms(3) run] by (auto simp: api_route_def d(1))
  have "demo_caller D ''GET'' path VNone (sv, printed) = (Inr (VDict d), sv', printed)"
    by (rule demo_caller_run[OF sv' _ d(2)]) simp
  then show ?thesis
    using d(3,4) by (auto simp: path_def x_def dashboard_of_def counted_incidents_def Let_def)
qed

subsection \<open>A deployment\<close>

definition wire_framework :: framework where
  "wire_framework = \<lparr>fw_match = path_match, fw_uuid = Some, fw_int = parse_int,
     fw_body = (\<lambda>h bytes. case json_loads id (map chr bytes) of Some v \<Rightarrow> Inr (Some v) | None \<Rightarrow> Inl [[]]),
     fw_render = (\<lambda>x. (case x of
         AIngestion r \<Rightarrow> ingestion_json r
       | ALogs ls \<Rightarrow> VList (map log_json ls)
       | AIncident x \<Rightarrow> incident_json x
       | AEvent e \<Rightarrow> event_json e
       | ADashboard d \<Rightarrow> VDict [(''total_incidents'', VInt (int (da_total d))), (''resolved_incidents'', VInt (int (da_resolved d)))]
       | _ \<Rightarrow> VNone, [])),
     fw_metrics = (\<lambda>m. []), fw_own = (\<lambda>m p. None),
     fw_preflight = (\<lambda>c h. plain_response 200 (VStr ''OK'')), fw_cors = (\<lambda>c h. [])\<rparr>"

definition local_deployment :: deployment where
  "local_deployment = \<lparr>dp_framework = wire_framework, dp_runtime = sample_runtime, dp_app = sample_app,
     dp_url = ''http://127.0.0.1:8000'', dp_key = ''incident-ai-demo-key'', dp_floats = id, dp_host = ''127.0.0.1'',
     dp_headers = [(''User-agent'', ''Python-urllib/3.12'')], dp_fresh = (\<lambda>n. ''id-1''), dp_counter = None, dp_clock = (\<lambda>n. (of_nat n, of_nat n + 1))\<rparr>"

definition new_server :: server where
  "new_server = \<lparr>sv_world = new_world, sv_mw = sample_state, sv_tasks = [], sv_turn = 0\<rparr>"

lemma utf8_ascii: "list_all (\<lambda>c. ord c < 128) s \<Longrightarrow> map chr (utf8 s) = s"
  by (induction s) (auto simp: utf8_def Let_def)

lemma wire_framework_ok: "framework_ok id E wire_framework" "renders_dashboard id wire_framework" "renders_incidents wire_framework"
  by (auto simp: framework_ok_def wire_framework_def utf8_ascii renders_dashboard_def renders_incidents_def)

lemma uuid_text_number: "uuid_text (nat_text n)"
  using nat_text_digits by (auto simp: uuid_text_def list_all_iff)

lemma local_deployment_ok:
  "demo_deployment local_deployment" "renders_dashboard (dp_floats local_deployment) (dp_framework local_deployment)"
  "renders_incidents (dp_framework local_deployment)"
proof -
  have "plain_app sample_app"
    using sample_app_ok by (simp add: plain_app_def ingestion_rival_def) (simp add: sample_app_def sqlite_def default_settings_def)
  moreover have "uuids_written (ap_env sample_app)"
    by (simp add: uuids_written_def sample_app_def sample_env_def uuid_text_number)
  ultimately show "demo_deployment local_deployment"
    by (simp add: demo_deployment_def local_deployment_def wire_framework_ok default_settings_def Let_def)
  show "renders_dashboard (dp_floats local_deployment) (dp_framework local_deployment)"
    "renders_incidents (dp_framework local_deployment)"
    by (simp_all add: local_deployment_def wire_framework_ok)
qed

lemma new_server_room: "n \<le> 120 \<Longrightarrow> room local_deployment n new_server"
  by (simp add: room_def new_server_def sample_state_def new_limiter_def window_of_def local_deployment_def default_settings_def)

lemma new_server_world: "demo_world (dp_app local_deployment) (sv_world new_server)" "stored_incident new_server x = None"
proof -
  show "demo_world (dp_app local_deployment) (sv_world new_server)"
    by (rule demo_world_new(1)) (simp_all add: new_server_def new_world_ok, simp add: alerts_of_def new_world_def empty_db_def)
  show "stored_incident new_server x = None"
    by (simp add: stored_incident_def new_server_def find_alert_None alerts_of_def new_world_def empty_db_def)
qed

interpretation local_inbox: alert_inbox "demo_caller local_deployment" "demo_ready local_deployment" stored_incident
  by (rule demo_inbox) (rule local_deployment_ok)

interpretation local_desk: incident_desk "demo_caller local_deployment" "desk_ready local_deployment checkout_case i"
    "incident_status i" "incident_notes i" "incident_path (VStr i)" for i
  by (rule demo_desk) (simp_all add: local_deployment_ok demo_cases_def)

subsection \<open>Properties\<close>



text \<open>C6. The triage of the demonstration script, run for a stored incident of a scenario: one that is open or
  acknowledged ends under investigation, one that is further stays where it is, and the note is added to its
  timeline; and the recovery step ends with the incident resolved, whatever its status was. Neither fails, under these
  conditions: the deployment is in demonstration mode, with SQLite or PostgreSQL, has the API key that the script is given and
  accepts bodies of 1024 bytes; its rate limiter, in memory or shared, has room for five requests; the incidents of the
  scenarios are as the service stores them; and the phase is alone with the service while it runs.\<close>

theorem demo_triage_verified:
  assumes "demo_deployment D" and "renders_incidents (dp_framework D)" and "demo_world (dp_app D) (sv_world sv)"
    and "room D 5 sv" and "p \<in> set scenarios" and "stored_incident sv (external_id p) = Some i"
  shows "(\<exists>sv'. demo_triage (demo_caller D) (incident_path (VStr i)) (sv, printed) = (Inr (), sv', printed) \<and>
      incident_status i sv' = (if incident_status i sv \<in> {''open'', ''acknowledged''} then ''investigating'' else incident_status i sv) \<and>
      incident_notes i sv' = Suc (incident_notes i sv) \<and> demo_world (dp_app D) (sv_world sv')) \<and>
    (\<exists>sv'. demo_recovery (demo_caller D) (incident_path (VStr i)) (sv, printed) = (Inr (), sv', printed) \<and>
      incident_status i sv' = ''resolved'' \<and> demo_world (dp_app D) (sv_world sv'))"
proof -
  obtain c where c: "c \<in> set demo_cases" "stored_as (sv_world sv) c = Some i"
    using scenario_case[OF assms(5)] assms(6) by (auto simp: stored_incident_case)
  note desk = demo_desk[OF assms(1,2) c(1), of i]
  have ready: "desk_ready D c i (5 + 0) sv" using assms(3,4) c(2) by (simp add: desk_ready_def demo_ready_def)
  then have "desk_ready D c i (2 + 3) sv" by simp
  from incident_desk.triage_run[OF desk ready, of printed] incident_desk.recovery_run[OF desk this, of printed]
  show ?thesis unfolding desk_ready_def demo_ready_def by blast
qed

text \<open>After the deliveries to a new database, the incident of the first scenario.\<close>

theorem demo_triage_verified_witness:
  "\<exists>i sv sv'. stored_incident sv ''demo-checkout-pool-v1'' = Some i \<and>
     demo_triage (demo_caller local_deployment) (incident_path (VStr i)) (sv, []) = (Inr (), sv', []) \<and>
     incident_status i sv' \<notin> {''open'', ''acknowledged''}"
proof -
  have "demo_ready local_deployment (5 + 5) new_server"
    unfolding demo_ready_def using new_server_room[of "5 + 5"] new_server_world(1) by simp
  from local_inbox.ingestion_run[OF this, of "[]"] obtain ids sv where ready: "demo_ready local_deployment 5 sv"
      and ids: "map (\<lambda>p. stored_incident sv (external_id p)) scenarios = map Some ids" by blast
  have p: "checkout_scenario \<in> set scenarios" "external_id checkout_scenario = ''demo-checkout-pool-v1''"
    by (simp_all add: scenarios_def external_id_def checkout_scenario_def scenario_def)
  obtain i where i: "stored_incident sv (external_id checkout_scenario) = Some i"
    using ids by (cases ids) (simp_all add: scenarios_def)
  have "demo_world (dp_app local_deployment) (sv_world sv)" "room local_deployment 5 sv"
    using ready by (simp_all add: demo_ready_def)
  from demo_triage_verified[OF local_deployment_ok(1,3) this p(1) i, of "[]"] obtain sv' where
    "demo_triage (demo_caller local_deployment) (incident_path (VStr i)) (sv, []) = (Inr (), sv', [])"
    "incident_status i sv' = (if incident_status i sv \<in> {''open'', ''acknowledged''} then ''investigating'' else incident_status i sv)"
    by blast
  with i p(2) show ?thesis by (intro exI[of _ i] exI[of _ sv] exI[of _ sv']) auto
qed

text \<open>C34. What the last assertions of the demonstration script depend on: in a demonstration deployment that has
  the API key of the script and room in its rate limiter for one request, the dashboard phase ends normally when at
  least three incidents were created in the last thirty days, one of them resolved by now, and fails with an assertion
  error when not; so it fails when every stored incident was created before that window.\<close>

theorem demo_dashboard_decided:
  assumes "demo_deployment D" and "renders_dashboard (dp_floats D) (dp_framework D)" and "room D 1 sv"
  shows "\<exists>r sv'. demo_dashboard (demo_caller D) i (sv, printed) = (r, sv', printed) \<and>
    (if 3 \<le> length (counted_incidents D sv) \<and> 1 \<le> length (filter is_resolved (counted_incidents D sv))
     then \<exists>d. r = Inr (VDict [(''incident_id'', i), (''dashboard'', d)]) else r = Inl AssertionError) \<and>
    ((\<forall>x \<in> set (incidents (saved (sv_world sv))).
        inc_created_at x < window_start (clock (ap_env (dp_app D)) (ticks (sv_world sv))) 30) \<longrightarrow> r = Inl AssertionError)"
proof -
  have "room D (Suc 0) sv" using assms(3) by simp
  from reads_dashboard[OF assms(1,2) this, of printed] obtain d sv' where
    run: "demo_caller D ''GET'' ''/dashboard'' VNone (sv, printed) = (Inr (VDict d), sv', printed)"
      and d: "map_of d ''total_incidents'' = Some (VInt (int (length (counted_incidents D sv))))"
        "map_of d ''resolved_incidents'' = Some (VInt (int (length (filter is_resolved (counted_incidents D sv)))))"
    by blast
  have "demo_dashboard (demo_caller D) i (sv, printed) =
     (if 3 \<le> length (counted_incidents D sv) \<and> 1 \<le> length (filter is_resolved (counted_incidents D sv))
      then Inr (VDict [(''incident_id'', i), (''dashboard'', VDict d)]) else Inl AssertionError, sv', printed)"
    by (simp add: demo_dashboard_def after_def run d at_least_def assert_that_def)
  moreover have "counted_incidents D sv = []"
    if "\<forall>x \<in> set (incidents (saved (sv_world sv))).
        inc_created_at x < window_start (clock (ap_env (dp_app D)) (ticks (sv_world sv))) 30"
    using that by (auto simp: counted_incidents_def in_window_def filter_empty_conv Let_def)
  ultimately show ?thesis by auto
qed

text \<open>A month after its only incident was created, at the start of the epoch.\<close>

definition month_ticks :: nat where
  "month_ticks = nat (30 * us_per_day)"

lemma month_start: "0 < window_start (int month_ticks) 30"
  by (simp add: month_ticks_def window_start_def midnight_def us_per_day_def)

definition later_server :: server where
  "later_server = new_server\<lparr>sv_world := sample_world\<lparr>ticks := month_ticks\<rparr>\<rparr>"

theorem demo_dashboard_decided_witness:
  "\<exists>sv. demo_dashboard (demo_caller local_deployment) (VStr ''1'') (later_server, []) = (Inl AssertionError, sv, [])"
proof -
  have "room local_deployment 1 later_server" using new_server_room[of 1] by (simp add: later_server_def room_world)
  from demo_dashboard_decided[OF local_deployment_ok(1,2) this, of "VStr ''1''" "[]"] obtain r sv where
    run: "demo_dashboard (demo_caller local_deployment) (VStr ''1'') (later_server, []) = (r, sv, [])"
      and old: "(\<forall>x \<in> set (incidents (saved (sv_world later_server))). inc_created_at x <
        window_start (clock (ap_env (dp_app local_deployment)) (ticks (sv_world later_server))) 30) \<longrightarrow> r = Inl AssertionError"
    by blast
  have rows: "incidents (saved (sv_world later_server)) = [sample_incident]"
    by (simp add: later_server_def sample_world_def empty_db_def)
  have "clock (ap_env (dp_app local_deployment)) (ticks (sv_world later_server)) = int month_ticks"
    by (simp add: later_server_def local_deployment_def sample_app_def sample_env_def)
  then have "r = Inl AssertionError" using old rows month_start by (simp add: sample_incident_def)
  with run show ?thesis by blast
qed

end
