(* ===== verification/Smoke_Client.thy ===== *)
theory Smoke_Client
  imports Demo_Client "HOL-Library.AList"
begin

text \<open>
  \<open>src/scripts/smoke_runtime.py\<close>: the client that checks a running deployment and deletes the incidents it made,
  whatever happens. The printed lines are the list \<open>checked\<close>; the identifiers of \<open>created\<close> are kept beside the state of
  the server. The payloads of the files, the random suffixes, how httpx encodes a body, and how often the clock lets
  the program ask for the job are parameters.
\<close>

subsection \<open>Requests\<close>

type_synonym ('s, 'a) smoke = "('s \<times> pyval list, 'a) prog"

text \<open>A request with the headers of the client, unless it has its own; \<open>raise_for_status\<close>; and \<open>json\<close>.\<close>

record client =
  cl_url :: str
  cl_key :: str
  cl_encode :: "pyval \<Rightarrow> str"
  cl_floats :: "str \<Rightarrow> str"

type_synonym response_text = "int \<times> str"

definition send_request ::
  "client \<Rightarrow> 's transport \<Rightarrow> str \<Rightarrow> str \<Rightarrow> str \<Rightarrow> pyval \<Rightarrow> ('s, response_text) smoke" where
  "send_request C send meth path key json = (\<lambda>((s, created), checked).
     let (got, s') = send \<lparr>cr_method = meth, cr_url = cl_url C @ path,
           cr_headers = (''X-API-Key'', key) # (if json = VNone then [] else [(''Content-Type'', ''application/json'')]),
           cr_data = (if json = VNone then None else Some (cl_encode C json))\<rparr> s
     in (case got of Answered status content \<Rightarrow> Inr (status, content) | Unreachable reason \<Rightarrow> Inl (ConnectError reason),
         (s', created), checked))"

definition raise_for_status :: "response_text \<Rightarrow> ('s, unit) smoke" where
  "raise_for_status r = (if 200 \<le> fst r \<and> fst r \<le> 299 then give () else stop_with (HTTPStatusError (fst r)))"

definition response_json :: "client \<Rightarrow> response_text \<Rightarrow> ('s, pyval) smoke" where
  "response_json C r = (case json_loads (cl_floats C) (snd r) of Some v \<Rightarrow> give v | None \<Rightarrow> stop_with BadAnswer)"

text \<open>A request with the client's key that has to succeed.\<close>

definition request_ok :: "client \<Rightarrow> 's transport \<Rightarrow> str \<Rightarrow> str \<Rightarrow> pyval \<Rightarrow> ('s, response_text) smoke" where
  "request_ok C send meth path json =
     after (send_request C send meth path (cl_key C) json) (\<lambda>r. after (raise_for_status r) (\<lambda>_. give r))"

definition request_value :: "client \<Rightarrow> 's transport \<Rightarrow> str \<Rightarrow> str \<Rightarrow> pyval \<Rightarrow> ('s, pyval) smoke" where
  "request_value C send meth path json = after (request_ok C send meth path json) (response_json C)"

definition note_created :: "pyval \<Rightarrow> ('s, unit) smoke" where
  "note_created i = (\<lambda>((s, created), checked). (Inr (), (s, created @ [i]), checked))"

text \<open>\<open>try\<close> with \<open>finally\<close>: the last exception wins.\<close>

definition try_finally :: "('s, 'a) prog \<Rightarrow> ('s, 'b) prog \<Rightarrow> ('s, 'a) prog" where
  "try_finally m f = (\<lambda>s. case m s of (r, s') \<Rightarrow>
     (case f s' of (Inl e, s'') \<Rightarrow> (Inl e, s'') | (Inr _, s'') \<Rightarrow> (r, s'')))"

subsection \<open>The payloads\<close>

definition put :: "str \<Rightarrow> pyval \<Rightarrow> pyval \<Rightarrow> pyval option" where
  "put k x v = (case v of VDict d \<Rightarrow> Some (VDict (AList.update k x d)) | _ \<Rightarrow> None)"

definition fetch :: "str \<Rightarrow> pyval \<Rightarrow> pyval option" where
  "fetch k v = (case v of VDict d \<Rightarrow> map_of d k | _ \<Rightarrow> None)"

text \<open>The suffix that makes the alert a new one; \<open>None\<close> where the payload does not have the place.\<close>

definition with_suffix :: "str \<Rightarrow> str \<Rightarrow> pyval \<Rightarrow> pyval option" where
  "with_suffix source salt v =
     (if source = ''grafana'' then
        Option.bind (fetch ''alerts'' v) (\<lambda>as. case as of
            VList (a # bs) \<Rightarrow> Option.bind (put ''fingerprint'' (VStr salt) a) (\<lambda>b. put ''alerts'' (VList (b # bs)) v)
          | _ \<Rightarrow> None)
      else if source = ''sentry'' then
        Option.bind (fetch ''data'' v) (\<lambda>data. Option.bind (fetch ''event'' data) (\<lambda>event.
          Option.bind (put ''event_id'' (VStr salt) event) (\<lambda>event'. Option.bind (put ''event'' event' data) (\<lambda>data'.
            put ''data'' data' v))))
      else if source = ''cloudwatch'' then
        Option.bind (fetch ''AlarmArn'' v) (\<lambda>arn. case arn of
            VStr s \<Rightarrow> put ''AlarmArn'' (VStr (s @ salt)) v | _ \<Rightarrow> None)
      else put ''event_id'' (VStr salt) v)"

subsection \<open>The program\<close>

definition smoke_operations :: "client \<Rightarrow> 's transport \<Rightarrow> ('s, unit) smoke" where
  "smoke_operations C send =
     after (for_each (\<lambda>path. after (request_ok C send ''GET'' path VNone) (\<lambda>_. say path))
       [''/health'', ''/ready'', ''/openapi.json'', ''/metrics'']) (\<lambda>_. give ())"

definition smoke_authentication :: "client \<Rightarrow> 's transport \<Rightarrow> ('s, unit) smoke" where
  "smoke_authentication C send =
     after (send_request C send ''GET'' ''/api/v1/incidents'' ''bad'' VNone) (\<lambda>r.
     after (assert_that (fst r = 401)) (\<lambda>_.
     after (response_json C r) (\<lambda>v.
     after (item v ''error'') (\<lambda>err.
     after (item err ''code'') (\<lambda>code.
     after (assert_that (code = VStr ''unauthorized'')) (\<lambda>_. say ''authentication''))))))"

definition smoke_ingestion :: "client \<Rightarrow> 's transport \<Rightarrow> (str \<Rightarrow> pyval) \<Rightarrow> (str \<Rightarrow> str) \<Rightarrow> str \<Rightarrow> ('s, unit) smoke" where
  "smoke_ingestion C send example salt source =
     (case with_suffix source (salt source) (example source) of
        None \<Rightarrow> stop_with BadAnswer
      | Some payload \<Rightarrow>
          let path = ''/api/v1/webhooks/'' @ source in
          after (request_value C send ''POST'' path payload) (\<lambda>v.
          after (item v ''incident'') (\<lambda>incident.
          after (item incident ''id'') (\<lambda>i.
          after (note_created i) (\<lambda>_.
          after (request_value C send ''POST'' path payload) (\<lambda>w.
          after (item w ''duplicate'') (\<lambda>duplicate.
          after (assert_that (truthy duplicate)) (\<lambda>_. say (source @ '' ingest + deduplication'')))))))))"

text \<open>Asking for the job as often as the deadline allows, until it has ended; without a single answer \<open>job\<close> is not
  bound.\<close>

fun await_job :: "client \<Rightarrow> 's transport \<Rightarrow> str \<Rightarrow> nat \<Rightarrow> pyval option \<Rightarrow> ('s, pyval) smoke" where
  "await_job C send path 0 job = (case job of None \<Rightarrow> stop_with BadAnswer | Some j \<Rightarrow> give j)"
| "await_job C send path (Suc n) job =
     after (request_value C send ''GET'' path VNone) (\<lambda>j.
     after (item j ''status'') (\<lambda>status.
       if status \<in> {VStr ''succeeded'', VStr ''failed''} then give j else await_job C send path n (Some j)))"

definition smoke_job :: "client \<Rightarrow> 's transport \<Rightarrow> nat \<Rightarrow> pyval \<Rightarrow> ('s, unit) smoke" where
  "smoke_job C send polls first =
     after (request_value C send ''POST'' (''/api/v1/incidents/'' @ py_str first @ ''/analysis/jobs'') VNone) (\<lambda>queued.
     after (item queued ''id'') (\<lambda>job_id.
     after (await_job C send (''/api/v1/jobs/'' @ py_str job_id) polls None) (\<lambda>job.
     after (item job ''status'') (\<lambda>status.
     after (assert_that (status = VStr ''succeeded'')) (\<lambda>_.
     after (item job ''result'') (\<lambda>result.
     after (item result ''incident_id'') (\<lambda>i.
     after (assert_that (i = first)) (\<lambda>_. say ''persisted analysis job completed by worker''))))))))"

definition smoke_reports :: "client \<Rightarrow> 's transport \<Rightarrow> pyval \<Rightarrow> ('s, unit) smoke" where
  "smoke_reports C send first =
     after (request_value C send ''POST'' (''/api/v1/incidents/'' @ py_str first @ ''/archive'') VNone) (\<lambda>archive.
     after (item archive ''key'') (\<lambda>key.
     after (assert_that (truthy key)) (\<lambda>_.
     after (say ''compressed redacted log archival'') (\<lambda>_.
     after (request_value C send ''GET'' ''/api/v1/search?q=checkout'' VNone) (\<lambda>search.
     after (item search ''items'') (\<lambda>items.
     after (assert_that (truthy items)) (\<lambda>_.
     after (item search ''mode'') (\<lambda>mode.
     after (say (''incident search ('' @ py_str mode @ '')'')) (\<lambda>_.
     after (send_request C send ''GET'' ''/metrics'' (cl_key C) VNone) (\<lambda>metrics.
     after (assert_that (contains ''incident_ai_http_requests_total'' (snd metrics))) (\<lambda>_.
     after (assert_that (contains ''incident_ai_http_request_duration_seconds_bucket'' (snd metrics))) (\<lambda>_.
       say ''Prometheus request and latency metrics''))))))))))))"

definition first_created :: "('s, pyval) smoke" where
  "first_created = (\<lambda>((s, created), checked).
     (case created of [] \<Rightarrow> Inl BadAnswer | i # _ \<Rightarrow> Inr i, (s, created), checked))"

definition smoke_checks :: "client \<Rightarrow> 's transport \<Rightarrow> (str \<Rightarrow> pyval) \<Rightarrow> (str \<Rightarrow> str) \<Rightarrow> nat \<Rightarrow> ('s, unit) smoke" where
  "smoke_checks C send example salt polls =
     after (for_each (smoke_ingestion C send example salt) [''grafana'', ''sentry'', ''cloudwatch'', ''zabbix'']) (\<lambda>_.
     after first_created (\<lambda>first.
     after (smoke_job C send polls first) (\<lambda>_. smoke_reports C send first)))"

text \<open>The deletions of the \<open>finally\<close>, up to the first that is refused.\<close>

definition smoke_cleanup :: "client \<Rightarrow> 's transport \<Rightarrow> ('s, unit) smoke" where
  "smoke_cleanup C send = (\<lambda>((s, created), checked).
     after (for_each (\<lambda>i. request_ok C send ''DELETE'' (''/api/v1/incidents/'' @ py_str i) VNone) created) (\<lambda>_. give ())
       ((s, created), checked))"

text \<open>What is printed last.\<close>

definition smoke_summary :: "('s, pyval) smoke" where
  "smoke_summary = (\<lambda>(s, checked).
     (Inr (VDict [(''status'', VStr ''passed''), (''checks'', VList (map VStr checked))]), s, checked))"

definition smoke_main :: "client \<Rightarrow> 's transport \<Rightarrow> (str \<Rightarrow> pyval) \<Rightarrow> (str \<Rightarrow> str) \<Rightarrow> nat \<Rightarrow> ('s, pyval) smoke" where
  "smoke_main C send example salt polls =
     after (smoke_operations C send) (\<lambda>_.
     after (smoke_authentication C send) (\<lambda>_.
     after (try_finally (smoke_checks C send example salt polls) (smoke_cleanup C send)) (\<lambda>_. smoke_summary)))"

subsection \<open>It cleans up\<close>

text \<open>\<open>gone i\<close> is what a successful deletion of \<open>i\<close> establishes, and no other deletion undoes.\<close>

definition deletions_stay :: "client \<Rightarrow> 's transport \<Rightarrow> (pyval \<Rightarrow> 's \<Rightarrow> bool) \<Rightarrow> bool" where
  "deletions_stay C send gone = (\<forall>i s r s' created checked.
     request_ok C send ''DELETE'' (''/api/v1/incidents/'' @ py_str i) VNone ((s, created), checked) = (r, s') \<longrightarrow>
       (\<forall>j. gone j s \<longrightarrow> gone j (fst (fst s'))) \<and> (is_ok r \<longrightarrow> gone i (fst (fst s'))))"

text \<open>A program that adds nothing to \<open>created\<close>.\<close>

definition adds_none :: "('s, 'a) smoke \<Rightarrow> bool" where
  "adds_none m = (\<forall>s. snd (fst (snd (m s))) = snd (fst s))"

lemma adds_none_basic:
  "adds_none (give x)" "adds_none (stop_with e)" "adds_none (say line)" "adds_none (send_request C send meth path key json)"
  by (auto simp: adds_none_def say_def send_request_def Let_def split: prod.splits)

lemma adds_none_after: "adds_none m \<Longrightarrow> (\<And>x. adds_none (f x)) \<Longrightarrow> adds_none (after m f)"
  by (simp add: adds_none_def after_def split: prod.splits sum.splits) (metis fst_conv snd_conv)

lemma adds_none_each: "(\<And>x. adds_none (g x)) \<Longrightarrow> adds_none (for_each g xs)"
  by (induction xs) (simp_all add: adds_none_basic adds_none_after)

lemma adds_none_checks:
  "adds_none (raise_for_status a)" "adds_none (response_json C a)" "adds_none (assert_that b)" "adds_none (item v k)"
  by (auto simp: raise_for_status_def response_json_def assert_that_def item_def adds_none_basic split: option.split pyval.split)

lemmas adds_none_rules = adds_none_basic adds_none_after adds_none_each adds_none_checks

lemma adds_none_request: "adds_none (request_ok C send meth path json)"
  unfolding request_ok_def by (intro adds_none_rules)

lemma adds_none_smoke: "adds_none (smoke_operations C send)" "adds_none (smoke_authentication C send)"
  unfolding smoke_operations_def smoke_authentication_def by (intro adds_none_rules adds_none_request)+

lemma adds_none_run: "adds_none m \<Longrightarrow> m ((s, created), checked) = (r, ((s', created'), checked')) \<Longrightarrow> created' = created"
  unfolding adds_none_def by (metis fst_conv snd_conv)

text \<open>A request that has to succeed fails with an exception of the HTTP client only.\<close>

definition http_stop :: "stop \<Rightarrow> bool" where
  "http_stop e = (case e of HTTPStatusError _ \<Rightarrow> True | ConnectError _ \<Rightarrow> True | _ \<Rightarrow> False)"

lemma request_ok_stops: "request_ok C send meth path json s = (Inl e, s') \<Longrightarrow> http_stop e"
  by (auto simp: request_ok_def after_def raise_for_status_def send_request_def http_stop_def Let_def
      split: prod.splits sum.splits answered.splits if_splits)

lemma deletions_run:
  assumes "deletions_stay C send gone"
    and "for_each (\<lambda>i. request_ok C send ''DELETE'' (''/api/v1/incidents/'' @ py_str i) VNone) is0 ((s, created), checked) =
      (r, ((s', created'), checked'))"
  shows "created' = created" and "gone j s \<Longrightarrow> gone j s'" and "is_ok r \<Longrightarrow> i \<in> set is0 \<Longrightarrow> gone i s'"
    and "r = Inl e \<Longrightarrow> http_stop e"
proof -
  have "created' = created \<and> (\<forall>j. gone j s \<longrightarrow> gone j s') \<and> (is_ok r \<longrightarrow> (\<forall>i \<in> set is0. gone i s')) \<and> (\<forall>e. r = Inl e \<longrightarrow> http_stop e)"
    using assms(2)
  proof (induction is0 arbitrary: s checked r)
    case (Cons i is0)
    let ?del = "\<lambda>i. request_ok C send ''DELETE'' (''/api/v1/incidents/'' @ py_str i) VNone"
    obtain r1 s1 c1 k1 where first: "?del i ((s, created), checked) = (r1, ((s1, c1), k1))" by (metis prod.exhaust)
    have c1: "c1 = created" using adds_none_run[OF adds_none_request first] .
    have stay: "\<forall>j. gone j s \<longrightarrow> gone j s1" "is_ok r1 \<longrightarrow> gone i s1"
      using assms(1) first unfolding deletions_stay_def by fastforce+
    show ?case
    proof (cases r1)
      case (Inl e)
      with Cons.prems first c1 stay request_ok_stops[of C send _ _ VNone _ e] show ?thesis
        by (auto simp: after_def is_ok_def)
    next
      case (Inr a)
      obtain r2 s2 c2 k2 where others: "for_each ?del is0 ((s1, created), k1) = (r2, ((s2, c2), k2))" by (metis prod.exhaust)
      have "c2 = created'" "s2 = s'" "is_ok r = is_ok r2" "\<forall>e. r = Inl e \<longrightarrow> r2 = Inl e"
        using Cons.prems first Inr c1 others by (cases r2; auto simp: after_def is_ok_def)+
      with Cons.IH[of s1 k1 r2] others stay Inr show ?thesis
        using Cons.prems first c1 by (cases r2) (auto simp: after_def is_ok_def)
    qed
  qed (auto simp: is_ok_def)
  then show "created' = created" and "gone j s \<Longrightarrow> gone j s'" and "is_ok r \<Longrightarrow> i \<in> set is0 \<Longrightarrow> gone i s'"
    and "r = Inl e \<Longrightarrow> http_stop e" by blast+
qed

text \<open>However the checks end, the incidents they created are gone, unless a deletion was refused: then it is this
  exception that the program ends with, and the deletions after it were not tried.\<close>

lemma smoke_cleans_up:
  assumes "deletions_stay C send gone"
    and "smoke_main C send example salt polls ((s, []), []) = (r, ((s', created), checked))"
  shows "(\<forall>i \<in> set created. gone i s') \<or> (\<exists>e. r = Inl e \<and> http_stop e)"
proof -
  obtain r1 s1 c1 k1 where ops: "smoke_operations C send ((s, []), []) = (r1, ((s1, c1), k1))" by (metis prod.exhaust)
  have c1: "c1 = []" using adds_none_run[OF adds_none_smoke(1) ops] .
  obtain r2 s2 c2 k2 where auth: "smoke_authentication C send ((s1, []), k1) = (r2, ((s2, c2), k2))" by (metis prod.exhaust)
  have c2: "c2 = []" using adds_none_run[OF adds_none_smoke(2) auth] .
  show ?thesis
  proof (cases "is_ok r1 \<and> is_ok r2")
    case False
    then have "created = []" using assms(2) ops auth c1 c2
      by (cases r1; cases r2) (auto simp: smoke_main_def after_def is_ok_def)
    then show ?thesis by simp
  next
    case True
    obtain r3 s3 c3 k3 where checks: "smoke_checks C send example salt polls ((s2, []), k2) = (r3, ((s3, c3), k3))"
      by (metis prod.exhaust)
    obtain r4 s4 c4 k4 where dels: "for_each (\<lambda>i. request_ok C send ''DELETE'' (''/api/v1/incidents/'' @ py_str i) VNone) c3
        ((s3, c3), k3) = (r4, ((s4, c4), k4))" by (metis prod.exhaust)
    note run = deletions_run[OF assms(1) dels]
    have main: "smoke_main C send example salt polls ((s, []), []) =
        after (try_finally (smoke_checks C send example salt polls) (smoke_cleanup C send)) (\<lambda>_. smoke_summary) ((s2, []), k2)"
      using True ops auth c1 c2 by (cases r1; cases r2) (auto simp: smoke_main_def after_def is_ok_def)
    show ?thesis
    proof (cases r4)
      case (Inl e)
      then have "r = Inl e" using assms(2) checks dels by (simp add: main after_def try_finally_def smoke_cleanup_def)
      with run(4)[OF Inl] show ?thesis by blast
    next
      case (Inr ys)
      then have "s' = s4 \<and> created = c4" using assms(2) checks dels
        by (cases r3) (auto simp: main after_def try_finally_def smoke_cleanup_def smoke_summary_def)
      with run(1,3) Inr show ?thesis by (auto simp: is_ok_def)
    qed
  qed
qed

end
