(* ===== verification/Spec2Isabelle.thy ===== *)
theory Spec2Isabelle
  imports Prelude PyText Regex Redaction PyValues Sha256 Errors Config Security Middleware PyTime Json Models Session
    Store Schemas Sources Incidents Reporting Http_Client Network Prompt Prose Llm Providers Analyses Postmortems
    Markdown Exporters Notifiers Fan_Out Archival Jobs Search Routes Api Service Deliveries Growth Export_Once
    Deletions Export_Lock Redelivery Migration Telemetry Application Http_Service Worker Startup Timestamps
    Redis_Limiter Plain_Text Demo_Client Demo_Texts Demo_Run Demo_Cases Demo_World Demo_Secrets Http_Wire Demo_Inbox
    Demo_Service Demo_Triage Demo_Verified Smoke_Client
begin

text \<open>
  Verification development of the Incident AI backend: a FastAPI service that receives alerts by webhook, groups them
  into incidents, has a language model analyse them, and drafts postmortems, notifies, exports and archives.

  \<^bold>\<open>How the program works, and where each part is modelled.\<close> Paths are relative to
  \<open>src/app\<close> unless they start with another directory.

  An HTTP request enters \<open>main.py\<close>. Behind the CORS middleware, which answers preflight requests itself,
  the middleware of the service (\<open>core/middleware.py\<close>) gives it a correlation identifier, limits the rate
  per client and the size of the body; the router finds the endpoint, its guard (\<open>core/security.py\<close>)
  checks the credentials, the path, query and body are decoded (\<open>schemas/api.py\<close>), and a handler of
  \<open>api/routes.py\<close> runs in a database session of its own (\<open>repository/database.py\<close>) on the
  tables of \<open>repository/models.py\<close>. What it raises becomes an error envelope
  (\<open>core/errors.py\<close>). Handlers call the domain (\<open>domain\<close>), which calls the model clients
  (\<open>ai/client.py\<close>, behind the privacy filter \<open>ai/redaction.py\<close>) and the integrations
  (\<open>integrations\<close>). They leave background tasks, notifications and analysis jobs, which run in the
  process or in the Celery worker (\<open>worker.py\<close>).

  \<^item> \<open>Prelude\<close>, \<open>PyText\<close>, \<open>PyTime\<close>, \<open>PyValues\<close>,
    \<open>Json\<close>, \<open>Regex\<close>, \<open>Sha256\<close>: what the program uses of Python. Text is a list
    of the 256 characters of Latin-1, time is microseconds since the epoch, a value of unknown shape is a
    \<open>pyval\<close>; \<open>json.dumps\<close> and \<open>json.loads\<close> are functions with a proved round
    trip; \<open>re\<close> is a backtracking matcher proved correct against a relational semantics; SHA-256 works on
    32-bit words.
  \<^item> \<open>Redaction\<close>, \<open>Prose\<close>, \<open>Plain_Text\<close>: \<open>redact\<close> and
    \<open>redact_value\<close>, all twelve patterns, and texts they leave alone.
  \<^item> \<open>Errors\<close>, \<open>Config\<close>, \<open>Security\<close>, \<open>Middleware\<close>,
    \<open>Redis_Limiter\<close>, \<open>Telemetry\<close>: \<open>core\<close>. The exceptions are one datatype,
    fallible code returns a sum. The state of the middleware is its limiter and the counters of
    \<open>Metrics\<close>.
  \<^item> \<open>Models\<close>, \<open>Timestamps\<close>, \<open>Session\<close>, \<open>Store\<close>,
    \<open>Migration\<close>: \<open>repository\<close> and \<open>src/migrations\<close>. A row is a record, a
    database a record of lists of rows, a \<open>world\<close> what is committed, what the session sees, and the
    supplies of identifiers and times. An action takes a world to a result and a world; \<open>get_session\<close>
    rolls back what was not committed. The migration is a list of operations on a schema.
  \<^item> \<open>Schemas\<close>, \<open>Sources\<close>: the request and response models with their validators, and
    the five alert adapters.
  \<^item> \<open>Incidents\<close>, \<open>Reporting\<close>, \<open>Analyses\<close>, \<open>Postmortems\<close>,
    \<open>Jobs\<close>, \<open>Search\<close>: \<open>domain\<close>.
  \<^item> \<open>Prompt\<close>, \<open>Llm\<close>, \<open>Providers\<close>: \<open>ai/client.py\<close>, from the
    bounded prompt to the validated result and the fallback.
  \<^item> \<open>Network\<close>, \<open>Http_Client\<close>, \<open>Markdown\<close>, \<open>Exporters\<close>,
    \<open>Notifiers\<close>, \<open>Fan_Out\<close>, \<open>Archival\<close>: \<open>integrations\<close>.
    \<open>Notifiers\<close> reads the gathered sends of a notification in order; \<open>Fan_Out\<close> lets them
    interleave, with the semaphore of the pushes, and proves that this makes no difference to what is sent.
  \<^item> \<open>Routes\<close>, \<open>Api\<close>: every handler of \<open>api/routes.py\<close>, the requests as
    one datatype, and the step relation of the service: requests, background tasks, jobs of any worker at any time,
    restarts. \<open>Service\<close>, \<open>Deliveries\<close>, \<open>Growth\<close>, \<open>Export_Once\<close>,
    \<open>Deletions\<close> and \<open>Redelivery\<close> hold what follows for the service as a whole;
    \<open>Export_Lock\<close> interleaves the exports of many clients with deletions and all else, also those whose
    request to the tracker ends without an answer.
  \<^item> \<open>Application\<close>, \<open>Http_Service\<close>, \<open>Startup\<close>, \<open>Worker\<close>:
    \<open>main.py\<close>, the start of the application, and \<open>worker.py\<close>. \<open>handle_http\<close> is
    a request behind CORS, \<open>answer_http\<close> the whole path. The queue of the worker is a step relation with
    deaths of workers, repeated deliveries and the two time limits of a task.
  \<^item> \<open>Demo_Client\<close>, \<open>Smoke_Client\<close>: \<open>src/scripts/demo.py\<close> and
    \<open>src/scripts/smoke_runtime.py\<close> as programs over a transport. \<open>Http_Wire\<close> is the
    application as such a transport. \<open>Demo_Inbox\<close> and \<open>Demo_Triage\<close> have the interfaces the
    first script relies on and what it does with any service that has them; \<open>Demo_Texts\<close>,
    \<open>Demo_Run\<close>, \<open>Demo_Cases\<close>, \<open>Demo_World\<close>, \<open>Demo_Secrets\<close> and
    \<open>Demo_Service\<close> follow its requests through the adapter, the filter, the database and HTTP, and
    \<open>Demo_Verified\<close> puts both together.

  \<^bold>\<open>What is proved.\<close> The state: every reachable database satisfies the invariant
  \<open>world_ok\<close> (unique keys, children have their incident, lifecycle data fit the status), and HTTP
  requests only lead from reachable states to reachable states. Errors: a request that fails stores nothing, every
  error of the service leaves it in the same envelope, and a request without credentials has no effect. Requests:
  ingestion, notification and repetition of webhook deliveries, updates, deletions, pages, search, and exports that
  happen once, also when many ask at the same time. Jobs: all or nothing, none lost unless a time limit ends it and
  none analysed twice by a worker that is alone with its jobs. The models: results are validated, outages of either
  provider fall back, prompts fit their bound, decode, and hide secrets. The integrations: requests end within their
  attempts, documents read back to the text they came from, archives read back to the logs, tokens are fresh, and
  every destination of a notification gets its request. The middleware: the limiter in memory is the specification
  with full history, the one in Redis admits less than twice the limit in a minute, no body over the limit reaches a
  route. Operation: the migration and the classes agree, the start-up makes the service ready, log lines cannot be
  forged, traces hide device tokens. From end to end: the ingestion, triage and recovery of the demonstration script
  succeed against the application, on every run, with either database and either rate limiter, and the checks of the
  other script delete what they created. Some theorems show weaknesses, which the code has: a queue outage in the
  middle of a webhook loses notifications, a failing execution overwrites the success of another, a malformed answer
  of a model escapes the fallback, the time limit of a task leaves a job without a message, a timestamp at the edge of
  the calendar overflows, the demonstration script fails a month after its first run.

  \<^bold>\<open>How the proofs are organised.\<close> Interfaces are locales: tables of rows, sessions that keep an
  invariant, facts that added rows keep, clients of a model, exporters, senders, and what the demonstration script
  relies on. Each is interpreted on the definitions of the program, and the properties rest on the interpretations.

  \<^bold>\<open>Bounds and termination.\<close> All definitions are total functions. The matcher of regular
  expressions recurses on a measure of the pattern and the remaining text; repetition steps that consume nothing stop,
  as in Python. The JSON reader has twice the length of the text as its fuel, which is proved enough for what
  \<open>dumps\<close> writes. The loop of the HTTP client is bounded by its attempts.

  \<^bold>\<open>Parameters.\<close> What the network answers, how JSON bytes and floats are read, PyJWT, gzip, boto3
  and the file system, the distance of PostgreSQL, rounding of doubles, the clock and the identifiers, whether the
  broker accepts a job, what other sessions commit meanwhile, how the framework matches paths, decodes a body and
  renders an answer, what the CORS middleware answers to a preflight request and adds to other answers, a Redis server
  with the laws of its two commands, and the dialect of a database address. The hypotheses about them are named in
  each property, and hold in its witness.

  \<^bold>\<open>Not modelled.\<close> \<open>src/migrations/env.py\<close> only configures Alembic; what
  OpenTelemetry does with its options belongs to it. The reports of the demonstration script (analysis, postmortem,
  exports) are modelled but not run against the application: the length of a postmortem that is redacted again has no
  bound that its schema would accept in every state. The command line arguments of the scripts are parameters, and the
  package files are empty. Row locks have no model, except for the lock of an export: the effects of other sessions
  enter as parameters at the points where they matter. The widths of columns are not enforced, as in SQLite. Log
  records are modelled where they are formatted, not where they are written.
\<close>

end
